(* ===== verification/Prelude.thy ===== *)
theory Prelude
  imports Main "HOL-Library.Word" "HOL-Library.Monad_Syntax" "HOL-Library.Multiset"
begin

text \<open>
  Shared vocabulary of the development: RTEMS status codes, pointers, the C allocator, bounded
  array accesses, the list loops that several components repeat, and the generic lemmas on maps
  and sums that the component proofs use.

  Conventions. A pointer is an address option, with \<open>None\<close> for NULL. A block of the heap
  that holds a struct is an entry of a partial map from addresses to records. An operation whose
  source dereferences a pointer has a result of an option type: \<open>None\<close> is undefined
  behaviour (a NULL or dangling dereference, an index outside an array, a division by zero), so a
  theorem that an operation yields \<open>Some\<close> is a memory-safety theorem. Signed C integers
  whose overflow would be undefined are mathematical integers; unsigned ones are words.
\<close>

unbundle bit_operations_syntax

named_theorems alloc_simps \<open>rewriting rules for the allocator model\<close>
named_theorems scan_simps \<open>facts on the array scan loops\<close>
named_theorems own_simps \<open>how heap updates change the number of owned blocks\<close>

type_synonym addr = nat
type_synonym ptr = "nat option"
type_synonym u32 = "32 word"
type_synonym u64 = "64 word"
type_synonym u16 = "16 word"
type_synonym u8 = "8 word"

section \<open>Words\<close>

lemma unat_bound: "unat (x :: 'a::len word) < 2 ^ LENGTH('a)"
  by (rule unsigned_less)

lemma unat_ucast_up:
  fixes x :: "'a::len word"
  assumes "LENGTH('a) \<le> LENGTH('b::len)"
  shows "unat (ucast x :: 'b word) = unat x"
proof -
  have "unat x < 2 ^ LENGTH('a)" by (rule unat_bound)
  also have "(2 :: nat) ^ LENGTH('a) \<le> 2 ^ LENGTH('b)" using assms by (simp add: power_increasing)
  finally show ?thesis by (simp add: unsigned_ucast_eq take_bit_nat_eq_self)
qed

section \<open>Status codes\<close>

text \<open>The directive status codes of \<open>rtems/rtems/status.h\<close>.\<close>

datatype rtems_status_code =
    RTEMS_SUCCESSFUL | RTEMS_TASK_EXITTED | RTEMS_MP_NOT_CONFIGURED | RTEMS_INVALID_NAME
  | RTEMS_INVALID_ID | RTEMS_TOO_MANY | RTEMS_TIMEOUT | RTEMS_OBJECT_WAS_DELETED
  | RTEMS_INVALID_SIZE | RTEMS_INVALID_ADDRESS | RTEMS_INVALID_NUMBER | RTEMS_NOT_DEFINED
  | RTEMS_RESOURCE_IN_USE | RTEMS_UNSATISFIED | RTEMS_INCORRECT_STATE | RTEMS_ALREADY_SUSPENDED
  | RTEMS_ILLEGAL_ON_SELF | RTEMS_ILLEGAL_ON_REMOTE_OBJECT | RTEMS_CALLED_FROM_ISR
  | RTEMS_INVALID_PRIORITY | RTEMS_INVALID_CLOCK | RTEMS_INVALID_NODE | RTEMS_NOT_CONFIGURED
  | RTEMS_NOT_OWNER_OF_RESOURCE | RTEMS_NOT_IMPLEMENTED | RTEMS_INTERNAL_ERROR
  | RTEMS_NO_MEMORY | RTEMS_IO_ERROR | RTEMS_INTERRUPTED | RTEMS_PROXY_BLOCKING

text \<open>Error numbers of \<open>errno.h\<close> that the components return.\<close>

definition ESRCH :: int where "ESRCH = 3"
definition ENOMEM :: int where "ENOMEM = 12"
definition EINVAL :: int where "EINVAL = 22"

section \<open>The C allocator\<close>

text \<open>
  The allocator numbers its calls. Call number \<open>n\<close> fails exactly when \<open>oom n\<close>,
  which the environment chooses, and otherwise yields the fresh address \<open>n\<close>. The field
  \<open>live\<close> counts the blocks that were handed out and not freed.
\<close>

record Memory =
  brk :: addr
  oom :: "nat \<Rightarrow> bool"
  live :: int

definition malloc :: "Memory \<Rightarrow> ptr \<times> Memory" where
  "malloc m =
     (if oom m (brk m) then (None, m\<lparr>brk := Suc (brk m)\<rparr>)
      else (Some (brk m), m\<lparr>brk := Suc (brk m), live := live m + 1\<rparr>))"

definition free_block :: "Memory \<Rightarrow> Memory" where
  "free_block m = m\<lparr>live := live m - 1\<rparr>"

definition free_blocks :: "nat \<Rightarrow> Memory \<Rightarrow> Memory" where
  "free_blocks n m = m\<lparr>live := live m - int n\<rparr>"

lemma malloc_None [alloc_simps]:
  "malloc m = (None, m') \<longleftrightarrow> oom m (brk m) \<and> m' = m\<lparr>brk := Suc (brk m)\<rparr>"
  by (auto simp: malloc_def)

lemma malloc_Some [alloc_simps]:
  "malloc m = (Some a, m') \<longleftrightarrow>
     \<not> oom m (brk m) \<and> a = brk m \<and> m' = m\<lparr>brk := Suc (brk m), live := live m + 1\<rparr>"
  by (auto simp: malloc_def)

lemma free_block_sel [simp, alloc_simps]:
  "brk (free_block m) = brk m" "oom (free_block m) = oom m" "live (free_block m) = live m - 1"
  by (simp_all add: free_block_def)

lemma free_blocks_sel [simp, alloc_simps]:
  "brk (free_blocks n m) = brk m" "oom (free_blocks n m) = oom m"
  "live (free_blocks n m) = live m - int n"
  by (simp_all add: free_blocks_def)

lemma malloc_oom [simp]: "oom (snd (malloc m)) = oom m"
  by (simp add: malloc_def)

lemma malloc_brk [simp]: "brk (snd (malloc m)) = Suc (brk m)"
  by (simp add: malloc_def)

section \<open>Arrays and scan loops\<close>

text \<open>A store to a C array: outside the bounds it is undefined behaviour.\<close>

definition array_update :: "'a list \<Rightarrow> int \<Rightarrow> 'a \<Rightarrow> 'a list option" where
  "array_update xs i v =
     (if 0 \<le> i \<and> i < int (length xs) then Some (xs[nat i := v]) else None)"

lemma array_update_eq_Some [simp]:
  "array_update xs i v = Some ys \<longleftrightarrow> 0 \<le> i \<and> i < int (length xs) \<and> ys = xs[nat i := v]"
  by (auto simp: array_update_def)

lemma array_update_nat: "array_update xs (int k) v = (if k < length xs then Some (xs[k := v]) else None)"
  by (simp add: array_update_def)

text \<open>
  C strings. A string value is a list of characters without the terminator; a character array is a
  list of its full length. \<open>strncpy\<close> writes exactly \<open>n\<close> characters, padding with
  NUL, and is undefined when the array is shorter.
\<close>

definition NUL :: char where
  "NUL = CHR 0x00"

definition cstr :: "char list \<Rightarrow> string" where
  "cstr buf = takeWhile (\<lambda>c. c \<noteq> NUL) buf"

definition strncpy :: "char list \<Rightarrow> string \<Rightarrow> nat \<Rightarrow> char list option" where
  "strncpy dst src n =
     (if n \<le> length dst then Some (take n src @ replicate (n - length src) NUL @ drop n dst)
      else None)"

lemma length_strncpy: "strncpy dst src n = Some buf \<Longrightarrow> length buf = length dst"
  by (auto simp: strncpy_def split: if_splits)

lemma cstr_append_NUL: "NUL \<notin> set xs \<Longrightarrow> cstr (xs @ NUL # ys) = xs"
  by (induction xs) (auto simp: cstr_def)

lemma cstr_strncpy_set:
  assumes "strncpy dst src n = Some buf" "NUL \<notin> set src" "n < length dst"
  shows "cstr (buf[n := NUL]) = take n src"
proof (cases "length src < n")
  case True
  then have pad: "replicate (n - length src) NUL = NUL # replicate (n - length src - 1) NUL"
    by (cases "n - length src") auto
  from assms True have buf: "buf = (src @ [NUL]) @ replicate (n - length src - 1) NUL @ drop n dst"
    by (simp add: strncpy_def pad split: if_splits)
  have "take (Suc (length src)) (buf[n := NUL]) = take (Suc (length src)) buf"
    using True by simp
  also have "\<dots> = src @ [NUL]" unfolding buf by simp
  finally have "buf[n := NUL] = src @ NUL # drop (Suc (length src)) (buf[n := NUL])"
    by (metis append_take_drop_id append.assoc append_Cons append_Nil)
  then have "cstr (buf[n := NUL]) = src" using cstr_append_NUL [OF assms(2)] by metis
  then show ?thesis using True by simp
next
  case False
  with assms have "buf = take n src @ drop n dst" by (auto simp: strncpy_def split: if_splits)
  moreover have "drop n dst = dst ! n # drop (Suc n) dst" using assms(3) by (simp add: Cons_nth_drop_Suc)
  ultimately have "buf[n := NUL] = take n src @ NUL # drop (Suc n) dst"
    using False by (simp add: list_update_append)
  then show ?thesis using assms(2) by (metis cstr_append_NUL in_set_takeD)
qed

text \<open>A loop that scans an array upwards from an index and stops at the first match.\<close>

fun array_scan :: "('a \<Rightarrow> bool) \<Rightarrow> nat \<Rightarrow> 'a list \<Rightarrow> nat option" where
  "array_scan P i [] = None"
| "array_scan P i (x # xs) = (if P x then Some i else array_scan P (Suc i) xs)"

lemma array_scan_None [scan_simps]: "array_scan P i xs = None \<longleftrightarrow> (\<forall>x \<in> set xs. \<not> P x)"
  by (induction xs arbitrary: i) auto

lemma array_scan_SomeD:
  "array_scan P i xs = Some k \<Longrightarrow>
     i \<le> k \<and> k < i + length xs \<and> P (xs ! (k - i)) \<and> (\<forall>j < k - i. \<not> P (xs ! j))"
proof (induction xs arbitrary: i)
  case Nil
  then show ?case by simp
next
  case (Cons x xs)
  show ?case
  proof (cases "P x")
    case True
    with Cons.prems show ?thesis by simp
  next
    case False
    with Cons.prems have "array_scan P (Suc i) xs = Some k" by simp
    from Cons.IH [OF this] have IH: "Suc i \<le> k" "k < Suc i + length xs" "P (xs ! (k - Suc i))"
      "\<forall>j < k - Suc i. \<not> P (xs ! j)" by auto
    then have k: "k - i = Suc (k - Suc i)" by simp
    from IH(4) False have "\<not> P ((x # xs) ! j)" if "j < Suc (k - Suc i)" for j
      using that by (cases j) auto
    with IH(1-3) show ?thesis by (simp add: k)
  qed
qed

lemma array_scan_fromD:
  assumes "array_scan P i (drop i xs) = Some k"
  shows "i \<le> k \<and> k < length xs \<and> P (xs ! k) \<and> (\<forall>j. i \<le> j \<and> j < k \<longrightarrow> \<not> P (xs ! j))"
proof -
  from array_scan_SomeD [OF assms] have k: "i \<le> k" "k < i + length (drop i xs)"
    and P: "P (drop i xs ! (k - i))" and first: "\<forall>j < k - i. \<not> P (drop i xs ! j)" by auto
  from k have len: "k < length xs" by (simp split: nat_diff_split)
  have "\<not> P (xs ! j)" if "i \<le> j \<and> j < k" for j
  proof -
    from that len have "drop i xs ! (j - i) = xs ! j" by simp
    with first that show ?thesis by (metis diff_less_mono)
  qed
  with k len P show ?thesis by auto
qed

text \<open>Insertion into an ascending singly linked list, in front of the first element not smaller.\<close>

fun insert_asc :: "int \<Rightarrow> int list \<Rightarrow> int list" where
  "insert_asc v [] = [v]"
| "insert_asc v (x # xs) = (if x < v then x # insert_asc v xs else v # x # xs)"

lemma set_insert_asc [simp]: "set (insert_asc v xs) = insert v (set xs)"
  by (induction xs) auto

lemma length_insert_asc [simp]: "length (insert_asc v xs) = Suc (length xs)"
  by (induction xs) auto

lemma sorted_insert_asc:
  "sorted_wrt (<) xs \<Longrightarrow> v \<notin> set xs \<Longrightarrow> sorted_wrt (<) (insert_asc v xs)"
  by (induction xs) (auto simp: order_less_le)

text \<open>Unlinking the first node of an element frees exactly one node.\<close>

lemma int_length_remove1 [simp]:
  "x \<in> set xs \<Longrightarrow> int (length (remove1 x xs)) = int (length xs) - 1"
  by (induction xs) auto

section \<open>Heaps of structs and what they own\<close>

text \<open>The blocks a heap of structs owns, when a struct \<open>x\<close> owns \<open>f x\<close> blocks.\<close>

definition owned :: "('a \<Rightarrow> 'b::ab_group_add) \<Rightarrow> (addr \<rightharpoonup> 'a) \<Rightarrow> 'b" where
  "owned f h = (\<Sum>a\<in>dom h. f (the (h a)))"

lemma owned_empty [simp]: "owned f Map.empty = 0"
  by (simp add: owned_def)

lemma owned_new [own_simps]:
  "finite (dom h) \<Longrightarrow> h a = None \<Longrightarrow> owned f (h(a \<mapsto> x)) = owned f h + f x"
  by (auto simp: owned_def domIff intro!: sum.cong)

lemma owned_remove [own_simps]:
  assumes "finite (dom h)" "h a = Some x"
  shows "owned f (h(a := None)) = owned f h - f x"
proof -
  have "owned f h = f (the (h a)) + (\<Sum>b\<in>dom h - {a}. f (the (h b)))"
    unfolding owned_def using assms by (intro sum.remove) auto
  moreover have "owned f (h(a := None)) = (\<Sum>b\<in>dom h - {a}. f (the (h b)))"
    unfolding owned_def by (intro sum.cong) auto
  ultimately show ?thesis using assms by simp
qed

lemma owned_update [own_simps]:
  assumes "finite (dom h)" "h a = Some x"
  shows "owned f (h(a \<mapsto> y)) = owned f h - f x + f y"
proof -
  have "h(a \<mapsto> y) = (h(a := None))(a \<mapsto> y)" by simp
  then have "owned f (h(a \<mapsto> y)) = owned f (h(a := None)) + f y"
    using assms by (metis fun_upd_same finite_Diff dom_fun_upd owned_new)
  with owned_remove [OF assms] show ?thesis by simp
qed

lemma owned_map:
  assumes "\<And>x. f (k x) = f x"
  shows "owned f (\<lambda>a. if P a then map_option k (h a) else h a) = owned f h"
proof -
  have d: "dom (\<lambda>a. if P a then map_option k (h a) else h a) = dom h" by (auto split: if_splits)
  show ?thesis unfolding owned_def d by (rule sum.cong) (auto simp: assms)
qed

text \<open>Addresses of a heap lie below the allocator's next address, so a new block is fresh.\<close>

definition heap_ok :: "Memory \<Rightarrow> (addr \<rightharpoonup> 'a) \<Rightarrow> bool" where
  "heap_ok m h \<longleftrightarrow> finite (dom h) \<and> (\<forall>a x. h a = Some x \<longrightarrow> a < brk m)"

lemma heap_ok_fresh: "heap_ok m h \<Longrightarrow> h (brk m) = None"
  by (cases "h (brk m)") (auto simp: heap_ok_def)

lemma heap_ok_finite: "heap_ok m h \<Longrightarrow> finite (dom h)"
  by (simp add: heap_ok_def)

lemma heap_ok_mono: "heap_ok m h \<Longrightarrow> brk m \<le> brk m' \<Longrightarrow> heap_ok m' h"
  by (fastforce simp: heap_ok_def)

lemma heap_ok_update: "heap_ok m h \<Longrightarrow> h a = Some x \<Longrightarrow> heap_ok m (h(a \<mapsto> y))"
  by (auto simp: heap_ok_def)

lemma heap_ok_remove: "heap_ok m h \<Longrightarrow> heap_ok m (h(a := None))"
  by (auto simp: heap_ok_def)

lemma heap_ok_new: "heap_ok m h \<Longrightarrow> brk m < brk m' \<Longrightarrow> heap_ok m' (h(brk m \<mapsto> x))"
  by (fastforce simp: heap_ok_def)

lemmas heap_ok_intros = heap_ok_update heap_ok_remove heap_ok_new

end
