(* ===== verification/Kernel.thy ===== *)
theory Kernel
  imports Prelude
begin

text \<open>
  The part of the kernel that all namespace containers share: the build options, the
  \<open>Container\<close> struct of \<open>score/container.h\<close>, the fields of a thread control block
  that container code reads and writes, and the task iterator. A namespace component extends the
  record \<open>kernel\<close> by its own heap and counters, so an operation of one namespace is typed on
  every state that has at least its fields.

  A \<open>Container\<close> block of a thread is allocated by task construction and referenced by that
  thread only, so it is embedded in the thread control block; the root \<open>Container\<close> is a
  static object (\<open>rootContainerObj\<close>) that no thread references. A singly linked list of
  \<open>PidContainerNode\<close> (and likewise of the other four node types) is the list of the
  containers its nodes point to; every node is one allocated block.
\<close>

section \<open>Build options\<close>

text \<open>The preprocessor options that select parts of the container code.\<close>

record rtemscfg =
  RTEMSCFG_PID_CONTAINER :: bool
  RTEMSCFG_UTS_CONTAINER :: bool
  RTEMSCFG_MNT_CONTAINER :: bool
  RTEMSCFG_NET_CONTAINER :: bool
  RTEMSCFG_IPC_CONTAINER :: bool
  RTEMS_CGROUP :: bool
  RTEMSCFG_IO_CGROUP :: bool
  RTEMSCFG_CONTAINER_LOG :: bool

section \<open>Containers and threads\<close>

record Container =
  c_rc :: int
  pidContainer :: ptr
  pidContainerList :: "addr list"
  utsContainer :: ptr
  utsContainerList :: "addr list"
  mntContainer :: ptr
  mntContainerList :: "addr list"
  netContainer :: ptr
  netContainerList :: "addr list"
  ipcContainer :: ptr
  ipcContainerList :: "addr list"

text \<open>The block that \<open>calloc\<close> or \<open>memset\<close> to zero produces.\<close>

definition Container_zero :: Container where
  "Container_zero = \<lparr>c_rc = 0, pidContainer = None, pidContainerList = [],
     utsContainer = None, utsContainerList = [], mntContainer = None, mntContainerList = [],
     netContainer = None, netContainerList = [], ipcContainer = None, ipcContainerList = []\<rparr>"

record Thread_Control =
  Object_id :: u32
  container :: "Container option"
  cgroup :: "(addr \<times> nat) option"
  last_cpu_start_timestamp :: u64
  is_added_to_cgroup :: bool
  current_state :: u32

record kernel =
  cfg :: rtemscfg
  mem :: Memory
  rootContainer :: "Container option"
  threads :: "addr \<rightharpoonup> Thread_Control"
  thread_table :: "addr list"
  executing :: ptr

definition rtems_container_get_root :: "'a kernel_scheme \<Rightarrow> Container option" where
  "rtems_container_get_root s = rootContainer s"

text \<open>Stores through the root pointer and through \<open>thread->container\<close>.\<close>

definition upd_root :: "(Container \<Rightarrow> Container) \<Rightarrow> 'a kernel_scheme \<Rightarrow> 'a kernel_scheme" where
  "upd_root f s = s\<lparr>rootContainer := map_option f (rootContainer s)\<rparr>"

definition upd_thread ::
  "addr \<Rightarrow> (Thread_Control \<Rightarrow> Thread_Control) \<Rightarrow> 'a kernel_scheme \<Rightarrow> 'a kernel_scheme" where
  "upd_thread t f s = s\<lparr>threads := (threads s)(t := map_option f (threads s t))\<rparr>"

definition upd_container :: "(Container \<Rightarrow> Container) \<Rightarrow> Thread_Control \<Rightarrow> Thread_Control" where
  "upd_container f th = th\<lparr>container := map_option f (container th)\<rparr>"

text \<open>The namespace a thread is in: \<open>thread->container->...\<close>, when both pointers are set.\<close>

definition thread_ns :: "(Container \<Rightarrow> ptr) \<Rightarrow> 'a kernel_scheme \<Rightarrow> addr \<Rightarrow> ptr" where
  "thread_ns sel s t = do { th \<leftarrow> threads s t; c \<leftarrow> container th; sel c }"

lemma upd_thread_sel [simp]:
  "mem (upd_thread t f s) = mem s" "rootContainer (upd_thread t f s) = rootContainer s"
  "cfg (upd_thread t f s) = cfg s" "executing (upd_thread t f s) = executing s"
  "thread_table (upd_thread t f s) = thread_table s"
  "dom (threads (upd_thread t f s)) = dom (threads s)"
  "kernel.more (upd_thread t f s) = kernel.more s"
  by (auto simp: upd_thread_def)

text \<open>Storing into one namespace pointer of a thread.\<close>

lemma thread_ns_set:
  assumes "thread_ns sel s t = Some a" "\<And>c. sel (f c) = p"
  shows "thread_ns sel (upd_thread t (upd_container f) s) = (thread_ns sel s)(t := p)"
  using assms by (auto simp: thread_ns_def upd_thread_def upd_container_def fun_eq_iff bind_eq_Some_conv)

lemma thread_ns_frame:
  assumes "\<And>c. sel (f c) = sel c"
  shows "thread_ns sel (upd_thread t (upd_container f) s) = thread_ns sel s"
proof
  fix u
  show "thread_ns sel (upd_thread t (upd_container f) s) u = thread_ns sel s u"
    using assms by (cases "threads s u"; cases "container (the (threads s u))")
      (auto simp: thread_ns_def upd_thread_def upd_container_def)
qed

text \<open>The object table and the per-CPU executing pointer refer to live threads.\<close>

definition threads_ok :: "'a kernel_scheme \<Rightarrow> bool" where
  "threads_ok s \<longleftrightarrow> set (thread_table s) \<subseteq> dom (threads s) \<and>
     (\<forall>t. executing s = Some t \<longrightarrow> t \<in> dom (threads s))"

text \<open>With logging compiled in, the arguments of a log call are evaluated: reading a field of a
  block that is gone is undefined. Without logging the macro expands to nothing.\<close>

definition log_deref :: "'a kernel_scheme \<Rightarrow> (addr \<rightharpoonup> 'b) \<Rightarrow> ptr list \<Rightarrow> unit option" where
  "log_deref s h ps =
     (if RTEMSCFG_CONTAINER_LOG (cfg s) \<and> (\<exists>p \<in> set ps. \<exists>a. p = Some a \<and> h a = None)
      then None else Some ())"

lemma log_deref_off [simp]: "\<not> RTEMSCFG_CONTAINER_LOG (cfg s) \<Longrightarrow> log_deref s h ps = Some ()"
  by (simp add: log_deref_def)

lemma log_deref_simps [simp]:
  "log_deref s h [] = Some ()" "log_deref s h (None # ps) = log_deref s h ps"
  "h a = Some x \<Longrightarrow> log_deref s h (Some a # ps) = log_deref s h ps"
  by (auto simp: log_deref_def)

section \<open>Task iteration\<close>

text \<open>
  \<open>_Thread_Iterate\<close> visits the object table in order and stops as soon as the visitor
  returns true. A visitor may hit undefined behaviour, so it has an option result.
\<close>

fun Thread_Iterate_loop ::
  "(addr \<Rightarrow> 's \<Rightarrow> (bool \<times> 's) option) \<Rightarrow> addr list \<Rightarrow> 's \<Rightarrow> 's option" where
  "Thread_Iterate_loop visitor [] s = Some s"
| "Thread_Iterate_loop visitor (t # ts) s = do {
     (done, s') \<leftarrow> visitor t s;
     if done then Some s' else Thread_Iterate_loop visitor ts s' }"

definition Thread_Iterate ::
  "(addr \<Rightarrow> 'a kernel_scheme \<Rightarrow> (bool \<times> 'a kernel_scheme) option) \<Rightarrow>
     'a kernel_scheme \<Rightarrow> 'a kernel_scheme option" where
  "Thread_Iterate visitor s = Thread_Iterate_loop visitor (thread_table s) s"

lemma Thread_Iterate_loop_stop:
  assumes "\<And>t s r. visitor t s = Some r \<Longrightarrow> fst r"
  shows "Thread_Iterate_loop visitor ts s =
     (case ts of [] \<Rightarrow> Some s | t # _ \<Rightarrow> map_option snd (visitor t s))"
proof (cases ts)
  case (Cons t us)
  then show ?thesis using assms [of t s] by (cases "visitor t s") auto
qed simp

lemma Thread_Iterate_loop_inv:
  assumes "Thread_Iterate_loop visitor ts s = Some s'" "P s"
    "\<And>t s d s'. t \<in> set ts \<Longrightarrow> visitor t s = Some (d, s') \<Longrightarrow> P s \<Longrightarrow> P s'"
  shows "P s'"
  using assms by (induction ts arbitrary: s) (fastforce simp: bind_eq_Some_conv split: if_splits)+

section \<open>Registry lists\<close>

text \<open>
  Every namespace keeps its non-root containers in a list of the root container, with the same
  three loops: push a new node, unlink the first node of a container, search. \<open>list_push\<close>
  and \<open>list_unlink\<close> are the loops on a list with its allocator.
\<close>

definition list_push :: "addr \<Rightarrow> addr list \<Rightarrow> Memory \<Rightarrow> addr list \<times> Memory" where
  "list_push c l m =
     (case malloc m of (None, m') \<Rightarrow> (l, m') | (Some _, m') \<Rightarrow> (c # l, m'))"

definition list_unlink :: "addr \<Rightarrow> addr list \<Rightarrow> Memory \<Rightarrow> addr list \<times> Memory" where
  "list_unlink c l m = (if c \<in> set l then (remove1 c l, free_block m) else (l, m))"

lemma list_push_live:
  "list_push c l m = (l', m') \<Longrightarrow> live m' - int (length l') = live m - int (length l)"
  by (auto simp: list_push_def malloc_def split: if_splits)

lemma list_unlink_live:
  "list_unlink c l m = (l', m') \<Longrightarrow> live m' - int (length l') = live m - int (length l)"
  by (auto simp: list_unlink_def split: if_splits)

lemma list_push_set:
  "list_push c l m = (l', m') \<Longrightarrow> set l' = (if oom m (brk m) then set l else insert c (set l))"
  by (auto simp: list_push_def malloc_def split: if_splits)

lemma list_push_brk: "list_push c l m = (l', m') \<Longrightarrow> brk m' = Suc (brk m) \<and> oom m' = oom m"
  by (auto simp: list_push_def malloc_def split: if_splits)

lemma list_unlink_brk: "list_unlink c l m = (l', m') \<Longrightarrow> brk m' = brk m \<and> oom m' = oom m"
  by (auto simp: list_unlink_def split: if_splits)

end
