(* ===== verification/Namespace.thy ===== *)
theory Namespace
  imports Kernel
begin

text \<open>
  Interfaces that the namespaces have in common. \<open>ns_registry\<close> is the contract of the list of
  non-root containers that the root \<open>Container\<close> holds; \<open>ns_refcount\<close> is the contract of
  moving a task between two reference-counted containers. Both are stated over the operations a
  client calls and interpreted on the definitions of each namespace.
\<close>

section \<open>The registry of containers\<close>

locale ns_registry =
  fixes add remove :: "ptr \<Rightarrow> 's \<Rightarrow> 's"
    and registry :: "'s \<Rightarrow> addr list"
    and memory :: "'s \<Rightarrow> Memory"
    and ready :: "'s \<Rightarrow> bool"
  assumes add_null: "add None s = s" and remove_null: "remove None s = s"
    and add_registry: "ready s \<Longrightarrow> (registry (add (Some c) s), memory (add (Some c) s))
        = list_push c (registry s) (memory s)"
    and remove_registry: "ready s \<Longrightarrow> (registry (remove (Some c) s), memory (remove (Some c) s))
        = list_unlink c (registry s) (memory s)"
    and add_ready: "ready s \<Longrightarrow> ready (add p s)" and remove_ready: "ready s \<Longrightarrow> ready (remove p s)"
begin

text \<open>Blocks in use beyond the nodes of the list.\<close>

lemma add_accounts:
  "ready s \<Longrightarrow> live (memory (add p s)) - int (length (registry (add p s)))
     = live (memory s) - int (length (registry s))"
  using add_registry [of s "the p"] list_push_live [of "the p" "registry s" "memory s"]
  by (cases p) (auto simp: add_null)

lemma remove_accounts:
  "ready s \<Longrightarrow> live (memory (remove p s)) - int (length (registry (remove p s)))
     = live (memory s) - int (length (registry s))"
  using remove_registry [of s "the p"] list_unlink_live [of "the p" "registry s" "memory s"]
  by (cases p) (auto simp: remove_null)

lemma registry_remove:
  "ready s \<Longrightarrow> registry (remove (Some c) s) = remove1 c (registry s)"
  using remove_registry [of s c] by (auto simp: list_unlink_def remove1_idem split: if_splits)

lemma registry_add:
  "ready s \<Longrightarrow> registry (add (Some c) s) =
     (if oom (memory s) (brk (memory s)) then registry s else c # registry s)"
  using add_registry [of s c] by (auto simp: list_push_def malloc_def split: if_splits)

text \<open>Registering a container and taking it off again gives the list back, and the block of the
  node with it.\<close>

lemma remove_add:
  assumes "ready s" "c \<notin> set (registry s)"
  shows "registry (remove (Some c) (add (Some c) s)) = registry s"
    "live (memory (remove (Some c) (add (Some c) s))) = live (memory s)"
proof -
  have r: "ready (add (Some c) s)" using assms(1) by (rule add_ready)
  show reg: "registry (remove (Some c) (add (Some c) s)) = registry s"
    using registry_remove [OF r] registry_add [OF assms(1)] assms(2) by (simp add: remove1_idem)
  show "live (memory (remove (Some c) (add (Some c) s))) = live (memory s)"
    using add_accounts [OF assms(1), of "Some c"] remove_accounts [OF r, of "Some c"] reg by simp
qed

lemma distinct_add: "ready s \<Longrightarrow> distinct (registry s) \<Longrightarrow> c \<notin> set (registry s) \<Longrightarrow>
    distinct (registry (add (Some c) s))"
  by (simp add: registry_add)

end

text \<open>A registry that can be asked.\<close>

locale ns_registry_query = ns_registry +
  fixes exist :: "ptr \<Rightarrow> 's \<Rightarrow> int" and rootns :: "'s \<Rightarrow> ptr"
  assumes exist_iff: "ready s \<Longrightarrow> exist (Some c) s = (if rootns s = Some c \<or> c \<in> set (registry s) then 1 else 0)"
    and add_root: "ready s \<Longrightarrow> rootns (add p s) = rootns s"
    and remove_root: "ready s \<Longrightarrow> rootns (remove p s) = rootns s"
begin

lemma exist_after_add:
  "ready s \<Longrightarrow> \<not> oom (memory s) (brk (memory s)) \<Longrightarrow> exist (Some c) (add (Some c) s) = 1"
  by (simp add: exist_iff add_ready registry_add)

lemma exist_after_remove:
  "ready s \<Longrightarrow> distinct (registry s) \<Longrightarrow> rootns s \<noteq> Some c \<Longrightarrow> exist (Some c) (remove (Some c) s) = 0"
  by (simp add: exist_iff remove_ready registry_remove remove_root)

lemma exist_other:
  "ready s \<Longrightarrow> d \<noteq> c \<Longrightarrow> exist (Some d) (remove (Some c) s) = exist (Some d) s"
  by (simp add: exist_iff remove_ready registry_remove remove_root)

end

section \<open>Moving tasks between reference-counted containers\<close>

text \<open>\<open>ns s t\<close> is the container thread \<open>t\<close> is in, \<open>rc s c\<close> the count of a live
  container; a thread moved away from a container that keeps a reference leaves it alive.\<close>

locale ns_refcount =
  fixes ns :: "'s \<Rightarrow> addr \<Rightarrow> ptr"
    and rc :: "'s \<Rightarrow> addr \<Rightarrow> int option"
    and mv :: "ptr \<Rightarrow> ptr \<Rightarrow> ptr \<Rightarrow> 's \<Rightarrow> 's option"
  assumes mv_member: "ns s t = Some a \<Longrightarrow> rc s a = Some n \<Longrightarrow> rc s b = Some k \<Longrightarrow> a \<noteq> b \<Longrightarrow> 1 < n \<Longrightarrow>
      \<exists>s'. mv (Some a) (Some b) (Some t) s = Some s' \<and>
        ns s' = (ns s)(t := Some b) \<and> rc s' = (rc s)(a \<mapsto> n - 1, b \<mapsto> k + 1)"
begin

text \<open>How much a reference count exceeds the number of the threads of \<open>T\<close> in the container.\<close>

definition excess :: "addr set \<Rightarrow> 's \<Rightarrow> addr \<Rightarrow> int" where
  "excess T s c = the (rc s c) - int (card {t \<in> T. ns s t = Some c})"

lemma card_members_move:
  assumes "finite T" "t \<in> T" "ns s t = Some a" "a \<noteq> b" "ns s' = (ns s)(t := Some b)"
  shows "int (card {u \<in> T. ns s' u = Some a}) = int (card {u \<in> T. ns s u = Some a}) - 1"
    "int (card {u \<in> T. ns s' u = Some b}) = int (card {u \<in> T. ns s u = Some b}) + 1"
    "c \<noteq> a \<Longrightarrow> c \<noteq> b \<Longrightarrow> card {u \<in> T. ns s' u = Some c} = card {u \<in> T. ns s u = Some c}"
proof -
  have a: "{u \<in> T. ns s' u = Some a} = {u \<in> T. ns s u = Some a} - {t}" using assms by auto
  have ta: "t \<in> {u \<in> T. ns s u = Some a}" using assms by simp
  have fa: "finite {u \<in> T. ns s u = Some a}" using assms(1) by simp
  have "0 < card {u \<in> T. ns s u = Some a}" using ta fa by (auto simp: card_gt_0_iff)
  then show "int (card {u \<in> T. ns s' u = Some a}) = int (card {u \<in> T. ns s u = Some a}) - 1"
    unfolding a using ta fa by (simp add: card_Diff_singleton of_nat_diff)
  have b: "{u \<in> T. ns s' u = Some b} = insert t {u \<in> T. ns s u = Some b}" using assms by auto
  have "t \<notin> {u \<in> T. ns s u = Some b}" "finite {u \<in> T. ns s u = Some b}" using assms by auto
  then show "int (card {u \<in> T. ns s' u = Some b}) = int (card {u \<in> T. ns s u = Some b}) + 1"
    unfolding b by simp
  show "c \<noteq> a \<Longrightarrow> c \<noteq> b \<Longrightarrow> card {u \<in> T. ns s' u = Some c} = card {u \<in> T. ns s u = Some c}"
    using assms(5,3) by (intro arg_cong [of _ _ card]) auto
qed

text \<open>Reference counts follow the membership: a move keeps every container's excess.\<close>

lemma move_keeps_excess:
  assumes "finite T" "t \<in> T" "ns s t = Some a" "rc s a = Some n" "rc s b = Some k" "a \<noteq> b" "1 < n"
  obtains s' where "mv (Some a) (Some b) (Some t) s = Some s'" "ns s' t = Some b"
    "\<And>c. excess T s' c = excess T s c" "\<And>u. u \<noteq> t \<Longrightarrow> ns s' u = ns s u" "dom (rc s') = dom (rc s)"
proof -
  obtain s' where s': "mv (Some a) (Some b) (Some t) s = Some s'" "ns s' = (ns s)(t := Some b)"
    "rc s' = (rc s)(a \<mapsto> n - 1, b \<mapsto> k + 1)" using mv_member [OF assms(3-7)] by blast
  note card = card_members_move [OF assms(1-3,6) s'(2)]
  have "excess T s' c = excess T s c" for c
    using card assms(4-6) by (cases "c = a"; cases "c = b") (simp_all add: excess_def s'(3))
  with s' assms(4,5) that show thesis by auto
qed

text \<open>Entering a container and going back restores pointers and counts.\<close>

lemma move_back:
  assumes "ns s t = Some a" "rc s a = Some n" "rc s b = Some k" "a \<noteq> b" "1 < n" "1 \<le> k"
  obtains s' s'' where "mv (Some a) (Some b) (Some t) s = Some s'"
    "mv (Some b) (Some a) (Some t) s' = Some s''" "ns s'' = ns s" "rc s'' = rc s"
proof -
  obtain s' where s': "mv (Some a) (Some b) (Some t) s = Some s'" "ns s' = (ns s)(t := Some b)"
    "rc s' = (rc s)(a \<mapsto> n - 1, b \<mapsto> k + 1)" using mv_member [OF assms(1-5)] by blast
  have "ns s' t = Some b" "rc s' b = Some (k + 1)" "rc s' a = Some (n - 1)"
    using s' assms by simp_all
  then obtain s'' where s'': "mv (Some b) (Some a) (Some t) s' = Some s''"
    "ns s'' = (ns s')(t := Some a)" "rc s'' = (rc s')(b \<mapsto> k, a \<mapsto> n)"
    using mv_member [of s' t b "k + 1" a "n - 1"] assms by auto
  have "ns s'' = ns s" using s' s'' assms(1) by (simp add: fun_upd_idem)
  moreover have "rc s'' = rc s" using s' s'' assms(2-4) by (auto simp: fun_eq_iff)
  ultimately show thesis using that s'(1) s''(1) by blast
qed

end

end
