(* ===== verification/PidContainer.thy ===== *)
theory PidContainer
  imports Namespace
begin

text \<open>
  The PID namespace, \<open>score/src/pidContainer.c\<close>. A PID container hands out virtual
  process ids: \<open>pidArray\<close> is indexed by the virtual id, \<open>pidCount\<close> is the largest
  id handed out so far and \<open>freeVidList\<close> holds recycled ids in ascending order. The linked
  lists of \<open>VidNode\<close> and \<open>ThreadNode\<close> are lists; each element is one allocated block.

  The theory has the operations in the order of the file, the invariant of one container
  (\<open>pid_wf\<close>) and of the namespace (\<open>pid_inv\<close>) with its preservation, the accounting of
  heap blocks, and the functional behaviour of moving, deleting and looking up tasks.
\<close>

section \<open>Data\<close>

definition RTEMS_MAX_PROCESS_LIMIT :: nat where
  "RTEMS_MAX_PROCESS_LIMIT = 1024"

record ProcessVid =
  vid :: int
  id_of :: u32

record PidContainer =
  pid_rc :: int
  pid_containerID :: int
  freeVidList :: "int list"
  pidArray :: "ProcessVid list"
  threadList :: "addr list"
  pidCount :: int

record ThreadContainerInfo =
  info_containerID :: int
  info_vid_or_id :: int
  info_isRoot :: int

record pid_kernel = kernel +
  pids :: "addr \<rightharpoonup> PidContainer"
  g_pidContainerId :: int

definition ProcessVid_zero :: ProcessVid where
  "ProcessVid_zero = \<lparr>vid = 0, id_of = 0\<rparr>"

text \<open>A freshly initialised container with the given number.\<close>

definition PidContainer_new :: "int \<Rightarrow> PidContainer" where
  "PidContainer_new n = \<lparr>pid_rc = 0, pid_containerID = n, freeVidList = [],
     pidArray = replicate RTEMS_MAX_PROCESS_LIMIT ProcessVid_zero, threadList = [],
     pidCount = 0\<rparr>"

text \<open>Writing a container block together with the allocator state.\<close>

definition pid_store ::
  "addr \<Rightarrow> PidContainer \<Rightarrow> Memory \<Rightarrow> 'a pid_kernel_scheme \<Rightarrow> 'a pid_kernel_scheme" where
  "pid_store c pc m s = s\<lparr>mem := m, pids := (pids s)(c \<mapsto> pc)\<rparr>"

section \<open>Operations\<close>

text \<open>\<open>rtems_pid_container_initialize_root\<close>: the argument is the target of the result
  pointer, \<open>None\<close> when the caller passes NULL.\<close>

definition rtems_pid_container_initialize_root ::
  "bool \<Rightarrow> 'a pid_kernel_scheme \<Rightarrow> int \<times> ptr \<times> 'a pid_kernel_scheme" where
  "rtems_pid_container_initialize_root arg_null s =
     (if arg_null then (-1, None, s)
      else case malloc (mem s) of
        (None, m) \<Rightarrow> (-1, None, s\<lparr>mem := m\<rparr>)
      | (Some a, m) \<Rightarrow>
          (0, Some a, (pid_store a (PidContainer_new (g_pidContainerId s + 1)) m s)
             \<lparr>g_pidContainerId := g_pidContainerId s + 1\<rparr>))"

text \<open>Taking a virtual id: the head of the free list, or the next unused one.\<close>

definition pid_take_vid :: "PidContainer \<Rightarrow> Memory \<Rightarrow> int \<times> PidContainer \<times> Memory" where
  "pid_take_vid pc m =
     (case freeVidList pc of
        v # vs \<Rightarrow> (v, pc\<lparr>freeVidList := vs\<rparr>, free_block m)
      | [] \<Rightarrow> (pidCount pc + 1, pc\<lparr>pidCount := pidCount pc + 1\<rparr>, m))"

text \<open>Pushing a new \<open>ThreadNode\<close>; without memory the list stays as it is.\<close>

definition pid_link_thread :: "addr \<Rightarrow> PidContainer \<Rightarrow> Memory \<Rightarrow> PidContainer \<times> Memory" where
  "pid_link_thread t pc m =
     (case malloc m of
        (None, m') \<Rightarrow> (pc, m')
      | (Some _, m') \<Rightarrow> (pc\<lparr>threadList := t # threadList pc\<rparr>, m'))"

definition pid_add_thread ::
  "addr \<Rightarrow> u32 \<Rightarrow> PidContainer \<Rightarrow> Memory \<Rightarrow> (PidContainer \<times> Memory) option" where
  "pid_add_thread t oid pc m =
     (case pid_take_vid pc m of (v, pc1, m1) \<Rightarrow> do {
        arr \<leftarrow> array_update (pidArray pc1) v \<lparr>vid = v, id_of = oid\<rparr>;
        Some (pid_link_thread t
                (pc1\<lparr>pid_rc := pid_rc pc1 + 1, pidArray := arr\<rparr>) m1) })"

definition rtems_pid_container_add_task ::
  "ptr \<Rightarrow> ptr \<Rightarrow> 'a pid_kernel_scheme \<Rightarrow> 'a pid_kernel_scheme option" where
  "rtems_pid_container_add_task p thread s =
     (case (p, thread) of
        (Some c, Some t) \<Rightarrow> do {
          pc \<leftarrow> pids s c;
          if pidCount pc \<ge> int RTEMS_MAX_PROCESS_LIMIT - 1 then Some s
          else do {
            th \<leftarrow> threads s t;
            (pc', m') \<leftarrow> pid_add_thread t (Object_id th) pc (mem s);
            Some (pid_store c pc' m' s) } }
      | _ \<Rightarrow> Some s)"

definition rtems_pid_container_add_to_list ::
  "ptr \<Rightarrow> 'a pid_kernel_scheme \<Rightarrow> 'a pid_kernel_scheme" where
  "rtems_pid_container_add_to_list p s =
     (case (p, rtems_container_get_root s) of
        (Some c, Some r) \<Rightarrow>
          (case list_push c (pidContainerList r) (mem s) of
             (l, m) \<Rightarrow> s\<lparr>mem := m, rootContainer := Some (r\<lparr>pidContainerList := l\<rparr>)\<rparr>)
      | _ \<Rightarrow> s)"

definition rtems_pid_container_remove_from_list ::
  "ptr \<Rightarrow> 'a pid_kernel_scheme \<Rightarrow> 'a pid_kernel_scheme" where
  "rtems_pid_container_remove_from_list p s =
     (case (p, rtems_container_get_root s) of
        (Some c, Some r) \<Rightarrow>
          (case list_unlink c (pidContainerList r) (mem s) of
             (l, m) \<Rightarrow> s\<lparr>mem := m, rootContainer := Some (r\<lparr>pidContainerList := l\<rparr>)\<rparr>)
      | _ \<Rightarrow> s)"

definition rtems_pid_container_create ::
  "'a pid_kernel_scheme \<Rightarrow> ptr \<times> 'a pid_kernel_scheme" where
  "rtems_pid_container_create s =
     (case malloc (mem s) of
        (None, m) \<Rightarrow> (None, s\<lparr>mem := m\<rparr>)
      | (Some a, m) \<Rightarrow>
          (Some a, rtems_pid_container_add_to_list (Some a)
             ((pid_store a (PidContainer_new (g_pidContainerId s + 1)) m s)
                \<lparr>g_pidContainerId := g_pidContainerId s + 1\<rparr>)))"

text \<open>\<open>if (thread->container != NULL && thread->container->pidContainer == old)\<close> the
  pointer is redirected.\<close>

definition redirect_pid :: "addr \<Rightarrow> addr \<Rightarrow> Thread_Control \<Rightarrow> Thread_Control" where
  "redirect_pid old new =
     upd_container (\<lambda>c. if pidContainer c = Some old then c\<lparr>pidContainer := Some new\<rparr> else c)"

text \<open>The loop of \<open>rtems_pid_container_delete\<close> that hands the threads of a container to
  the root container and frees their nodes.\<close>

fun pid_migrate :: "addr \<Rightarrow> addr \<Rightarrow> addr list \<Rightarrow> 'a pid_kernel_scheme \<Rightarrow> 'a pid_kernel_scheme option"
where
  "pid_migrate c r [] s = Some s"
| "pid_migrate c r (t # ts) s = do {
     s1 \<leftarrow> rtems_pid_container_add_task (Some r) (Some t) s;
     _ \<leftarrow> threads s1 t;
     s2 \<leftarrow> Some (upd_thread t (redirect_pid c r) s1);
     pid_migrate c r ts (s2\<lparr>mem := free_block (mem s2)\<rparr>) }"

definition rtems_pid_container_delete ::
  "ptr \<Rightarrow> 'a pid_kernel_scheme \<Rightarrow> 'a pid_kernel_scheme option" where
  "rtems_pid_container_delete p s =
     (case p of
        None \<Rightarrow> Some s
      | Some c \<Rightarrow>
          (case do { r \<leftarrow> rtems_container_get_root s; pidContainer r } of
             None \<Rightarrow> Some s
           | Some r \<Rightarrow>
               if c = r then Some s
               else do {
                 s1 \<leftarrow> Some (rtems_pid_container_remove_from_list (Some c) s);
                 pc \<leftarrow> pids s1 c;
                 s2 \<leftarrow> Some (pid_store c (pc\<lparr>pid_rc := -1, threadList := []\<rparr>) (mem s1) s1);
                 s3 \<leftarrow> pid_migrate c r (threadList pc) s2;
                 pc3 \<leftarrow> pids s3 c;
                 Some (s3\<lparr>mem := free_block (free_blocks (length (freeVidList pc3)) (mem s3)),
                          pids := (pids s3)(c := None)\<rparr>) }))"

text \<open>Recycling a virtual id: the slot is cleared and the id goes to the sorted free list.\<close>

definition pid_recycle :: "nat \<Rightarrow> int \<Rightarrow> PidContainer \<Rightarrow> PidContainer" where
  "pid_recycle i v pc = pc\<lparr>freeVidList := insert_asc v (freeVidList pc),
     pidArray := (pidArray pc)[i := ProcessVid_zero]\<rparr>"

text \<open>Unlinking and freeing the first \<open>ThreadNode\<close> of a thread.\<close>

definition pid_unlink_thread :: "addr \<Rightarrow> PidContainer \<Rightarrow> Memory \<Rightarrow> PidContainer \<times> Memory" where
  "pid_unlink_thread t pc m =
     (if t \<in> set (threadList pc)
      then (pc\<lparr>threadList := remove1 t (threadList pc)\<rparr>, free_block m) else (pc, m))"

text \<open>Storing a container with one reference less; the last reference deletes it.\<close>

definition pid_drop_ref ::
  "addr \<Rightarrow> PidContainer \<Rightarrow> Memory \<Rightarrow> 'a pid_kernel_scheme \<Rightarrow> 'a pid_kernel_scheme option" where
  "pid_drop_ref c pc m s =
     (let s' = pid_store c (pc\<lparr>pid_rc := pid_rc pc - 1\<rparr>) m s
      in if pid_rc pc - 1 = 0 then rtems_pid_container_delete (Some c) s' else Some s')"

definition rtems_pid_container_remove_task ::
  "ptr \<Rightarrow> ptr \<Rightarrow> 'a pid_kernel_scheme \<Rightarrow> 'a pid_kernel_scheme option" where
  "rtems_pid_container_remove_task p thread s =
     (case (p, thread) of
        (Some c, Some t) \<Rightarrow> do {
          pc \<leftarrow> pids s c;
          if pid_rc pc \<le> 0 then Some s
          else do {
            th \<leftarrow> threads s t;
            case array_scan (\<lambda>p. id_of p = Object_id th) 0 (pidArray pc) of
              Some i \<Rightarrow>
                (case malloc (mem s) of
                   (None, m) \<Rightarrow> Some (s\<lparr>mem := m\<rparr>)
                 | (Some _, m) \<Rightarrow>
                     (case pid_unlink_thread t (pid_recycle i (vid (pidArray pc ! i)) pc) m of
                        (pc1, m1) \<Rightarrow> pid_drop_ref c pc1 m1 s))
            | None \<Rightarrow>
                (case pid_unlink_thread t pc (mem s) of (pc1, m1) \<Rightarrow> pid_drop_ref c pc1 m1 s) } }
      | _ \<Rightarrow> Some s)"

text \<open>The tail of \<open>rtems_pid_container_move_task\<close>, once the source slot \<open>i\<close>
  and the destination id \<open>v\<close> are fixed; \<open>pb\<close> is the destination without \<open>v\<close>
  on its free list.\<close>

definition pid_transfer ::
  "addr \<Rightarrow> addr \<Rightarrow> addr \<Rightarrow> u32 \<Rightarrow> nat \<Rightarrow> int \<Rightarrow> PidContainer \<Rightarrow> PidContainer \<Rightarrow> Memory \<Rightarrow>
     'a pid_kernel_scheme \<Rightarrow> 'a pid_kernel_scheme option" where
  "pid_transfer a b t oid i v pa pb m s = do {
     arr \<leftarrow> array_update (pidArray pb) v \<lparr>vid = v, id_of = oid\<rparr>;
     pa' \<leftarrow> Some ((pid_recycle i (int i) pa)
              \<lparr>threadList := remove1 t (threadList pa), pid_rc := pid_rc pa - 1\<rparr>);
     pb' \<leftarrow> Some (pb\<lparr>pidArray := arr, threadList := t # threadList pb,
                     pid_rc := pid_rc pb + 1\<rparr>);
     s' \<leftarrow> Some (upd_thread t (redirect_pid a b)
            (s\<lparr>mem := m, pids := (pids s)(a \<mapsto> pa', b \<mapsto> pb')\<rparr>));
     if pid_rc pa - 1 = 0 then rtems_pid_container_delete (Some a) s' else Some s' }"

definition rtems_pid_container_move_task ::
  "ptr \<Rightarrow> ptr \<Rightarrow> ptr \<Rightarrow> 'a pid_kernel_scheme \<Rightarrow> 'a pid_kernel_scheme option" where
  "rtems_pid_container_move_task srcContainer destContainer thread s =
     (case (srcContainer, destContainer, thread) of
        (Some a, Some b, Some t) \<Rightarrow>
          if a = b then Some s
          else do {
            pa \<leftarrow> pids s a;
            if pid_rc pa \<le> 0 \<or> t \<notin> set (threadList pa) then Some s
            else do {
              th \<leftarrow> threads s t;
              case array_scan (\<lambda>p. id_of p = Object_id th \<and> vid p \<noteq> 0) 1
                     (drop 1 (pidArray pa)) of
                None \<Rightarrow> Some s
              | Some i \<Rightarrow> do {
                  pb \<leftarrow> pids s b;
                  if t \<in> set (threadList pb) then Some s
                  else case freeVidList pb of
                    v # vs \<Rightarrow>
                      pid_transfer a b t (Object_id th) i v pa (pb\<lparr>freeVidList := vs\<rparr>) (mem s) s
                  | [] \<Rightarrow>
                      if pidCount pb \<ge> int RTEMS_MAX_PROCESS_LIMIT - 1 then Some s
                      else case malloc (mem s) of
                        (None, m) \<Rightarrow> Some (s\<lparr>mem := m\<rparr>)
                      | (Some _, m) \<Rightarrow>
                          pid_transfer a b t (Object_id th) i (pidCount pb + 1) pa
                            (pb\<lparr>pidCount := pidCount pb + 1\<rparr>) m s } } }
      | _ \<Rightarrow> Some s)"

text \<open>The walk over the registry: the first container whose thread list has the thread.\<close>

fun pid_find_in :: "(addr \<rightharpoonup> PidContainer) \<Rightarrow> addr \<Rightarrow> addr list \<Rightarrow> ptr option" where
  "pid_find_in h t [] = Some None"
| "pid_find_in h t (c # cs) = do {
     pc \<leftarrow> h c;
     if t \<in> set (threadList pc) then Some (Some c) else pid_find_in h t cs }"

definition rtems_pid_container_find_by_thread :: "ptr \<Rightarrow> 'a pid_kernel_scheme \<Rightarrow> ptr option" where
  "rtems_pid_container_find_by_thread thread s =
     (case (thread, rtems_container_get_root s) of
        (Some t, Some r) \<Rightarrow>
          pid_find_in (pids s) t
            (case pidContainer r of None \<Rightarrow> pidContainerList r
             | Some c \<Rightarrow> c # pidContainerList r)
      | _ \<Rightarrow> Some None)"

definition rtems_pid_container_get_thread_info ::
  "ptr \<Rightarrow> 'a pid_kernel_scheme \<Rightarrow> ThreadContainerInfo option" where
  "rtems_pid_container_get_thread_info thread s =
     (let none = \<lparr>info_containerID = -1, info_vid_or_id = -1, info_isRoot = -1\<rparr> in
      case (thread, do { r \<leftarrow> rtems_container_get_root s; pidContainer r }) of
        (Some t, Some rp) \<Rightarrow> do {
          found \<leftarrow> rtems_pid_container_find_by_thread (Some t) s;
          case found of
            None \<Rightarrow> Some none
          | Some c \<Rightarrow> do {
              pc \<leftarrow> pids s c;
              th \<leftarrow> threads s t;
              Some (if c = rp
                then \<lparr>info_containerID = pid_containerID pc,
                       info_vid_or_id = sint (Object_id th), info_isRoot = 1\<rparr>
                else \<lparr>info_containerID = pid_containerID pc,
                       info_vid_or_id =
                         (case array_scan (\<lambda>p. id_of p = Object_id th \<and> vid p \<noteq> 0) 0
                                 (pidArray pc) of
                            Some i \<Rightarrow> vid (pidArray pc ! i) | None \<Rightarrow> -1),
                       info_isRoot = 0\<rparr>) } }
      | _ \<Rightarrow> Some none)"

definition rtems_pid_container_exists :: "ptr \<Rightarrow> 'a pid_kernel_scheme \<Rightarrow> int" where
  "rtems_pid_container_exists p s =
     (case (p, rtems_container_get_root s) of
        (Some c, Some r) \<Rightarrow>
          if pidContainer r = Some c then 1 else if c \<in> set (pidContainerList r) then 1 else 0
      | _ \<Rightarrow> 0)"

definition rtems_pid_container_inc_rc ::
  "ptr \<Rightarrow> 'a pid_kernel_scheme \<Rightarrow> 'a pid_kernel_scheme option" where
  "rtems_pid_container_inc_rc p s =
     (case p of None \<Rightarrow> Some s
      | Some c \<Rightarrow> do {
          pc \<leftarrow> pids s c;
          Some (pid_store c (pc\<lparr>pid_rc := pid_rc pc + 1\<rparr>) (mem s) s) })"

definition rtems_pid_container_get_id :: "ptr \<Rightarrow> 'a pid_kernel_scheme \<Rightarrow> int option" where
  "rtems_pid_container_get_id p s =
     (case p of None \<Rightarrow> Some (-1) | Some c \<Rightarrow> map_option pid_containerID (pids s c))"

definition rtems_pid_container_get_rc :: "ptr \<Rightarrow> 'a pid_kernel_scheme \<Rightarrow> int option" where
  "rtems_pid_container_get_rc p s =
     (case p of None \<Rightarrow> Some (-1) | Some c \<Rightarrow> map_option pid_rc (pids s c))"

text \<open>\<open>rtems_pid_container_foreach_thread\<close>: the visitor threads its own state; the walk stops
  when it returns false.\<close>

fun pid_foreach_loop :: "(addr \<Rightarrow> 'v \<Rightarrow> bool \<times> 'v) \<Rightarrow> addr list \<Rightarrow> 'v \<Rightarrow> 'v" where
  "pid_foreach_loop visitor [] x = x"
| "pid_foreach_loop visitor (t # ts) x =
     (case visitor t x of (go, x') \<Rightarrow> if go then pid_foreach_loop visitor ts x' else x')"

definition rtems_pid_container_foreach_thread ::
  "ptr \<Rightarrow> (addr \<Rightarrow> 'v \<Rightarrow> bool \<times> 'v) option \<Rightarrow> 'v \<Rightarrow> 'a pid_kernel_scheme \<Rightarrow> 'v option" where
  "rtems_pid_container_foreach_thread p visitor x s =
     (case (p, visitor) of
        (Some c, Some f) \<Rightarrow> map_option (\<lambda>pc. pid_foreach_loop f (threadList pc) x) (pids s c)
      | _ \<Rightarrow> Some x)"

section \<open>The invariant of one container\<close>

text \<open>Slot \<open>i\<close> is in use exactly when \<open>i\<close> was handed out and is not on the free list; it
  then records its own index and a non-zero object id, and is zero otherwise.\<close>

definition pid_in_use :: "PidContainer \<Rightarrow> nat \<Rightarrow> bool" where
  "pid_in_use pc i \<longleftrightarrow> 1 \<le> i \<and> int i \<le> pidCount pc \<and> int i \<notin> set (freeVidList pc)"

definition pid_slot_ok :: "PidContainer \<Rightarrow> nat \<Rightarrow> bool" where
  "pid_slot_ok pc i \<longleftrightarrow>
     (if pid_in_use pc i then vid (pidArray pc ! i) = int i \<and> id_of (pidArray pc ! i) \<noteq> 0
      else pidArray pc ! i = ProcessVid_zero)"

definition pid_wf :: "PidContainer \<Rightarrow> bool" where
  "pid_wf pc \<longleftrightarrow>
     length (pidArray pc) = RTEMS_MAX_PROCESS_LIMIT \<and>
     0 \<le> pidCount pc \<and> pidCount pc < int RTEMS_MAX_PROCESS_LIMIT \<and>
     sorted_wrt (<) (freeVidList pc) \<and> set (freeVidList pc) \<subseteq> {1..pidCount pc} \<and>
     (\<forall>i < RTEMS_MAX_PROCESS_LIMIT. pid_slot_ok pc i)"

lemma ProcessVid_zero_sel [simp]: "vid ProcessVid_zero = 0" "id_of ProcessVid_zero = 0"
  by (simp_all add: ProcessVid_zero_def)

lemma pid_wf_rc_threads [simp]:
  "pid_wf (pc\<lparr>pid_rc := x\<rparr>) = pid_wf pc"
  "pid_wf (pc\<lparr>threadList := l\<rparr>) = pid_wf pc"
  by (simp_all add: pid_wf_def pid_slot_ok_def pid_in_use_def)

lemma pid_wf_new [simp]: "pid_wf (PidContainer_new n)"
  by (auto simp: pid_wf_def pid_slot_ok_def pid_in_use_def PidContainer_new_def
      RTEMS_MAX_PROCESS_LIMIT_def)

lemma pid_wf_length: "pid_wf pc \<Longrightarrow> length (pidArray pc) = RTEMS_MAX_PROCESS_LIMIT"
  by (simp add: pid_wf_def)

lemma pid_wf_slot: "pid_wf pc \<Longrightarrow> i < RTEMS_MAX_PROCESS_LIMIT \<Longrightarrow> pid_slot_ok pc i"
  by (simp add: pid_wf_def)

lemma pid_wf_used:
  assumes "pid_wf pc" "i < RTEMS_MAX_PROCESS_LIMIT" "id_of (pidArray pc ! i) \<noteq> 0"
  shows "pid_in_use pc i" "vid (pidArray pc ! i) = int i"
  using pid_wf_slot [OF assms(1,2)] assms(3) by (auto simp: pid_slot_ok_def split: if_splits)

text \<open>Handing out the head of the free list, or the next unused id.\<close>

lemma pid_wf_reuse:
  assumes "pid_wf pc" "freeVidList pc = v # vs" "oid \<noteq> 0"
  shows "1 \<le> v" "v < int RTEMS_MAX_PROCESS_LIMIT"
    "pid_wf (pc\<lparr>freeVidList := vs, pidArray := (pidArray pc)[nat v := \<lparr>vid = v, id_of = oid\<rparr>]\<rparr>)"
proof -
  from assms have v: "1 \<le> v" "v \<le> pidCount pc" "pidCount pc < int RTEMS_MAX_PROCESS_LIMIT"
    and vs: "\<forall>w \<in> set vs. v < w"
    by (auto simp: pid_wf_def)
  then show "1 \<le> v" "v < int RTEMS_MAX_PROCESS_LIMIT" by auto
  let ?pc = "pc\<lparr>freeVidList := vs, pidArray := (pidArray pc)[nat v := \<lparr>vid = v, id_of = oid\<rparr>]\<rparr>"
  have "pid_slot_ok ?pc i" if i: "i < RTEMS_MAX_PROCESS_LIMIT" for i
  proof (cases "i = nat v")
    case True
    with v vs i assms show ?thesis
      by (auto simp: pid_slot_ok_def pid_in_use_def pid_wf_length)
  next
    case False
    then have "pid_in_use ?pc i = pid_in_use pc i"
      using assms(2) by (auto simp: pid_in_use_def)
    with False pid_wf_slot [OF assms(1) i] show ?thesis by (simp add: pid_slot_ok_def)
  qed
  with assms show "pid_wf ?pc" by (auto simp: pid_wf_def)
qed

lemma pid_wf_extend:
  assumes "pid_wf pc" "freeVidList pc = []" "pidCount pc < int RTEMS_MAX_PROCESS_LIMIT - 1"
    "oid \<noteq> 0"
  shows "pid_wf (pc\<lparr>pidCount := pidCount pc + 1, pidArray := (pidArray pc)
           [nat (pidCount pc + 1) := \<lparr>vid = pidCount pc + 1, id_of = oid\<rparr>]\<rparr>)"
proof -
  let ?v = "pidCount pc + 1"
  let ?pc = "pc\<lparr>pidCount := ?v, pidArray := (pidArray pc)[nat ?v := \<lparr>vid = ?v, id_of = oid\<rparr>]\<rparr>"
  have "0 \<le> pidCount pc" using assms(1) by (simp add: pid_wf_def)
  have "pid_slot_ok ?pc i" if i: "i < RTEMS_MAX_PROCESS_LIMIT" for i
  proof (cases "i = nat ?v")
    case True
    with i assms \<open>0 \<le> pidCount pc\<close> show ?thesis
      by (auto simp: pid_slot_ok_def pid_in_use_def pid_wf_length)
  next
    case False
    then have "pid_in_use ?pc i = pid_in_use pc i"
      using assms(2) \<open>0 \<le> pidCount pc\<close> by (auto simp: pid_in_use_def)
    with False pid_wf_slot [OF assms(1) i] show ?thesis by (simp add: pid_slot_ok_def)
  qed
  with assms show ?thesis by (auto simp: pid_wf_def)
qed

text \<open>Recycling a used slot.\<close>

lemma pid_wf_recycle:
  assumes "pid_wf pc" "pid_in_use pc i"
  shows "pid_wf (pid_recycle i (int i) pc)"
proof -
  from assms have i: "i < RTEMS_MAX_PROCESS_LIMIT" by (auto simp: pid_wf_def pid_in_use_def)
  have "pid_slot_ok (pid_recycle i (int i) pc) j" if j: "j < RTEMS_MAX_PROCESS_LIMIT" for j
    using pid_wf_slot [OF assms(1) j] i assms
    by (cases "j = i") (auto simp: pid_slot_ok_def pid_in_use_def pid_recycle_def pid_wf_length)
  with assms show ?thesis
    by (auto simp: pid_wf_def pid_recycle_def pid_in_use_def sorted_insert_asc)
qed

lemma pid_recycle_sel [simp]:
  "pid_rc (pid_recycle i v pc) = pid_rc pc" "threadList (pid_recycle i v pc) = threadList pc"
  "pidCount (pid_recycle i v pc) = pidCount pc"
  "pid_containerID (pid_recycle i v pc) = pid_containerID pc"
  "freeVidList (pid_recycle i v pc) = insert_asc v (freeVidList pc)"
  by (simp_all add: pid_recycle_def)

text \<open>What one container owns: its own block, a node per recycled id and a node per thread.\<close>

definition pid_blocks :: "PidContainer \<Rightarrow> int" where
  "pid_blocks pc = 1 + int (length (freeVidList pc)) + int (length (threadList pc))"

lemma pid_take_vid_ok:
  assumes "pid_wf pc" "pidCount pc < int RTEMS_MAX_PROCESS_LIMIT - 1" "oid \<noteq> 0"
    "pid_take_vid pc m = (v, pc1, m1)"
  shows "1 \<le> v \<and> v < int (length (pidArray pc1)) \<and>
      pid_wf (pc1\<lparr>pidArray := (pidArray pc1)[nat v := \<lparr>vid = v, id_of = oid\<rparr>]\<rparr>) \<and>
      threadList pc1 = threadList pc \<and> pid_rc pc1 = pid_rc pc \<and> brk m1 = brk m \<and> oom m1 = oom m \<and>
      pidArray pc1 = pidArray pc \<and> pid_containerID pc1 = pid_containerID pc \<and>
      live m1 - int (length (freeVidList pc1)) = live m - int (length (freeVidList pc))"
proof (cases "freeVidList pc")
  case Nil
  moreover have "0 \<le> pidCount pc" using assms(1) by (simp add: pid_wf_def)
  ultimately show ?thesis
    using assms(2,4) pid_wf_extend [OF assms(1) Nil assms(2,3)] pid_wf_length [OF assms(1)]
    by (simp add: pid_take_vid_def) auto
next
  case (Cons w ws)
  then show ?thesis
    using assms(4) pid_wf_reuse [OF assms(1) Cons assms(3)] pid_wf_length [OF assms(1)]
    by (simp add: pid_take_vid_def) auto
qed

lemma pid_link_thread_ok:
  assumes "pid_link_thread t pc m = (pc', m')"
  shows "pc' = pc\<lparr>threadList := (if oom m (brk m) then threadList pc else t # threadList pc)\<rparr>"
    "brk m' = Suc (brk m)" "oom m' = oom m" "live m' - pid_blocks pc' = live m - pid_blocks pc"
  using assms by (auto simp: pid_link_thread_def malloc_def pid_blocks_def split: if_splits)

lemma pid_add_thread_ok:
  assumes "pid_wf pc" "pidCount pc < int RTEMS_MAX_PROCESS_LIMIT - 1" "oid \<noteq> 0"
  obtains v pc1 m1 pc' m' where "pid_take_vid pc m = (v, pc1, m1)"
    "pid_add_thread t oid pc m = Some (pc', m')" "pid_wf pc'"
    "brk m' = Suc (brk m)" "oom m' = oom m"
    "live m' - pid_blocks pc' = live m - pid_blocks pc" "pid_rc pc' = pid_rc pc + 1"
    "threadList pc' = (if oom m (brk m) then threadList pc else t # threadList pc)"
    "pid_containerID pc' = pid_containerID pc"
    "pidArray pc' = (pidArray pc)[nat v := \<lparr>vid = v, id_of = oid\<rparr>]" "1 \<le> v"
proof -
  obtain v pc1 m1 where take: "pid_take_vid pc m = (v, pc1, m1)" by (metis prod_cases3)
  from pid_take_vid_ok [OF assms take] have v: "1 \<le> v" "v < int (length (pidArray pc1))"
    "pid_wf (pc1\<lparr>pidArray := (pidArray pc1)[nat v := \<lparr>vid = v, id_of = oid\<rparr>]\<rparr>)"
    "threadList pc1 = threadList pc" "pid_rc pc1 = pid_rc pc" "brk m1 = brk m" "oom m1 = oom m"
    "pidArray pc1 = pidArray pc" "pid_containerID pc1 = pid_containerID pc"
    "live m1 - int (length (freeVidList pc1)) = live m - int (length (freeVidList pc))"
    by blast+
  let ?arr = "(pidArray pc)[nat v := \<lparr>vid = v, id_of = oid\<rparr>]"
  let ?pc = "pc1\<lparr>pid_rc := pid_rc pc1 + 1, pidArray := ?arr\<rparr>"
  obtain pc' m' where link: "pid_link_thread t ?pc m1 = (pc', m')" by fastforce
  note l = pid_link_thread_ok [OF link]
  have "pc1\<lparr>pid_rc := pid_rc pc1 + 1, pidArray := ?arr\<rparr>
      = (pc1\<lparr>pidArray := (pidArray pc1)[nat v := \<lparr>vid = v, id_of = oid\<rparr>]\<rparr>)\<lparr>pid_rc := pid_rc pc1 + 1\<rparr>"
    using v by simp
  then have wf: "pid_wf ?pc" using v(3) by (metis pid_wf_rc_threads(1))
  have add: "pid_add_thread t oid pc m = Some (pc', m')"
    using take v link by (simp add: pid_add_thread_def array_update_def)
  have "live m1 - pid_blocks ?pc = live m - pid_blocks pc"
    using v by (simp add: pid_blocks_def)
  show thesis
  proof (rule that [OF take add])
    show "pid_wf pc'" unfolding l(1) using wf by simp
    show "brk m' = Suc (brk m)" "oom m' = oom m" using l v by simp_all
    show "live m' - pid_blocks pc' = live m - pid_blocks pc"
      unfolding l(4) by fact
    show "pid_rc pc' = pid_rc pc + 1" "pid_containerID pc' = pid_containerID pc" "pidArray pc' = ?arr"
      unfolding l(1) using v by simp_all
    show "threadList pc' = (if oom m (brk m) then threadList pc else t # threadList pc)"
      unfolding l(1) using v by simp
    show "1 \<le> v" by (rule v)
  qed
qed

section \<open>The invariant of the namespace\<close>

definition pid_root :: "'a pid_kernel_scheme \<Rightarrow> ptr" where
  "pid_root s = do { r \<leftarrow> rootContainer s; pidContainer r }"

definition pid_registry :: "'a pid_kernel_scheme \<Rightarrow> addr list" where
  "pid_registry s = (case rootContainer s of None \<Rightarrow> [] | Some r \<Rightarrow> pidContainerList r)"

text \<open>Blocks are well-formed and below the allocator's next address, listed threads are alive,
  the root container exists, and the registry has each other container at most once.\<close>

definition pid_inv :: "'a pid_kernel_scheme \<Rightarrow> bool" where
  "pid_inv s \<longleftrightarrow>
     heap_ok (mem s) (pids s) \<and>
     (\<forall>c pc. pids s c = Some pc \<longrightarrow> pid_wf pc \<and> set (threadList pc) \<subseteq> dom (threads s)) \<and>
     (\<forall>t th. threads s t = Some th \<longrightarrow> Object_id th \<noteq> 0) \<and>
     (\<exists>r. pid_root s = Some r \<and> r \<in> dom (pids s) \<and> r \<notin> set (pid_registry s)) \<and>
     distinct (pid_registry s) \<and> set (pid_registry s) \<subseteq> dom (pids s)"

text \<open>The heap blocks in use that the PID namespace does not own. An operation that leaves this
  number alone neither leaks a block of the namespace nor frees one twice.\<close>

definition pid_slack :: "'a pid_kernel_scheme \<Rightarrow> int" where
  "pid_slack s = live (mem s) - owned pid_blocks (pids s) - int (length (pid_registry s))"

lemma pid_invD:
  assumes "pid_inv s"
  shows "heap_ok (mem s) (pids s)" "pids s c = Some pc \<Longrightarrow> pid_wf pc"
    "pids s c = Some pc \<Longrightarrow> set (threadList pc) \<subseteq> dom (threads s)"
    "threads s t = Some th \<Longrightarrow> Object_id th \<noteq> 0"
    "distinct (pid_registry s)" "set (pid_registry s) \<subseteq> dom (pids s)"
  using assms by (auto simp: pid_inv_def)

lemma pid_inv_root:
  assumes "pid_inv s"
  obtains r pr where "pid_root s = Some r" "pids s r = Some pr" "r \<notin> set (pid_registry s)"
  using assms by (auto simp: pid_inv_def)

lemma pid_root_store [simp]: "pid_root (pid_store c pc m s) = pid_root s"
  by (simp add: pid_root_def pid_store_def)

lemma pid_registry_store [simp]: "pid_registry (pid_store c pc m s) = pid_registry s"
  by (simp add: pid_registry_def pid_store_def)

lemma pid_store_sel [simp]:
  "mem (pid_store c pc m s) = m" "pids (pid_store c pc m s) = (pids s)(c \<mapsto> pc)"
  "threads (pid_store c pc m s) = threads s" "rootContainer (pid_store c pc m s) = rootContainer s"
  "cfg (pid_store c pc m s) = cfg s" "executing (pid_store c pc m s) = executing s"
  "g_pidContainerId (pid_store c pc m s) = g_pidContainerId s"
  "thread_table (pid_store c pc m s) = thread_table s"
  "pid_kernel.more (pid_store c pc m s) = pid_kernel.more s"
  by (simp_all add: pid_store_def)

lemma pid_inv_store:
  assumes "pid_inv s" "pids s c = Some pc" "pid_wf pc'"
    "set (threadList pc') \<subseteq> dom (threads s)" "brk (mem s) \<le> brk m"
  shows "pid_inv (pid_store c pc' m s)"
proof -
  have "heap_ok m ((pids s)(c \<mapsto> pc'))"
    using assms by (meson pid_invD(1) heap_ok_mono heap_ok_update)
  then show ?thesis using assms by (auto simp: pid_inv_def)
qed

lemma pid_slack_store:
  assumes "pid_inv s" "pids s c = Some pc"
  shows "pid_slack (pid_store c pc' m s)
     = pid_slack s + (live m - pid_blocks pc') - (live (mem s) - pid_blocks pc)"
  using owned_update [OF heap_ok_finite [OF pid_invD(1) [OF assms(1)]] assms(2), of pid_blocks]
  by (simp add: pid_slack_def)

text \<open>Redirecting the namespace pointer of a thread.\<close>

lemma redirect_pid_sel [simp]:
  "Object_id (redirect_pid a b th) = Object_id th" "cgroup (redirect_pid a b th) = cgroup th"
  "is_added_to_cgroup (redirect_pid a b th) = is_added_to_cgroup th"
  "current_state (redirect_pid a b th) = current_state th"
  by (simp_all add: redirect_pid_def upd_container_def)

lemma upd_thread_pids [simp]:
  "pids (upd_thread t f s) = pids s" "g_pidContainerId (upd_thread t f s) = g_pidContainerId s"
  "pid_kernel.more (upd_thread t f s) = pid_kernel.more s"
  "pid_root (upd_thread t f s) = pid_root s" "pid_registry (upd_thread t f s) = pid_registry s"
  "pid_slack (upd_thread t f s) = pid_slack s"
  by (simp_all add: upd_thread_def pid_root_def pid_registry_def pid_slack_def)

lemma pid_inv_upd_thread:
  assumes "pid_inv s" "\<And>th. Object_id (f th) = Object_id th"
  shows "pid_inv (upd_thread t f s)"
proof -
  have "Object_id th \<noteq> 0" if "threads (upd_thread t f s) t' = Some th" for t' th
    using that assms pid_invD(4) [OF assms(1)] by (auto simp: upd_thread_def split: if_splits)
  with assms(1) show ?thesis unfolding pid_inv_def by simp
qed

section \<open>Every operation keeps the invariant and accounts for its blocks\<close>

lemma pid_add_task_ok:
  assumes "pid_inv s" "pids s c = Some pc" "threads s t = Some th"
  obtains pc' m' where
    "rtems_pid_container_add_task (Some c) (Some t) s = Some (pid_store c pc' m' s)"
    "pid_inv (pid_store c pc' m' s)" "pid_slack (pid_store c pc' m' s) = pid_slack s"
    "pid_rc pc \<le> pid_rc pc'" "brk (mem s) \<le> brk m'"
    "set (threadList pc') \<subseteq> insert t (set (threadList pc))"
    "set (threadList pc) \<subseteq> set (threadList pc')"
    "pid_rc pc' - int (length (threadList pc')) \<ge> pid_rc pc - int (length (threadList pc))"
proof (cases "pidCount pc \<ge> int RTEMS_MAX_PROCESS_LIMIT - 1")
  case True
  moreover have "pid_store c pc (mem s) s = s"
    using assms(2) by (simp add: pid_store_def fun_upd_idem)
  ultimately show thesis using that [of pc "mem s"] assms
    by (auto simp: rtems_pid_container_add_task_def)
next
  case False
  then have "pidCount pc < int RTEMS_MAX_PROCESS_LIMIT - 1" by simp
  from pid_add_thread_ok [OF pid_invD(2) [OF assms(1,2)] this pid_invD(4) [OF assms(1,3)],
      of "mem s" t]
  obtain pc' m' where a: "pid_add_thread t (Object_id th) pc (mem s) = Some (pc', m')"
    "pid_wf pc'" "brk m' = Suc (brk (mem s))" "pid_rc pc' = pid_rc pc + 1"
    "live m' - pid_blocks pc' = live (mem s) - pid_blocks pc"
    "threadList pc' = (if oom (mem s) (brk (mem s)) then threadList pc else t # threadList pc)"
    by metis
  from a(6) have l: "set (threadList pc') \<subseteq> insert t (set (threadList pc))"
    "set (threadList pc) \<subseteq> set (threadList pc')"
    "int (length (threadList pc')) \<le> int (length (threadList pc)) + 1" by auto
  show thesis
  proof (rule that)
    show "rtems_pid_container_add_task (Some c) (Some t) s = Some (pid_store c pc' m' s)"
      using False assms a(1) by (simp add: rtems_pid_container_add_task_def)
    show "pid_inv (pid_store c pc' m' s)"
      using assms a l pid_invD(3) [OF assms(1,2)] by (intro pid_inv_store) auto
    show "pid_slack (pid_store c pc' m' s) = pid_slack s"
      using pid_slack_store [OF assms(1,2)] a by simp
  qed (use a l in auto)
qed

text \<open>The migration loop: only the root container, the allocator and the migrated threads
  change, and each freed \<open>ThreadNode\<close> of the deleted container is a block less.\<close>

definition redirect_threads ::
  "addr \<Rightarrow> addr \<Rightarrow> addr list \<Rightarrow> (addr \<rightharpoonup> Thread_Control) \<Rightarrow> (addr \<rightharpoonup> Thread_Control)" where
  "redirect_threads c r ts h =
     (\<lambda>t. if t \<in> set ts then map_option (redirect_pid c r) (h t) else h t)"

lemma redirect_pid_idem: "c \<noteq> r \<Longrightarrow> redirect_pid c r (redirect_pid c r th) = redirect_pid c r th"
  by (cases "container th") (auto simp: redirect_pid_def upd_container_def)

lemma redirect_threads_Nil [simp]: "redirect_threads c r [] h = h"
  by (simp add: redirect_threads_def)

lemma redirect_threads_Cons:
  "c \<noteq> r \<Longrightarrow> redirect_threads c r ts (h(t := map_option (redirect_pid c r) (h t)))
     = redirect_threads c r (t # ts) h"
  by (auto simp: redirect_threads_def fun_eq_iff option.map_comp comp_def redirect_pid_idem)

lemma dom_redirect_threads [simp]: "dom (redirect_threads c r ts h) = dom h"
  by (auto simp: redirect_threads_def split: if_splits)

lemma pid_migrate_ok:
  assumes "pid_inv s" "pid_root s = Some r" "pids s r = Some pr" "c \<noteq> r"
    "set ts \<subseteq> dom (threads s)"
  shows "\<exists>s' pr' m'. pid_migrate c r ts s = Some s' \<and>
     s' = s\<lparr>mem := m', pids := (pids s)(r \<mapsto> pr'), threads := redirect_threads c r ts (threads s)\<rparr> \<and>
     pid_inv s' \<and> pid_slack s' = pid_slack s - int (length ts) \<and> brk (mem s) \<le> brk m' \<and>
     set (threadList pr) \<subseteq> set (threadList pr') \<and>
     pid_rc pr' - int (length (threadList pr')) \<ge> pid_rc pr - int (length (threadList pr))"
  using assms
proof (induction ts arbitrary: s pr)
  case Nil
  then have "(pids s)(r \<mapsto> pr) = pids s" by (simp add: fun_upd_idem)
  with Nil show ?case by (intro exI [of _ s] exI [of _ pr] exI [of _ "mem s"]) simp
next
  case (Cons t ts)
  then obtain th where th: "threads s t = Some th" by auto
  obtain pc' m' where add:
    "rtems_pid_container_add_task (Some r) (Some t) s = Some (pid_store r pc' m' s)"
    "pid_inv (pid_store r pc' m' s)" "pid_slack (pid_store r pc' m' s) = pid_slack s"
    "brk (mem s) \<le> brk m'" "set (threadList pr) \<subseteq> set (threadList pc')"
    "pid_rc pc' - int (length (threadList pc')) \<ge> pid_rc pr - int (length (threadList pr))"
    by (rule pid_add_task_ok [OF Cons.prems(1,3) th]) blast
  define s1 where "s1 = upd_thread t (redirect_pid c r) (pid_store r pc' m' s)"
  define s2 where "s2 = s1\<lparr>mem := free_block m'\<rparr>"
  have inv1: "pid_inv s1" unfolding s1_def by (rule pid_inv_upd_thread [OF add(2)]) simp
  have inv2: "pid_inv s2"
    using inv1 heap_ok_mono [of m' "pids s1" "free_block m'"]
    by (auto simp: pid_inv_def s2_def pid_root_def pid_registry_def s1_def)
  have sl2: "pid_slack s2 = pid_slack s - 1"
    using add(3) by (simp add: pid_slack_def s2_def s1_def pid_registry_def)
  have step: "pid_migrate c r (t # ts) s = pid_migrate c r ts s2"
    using add(1) th by (simp add: s2_def s1_def)
  have "pid_root s2 = Some r" "pids s2 r = Some pc'" "set ts \<subseteq> dom (threads s2)"
    using Cons.prems by (simp_all add: s2_def s1_def pid_root_def)
  from Cons.IH [OF inv2 this(1,2) Cons.prems(4) this(3)] obtain s' pr' m2 where
    ih: "pid_migrate c r ts s2 = Some s'"
    "s' = s2\<lparr>mem := m2, pids := (pids s2)(r \<mapsto> pr'), threads := redirect_threads c r ts (threads s2)\<rparr>"
    "pid_inv s'" "pid_slack s' = pid_slack s2 - int (length ts)" "brk (mem s2) \<le> brk m2"
    "set (threadList pc') \<subseteq> set (threadList pr')"
    "pid_rc pr' - int (length (threadList pr')) \<ge> pid_rc pc' - int (length (threadList pc'))"
    by blast
  have "s' = s\<lparr>mem := m2, pids := (pids s)(r \<mapsto> pr'),
      threads := redirect_threads c r (t # ts) (threads s)\<rparr>"
    unfolding ih(2) using redirect_threads_Cons [OF Cons.prems(4)]
    by (simp add: s2_def s1_def upd_thread_def pid_store_def)
  moreover have "brk (mem s) \<le> brk m2" using ih(5) add(4) by (simp add: s2_def s1_def)
  moreover have "pid_slack s' = pid_slack s - int (length (t # ts))" using ih(4) sl2 by simp
  moreover have "pid_migrate c r (t # ts) s = Some s'" using step ih(1) by simp
  moreover have "set (threadList pr) \<subseteq> set (threadList pr')" using ih(6) add(5) by blast
  moreover have "pid_rc pr' - int (length (threadList pr')) \<ge> pid_rc pr - int (length (threadList pr))"
    using ih(7) add(6) by linarith
  ultimately show ?case using ih(3) by blast
qed

abbreviation unregister_pid :: "addr \<Rightarrow> Container \<Rightarrow> Container" where
  "unregister_pid c \<equiv> pidContainerList_update (remove1 c)"

interpretation pid_reg: ns_registry_query rtems_pid_container_add_to_list
  rtems_pid_container_remove_from_list pid_registry mem "\<lambda>s. rootContainer s \<noteq> None"
  rtems_pid_container_exists pid_root
  by unfold_locales
    (auto simp: rtems_pid_container_add_to_list_def rtems_pid_container_remove_from_list_def
      rtems_pid_container_exists_def rtems_container_get_root_def pid_registry_def pid_root_def
      split: option.splits prod.splits)

lemma pid_remove_from_list_ok:
  assumes "pid_root s = Some r"
  obtains m where "rtems_pid_container_remove_from_list (Some c) s =
      s\<lparr>mem := m, rootContainer := map_option (unregister_pid c) (rootContainer s)\<rparr>"
    "brk m = brk (mem s)" "oom m = oom (mem s)"
    "live m - int (length (remove1 c (pid_registry s))) = live (mem s) - int (length (pid_registry s))"
proof -
  from assms obtain rc where rc: "rootContainer s = Some rc"
    by (cases "rootContainer s") (auto simp: pid_root_def)
  show thesis
    by (rule that [of "if c \<in> set (pidContainerList rc) then free_block (mem s) else mem s"])
      (auto simp: rtems_pid_container_remove_from_list_def rtems_container_get_root_def rc
        list_unlink_def pid_registry_def remove1_idem)
qed

lemma pid_root_unregister:
  "rootContainer s' = map_option (unregister_pid c) (rootContainer s) \<Longrightarrow>
     pid_root s' = pid_root s \<and> pid_registry s' = remove1 c (pid_registry s)"
  by (cases "rootContainer s") (auto simp: pid_root_def pid_registry_def)

lemma pid_inv_free:
  assumes "pid_inv s" "pid_root s \<noteq> Some c" "c \<notin> set (pid_registry s)" "brk m = brk (mem s)"
  shows "pid_inv (s\<lparr>mem := m, pids := (pids s)(c := None)\<rparr>)"
proof -
  let ?s = "s\<lparr>mem := m, pids := (pids s)(c := None)\<rparr>"
  have "pid_root ?s = pid_root s" "pid_registry ?s = pid_registry s"
    by (simp_all add: pid_root_def pid_registry_def)
  moreover have "heap_ok m ((pids s)(c := None))"
    using heap_ok_remove [OF pid_invD(1) [OF assms(1)]] assms(4) by (auto simp: heap_ok_def)
  ultimately show ?thesis using assms(1-3) by (auto simp: pid_inv_def)
qed

lemma pid_slack_free:
  assumes "pid_inv s" "pids s c = Some pc"
  shows "pid_slack (s\<lparr>mem := m, pids := (pids s)(c := None)\<rparr>)
     = pid_slack s + (live m - live (mem s)) + pid_blocks pc"
  using owned_remove [OF heap_ok_finite [OF pid_invD(1) [OF assms(1)]] assms(2), of pid_blocks]
  by (simp add: pid_slack_def pid_registry_def)

lemma pid_delete_ok:
  assumes inv: "pid_inv s" and c: "pids s c = Some pc" and r: "pid_root s = Some r" "c \<noteq> r"
    and pr: "pids s r = Some pr"
  shows "\<exists>pr' m' s'. rtems_pid_container_delete (Some c) s = Some s' \<and>
     s' = s\<lparr>mem := m', rootContainer := map_option (unregister_pid c) (rootContainer s),
       pids := (pids s)(r \<mapsto> pr', c := None), threads := redirect_threads c r (threadList pc) (threads s)\<rparr> \<and>
     pid_inv s' \<and> pid_slack s' = pid_slack s \<and>
     set (threadList pr) \<subseteq> set (threadList pr') \<and>
     pid_rc pr' - int (length (threadList pr')) \<ge> pid_rc pr - int (length (threadList pr))"
proof -
  have rnot: "r \<notin> set (pid_registry s)"
    by (rule pid_inv_root [OF inv]) (use r in auto)
  obtain m where rem: "rtems_pid_container_remove_from_list (Some c) s =
      s\<lparr>mem := m, rootContainer := map_option (unregister_pid c) (rootContainer s)\<rparr>"
    "brk m = brk (mem s)" "oom m = oom (mem s)"
    "live m - int (length (remove1 c (pid_registry s))) = live (mem s) - int (length (pid_registry s))"
    by (rule pid_remove_from_list_ok [OF r(1)])
  define s1 where "s1 = s\<lparr>mem := m, rootContainer := map_option (unregister_pid c) (rootContainer s)\<rparr>"
  have root1: "pid_root s1 = Some r" "pid_registry s1 = remove1 c (pid_registry s)"
    using pid_root_unregister [of s1 c s] r by (auto simp: s1_def)
  have dist: "distinct (pid_registry s)" "set (pid_registry s) \<subseteq> dom (pids s)"
    using pid_invD(5,6) [OF inv] .
  have inv1: "pid_inv s1"
    using inv root1 pr rnot rem(2) set_remove1_subset [of c "pid_registry s"] unfolding pid_inv_def
    by (auto simp: s1_def heap_ok_def)
  have sl1: "pid_slack s1 = pid_slack s"
    using rem(4) by (simp add: pid_slack_def root1) (simp add: s1_def)
  have c1: "pids s1 c = Some pc" "pids s1 r = Some pr" using c pr by (simp_all add: s1_def)
  define s2 where "s2 = pid_store c (pc\<lparr>pid_rc := -1, threadList := []\<rparr>) m s1"
  have inv2: "pid_inv s2" unfolding s2_def
    by (rule pid_inv_store [OF inv1 c1(1)]) (use pid_invD(2) [OF inv c] in \<open>auto simp: s1_def\<close>)
  have sl2: "pid_slack s2 = pid_slack s + int (length (threadList pc))"
    unfolding s2_def pid_slack_store [OF inv1 c1(1)] using sl1 by (simp add: s1_def pid_blocks_def)
  have r2: "pid_root s2 = Some r" "pids s2 r = Some pr" "set (threadList pc) \<subseteq> dom (threads s2)"
    using root1 c1 r pid_invD(3) [OF inv c] by (simp_all add: s2_def s1_def)
  from pid_migrate_ok [OF inv2 r2(1,2) r(2) r2(3)] obtain s3 pr' m3 where mig:
    "pid_migrate c r (threadList pc) s2 = Some s3"
    "s3 = s2\<lparr>mem := m3, pids := (pids s2)(r \<mapsto> pr'),
       threads := redirect_threads c r (threadList pc) (threads s2)\<rparr>"
    "pid_inv s3" "pid_slack s3 = pid_slack s2 - int (length (threadList pc))"
    "set (threadList pr) \<subseteq> set (threadList pr')"
    "pid_rc pr' - int (length (threadList pr')) \<ge> pid_rc pr - int (length (threadList pr))"
    by blast
  have c3: "pids s3 c = Some (pc\<lparr>pid_rc := -1, threadList := []\<rparr>)"
    using r(2) by (simp add: mig(2) s2_def)
  let ?m4 = "free_block (free_blocks (length (freeVidList pc)) m3)"
  define s4 where "s4 = s3\<lparr>mem := ?m4, pids := (pids s3)(c := None)\<rparr>"
  have s4: "rtems_pid_container_delete (Some c) s = Some s4"
    using r mig(1) c3 c1 rem(1) unfolding pid_root_def
    by (simp add: rtems_pid_container_delete_def rtems_container_get_root_def s1_def [symmetric]
        s2_def s4_def) (simp add: mig(2) s1_def s2_def)
  have reg4: "pid_root s4 = Some r" "pid_registry s4 = remove1 c (pid_registry s)"
    using root1 by (simp_all add: s4_def mig(2) s2_def pid_root_def pid_registry_def)
  have reg3: "pid_root s3 = Some r" "pid_registry s3 = remove1 c (pid_registry s)"
    using root1 by (simp_all add: mig(2) s2_def pid_root_def pid_registry_def)
  have "pid_inv s4" unfolding s4_def
    by (rule pid_inv_free [OF mig(3)]) (use reg3 r(2) dist mig(2) in auto)
  moreover have "mem s3 = m3" by (simp add: mig(2))
  then have "pid_slack s4 = pid_slack s"
    unfolding s4_def pid_slack_free [OF mig(3) c3] mig(4) sl2 by (simp add: pid_blocks_def)
  moreover have "s4 = s\<lparr>mem := ?m4, rootContainer := map_option (unregister_pid c) (rootContainer s),
      pids := (pids s)(r \<mapsto> pr', c := None),
      threads := redirect_threads c r (threadList pc) (threads s)\<rparr>"
    using r(2) by (simp add: s4_def mig(2) s2_def s1_def pid_store_def fun_upd_twist)
  ultimately show ?thesis using s4 mig(5,6) by blast
qed

text \<open>What every operation does: it keeps the invariant, the account of heap blocks, the set of
  threads and the root container.\<close>

definition pid_keeps :: "'a pid_kernel_scheme \<Rightarrow> 'a pid_kernel_scheme \<Rightarrow> bool" where
  "pid_keeps s s' \<longleftrightarrow> pid_inv s' \<and> pid_slack s' = pid_slack s \<and>
     dom (threads s') = dom (threads s) \<and> pid_root s' = pid_root s"

lemma pid_keeps_refl: "pid_inv s \<Longrightarrow> pid_keeps s s"
  by (simp add: pid_keeps_def)

lemma pid_keeps_trans: "pid_keeps s s' \<Longrightarrow> pid_keeps s' s'' \<Longrightarrow> pid_keeps s s''"
  by (simp add: pid_keeps_def)

lemma pid_keeps_store:
  assumes "pid_inv s" "pids s c = Some pc" "pid_wf pc'" "set (threadList pc') \<subseteq> dom (threads s)"
    "brk (mem s) \<le> brk m" "live m - pid_blocks pc' = live (mem s) - pid_blocks pc"
  shows "pid_keeps s (pid_store c pc' m s)"
  using pid_inv_store [OF assms(1-5)] pid_slack_store [OF assms(1,2)] assms(6)
  by (simp add: pid_keeps_def)

lemma pid_keeps_oom:
  assumes "pid_inv s" "brk (mem s) \<le> brk m" "live m = live (mem s)"
  shows "pid_keeps s (s\<lparr>mem := m\<rparr>)"
  using assms heap_ok_mono [OF pid_invD(1) [OF assms(1)] assms(2)]
  by (auto simp: pid_keeps_def pid_inv_def pid_slack_def pid_registry_def pid_root_def)

lemma pid_keeps_delete:
  assumes "pid_inv s" "pids s c = Some pc"
  shows "\<exists>s'. rtems_pid_container_delete (Some c) s = Some s' \<and> pid_keeps s s'"
proof -
  obtain r pr where r: "pid_root s = Some r" "pids s r = Some pr"
    by (rule pid_inv_root [OF assms(1)])
  show ?thesis
  proof (cases "c = r")
    case True
    with r assms(1) show ?thesis
      by (auto simp: rtems_pid_container_delete_def rtems_container_get_root_def pid_root_def
          intro: pid_keeps_refl)
  next
    case False
    from pid_delete_ok [OF assms r(1) False r(2)] obtain pr' m' s' where
      d: "rtems_pid_container_delete (Some c) s = Some s'"
      "s' = s\<lparr>mem := m', rootContainer := map_option (unregister_pid c) (rootContainer s),
         pids := (pids s)(r \<mapsto> pr', c := None),
         threads := redirect_threads c r (threadList pc) (threads s)\<rparr>"
      "pid_inv s'" "pid_slack s' = pid_slack s" by blast
    have "pid_root s' = pid_root s" using pid_root_unregister [of s' c s] by (simp add: d(2))
    with d show ?thesis by (intro exI [of _ s']) (simp add: pid_keeps_def)
  qed
qed

subsection \<open>No dangling namespace pointers\<close>

text \<open>A thread points to the root container, or to a live container that lists it.\<close>

definition pid_linked :: "'a pid_kernel_scheme \<Rightarrow> bool" where
  "pid_linked s \<longleftrightarrow> (\<forall>t c. thread_ns pidContainer s t = Some c \<longrightarrow>
     pid_root s = Some c \<or> (\<exists>pc. pids s c = Some pc \<and> t \<in> set (threadList pc)))"

lemma pid_linked_mem: "pid_linked (s\<lparr>mem := m\<rparr>) = pid_linked s"
  by (simp add: pid_linked_def thread_ns_def pid_root_def)

lemma thread_ns_redirect_threads:
  assumes "threads s' = redirect_threads c r ts (threads s)"
  shows "thread_ns pidContainer s' t =
     (if t \<in> set ts \<and> thread_ns pidContainer s t = Some c then Some r else thread_ns pidContainer s t)"
  using assms
  by (cases "threads s t"; cases "container (the (threads s t))")
    (auto simp: thread_ns_def redirect_threads_def redirect_pid_def upd_container_def)

lemma pid_linked_delete:
  assumes inv: "pid_inv s" and l: "pid_linked s" and c: "pids s c = Some pc"
    and del: "rtems_pid_container_delete (Some c) s = Some s'"
  shows "pid_linked s'"
proof -
  obtain r pr where r: "pid_root s = Some r" "pids s r = Some pr" by (rule pid_inv_root [OF inv])
  show ?thesis
  proof (cases "c = r")
    case True
    with del r l show ?thesis
      by (simp add: rtems_pid_container_delete_def rtems_container_get_root_def pid_root_def)
  next
    case False
    from pid_delete_ok [OF inv c r(1) False r(2)] del obtain pr' m' where
      s': "s' = s\<lparr>mem := m', rootContainer := map_option (unregister_pid c) (rootContainer s),
         pids := (pids s)(r \<mapsto> pr', c := None),
         threads := redirect_threads c r (threadList pc) (threads s)\<rparr>" by auto
    have root: "pid_root s' = Some r" using pid_root_unregister [of s' c s] r by (simp add: s')
    have ns: "thread_ns pidContainer s' t = (if t \<in> set (threadList pc) \<and>
        thread_ns pidContainer s t = Some c then Some r else thread_ns pidContainer s t)" for t
      by (rule thread_ns_redirect_threads) (simp add: s')
    have "\<exists>pc. pids s' d = Some pc \<and> t \<in> set (threadList pc)"
      if t: "thread_ns pidContainer s' t = Some d" and d: "d \<noteq> r" for t d
    proof -
      from t d ns have old: "thread_ns pidContainer s t = Some d" by (auto split: if_splits)
      with l r d obtain qc where q: "pids s d = Some qc" "t \<in> set (threadList qc)"
        by (auto simp: pid_linked_def)
      have "d \<noteq> c" using q c old ns t d by auto
      with q d show ?thesis by (simp add: s')
    qed
    with root show ?thesis by (auto simp: pid_linked_def)
  qed
qed

lemma thread_ns_redirect_cases:
  "thread_ns pidContainer (upd_thread t (redirect_pid a b) s) u =
     (if u = t \<and> thread_ns pidContainer s u = Some a then Some b else thread_ns pidContainer s u)"
  by (cases "threads s u"; cases "container (the (threads s u))")
    (auto simp: thread_ns_def upd_thread_def redirect_pid_def upd_container_def)

lemma pid_linked_transfer:
  assumes "pid_linked s" "pids s a = Some pa" "pids s b = Some pb0" "a \<noteq> b"
    "threadList pb = threadList pb0"
  shows "pid_linked (upd_thread t (redirect_pid a b) (s\<lparr>mem := m, pids := (pids s)
     (a \<mapsto> (pid_recycle i k pa)\<lparr>threadList := remove1 t (threadList pa), pid_rc := x\<rparr>,
      b \<mapsto> pb\<lparr>pidArray := arr, threadList := t # threadList pb, pid_rc := y\<rparr>)\<rparr>))"
proof -
  let ?s = "s\<lparr>mem := m, pids := (pids s)
     (a \<mapsto> (pid_recycle i k pa)\<lparr>threadList := remove1 t (threadList pa), pid_rc := x\<rparr>,
      b \<mapsto> pb\<lparr>pidArray := arr, threadList := t # threadList pb, pid_rc := y\<rparr>)\<rparr>"
  have e: "thread_ns pidContainer ?s u = thread_ns pidContainer s u" "pid_root ?s = pid_root s" for u
    by (simp_all add: thread_ns_def pid_root_def)
  have rem: "u \<in> set (remove1 t (threadList pa))" if "u \<in> set (threadList pa)" "u \<noteq> t" for u
    using that by simp
  have old: "pid_root s = Some d \<or> (\<exists>pc. pids s d = Some pc \<and> u \<in> set (threadList pc))"
    if "thread_ns pidContainer s u = Some d" for u d
    using assms(1) that by (auto simp: pid_linked_def)
  show ?thesis unfolding pid_linked_def upd_thread_pids thread_ns_redirect_cases e
    using assms(2-5) rem old by (fastforce split: if_splits)
qed

lemma pid_keeps_transfer:
  assumes inv: "pid_inv s" and a: "pids s a = Some pa" and b: "pids s b = Some pb0" and ab: "a \<noteq> b"
    and t: "t \<in> set (threadList pa)" and use: "pid_in_use pa i"
    and v: "1 \<le> v" "v < int (length (pidArray pb))"
    and wf: "pid_wf (pb\<lparr>pidArray := (pidArray pb)[nat v := \<lparr>vid = v, id_of = oid\<rparr>]\<rparr>)"
    and pb: "threadList pb = threadList pb0" and m: "brk (mem s) \<le> brk m"
    and live: "live m - int (length (freeVidList pb)) = live (mem s) - int (length (freeVidList pb0)) + 1"
  shows "\<exists>s'. pid_transfer a b t oid i v pa pb m s = Some s' \<and> pid_keeps s s' \<and>
     (pid_linked s \<longrightarrow> pid_linked s')"
proof -
  define pa' where "pa' = (pid_recycle i (int i) pa)
      \<lparr>threadList := remove1 t (threadList pa), pid_rc := pid_rc pa - 1\<rparr>"
  define pb' where "pb' = pb\<lparr>pidArray := (pidArray pb)[nat v := \<lparr>vid = v, id_of = oid\<rparr>],
      threadList := t # threadList pb, pid_rc := pid_rc pb + 1\<rparr>"
  have wfa: "pid_wf pa'" using pid_wf_recycle [OF pid_invD(2) [OF inv a] use] by (simp add: pa'_def)
  have wfb: "pid_wf pb'" using wf by (simp add: pb'_def)
  have tl: "set (threadList pa') \<subseteq> dom (threads s)" "set (threadList pb') \<subseteq> dom (threads s)"
    using pid_invD(3) [OF inv a] pid_invD(3) [OF inv b] t set_remove1_subset [of t "threadList pa"]
    by (auto simp: pa'_def pb'_def pb)
  define s1 where "s1 = pid_store a pa' m s"
  have inv1: "pid_inv s1" unfolding s1_def by (rule pid_inv_store [OF inv a wfa tl(1) m])
  have b1: "pids s1 b = Some pb0" using b ab by (simp add: s1_def)
  define s2 where "s2 = pid_store b pb' m s1"
  have inv2: "pid_inv s2" unfolding s2_def
    by (rule pid_inv_store [OF inv1 b1 wfb]) (use tl in \<open>simp_all add: s1_def\<close>)
  have "pid_slack s2 = pid_slack s"
    unfolding s2_def pid_slack_store [OF inv1 b1] unfolding s1_def pid_slack_store [OF inv a]
    using t live by (simp add: pid_blocks_def pa'_def pb'_def pb)
  define s3 where "s3 = upd_thread t (redirect_pid a b) s2"
  have keep: "pid_keeps s s3"
    using pid_inv_upd_thread [OF inv2, of "redirect_pid a b" t] \<open>pid_slack s2 = pid_slack s\<close>
    by (simp add: pid_keeps_def s3_def s2_def s1_def)
  have tr: "pid_transfer a b t oid i v pa pb m s =
      (if pid_rc pa - 1 = 0 then rtems_pid_container_delete (Some a) s3 else Some s3)"
    using v by (simp add: pid_transfer_def array_update_def s3_def s2_def s1_def pa'_def pb'_def
        pid_store_def)
  have a3: "pids s3 a = Some pa'" using ab by (simp add: s3_def s2_def s1_def)
  have "pid_linked s3" if "pid_linked s"
    using pid_linked_transfer [OF that a b ab pb, where t = t and m = m and i = i and k = "int i" and
        x = "pid_rc pa - 1" and y = "pid_rc pb + 1" and
        arr = "(pidArray pb)[nat v := \<lparr>vid = v, id_of = oid\<rparr>]"]
    by (simp add: s3_def s2_def s1_def pa'_def pb'_def pid_store_def)
  moreover obtain s4 where "rtems_pid_container_delete (Some a) s3 = Some s4" "pid_keeps s3 s4"
    using pid_keeps_delete [OF _ a3] keep by (auto simp: pid_keeps_def)
  ultimately show ?thesis
    using tr keep pid_linked_delete [OF _ _ a3, of s4] pid_keeps_trans [OF keep, of s4]
    by (auto simp: pid_keeps_def)
qed

text \<open>Finding the slot of a thread.\<close>

lemma pid_scan_src:
  assumes "pid_wf pc" "array_scan (\<lambda>p. id_of p = oid \<and> vid p \<noteq> 0) 1 (drop 1 (pidArray pc)) = Some i"
    "oid \<noteq> 0"
  shows "pid_in_use pc i" "i < RTEMS_MAX_PROCESS_LIMIT" "id_of (pidArray pc ! i) = oid"
proof -
  from array_scan_fromD [OF assms(2)]
  have "i < length (pidArray pc)" and id: "id_of (pidArray pc ! i) = oid" by auto
  then show lt: "i < RTEMS_MAX_PROCESS_LIMIT" using pid_wf_length [OF assms(1)] by simp
  show "id_of (pidArray pc ! i) = oid" by (rule id)
  show "pid_in_use pc i" using pid_wf_used(1) [OF assms(1) lt] id assms(3) by simp
qed

lemma pid_keeps_move_task:
  assumes inv: "pid_inv s" and "a \<in> dom (pids s)" "b \<in> dom (pids s)" "t \<in> dom (threads s)"
  shows "\<exists>s'. rtems_pid_container_move_task (Some a) (Some b) (Some t) s = Some s' \<and> pid_keeps s s' \<and>
     (pid_linked s \<longrightarrow> pid_linked s')"
proof -
  from assms obtain pa pb th where
    h: "pids s a = Some pa" "pids s b = Some pb" "threads s t = Some th" by auto
  note keep = pid_keeps_refl [OF inv]
  let ?scan = "array_scan (\<lambda>p. id_of p = Object_id th \<and> vid p \<noteq> 0) 1 (drop 1 (pidArray pa))"
  show ?thesis
  proof (cases "a = b \<or> pid_rc pa \<le> 0 \<or> t \<notin> set (threadList pa) \<or> ?scan = None \<or> t \<in> set (threadList pb)")
    case True
    with h keep show ?thesis by (auto simp: rtems_pid_container_move_task_def split: option.splits)
  next
    case False
    then obtain i where i: "?scan = Some i" by auto
    have oid: "Object_id th \<noteq> 0" using pid_invD(4) [OF inv h(3)] .
    note use = pid_scan_src(1) [OF pid_invD(2) [OF inv h(1)] i oid]
    note wfb = pid_invD(2) [OF inv h(2)]
    show ?thesis
    proof (cases "freeVidList pb")
      case (Cons v vs)
      note r = pid_wf_reuse [OF wfb Cons oid]
      have "\<exists>s'. pid_transfer a b t (Object_id th) i v pa (pb\<lparr>freeVidList := vs\<rparr>) (mem s) s = Some s'
          \<and> pid_keeps s s' \<and> (pid_linked s \<longrightarrow> pid_linked s')"
        by (rule pid_keeps_transfer [OF inv h(1,2)])
          (use False use r Cons pid_wf_length [OF wfb] in simp_all)
      with False h i Cons show ?thesis by (simp add: rtems_pid_container_move_task_def)
    next
      case Nil
      show ?thesis
      proof (cases "pidCount pb \<ge> int RTEMS_MAX_PROCESS_LIMIT - 1 \<or> oom (mem s) (brk (mem s))")
        case True
        with False h i Nil keep show ?thesis
          by (auto simp: rtems_pid_container_move_task_def malloc_def pid_linked_mem
              intro!: pid_keeps_oom inv)
      next
        case room: False
        have "0 \<le> pidCount pb" using wfb by (simp add: pid_wf_def)
        have "\<exists>s'. pid_transfer a b t (Object_id th) i (pidCount pb + 1) pa
            (pb\<lparr>pidCount := pidCount pb + 1\<rparr>) (snd (malloc (mem s))) s = Some s' \<and> pid_keeps s s' \<and>
            (pid_linked s \<longrightarrow> pid_linked s')"
          by (rule pid_keeps_transfer [OF inv h(1,2)])
            (use False use room Nil pid_wf_length [OF wfb] \<open>0 \<le> pidCount pb\<close>
              pid_wf_extend [OF wfb Nil _ oid] in \<open>simp_all add: malloc_def\<close>)
        with False h i Nil room show ?thesis
          by (simp add: rtems_pid_container_move_task_def malloc_def)
      qed
    qed
  qed
qed

lemma pid_keeps_drop_ref:
  assumes "pid_inv s" "pids s c = Some pc0" "pid_wf pc" "set (threadList pc) \<subseteq> dom (threads s)"
    "brk (mem s) \<le> brk m" "live m - pid_blocks pc = live (mem s) - pid_blocks pc0"
  shows "\<exists>s'. pid_drop_ref c pc m s = Some s' \<and> pid_keeps s s'"
proof -
  let ?pc = "pc\<lparr>pid_rc := pid_rc pc - 1\<rparr>"
  let ?s = "pid_store c ?pc m s"
  have "pid_blocks ?pc = pid_blocks pc" by (simp add: pid_blocks_def)
  then have keep: "pid_keeps s ?s" using assms by (intro pid_keeps_store [OF assms(1,2)]) simp_all
  then have "\<exists>s'. rtems_pid_container_delete (Some c) ?s = Some s' \<and> pid_keeps ?s s'"
    by (intro pid_keeps_delete [of _ _ ?pc]) (simp_all add: pid_keeps_def)
  with keep show ?thesis by (auto simp: pid_drop_ref_def Let_def intro: pid_keeps_trans)
qed

lemma pid_unlink_thread_ok:
  assumes "pid_unlink_thread t pc m = (pc', m')"
  shows "pid_wf pc' = pid_wf pc" "set (threadList pc') \<subseteq> set (threadList pc)" "brk m' = brk m"
    "live m' - pid_blocks pc' = live m - pid_blocks pc"
  using assms set_remove1_subset [of t "threadList pc"]
  by (auto simp: pid_unlink_thread_def pid_blocks_def split: if_splits)

lemma pid_keeps_remove_task:
  assumes inv: "pid_inv s" and c: "pids s c = Some pc" and t: "threads s t = Some th"
  shows "\<exists>s'. rtems_pid_container_remove_task (Some c) (Some t) s = Some s' \<and> pid_keeps s s'"
proof -
  let ?scan = "array_scan (\<lambda>p. id_of p = Object_id th) 0 (pidArray pc)"
  note wf = pid_invD(2) [OF inv c]
  show ?thesis
  proof (cases "pid_rc pc \<le> 0")
    case True
    with c pid_keeps_refl [OF inv] show ?thesis by (simp add: rtems_pid_container_remove_task_def)
  next
    case rc: False
    show ?thesis
    proof (cases ?scan)
      case None
      obtain pc1 m1 where u: "pid_unlink_thread t pc (mem s) = (pc1, m1)" by fastforce
      have "\<exists>s'. pid_drop_ref c pc1 m1 s = Some s' \<and> pid_keeps s s'"
        by (rule pid_keeps_drop_ref [OF inv c])
          (use pid_unlink_thread_ok [OF u] wf pid_invD(3) [OF inv c] in auto)
      with rc c t None u show ?thesis by (simp add: rtems_pid_container_remove_task_def)
    next
      case (Some i)
      from array_scan_SomeD [OF Some] have i: "i < RTEMS_MAX_PROCESS_LIMIT"
        "id_of (pidArray pc ! i) = Object_id th" using pid_wf_length [OF wf] by auto
      then have nz: "id_of (pidArray pc ! i) \<noteq> 0" using pid_invD(4) [OF inv t] by simp
      note use = pid_wf_used [OF wf i(1) nz]
      show ?thesis
      proof (cases "oom (mem s) (brk (mem s))")
        case True
        with rc c t Some pid_keeps_oom [OF inv] show ?thesis
          by (simp add: rtems_pid_container_remove_task_def malloc_def)
      next
        case False
        let ?pc = "pid_recycle i (int i) pc"
        obtain pc1 m1 where u: "pid_unlink_thread t ?pc (snd (malloc (mem s))) = (pc1, m1)" by fastforce
        have "live (snd (malloc (mem s))) - pid_blocks ?pc = live (mem s) - pid_blocks pc"
          using False by (simp add: malloc_def pid_blocks_def)
        then have "\<exists>s'. pid_drop_ref c pc1 m1 s = Some s' \<and> pid_keeps s s'"
          by (intro pid_keeps_drop_ref [OF inv c])
            (use pid_unlink_thread_ok [OF u] pid_wf_recycle [OF wf use(1)]
              pid_invD(3) [OF inv c] in auto)
        with rc c t Some u False use(2) show ?thesis
          by (simp add: rtems_pid_container_remove_task_def malloc_def)
      qed
    qed
  qed
qed

lemma pid_keeps_add_task:
  assumes "pid_inv s" "pids s c = Some pc" "threads s t = Some th"
  shows "\<exists>s'. rtems_pid_container_add_task (Some c) (Some t) s = Some s' \<and> pid_keeps s s'"
  by (rule pid_add_task_ok [OF assms]) (auto simp: pid_keeps_def)

lemma pid_keeps_inc_rc:
  assumes "pid_inv s" "pids s c = Some pc"
  shows "\<exists>s'. rtems_pid_container_inc_rc (Some c) s = Some s' \<and> pid_keeps s s'"
  using assms pid_keeps_store [OF assms, of "pc\<lparr>pid_rc := pid_rc pc + 1\<rparr>" "mem s"] pid_invD [OF assms(1)]
  by (simp add: rtems_pid_container_inc_rc_def pid_blocks_def)

lemma pid_keeps_create:
  assumes inv: "pid_inv s" and new: "rtems_pid_container_create s = (p, s')"
  shows "pid_keeps s s' \<and> (p = None \<longleftrightarrow> oom (mem s) (brk (mem s))) \<and>
     (\<forall>c. p = Some c \<longrightarrow> c = brk (mem s) \<and>
        pids s' = (pids s)(c \<mapsto> PidContainer_new (g_pidContainerId s + 1)))"
proof (cases "oom (mem s) (brk (mem s))")
  case True
  with new pid_keeps_oom [OF inv] show ?thesis
    by (auto simp: rtems_pid_container_create_def malloc_def)
next
  case False
  let ?c = "brk (mem s)" and ?pc = "PidContainer_new (g_pidContainerId s + 1)"
  let ?m = "snd (malloc (mem s))"
  obtain r where r: "pid_root s = Some r" "r \<in> dom (pids s)" "r \<notin> set (pid_registry s)"
    using inv by (auto simp: pid_inv_def)
  then obtain rc where rc: "rootContainer s = Some rc" by (cases "rootContainer s") (auto simp: pid_root_def)
  obtain l m2 where push: "list_push ?c (pidContainerList rc) ?m = (l, m2)" by fastforce
  have s': "p = Some ?c" "s' = s\<lparr>mem := m2, rootContainer := Some (rc\<lparr>pidContainerList := l\<rparr>),
      pids := (pids s)(?c \<mapsto> ?pc), g_pidContainerId := g_pidContainerId s + 1\<rparr>"
    using new False push rc
    by (auto simp: rtems_pid_container_create_def malloc_def rtems_pid_container_add_to_list_def
        rtems_container_get_root_def pid_store_def)
  have fresh: "pids s ?c = None" using heap_ok_fresh [OF pid_invD(1) [OF inv]] .
  have reg: "pid_registry s = pidContainerList rc" "pid_registry s' = l" "pid_root s' = pid_root s"
    using rc by (simp_all add: pid_registry_def pid_root_def s')
  have l: "l = pidContainerList rc \<or> l = ?c # pidContainerList rc"
    using push by (auto simp: list_push_def malloc_def split: if_splits)
  have "distinct l \<and> set l \<subseteq> dom (pids s') \<and> r \<notin> set l"
    using l r fresh pid_invD(5,6) [OF inv] reg by (auto simp: s')
  moreover have "heap_ok m2 (pids s')"
    using heap_ok_new [OF pid_invD(1) [OF inv], of m2] list_push_brk [OF push] by (simp add: s')
  ultimately have "pid_inv s'"
    using inv r reg by (auto simp: pid_inv_def s' PidContainer_new_def [THEN arg_cong, of threadList])
  moreover have "pid_slack s' = pid_slack s"
    using list_push_live [OF push] owned_new [OF heap_ok_finite [OF pid_invD(1) [OF inv]] fresh, of pid_blocks ?pc]
    by (simp add: pid_slack_def reg) (simp add: s' malloc_def False pid_blocks_def PidContainer_new_def)
  ultimately show ?thesis using False reg by (simp add: pid_keeps_def s')
qed

section \<open>The namespace as a transition system\<close>

text \<open>
  A thread enters the system with an object id that is not zero and a \<open>Container\<close> that
  points to the root PID container; it is then added there (\<open>taskconstruct.c\<close>). Every other
  step is one call of the interface with pointers to live objects or NULL.
\<close>

definition pid_spawn :: "addr \<Rightarrow> Thread_Control \<Rightarrow> 'a pid_kernel_scheme \<Rightarrow> 'a pid_kernel_scheme option"
where
  "pid_spawn t th s = rtems_pid_container_add_task (pid_root s) (Some t)
     (s\<lparr>threads := (threads s)(t \<mapsto> th\<lparr>container :=
        Some (Container_zero\<lparr>pidContainer := pid_root s\<rparr>)\<rparr>)\<rparr>)"

definition live_ptr :: "(addr \<rightharpoonup> 'b) \<Rightarrow> ptr \<Rightarrow> bool" where
  "live_ptr h p \<longleftrightarrow> (\<forall>a. p = Some a \<longrightarrow> a \<in> dom h)"

inductive pid_step :: "'a pid_kernel_scheme \<Rightarrow> 'a pid_kernel_scheme \<Rightarrow> bool" where
  create: "rtems_pid_container_create s = (p, s') \<Longrightarrow> pid_step s s'"
| delete: "live_ptr (pids s) p \<Longrightarrow> rtems_pid_container_delete p s = Some s' \<Longrightarrow> pid_step s s'"
| add: "live_ptr (pids s) p \<Longrightarrow> live_ptr (threads s) t \<Longrightarrow>
     rtems_pid_container_add_task p t s = Some s' \<Longrightarrow> pid_step s s'"
| remove: "live_ptr (pids s) p \<Longrightarrow> live_ptr (threads s) t \<Longrightarrow>
     rtems_pid_container_remove_task p t s = Some s' \<Longrightarrow> pid_step s s'"
| move: "live_ptr (pids s) p \<Longrightarrow> live_ptr (pids s) q \<Longrightarrow> live_ptr (threads s) t \<Longrightarrow>
     rtems_pid_container_move_task p q t s = Some s' \<Longrightarrow> pid_step s s'"
| inc: "live_ptr (pids s) p \<Longrightarrow> rtems_pid_container_inc_rc p s = Some s' \<Longrightarrow> pid_step s s'"
| spawn: "threads s t = None \<Longrightarrow> Object_id th \<noteq> 0 \<Longrightarrow> pid_spawn t th s = Some s' \<Longrightarrow> pid_step s s'"

inductive_cases pid_step_cases: "pid_step s s'"

text \<open>Interface calls with NULL arguments do nothing, so liveness of the arguments suffices.\<close>

lemma live_ptr_None [simp]: "live_ptr h None"
  by (simp add: live_ptr_def)

lemma live_ptr_Some [simp]: "live_ptr h (Some a) \<longleftrightarrow> a \<in> dom h"
  by (simp add: live_ptr_def)

lemma pid_delete_total:
  "pid_inv s \<Longrightarrow> live_ptr (pids s) p \<Longrightarrow> \<exists>s'. rtems_pid_container_delete p s = Some s' \<and> pid_keeps s s'"
  by (cases p) (auto simp: rtems_pid_container_delete_def [of None] intro: pid_keeps_refl pid_keeps_delete)

lemma pid_add_task_total:
  "pid_inv s \<Longrightarrow> live_ptr (pids s) p \<Longrightarrow> live_ptr (threads s) t \<Longrightarrow>
     \<exists>s'. rtems_pid_container_add_task p t s = Some s' \<and> pid_keeps s s'"
  by (cases p; cases t) (auto simp: rtems_pid_container_add_task_def [of None]
      rtems_pid_container_add_task_def [of _ None] intro: pid_keeps_refl pid_keeps_add_task)

lemma pid_remove_task_total:
  "pid_inv s \<Longrightarrow> live_ptr (pids s) p \<Longrightarrow> live_ptr (threads s) t \<Longrightarrow>
     \<exists>s'. rtems_pid_container_remove_task p t s = Some s' \<and> pid_keeps s s'"
  by (cases p; cases t) (auto simp: rtems_pid_container_remove_task_def [of None]
      rtems_pid_container_remove_task_def [of _ None] intro: pid_keeps_refl pid_keeps_remove_task)

lemma pid_move_task_total:
  "pid_inv s \<Longrightarrow> live_ptr (pids s) p \<Longrightarrow> live_ptr (pids s) q \<Longrightarrow> live_ptr (threads s) t \<Longrightarrow>
     \<exists>s'. rtems_pid_container_move_task p q t s = Some s' \<and> pid_keeps s s' \<and>
       (pid_linked s \<longrightarrow> pid_linked s')"
  by (cases p; cases q; cases t) (auto simp: rtems_pid_container_move_task_def [of None]
      rtems_pid_container_move_task_def [of _ None] rtems_pid_container_move_task_def [of _ _ None]
      intro: pid_keeps_refl pid_keeps_move_task)

lemma pid_inc_rc_total:
  "pid_inv s \<Longrightarrow> live_ptr (pids s) p \<Longrightarrow> \<exists>s'. rtems_pid_container_inc_rc p s = Some s' \<and> pid_keeps s s'"
  by (cases p) (auto simp: rtems_pid_container_inc_rc_def [of None] intro: pid_keeps_refl pid_keeps_inc_rc)

lemma pid_spawn_ok:
  assumes "pid_inv s" "threads s t = None" "Object_id th \<noteq> 0"
  shows "\<exists>s'. pid_spawn t th s = Some s' \<and> pid_inv s' \<and> pid_slack s' = pid_slack s \<and>
     pid_root s' = pid_root s \<and> dom (threads s') = insert t (dom (threads s))"
proof -
  let ?th = "th\<lparr>container := Some (Container_zero\<lparr>pidContainer := pid_root s\<rparr>)\<rparr>"
  let ?s = "s\<lparr>threads := (threads s)(t \<mapsto> ?th)\<rparr>"
  have e: "pid_root ?s = pid_root s" "pid_registry ?s = pid_registry s" "pid_slack ?s = pid_slack s"
    by (simp_all add: pid_root_def pid_registry_def pid_slack_def)
  have inv: "pid_inv ?s" using assms unfolding pid_inv_def e by auto
  obtain r pr where r: "pid_root s = Some r" "pids s r = Some pr" by (rule pid_inv_root [OF assms(1)])
  from pid_keeps_add_task [OF inv, of r pr t ?th] r obtain s' where
    "rtems_pid_container_add_task (Some r) (Some t) ?s = Some s'" "pid_keeps ?s s'" by auto
  with r e show ?thesis by (auto simp: pid_spawn_def pid_keeps_def)
qed

lemma pid_step_ok:
  assumes "pid_step s s'" "pid_inv s"
  shows "pid_inv s' \<and> pid_slack s' = pid_slack s \<and> pid_root s' = pid_root s"
  using assms
proof (cases rule: pid_step.cases)
  case (create p)
  with pid_keeps_create [OF assms(2) create] show ?thesis by (simp add: pid_keeps_def)
next
  case (spawn t th)
  with pid_spawn_ok [OF assms(2) spawn(1,2)] show ?thesis by auto
next
  case (delete p)
  with pid_delete_total [OF assms(2) delete(1)] show ?thesis by (auto simp: pid_keeps_def)
next
  case (add p t)
  with pid_add_task_total [OF assms(2) add(1,2)] show ?thesis by (auto simp: pid_keeps_def)
next
  case (remove p t)
  with pid_remove_task_total [OF assms(2) remove(1,2)] show ?thesis by (auto simp: pid_keeps_def)
next
  case (move p q t)
  with pid_move_task_total [OF assms(2) move(1-3)] show ?thesis by (auto simp: pid_keeps_def)
next
  case (inc p)
  with pid_inc_rc_total [OF assms(2) inc(1)] show ?thesis by (auto simp: pid_keeps_def)
qed

text \<open>The state after \<open>rtems_container_initialize_root\<close> has set up its PID part: the static
  root object, no thread yet, and the root PID container.\<close>

definition pid_boot :: "rtemscfg \<Rightarrow> Memory \<Rightarrow> pid_kernel option" where
  "pid_boot cf m =
     (case rtems_pid_container_initialize_root False
             \<lparr>cfg = cf, mem = m, rootContainer = Some (Container_zero\<lparr>c_rc := 1\<rparr>),
              threads = Map.empty, thread_table = [], executing = None,
              pids = Map.empty, g_pidContainerId = 0\<rparr> of
        (code, p, s) \<Rightarrow>
          if code = 0 then Some (upd_root (\<lambda>c. c\<lparr>pidContainer := p\<rparr>) s) else None)"

lemma pid_boot_inv:
  "pid_boot cf m = Some s \<Longrightarrow> pid_inv s \<and> pid_slack s = live m"
  by (auto simp: pid_boot_def rtems_pid_container_initialize_root_def malloc_def pid_inv_def
      heap_ok_def upd_root_def pid_root_def pid_registry_def pid_slack_def Container_zero_def
      pid_store_def owned_def pid_blocks_def PidContainer_new_def [THEN arg_cong, of threadList]
      PidContainer_new_def [THEN arg_cong, of freeVidList] split: if_splits)

section \<open>Functional behaviour\<close>

lemma array_scan_hit: "x \<in> set xs \<Longrightarrow> P x \<Longrightarrow> \<exists>i. array_scan P k xs = Some i"
  using array_scan_None [of P k xs] by (cases "array_scan P k xs") auto

lemma pid_scan_hit:
  assumes "pid_wf pc" "i < RTEMS_MAX_PROCESS_LIMIT" "id_of (pidArray pc ! i) = oid" "oid \<noteq> 0"
  shows "\<exists>j. array_scan (\<lambda>p. id_of p = oid \<and> vid p \<noteq> 0) 1 (drop 1 (pidArray pc)) = Some j"
proof (rule array_scan_hit)
  from pid_wf_used [OF assms(1,2)] assms have "pid_in_use pc i" "vid (pidArray pc ! i) = int i" by auto
  then have i: "1 \<le> i" "vid (pidArray pc ! i) \<noteq> 0" by (auto simp: pid_in_use_def)
  then show "id_of (pidArray pc ! i) = oid \<and> vid (pidArray pc ! i) \<noteq> 0" using assms(3) by simp
  have "drop 1 (pidArray pc) ! (i - 1) = pidArray pc ! i"
    "i - 1 < length (drop 1 (pidArray pc))" using i assms(2) pid_wf_length [OF assms(1)] by auto
  then show "pidArray pc ! i \<in> set (drop 1 (pidArray pc))" by (metis nth_mem)
qed

text \<open>A container can take one more thread by a move.\<close>

definition pid_has_room :: "PidContainer \<Rightarrow> Memory \<Rightarrow> bool" where
  "pid_has_room pb m \<longleftrightarrow> freeVidList pb \<noteq> [] \<or>
     (pidCount pb < int RTEMS_MAX_PROCESS_LIMIT - 1 \<and> \<not> oom m (brk m))"

definition next_vid :: "PidContainer \<Rightarrow> int" where
  "next_vid pb = (case freeVidList pb of v # _ \<Rightarrow> v | [] \<Rightarrow> pidCount pb + 1)"

lemma next_vid_unused:
  assumes "pid_wf pb" "pid_has_room pb m"
  shows "1 \<le> next_vid pb" "next_vid pb < int RTEMS_MAX_PROCESS_LIMIT"
    "\<not> pid_in_use pb (nat (next_vid pb))"
  using assms by (auto simp: next_vid_def pid_wf_def pid_has_room_def pid_in_use_def split: list.splits)

lemma pid_move_task_eq:
  assumes "pids s a = Some pa" "pids s b = Some pb" "threads s t = Some th" "a \<noteq> b"
    "t \<in> set (threadList pa)" "t \<notin> set (threadList pb)" "0 < pid_rc pa" "pid_has_room pb (mem s)"
    "array_scan (\<lambda>p. id_of p = Object_id th \<and> vid p \<noteq> 0) 1 (drop 1 (pidArray pa)) = Some i"
  shows "\<exists>pb0 m. rtems_pid_container_move_task (Some a) (Some b) (Some t) s =
     pid_transfer a b t (Object_id th) i (next_vid pb) pa pb0 m s \<and>
     threadList pb0 = threadList pb \<and> pid_rc pb0 = pid_rc pb \<and> pidArray pb0 = pidArray pb \<and>
     pid_containerID pb0 = pid_containerID pb"
  using assms
  by (cases "freeVidList pb")
    (auto simp: rtems_pid_container_move_task_def pid_has_room_def next_vid_def malloc_def)

lemma pid_transfer_eq:
  assumes "0 \<le> v" "v < int (length (pidArray pb))" "1 < pid_rc pa"
  shows "pid_transfer a b t oid i v pa pb m s = Some (upd_thread t (redirect_pid a b)
     (s\<lparr>mem := m, pids := (pids s)
        (a \<mapsto> (pid_recycle i (int i) pa)\<lparr>threadList := remove1 t (threadList pa), pid_rc := pid_rc pa - 1\<rparr>,
         b \<mapsto> pb\<lparr>pidArray := (pidArray pb)[nat v := \<lparr>vid = v, id_of = oid\<rparr>],
                threadList := t # threadList pb, pid_rc := pid_rc pb + 1\<rparr>)\<rparr>))"
  using assms by (simp add: pid_transfer_def array_update_def)

lemma thread_ns_redirect:
  "threads s t = Some th \<Longrightarrow> thread_ns pidContainer s t = Some a \<Longrightarrow>
     thread_ns pidContainer (upd_thread t (redirect_pid a b) s) t = Some b"
  by (cases "container th") (auto simp: thread_ns_def upd_thread_def redirect_pid_def upd_container_def)

text \<open>(C8) Moving a task between two PID containers. If the task is a listed member of the source
  with a virtual id there, is not a member of the destination, and the destination has a recycled
  id or can allocate a new one, then the call returns normally and: the task leaves the source's
  list and heads the destination's, the reference counts follow, the source slot it occupied is
  cleared, the destination slot \<open>next_vid\<close> (which was unused) records it under its own
  index, and the thread's namespace pointer follows from source to destination.\<close>

theorem pid_move_task_effect:
  assumes "pid_inv s" "pids s a = Some pa" "pids s b = Some pb" "threads s t = Some th" "a \<noteq> b"
    "t \<in> set (threadList pa)" "t \<notin> set (threadList pb)" "1 < pid_rc pa" "pid_has_room pb (mem s)"
    "i < RTEMS_MAX_PROCESS_LIMIT" "id_of (pidArray pa ! i) = Object_id th"
    "thread_ns pidContainer s t = Some a"
  shows "\<exists>s' pa' pb' j. rtems_pid_container_move_task (Some a) (Some b) (Some t) s = Some s' \<and>
     pid_inv s' \<and> pids s' = (pids s)(a \<mapsto> pa', b \<mapsto> pb') \<and>
     threadList pa' = remove1 t (threadList pa) \<and> threadList pb' = t # threadList pb \<and>
     pid_rc pa' = pid_rc pa - 1 \<and> pid_rc pb' = pid_rc pb + 1 \<and>
     id_of (pidArray pa ! j) = Object_id th \<and> pidArray pa' = (pidArray pa)[j := ProcessVid_zero] \<and>
     \<not> pid_in_use pb (nat (next_vid pb)) \<and>
     pidArray pb' = (pidArray pb)[nat (next_vid pb) := \<lparr>vid = next_vid pb, id_of = Object_id th\<rparr>] \<and>
     thread_ns pidContainer s' t = Some b"
proof -
  note oid = pid_invD(4) [OF assms(1,4)]
  note wfa = pid_invD(2) [OF assms(1,2)] and wfb = pid_invD(2) [OF assms(1,3)]
  obtain j where j: "array_scan (\<lambda>p. id_of p = Object_id th \<and> vid p \<noteq> 0) 1 (drop 1 (pidArray pa)) = Some j"
    using pid_scan_hit [OF wfa assms(10,11) oid] by blast
  obtain pb0 m where mv: "rtems_pid_container_move_task (Some a) (Some b) (Some t) s =
      pid_transfer a b t (Object_id th) j (next_vid pb) pa pb0 m s"
    "threadList pb0 = threadList pb" "pid_rc pb0 = pid_rc pb" "pidArray pb0 = pidArray pb"
    using pid_move_task_eq [OF assms(2-7) _ assms(9) j] assms(8) by auto
  note nv = next_vid_unused [OF wfb assms(9)]
  let ?pa = "(pid_recycle j (int j) pa)\<lparr>threadList := remove1 t (threadList pa), pid_rc := pid_rc pa - 1\<rparr>"
  let ?pb = "pb0\<lparr>pidArray := (pidArray pb0)[nat (next_vid pb) := \<lparr>vid = next_vid pb, id_of = Object_id th\<rparr>],
     threadList := t # threadList pb0, pid_rc := pid_rc pb0 + 1\<rparr>"
  let ?s0 = "s\<lparr>mem := m, pids := (pids s)(a \<mapsto> ?pa, b \<mapsto> ?pb)\<rparr>"
  let ?s = "upd_thread t (redirect_pid a b) ?s0"
  have tr: "rtems_pid_container_move_task (Some a) (Some b) (Some t) s = Some ?s"
    using mv nv assms(8) pid_wf_length [OF wfb] by (simp add: pid_transfer_eq)
  moreover have "pid_inv ?s"
    using pid_keeps_move_task [OF assms(1), of a b t] assms(2-4) tr by (auto simp: pid_keeps_def)
  moreover have "thread_ns pidContainer ?s t = Some b"
    by (rule thread_ns_redirect [of _ _ th]) (use assms(4,12) in \<open>simp_all add: thread_ns_def\<close>)
  ultimately show ?thesis
    using nv(3) mv pid_scan_src(3) [OF wfa j oid]
    by (intro exI [of _ ?s] exI [of _ ?pa] exI [of _ ?pb] exI [of _ j])
      (simp add: pid_recycle_def)
qed

lemma pid_move_refused:
  assumes "pid_inv s" "pids s a = Some pa" "pids s b = Some pb" "threads s t = Some th"
    "\<not> pid_has_room pb (mem s)"
  shows "\<exists>m. rtems_pid_container_move_task (Some a) (Some b) (Some t) s = Some (s\<lparr>mem := m\<rparr>) \<and>
     live m = live (mem s)"
proof -
  have same: "s = s\<lparr>mem := mem s\<rparr>" by simp
  have "freeVidList pb = []" using assms(5) by (simp add: pid_has_room_def)
  then show ?thesis using assms same
    by (auto simp: rtems_pid_container_move_task_def pid_has_room_def malloc_def
        split: option.split intro: exI [of _ "mem s"])
qed

text \<open>A move that cannot take place changes nothing: without a recycled id and with the id
  space of the destination used up or no memory for the bookkeeping node, the state is the same up to
  the failed allocation, which owns nothing.\<close>

theorem pid_move_task_all_or_nothing:
  assumes "pid_inv s" "pids s a = Some pa" "pids s b = Some pb" "threads s t = Some th"
    "\<not> pid_has_room pb (mem s)"
  shows "\<exists>m. rtems_pid_container_move_task (Some a) (Some b) (Some t) s = Some (s\<lparr>mem := m\<rparr>) \<and>
     live m = live (mem s)"
  using assms by (rule pid_move_refused)

text \<open>Looking up the container of a thread.\<close>

lemma pid_find_in_unique:
  assumes "c \<in> set cs" "h c = Some pc" "t \<in> set (threadList pc)"
    "\<And>c'. c' \<in> set cs \<Longrightarrow> c' \<noteq> c \<Longrightarrow> \<exists>pc'. h c' = Some pc' \<and> t \<notin> set (threadList pc')"
  shows "pid_find_in h t cs = Some (Some c)"
  using assms
proof (induction cs)
  case (Cons d ds)
  show ?case
  proof (cases "d = c")
    case False
    with Cons.prems(4) [of d] obtain pc' where "h d = Some pc'" "t \<notin> set (threadList pc')" by auto
    with False Cons show ?thesis by auto
  qed (use Cons.prems in simp)
qed simp

lemma pid_find_in_None:
  assumes "pid_find_in h t cs = Some None" "c \<in> set cs"
  shows "\<exists>pc. h c = Some pc \<and> t \<notin> set (threadList pc)"
  using assms by (induction cs) (auto simp: bind_eq_Some_conv split: if_splits)

lemma pid_find_by_thread_eq:
  "pid_root s = Some r \<Longrightarrow>
     rtems_pid_container_find_by_thread (Some t) s = pid_find_in (pids s) t (r # pid_registry s)"
  by (cases "rootContainer s")
    (auto simp: rtems_pid_container_find_by_thread_def rtems_container_get_root_def pid_root_def
      pid_registry_def)

lemma array_scan_unique:
  assumes "i < length xs" "P (xs ! i)" "\<And>j. j < length xs \<Longrightarrow> j \<noteq> i \<Longrightarrow> \<not> P (xs ! j)"
  shows "array_scan P 0 xs = Some i"
proof -
  obtain k where k: "array_scan P 0 xs = Some k" using array_scan_hit [of "xs ! i" xs P 0] assms by auto
  from array_scan_SomeD [OF k] have "k < length xs" "P (xs ! k)" by auto
  with assms(3) [of k] k show ?thesis by auto
qed

lemma pid_take_vid_next: "fst (pid_take_vid pc m) = next_vid pc"
  by (simp add: pid_take_vid_def next_vid_def split: list.split)

text \<open>Adding a task to a registered PID container and asking where it is: for a task in no
  container, with a free id and memory for its node, \<open>rtems_pid_container_get_thread_info\<close>
  reports the container's number, the virtual id that was handed out, and that the container is not
  the root.\<close>

theorem pid_add_task_thread_info:
  assumes inv: "pid_inv s" and c: "pids s c = Some pc" "c \<in> set (pid_registry s)"
    and t: "threads s t = Some th" "rtems_pid_container_find_by_thread (Some t) s = Some None"
    and new: "\<forall>p \<in> set (pidArray pc). id_of p \<noteq> Object_id th"
    and room: "pidCount pc < int RTEMS_MAX_PROCESS_LIMIT - 1" "\<not> oom (mem s) (brk (mem s))"
  shows "\<exists>s'. rtems_pid_container_add_task (Some c) (Some t) s = Some s' \<and>
     rtems_pid_container_get_thread_info (Some t) s' = Some \<lparr>info_containerID = pid_containerID pc,
       info_vid_or_id = next_vid pc, info_isRoot = 0\<rparr>"
proof -
  obtain r pr where r: "pid_root s = Some r" "pids s r = Some pr" "r \<notin> set (pid_registry s)"
    by (rule pid_inv_root [OF inv])
  note wf = pid_invD(2) [OF inv c(1)] and oid = pid_invD(4) [OF inv t(1)]
  obtain v pc1 m1 pc' m' where a: "pid_take_vid pc (mem s) = (v, pc1, m1)"
    "pid_add_thread t (Object_id th) pc (mem s) = Some (pc', m')" "pid_wf pc'"
    "threadList pc' = (if oom (mem s) (brk (mem s)) then threadList pc else t # threadList pc)"
    "pid_containerID pc' = pid_containerID pc"
    "pidArray pc' = (pidArray pc)[nat v := \<lparr>vid = v, id_of = Object_id th\<rparr>]" "1 \<le> v"
    by (rule pid_add_thread_ok [OF wf room(1) oid]) blast
  have v: "v = next_vid pc" using pid_take_vid_next [of pc "mem s"] a(1) by simp
  define s' where "s' = pid_store c pc' m' s"
  have add: "rtems_pid_container_add_task (Some c) (Some t) s = Some s'"
    using c t a room by (simp add: rtems_pid_container_add_task_def s'_def)
  have "pid_find_in (pids s') t (r # pid_registry s') = Some (Some c)"
  proof (rule pid_find_in_unique [where pc = pc'])
    fix c' assume "c' \<in> set (r # pid_registry s')" "c' \<noteq> c"
    then show "\<exists>pc'. pids s' c' = Some pc' \<and> t \<notin> set (threadList pc')"
      using pid_find_in_None [of "pids s" t "r # pid_registry s" c'] t(2)
      by (simp add: pid_find_by_thread_eq [OF r(1)] s'_def)
  qed (use c a room in \<open>simp_all add: s'_def\<close>)
  then have find: "rtems_pid_container_find_by_thread (Some t) s' = Some (Some c)"
    using pid_find_by_thread_eq [of s' r t] r(1) by (simp add: s'_def)
  have len: "nat v < length (pidArray pc)"
    using pid_take_vid_ok [OF wf room(1) oid a(1)] by auto
  have "array_scan (\<lambda>p. id_of p = Object_id th \<and> vid p \<noteq> 0) 0 (pidArray pc') = Some (nat v)"
    using new len a(7) by (intro array_scan_unique) (auto simp: a(6) nth_list_update)
  moreover have "vid (pidArray pc' ! nat v) = v" using len by (simp add: a(6))
  moreover have "c \<noteq> r" using r(3) c(2) by auto
  ultimately have "rtems_pid_container_get_thread_info (Some t) s' = Some \<lparr>info_containerID =
      pid_containerID pc, info_vid_or_id = next_vid pc, info_isRoot = 0\<rparr>"
    using find r(1) t(1) v a(5) unfolding rtems_pid_container_get_thread_info_def
    by (simp add: s'_def pid_root_def rtems_container_get_root_def)
  with add show ?thesis by blast
qed

text \<open>Migration when the root container has room and memory is available.\<close>

lemma pid_add_thread_count:
  "pid_add_thread t oid pc m = Some (pc', m') \<Longrightarrow> pidCount pc' \<le> pidCount pc + 1"
  by (auto simp: pid_add_thread_def pid_take_vid_def pid_link_thread_def malloc_def bind_eq_Some_conv
      split: list.splits if_splits)

lemma pid_add_thread_list:
  "pid_add_thread t oid pc m = Some (pc', m') \<Longrightarrow> \<forall>n. \<not> oom m n \<Longrightarrow>
     threadList pc' = t # threadList pc \<and> pid_rc pc' = pid_rc pc + 1 \<and> oom m' = oom m"
  by (auto simp: pid_add_thread_def pid_take_vid_def pid_link_thread_def malloc_def bind_eq_Some_conv
      split: list.splits if_splits)

lemma pid_migrate_list:
  assumes "pid_migrate c r ts s = Some s'" "pids s r = Some pr"
    "pidCount pr + int (length ts) \<le> int RTEMS_MAX_PROCESS_LIMIT - 1" "\<forall>n. \<not> oom (mem s) n"
  shows "\<exists>pr'. pids s' r = Some pr' \<and> threadList pr' = rev ts @ threadList pr \<and>
     pid_rc pr' = pid_rc pr + int (length ts)"
  using assms
proof (induction ts arbitrary: s pr)
  case (Cons t ts)
  from Cons.prems(1) obtain s1 where s1: "rtems_pid_container_add_task (Some r) (Some t) s = Some s1"
    "pid_migrate c r ts ((upd_thread t (redirect_pid c r) s1)\<lparr>mem := free_block (mem s1)\<rparr>) = Some s'"
    by (auto simp: bind_eq_Some_conv)
  from s1(1) Cons.prems(2,3) obtain th :: Thread_Control and pc' m' where
    a: "pid_add_thread t (Object_id th) pr (mem s) = Some (pc', m')" "s1 = pid_store r pc' m' s"
    by (auto simp: rtems_pid_container_add_task_def bind_eq_Some_conv)
  from Cons.IH [OF s1(2), of pc'] pid_add_thread_count [OF a(1)]
    pid_add_thread_list [OF a(1) Cons.prems(4)] Cons.prems(3,4)
  show ?case by (auto simp: a(2))
qed simp

text \<open>(C13) Deleting a PID container that is not the root frees it, takes it off the registry and,
  when the root container has room and memory is available, hands every one of its tasks to the root
  container: the root's list starts with them, its reference count grows by their number, and a task
  whose namespace pointer was the deleted container now points to the root.\<close>

theorem pid_delete_migrates:
  assumes inv: "pid_inv s" and c: "pids s c = Some pc" and r: "pid_root s = Some r" "c \<noteq> r"
    and pr: "pids s r = Some pr"
    and room: "pidCount pr + int (length (threadList pc)) \<le> int RTEMS_MAX_PROCESS_LIMIT - 1"
      "\<forall>n. \<not> oom (mem s) n"
  shows "\<exists>s' pr'. rtems_pid_container_delete (Some c) s = Some s' \<and> pid_inv s' \<and>
     pid_slack s' = pid_slack s \<and> pids s' c = None \<and> c \<notin> set (pid_registry s') \<and>
     pids s' r = Some pr' \<and> threadList pr' = rev (threadList pc) @ threadList pr \<and>
     pid_rc pr' = pid_rc pr + int (length (threadList pc)) \<and>
     (\<forall>t. t \<in> set (threadList pc) \<and> thread_ns pidContainer s t = Some c \<longrightarrow>
        thread_ns pidContainer s' t = Some r)"
proof -
  from pid_delete_ok [OF inv c r pr] obtain pr' m' s' where
    d: "rtems_pid_container_delete (Some c) s = Some s'"
    "s' = s\<lparr>mem := m', rootContainer := map_option (unregister_pid c) (rootContainer s),
       pids := (pids s)(r \<mapsto> pr', c := None),
       threads := redirect_threads c r (threadList pc) (threads s)\<rparr>"
    "pid_inv s'" "pid_slack s' = pid_slack s" by blast
  have reg: "pid_registry s' = remove1 c (pid_registry s)"
    using pid_root_unregister [of s' c s] by (simp add: d(2))
  have "thread_ns pidContainer s' t = Some r"
    if "t \<in> set (threadList pc)" "thread_ns pidContainer s t = Some c" for t
    using that by (auto simp: thread_ns_def d(2) redirect_threads_def redirect_pid_def upd_container_def
        bind_eq_Some_conv)
  moreover obtain s1 s3 where m1: "s1 = rtems_pid_container_remove_from_list (Some c) s" and
    mig: "pid_migrate c r (threadList pc) (pid_store c (pc\<lparr>pid_rc := -1, threadList := []\<rparr>) (mem s1) s1) = Some s3"
    and s3: "pids s' = (pids s3)(c := None)"
    using d(1) r c unfolding rtems_pid_container_delete_def
    by (auto simp: bind_eq_Some_conv pid_root_def rtems_container_get_root_def
        rtems_pid_container_remove_from_list_def split: option.splits prod.splits)
  obtain m where rem: "s1 = s\<lparr>mem := m, rootContainer := map_option (unregister_pid c) (rootContainer s)\<rparr>"
    "oom m = oom (mem s)"
    unfolding m1 by (rule pid_remove_from_list_ok [OF r(1)]) blast
  have "\<exists>pr'. pids s3 r = Some pr' \<and> threadList pr' = rev (threadList pc) @ threadList pr \<and>
     pid_rc pr' = pid_rc pr + int (length (threadList pc))"
    by (rule pid_migrate_list [OF mig]) (use pr r(2) room rem in auto)
  ultimately show ?thesis
    using d(1,3,4) s3 r(2) reg pid_invD(5) [OF inv] by auto
qed

section \<open>Reachable states\<close>

text \<open>(C2) From the state after initialisation, whatever sequence of interface calls is made on
  live containers and threads, with any pattern of allocation failures, the invariant holds: every
  virtual id in use is within the table and recorded under its own index, recycled ids are strictly
  ascending and unused, listed threads are alive and the registry has no duplicates. Exactly the
  blocks the namespace owns are in use beyond those in use at the start, so nothing leaks and
  nothing is freed twice. And every further call with live arguments is free of undefined
  behaviour.\<close>

theorem pid_reachable_safe:
  assumes "pid_boot cf m = Some s0" "pid_step\<^sup>*\<^sup>* s0 s"
  shows "pid_inv s \<and> pid_slack s = live m \<and>
     (\<forall>p t q. live_ptr (pids s) p \<longrightarrow> live_ptr (pids s) q \<longrightarrow> live_ptr (threads s) t \<longrightarrow>
        rtems_pid_container_add_task p t s \<noteq> None \<and> rtems_pid_container_remove_task p t s \<noteq> None \<and>
        rtems_pid_container_move_task p q t s \<noteq> None \<and> rtems_pid_container_delete p s \<noteq> None)"
proof -
  from assms(2) have "pid_inv s \<and> pid_slack s = live m"
    by (induction rule: rtranclp_induct) (use pid_boot_inv [OF assms(1)] pid_step_ok in auto)
  then show ?thesis
    using pid_add_task_total [of s] pid_remove_task_total [of s] pid_move_task_total [of s]
      pid_delete_total [of s] by fastforce
qed

text \<open>The calls that the unified container layer makes: create, move, delete, take a reference,
  and task creation.\<close>

inductive pid_user_step :: "'a pid_kernel_scheme \<Rightarrow> 'a pid_kernel_scheme \<Rightarrow> bool" where
  create: "rtems_pid_container_create s = (p, s') \<Longrightarrow> pid_user_step s s'"
| delete: "live_ptr (pids s) p \<Longrightarrow> rtems_pid_container_delete p s = Some s' \<Longrightarrow> pid_user_step s s'"
| move: "live_ptr (pids s) p \<Longrightarrow> live_ptr (pids s) q \<Longrightarrow> live_ptr (threads s) t \<Longrightarrow>
     rtems_pid_container_move_task p q t s = Some s' \<Longrightarrow> pid_user_step s s'"
| inc: "live_ptr (pids s) p \<Longrightarrow> rtems_pid_container_inc_rc p s = Some s' \<Longrightarrow> pid_user_step s s'"
| spawn: "threads s t = None \<Longrightarrow> Object_id th \<noteq> 0 \<Longrightarrow> pid_spawn t th s = Some s' \<Longrightarrow>
     pid_user_step s s'"

lemma pid_user_step_is_step: "pid_user_step s s' \<Longrightarrow> pid_step s s'"
  by (induction rule: pid_user_step.induct) (auto intro: pid_step.intros)

text \<open>A step that keeps the root and the namespace pointers of threads off the root, and only
  grows lists, keeps \<open>pid_linked\<close>.\<close>

lemma pid_linked_mono:
  assumes "pid_linked s" "pid_root s' = pid_root s"
    "\<And>t c. thread_ns pidContainer s' t = Some c \<Longrightarrow> pid_root s \<noteq> Some c \<Longrightarrow>
       thread_ns pidContainer s t = Some c"
    "\<And>c pc. pids s c = Some pc \<Longrightarrow> \<exists>pc'. pids s' c = Some pc' \<and> set (threadList pc) \<subseteq> set (threadList pc')"
  shows "pid_linked s'"
  using assms unfolding pid_linked_def by (metis subsetD)

lemma pid_linked_create:
  assumes "pid_inv s" "pid_linked s" "rtems_pid_container_create s = (p, s')"
  shows "pid_linked s'"
proof (rule pid_linked_mono [OF assms(2)])
  note k = pid_keeps_create [OF assms(1,3)]
  show "pid_root s' = pid_root s" using k by (simp add: pid_keeps_def)
  have th: "threads s' = threads s"
    using assms(3) by (auto simp: rtems_pid_container_create_def rtems_pid_container_add_to_list_def
        malloc_def split: option.splits prod.splits if_splits)
  then show "thread_ns pidContainer s' t = Some c \<Longrightarrow> thread_ns pidContainer s t = Some c" for t c
    by (simp add: thread_ns_def)
  have "pids s' c = Some pc" if c: "pids s c = Some pc" for c pc
  proof (cases p)
    case None
    with assms(3) c show ?thesis
      by (auto simp: rtems_pid_container_create_def malloc_def split: if_splits)
  next
    case (Some d)
    with k heap_ok_fresh [OF pid_invD(1) [OF assms(1)]] c show ?thesis by auto
  qed
  then show "\<exists>pc'. pids s' c = Some pc' \<and> set (threadList pc) \<subseteq> set (threadList pc')"
    if "pids s c = Some pc" for c pc using that by blast
qed

lemma pid_linked_spawn:
  assumes "pid_inv s" "pid_linked s" "threads s t = None" "pid_spawn t th s = Some s'"
    "Object_id th \<noteq> 0"
  shows "pid_linked s'"
proof -
  let ?s = "s\<lparr>threads := (threads s)(t \<mapsto> th\<lparr>container := Some (Container_zero\<lparr>pidContainer := pid_root s\<rparr>)\<rparr>)\<rparr>"
  obtain r pr where r: "pid_root s = Some r" "pids s r = Some pr" by (rule pid_inv_root [OF assms(1)])
  have inv: "pid_inv ?s"
    using assms(1,5) by (auto simp: pid_inv_def pid_root_def pid_registry_def)
  have pr: "pids ?s r = Some pr" using r by simp
  have th: "threads ?s t = Some (th\<lparr>container := Some (Container_zero\<lparr>pidContainer := pid_root s\<rparr>)\<rparr>)"
    by simp
  have add: "rtems_pid_container_add_task (Some r) (Some t) ?s = Some s'"
    using assms(4) r by (simp add: pid_spawn_def)
  obtain pc' m' where a: "s' = pid_store r pc' m' ?s" "set (threadList pr) \<subseteq> set (threadList pc')"
    by (rule pid_add_task_ok [OF inv pr th]) (use add in auto)
  show ?thesis
  proof (rule pid_linked_mono [OF assms(2)])
    show "pid_root s' = pid_root s" by (simp add: a(1) pid_root_def)
    show "thread_ns pidContainer s u = Some c"
      if "thread_ns pidContainer s' u = Some c" "pid_root s \<noteq> Some c" for u c
      using that by (auto simp: thread_ns_def a(1) split: if_splits)
    show "\<exists>pc'. pids s' c = Some pc' \<and> set (threadList pc) \<subseteq> set (threadList pc')"
      if "pids s c = Some pc" for c pc
      using that a r by auto
  qed
qed

lemma pid_linked_inc:
  assumes "pid_linked s" "rtems_pid_container_inc_rc p s = Some s'"
  shows "pid_linked s'"
  by (rule pid_linked_mono [OF assms(1)])
    (use assms(2) in \<open>auto simp: rtems_pid_container_inc_rc_def thread_ns_def bind_eq_Some_conv
       split: option.splits\<close>)

lemma pid_linked_step:
  assumes "pid_user_step s s'" "pid_inv s" "pid_linked s"
  shows "pid_linked s'"
  using assms(1)
proof (cases rule: pid_user_step.cases)
  case (delete p)
  with assms show ?thesis
    by (cases p) (auto simp: rtems_pid_container_delete_def [of None] intro: pid_linked_delete)
next
  case (move p q t)
  with pid_move_task_total [OF assms(2) move(1-3)] assms show ?thesis by auto
qed (use assms in \<open>auto intro: pid_linked_create pid_linked_spawn pid_linked_inc\<close>)


section \<open>A concrete system\<close>

text \<open>A root container with task 3, a registered child container with task 4, and a task 5 in no
  container; the blocks of the namespace are those of the two containers, their two thread nodes and
  one registry node.\<close>

definition demo_thread :: "u32 \<Rightarrow> ptr \<Rightarrow> Thread_Control" where
  "demo_thread oid p = \<lparr>Object_id = oid, container = Some (Container_zero\<lparr>pidContainer := p\<rparr>),
     cgroup = None, last_cpu_start_timestamp = 0, is_added_to_cgroup = False, current_state = 0\<rparr>"

definition demo_pc :: "int \<Rightarrow> u32 \<Rightarrow> addr \<Rightarrow> PidContainer" where
  "demo_pc n oid t = ((PidContainer_new n)\<lparr>pidCount := 1,
     pidArray := (pidArray (PidContainer_new n))[1 := \<lparr>vid = 1, id_of = oid\<rparr>]\<rparr>)
     \<lparr>pid_rc := 2, threadList := [t]\<rparr>"

definition demo_cfg :: rtemscfg where
  "demo_cfg = \<lparr>RTEMSCFG_PID_CONTAINER = True, RTEMSCFG_UTS_CONTAINER = True,
     RTEMSCFG_MNT_CONTAINER = True, RTEMSCFG_NET_CONTAINER = True, RTEMSCFG_IPC_CONTAINER = True,
     RTEMS_CGROUP = True, RTEMSCFG_IO_CGROUP = True, RTEMSCFG_CONTAINER_LOG = False\<rparr>"

definition demo_pid :: "(nat \<Rightarrow> bool) \<Rightarrow> pid_kernel" where
  "demo_pid f = \<lparr>cfg = demo_cfg, mem = \<lparr>brk = 10, oom = f, live = 5\<rparr>,
     rootContainer = Some (Container_zero\<lparr>c_rc := 1, pidContainer := Some 0, pidContainerList := [1]\<rparr>),
     threads = [3 \<mapsto> demo_thread 7 (Some 0), 4 \<mapsto> demo_thread 8 (Some 1), 5 \<mapsto> demo_thread 9 None],
     thread_table = [3, 4, 5], executing = Some 3,
     pids = [0 \<mapsto> demo_pc 1 7 3, 1 \<mapsto> demo_pc 2 8 4], g_pidContainerId = 2\<rparr>"

lemma demo_pc_sel [simp]:
  "threadList (demo_pc n oid t) = [t]" "pid_rc (demo_pc n oid t) = 2" "pidCount (demo_pc n oid t) = 1"
  "freeVidList (demo_pc n oid t) = []" "pid_containerID (demo_pc n oid t) = n"
  "id_of (pidArray (demo_pc n oid t) ! Suc 0) = oid"
  by (simp_all add: demo_pc_def PidContainer_new_def RTEMS_MAX_PROCESS_LIMIT_def)

lemma demo_pc_ids: "p \<in> set (pidArray (demo_pc n oid t)) \<Longrightarrow> id_of p = 0 \<or> id_of p = oid"
  by (auto simp: demo_pc_def PidContainer_new_def dest!: subsetD [OF set_update_subset_insert])

lemma demo_pc_wf: "oid \<noteq> 0 \<Longrightarrow> pid_wf (demo_pc n oid t)"
  using pid_wf_extend [of "PidContainer_new n" oid]
  by (simp add: demo_pc_def PidContainer_new_def [THEN arg_cong, of pidCount]
      PidContainer_new_def [THEN arg_cong, of freeVidList] RTEMS_MAX_PROCESS_LIMIT_def)

lemma demo_pid_sel [simp]:
  "pids (demo_pid f) = [0 \<mapsto> demo_pc 1 7 3, 1 \<mapsto> demo_pc 2 8 4]"
  "threads (demo_pid f) = [3 \<mapsto> demo_thread 7 (Some 0), 4 \<mapsto> demo_thread 8 (Some 1), 5 \<mapsto> demo_thread 9 None]"
  "mem (demo_pid f) = \<lparr>brk = 10, oom = f, live = 5\<rparr>"
  "pid_root (demo_pid f) = Some 0" "pid_registry (demo_pid f) = [1]"
  by (simp_all add: demo_pid_def pid_root_def pid_registry_def)

lemma demo_thread_sel [simp]: "Object_id (demo_thread oid p) = oid"
  by (simp add: demo_thread_def)

lemma demo_pid_inv: "pid_inv (demo_pid f)"
  by (auto simp: pid_inv_def heap_ok_def demo_pc_wf split: if_splits)

lemma demo_pid_ns:
  "thread_ns pidContainer (demo_pid f) 3 = Some 0" "thread_ns pidContainer (demo_pid f) 4 = Some 1"
  by (simp_all add: thread_ns_def demo_thread_def Container_zero_def)

theorem pid_move_task_effect_witness:
  "\<exists>s'. rtems_pid_container_move_task (Some 0) (Some 1) (Some 3) (demo_pid (\<lambda>_. False)) = Some s' \<and>
     thread_ns pidContainer s' 3 = Some 1"
  using pid_move_task_effect [of "demo_pid (\<lambda>_. False)" 0 "demo_pc 1 7 3" 1 "demo_pc 2 8 4" 3
      "demo_thread 7 (Some 0)" 1] demo_pid_inv [of "\<lambda>_. False"] demo_pid_ns(1) [of "\<lambda>_. False"]
  by (auto simp: pid_has_room_def RTEMS_MAX_PROCESS_LIMIT_def)

theorem pid_move_task_all_or_nothing_witness:
  "\<exists>m. rtems_pid_container_move_task (Some 0) (Some 1) (Some 3) (demo_pid (\<lambda>_. True)) =
     Some ((demo_pid (\<lambda>_. True))\<lparr>mem := m\<rparr>) \<and> live m = 5"
  using pid_move_task_all_or_nothing [of "demo_pid (\<lambda>_. True)" 0 "demo_pc 1 7 3" 1 "demo_pc 2 8 4" 3
      "demo_thread 7 (Some 0)"] demo_pid_inv [of "\<lambda>_. True"]
  by (auto simp: pid_has_room_def)

theorem pid_add_task_thread_info_witness:
  "\<exists>s'. rtems_pid_container_add_task (Some 1) (Some 5) (demo_pid (\<lambda>_. False)) = Some s' \<and>
     rtems_pid_container_get_thread_info (Some 5) s' =
       Some \<lparr>info_containerID = 2, info_vid_or_id = 2, info_isRoot = 0\<rparr>"
proof -
  have "rtems_pid_container_find_by_thread (Some 5) (demo_pid (\<lambda>_. False)) = Some None"
    by (subst pid_find_by_thread_eq [of _ 0]) simp_all
  moreover have "\<forall>p \<in> set (pidArray (demo_pc 2 8 4)). id_of p \<noteq> Object_id (demo_thread 9 None)"
    by (auto dest: demo_pc_ids)
  ultimately show ?thesis
    using pid_add_task_thread_info [of "demo_pid (\<lambda>_. False)" 1 "demo_pc 2 8 4" 5 "demo_thread 9 None"]
      demo_pid_inv [of "\<lambda>_. False"]
    by (simp add: RTEMS_MAX_PROCESS_LIMIT_def next_vid_def)
qed

theorem pid_delete_migrates_witness:
  "\<exists>s' pr'. rtems_pid_container_delete (Some 1) (demo_pid (\<lambda>_. False)) = Some s' \<and>
     pids s' 1 = None \<and> pids s' 0 = Some pr' \<and> threadList pr' = [4, 3] \<and>
     thread_ns pidContainer s' 4 = Some 0"
  using pid_delete_migrates [of "demo_pid (\<lambda>_. False)" 1 "demo_pc 2 8 4" 0 "demo_pc 1 7 3"]
    demo_pid_inv [of "\<lambda>_. False"] demo_pid_ns(2) [of "\<lambda>_. False"]
  by (auto simp: RTEMS_MAX_PROCESS_LIMIT_def)

text \<open>One boot and a call to \<open>rtems_pid_container_create\<close>.\<close>

definition demo_boot :: pid_kernel where
  "demo_boot = the (pid_boot demo_cfg \<lparr>brk = 0, oom = (\<lambda>_. False), live = 0\<rparr>)"

lemma demo_boot_Some: "pid_boot demo_cfg \<lparr>brk = 0, oom = (\<lambda>_. False), live = 0\<rparr> = Some demo_boot"
  by (simp add: demo_boot_def pid_boot_def rtems_pid_container_initialize_root_def malloc_def)

theorem pid_reachable_safe_witness:
  "pid_inv (snd (rtems_pid_container_create demo_boot)) \<and>
     pid_slack (snd (rtems_pid_container_create demo_boot)) = 0"
proof -
  have "pid_step demo_boot (snd (rtems_pid_container_create demo_boot))"
    by (rule pid_step.create [of _ "fst (rtems_pid_container_create demo_boot)"]) simp
  with pid_reachable_safe [OF demo_boot_Some, of "snd (rtems_pid_container_create demo_boot)"]
  show ?thesis by auto
qed


end
