(* ===== verification/UtsContainer.thy ===== *)
theory UtsContainer
  imports PidContainer
begin

text \<open>
  The UTS namespace, \<open>score/src/utsContainer.c\<close>, and the host name calls of
  \<open>libnetworking/rtems/sghostname.c\<close> that read and write it. A UTS container is a reference
  count, a number and a host name of at most 49 characters. A thread is in the container its
  \<open>Container\<close> block points to; there is no membership list, and the reference count stands
  for the members and the references of the unified layer.
\<close>

section \<open>Data\<close>

definition UTS_NAME_SIZE :: nat where
  "UTS_NAME_SIZE = 50"

record UtsContainer =
  uts_rc :: int
  uts_ID :: int
  uts_name :: "char list"

record uts_kernel = pid_kernel +
  utss :: "addr \<rightharpoonup> UtsContainer"
  g_utsContainerId :: int
  g_rootUtsContainer :: ptr

section \<open>Operations\<close>

text \<open>A name buffer after \<open>strcpy\<close> of a short literal. Bytes behind the terminator are
  never read.\<close>

definition uts_buffer :: "string \<Rightarrow> char list" where
  "uts_buffer name = name @ replicate (UTS_NAME_SIZE - length name) NUL"

definition rtems_uts_container_initialize_root ::
  "bool \<Rightarrow> 'a uts_kernel_scheme \<Rightarrow> int \<times> ptr \<times> 'a uts_kernel_scheme" where
  "rtems_uts_container_initialize_root arg_null s =
     (if arg_null then (-1, None, s)
      else case malloc (mem s) of
        (None, m) \<Rightarrow> (-1, None, s\<lparr>mem := m\<rparr>)
      | (Some a, m) \<Rightarrow>
          (0, Some a, s\<lparr>mem := m, g_utsContainerId := g_utsContainerId s + 1,
             utss := (utss s)(a \<mapsto> \<lparr>uts_rc = 0, uts_ID = g_utsContainerId s + 1,
                                    uts_name = uts_buffer ''root''\<rparr>),
             g_rootUtsContainer := Some a\<rparr>))"

definition rtems_uts_container_add_to_list ::
  "ptr \<Rightarrow> 'a uts_kernel_scheme \<Rightarrow> 'a uts_kernel_scheme" where
  "rtems_uts_container_add_to_list p s =
     (case (p, rtems_container_get_root s) of
        (Some c, Some r) \<Rightarrow>
          (case list_push c (utsContainerList r) (mem s) of
             (l, m) \<Rightarrow> s\<lparr>mem := m, rootContainer := Some (r\<lparr>utsContainerList := l\<rparr>)\<rparr>)
      | _ \<Rightarrow> s)"

definition rtems_uts_container_remove_from_list ::
  "ptr \<Rightarrow> 'a uts_kernel_scheme \<Rightarrow> 'a uts_kernel_scheme" where
  "rtems_uts_container_remove_from_list p s =
     (case (p, rtems_container_get_root s) of
        (Some c, Some r) \<Rightarrow>
          (case list_unlink c (utsContainerList r) (mem s) of
             (l, m) \<Rightarrow> s\<lparr>mem := m, rootContainer := Some (r\<lparr>utsContainerList := l\<rparr>)\<rparr>)
      | _ \<Rightarrow> s)"

text \<open>The name of a new container: the argument cut to 49 characters, or a default.\<close>

definition uts_new_name :: "string option \<Rightarrow> char list" where
  "uts_new_name name =
     (case name of
        Some (ch # cs) \<Rightarrow> uts_buffer (take (UTS_NAME_SIZE - 1) (ch # cs))
      | _ \<Rightarrow> uts_buffer ''uts'')"

definition rtems_uts_container_create ::
  "string option \<Rightarrow> 'a uts_kernel_scheme \<Rightarrow> ptr \<times> 'a uts_kernel_scheme" where
  "rtems_uts_container_create name s =
     (case malloc (mem s) of
        (None, m) \<Rightarrow> (None, s\<lparr>mem := m\<rparr>)
      | (Some a, m) \<Rightarrow>
          (Some a, rtems_uts_container_add_to_list (Some a)
             (s\<lparr>mem := m, g_utsContainerId := g_utsContainerId s + 1,
                utss := (utss s)(a \<mapsto> \<lparr>uts_rc = 0, uts_ID = g_utsContainerId s + 1,
                                       uts_name = uts_new_name name\<rparr>)\<rparr>)))"

definition uts_add_rc :: "addr \<Rightarrow> int \<Rightarrow> 'a uts_kernel_scheme \<Rightarrow> 'a uts_kernel_scheme option" where
  "uts_add_rc c d s = do {
     u \<leftarrow> utss s c;
     Some (s\<lparr>utss := (utss s)(c \<mapsto> u\<lparr>uts_rc := uts_rc u + d\<rparr>)\<rparr>) }"

definition set_uts :: "addr \<Rightarrow> ptr \<Rightarrow> 'a uts_kernel_scheme \<Rightarrow> 'a uts_kernel_scheme" where
  "set_uts t p = upd_thread t (upd_container (utsContainer_update (\<lambda>_. p)))"

text \<open>Handing a thread of container \<open>c\<close> to the root container \<open>r\<close>.\<close>

definition uts_rehome ::
  "addr \<Rightarrow> addr \<Rightarrow> addr \<Rightarrow> 'a uts_kernel_scheme \<Rightarrow> 'a uts_kernel_scheme option" where
  "uts_rehome c r t s = do {
     _ \<leftarrow> threads s t;
     if thread_ns utsContainer s t = Some c
     then do { s1 \<leftarrow> uts_add_rc r 1 (set_uts t (Some r) s); uts_add_rc c (-1) s1 }
     else Some s }"

definition uts_switch_to_root ::
  "addr \<Rightarrow> addr \<Rightarrow> 'a uts_kernel_scheme \<Rightarrow> (bool \<times> 'a uts_kernel_scheme) option" where
  "uts_switch_to_root c t s =
     (case g_rootUtsContainer s of
        None \<Rightarrow> Some (True, s)
      | Some r \<Rightarrow> map_option (Pair True) (uts_rehome c r t s))"

definition rtems_uts_container_delete ::
  "ptr \<Rightarrow> 'a uts_kernel_scheme \<Rightarrow> 'a uts_kernel_scheme option" where
  "rtems_uts_container_delete p s = do {
     _ \<leftarrow> log_deref s (utss s) [p];
     case (p, g_rootUtsContainer s) of
       (Some c, Some r) \<Rightarrow>
         if c = r \<or> rtems_container_get_root s = None then Some s
         else do {
           s1 \<leftarrow> Thread_Iterate (uts_switch_to_root c) s;
           s2 \<leftarrow> (case executing s1 of None \<Rightarrow> Some s1 | Some t \<Rightarrow> uts_rehome c r t s1);
           s3 \<leftarrow> Some (rtems_uts_container_remove_from_list (Some c) s2);
           _ \<leftarrow> utss s3 c;
           Some (s3\<lparr>mem := free_block (mem s3), utss := (utss s3)(c := None)\<rparr>) }
     | _ \<Rightarrow> Some s }"

definition rtems_uts_container_move_task ::
  "ptr \<Rightarrow> ptr \<Rightarrow> ptr \<Rightarrow> 'a uts_kernel_scheme \<Rightarrow> 'a uts_kernel_scheme option" where
  "rtems_uts_container_move_task srcContainer destContainer thread s = do {
     _ \<leftarrow> log_deref s (utss s) [srcContainer, destContainer];
     case (srcContainer, destContainer, thread) of
       (Some a, Some b, Some t) \<Rightarrow> do {
         _ \<leftarrow> threads s t;
         if thread_ns utsContainer s t = Some a
         then do {
           s1 \<leftarrow> uts_add_rc a (-1) (set_uts t (Some b) s);
           u \<leftarrow> utss s1 a;
           s2 \<leftarrow> (if uts_rc u \<le> 0 then rtems_uts_container_delete (Some a) s1 else Some s1);
           s3 \<leftarrow> uts_add_rc b 1 s2;
           _ \<leftarrow> log_deref s3 (utss s3) [Some a, Some b];
           Some s3 }
         else do {
           _ \<leftarrow> log_deref s (utss s) [Some a];
           Some s } }
     | _ \<Rightarrow> Some s }"

definition rtems_uts_container_find_by_thread :: "ptr \<Rightarrow> 'a uts_kernel_scheme \<Rightarrow> ptr option" where
  "rtems_uts_container_find_by_thread thread s =
     (case thread of None \<Rightarrow> Some None
      | Some t \<Rightarrow> do { th \<leftarrow> threads s t; c \<leftarrow> container th; Some (utsContainer c) })"

definition rtems_uts_container_exists :: "ptr \<Rightarrow> 'a uts_kernel_scheme \<Rightarrow> int" where
  "rtems_uts_container_exists p s =
     (case (p, rtems_container_get_root s) of
        (Some c, Some r) \<Rightarrow>
          if utsContainer r = Some c then 1 else if c \<in> set (utsContainerList r) then 1 else 0
      | _ \<Rightarrow> 0)"

section \<open>Host name calls\<close>

text \<open>The container whose name the executing thread sees.\<close>

definition uts_current :: "'a uts_kernel_scheme \<Rightarrow> ptr" where
  "uts_current s =
     (case do { t \<leftarrow> executing s; thread_ns utsContainer s t } of
        Some c \<Rightarrow> Some c
      | None \<Rightarrow> do { r \<leftarrow> rtems_container_get_root s; utsContainer r })"

definition gethostname :: "nat \<Rightarrow> 'a uts_kernel_scheme \<Rightarrow> char list option" where
  "gethostname namelen s =
     (case uts_current s of
        None \<Rightarrow> strncpy (replicate namelen NUL) [] namelen
      | Some c \<Rightarrow> do { u \<leftarrow> utss s c; strncpy (replicate namelen NUL) (cstr (uts_name u)) namelen })"

text \<open>\<open>MAXHOSTNAMELEN\<close> comes from a system header and is a parameter.\<close>

definition sethostname ::
  "nat \<Rightarrow> string \<Rightarrow> nat \<Rightarrow> 'a uts_kernel_scheme \<Rightarrow> (int \<times> 'a uts_kernel_scheme) option" where
  "sethostname MAXHOSTNAMELEN name namelen s =
     (if namelen \<ge> MAXHOSTNAMELEN then Some (-1, s)
      else case uts_current s of
        None \<Rightarrow> Some (-1, s)
      | Some c \<Rightarrow> do {
          u \<leftarrow> utss s c;
          buf \<leftarrow> strncpy (uts_name u) name namelen;
          buf' \<leftarrow> Some (if namelen < UTS_NAME_SIZE then buf[namelen := NUL]
                          else buf[UTS_NAME_SIZE - 1 := NUL]);
          Some (0, s\<lparr>utss := (utss s)(c \<mapsto> u\<lparr>uts_name := buf'\<rparr>)\<rparr>) })"

section \<open>Registry and reference counts\<close>

definition uts_registry :: "'a uts_kernel_scheme \<Rightarrow> addr list" where
  "uts_registry s = (case rootContainer s of None \<Rightarrow> [] | Some r \<Rightarrow> utsContainerList r)"

definition uts_root :: "'a uts_kernel_scheme \<Rightarrow> ptr" where
  "uts_root s = do { r \<leftarrow> rootContainer s; utsContainer r }"

definition uts_count :: "'a uts_kernel_scheme \<Rightarrow> addr \<Rightarrow> int option" where
  "uts_count s c = map_option uts_rc (utss s c)"

interpretation uts_reg: ns_registry_query rtems_uts_container_add_to_list
  rtems_uts_container_remove_from_list uts_registry mem "\<lambda>s. rootContainer s \<noteq> None"
  rtems_uts_container_exists uts_root
  by unfold_locales
    (auto simp: rtems_uts_container_add_to_list_def rtems_uts_container_remove_from_list_def
      rtems_uts_container_exists_def rtems_container_get_root_def uts_registry_def uts_root_def
      split: option.splits prod.splits)

lemma set_uts_sel [simp]:
  "utss (set_uts t p s) = utss s" "mem (set_uts t p s) = mem s" "cfg (set_uts t p s) = cfg s"
  "rootContainer (set_uts t p s) = rootContainer s" "thread_table (set_uts t p s) = thread_table s"
  "executing (set_uts t p s) = executing s" "g_rootUtsContainer (set_uts t p s) = g_rootUtsContainer s"
  "dom (threads (set_uts t p s)) = dom (threads s)" "pids (set_uts t p s) = pids s"
  by (auto simp: set_uts_def upd_thread_def)

lemma thread_ns_set_uts:
  "thread_ns utsContainer s t = Some a \<Longrightarrow>
     thread_ns utsContainer (set_uts t p s) = (thread_ns utsContainer s)(t := p)"
  unfolding set_uts_def by (rule thread_ns_set) simp_all

lemma uts_add_rc_Some:
  "utss s c = Some u \<Longrightarrow> uts_add_rc c d s = Some (s\<lparr>utss := (utss s)(c \<mapsto> u\<lparr>uts_rc := uts_rc u + d\<rparr>)\<rparr>)"
  by (simp add: uts_add_rc_def)

lemma thread_ns_live: "thread_ns sel s t = Some a \<Longrightarrow> \<exists>th. threads s t = Some th"
  by (auto simp: thread_ns_def bind_eq_Some_conv)

lemma thread_ns_utss [simp]: "thread_ns sel (s\<lparr>utss := h\<rparr>) = thread_ns sel s"
  by (simp add: thread_ns_def fun_eq_iff)

text \<open>A move between two containers when the source keeps other users.\<close>

lemma uts_move_eq:
  assumes "thread_ns utsContainer s t = Some a" "utss s a = Some ua" "utss s b = Some ub" "a \<noteq> b" "1 < uts_rc ua"
  shows "rtems_uts_container_move_task (Some a) (Some b) (Some t) s =
     Some ((set_uts t (Some b) s)\<lparr>utss := (utss s)(a \<mapsto> ua\<lparr>uts_rc := uts_rc ua - 1\<rparr>, b \<mapsto> ub\<lparr>uts_rc := uts_rc ub + 1\<rparr>)\<rparr>)"
proof -
  obtain th where "threads s t = Some th" using thread_ns_live [OF assms(1)] by blast
  then show ?thesis using assms by (simp add: rtems_uts_container_move_task_def uts_add_rc_Some)
qed

lemma uts_move_member:
  assumes "thread_ns utsContainer s t = Some a" "uts_count s a = Some n" "uts_count s b = Some k" "a \<noteq> b" "1 < n"
  shows "\<exists>s'. rtems_uts_container_move_task (Some a) (Some b) (Some t) s = Some s' \<and>
     thread_ns utsContainer s' = (thread_ns utsContainer s)(t := Some b) \<and>
     uts_count s' = (uts_count s)(a \<mapsto> n - 1, b \<mapsto> k + 1)"
proof -
  from assms obtain ua ub where u: "utss s a = Some ua" "uts_rc ua = n" "utss s b = Some ub" "uts_rc ub = k"
    by (auto simp: uts_count_def)
  show ?thesis
    using uts_move_eq [OF assms(1) u(1,3) assms(4)] thread_ns_set_uts [OF assms(1)] u assms(4,5)
    by (auto simp: uts_count_def fun_eq_iff)
qed

interpretation uts_ns: ns_refcount "thread_ns utsContainer" uts_count rtems_uts_container_move_task
  by unfold_locales (rule uts_move_member)

text \<open>Moving a task between UTS containers keeps reference counts in step with membership: the
  task is then in the destination, no other task moves, and for every container the amount by which
  its count exceeds the number of its tasks (the references of the unified layer) is unchanged.\<close>

theorem uts_move_keeps_counts:
  assumes "finite T" "t \<in> T" "thread_ns utsContainer s t = Some a" "uts_count s a = Some n"
    "uts_count s b = Some k" "a \<noteq> b" "1 < n"
  shows "\<exists>s'. rtems_uts_container_move_task (Some a) (Some b) (Some t) s = Some s' \<and>
     thread_ns utsContainer s' t = Some b \<and>
     (\<forall>u. u \<noteq> t \<longrightarrow> thread_ns utsContainer s' u = thread_ns utsContainer s u) \<and>
     (\<forall>c. the (uts_count s' c) - int (card {u \<in> T. thread_ns utsContainer s' u = Some c}) =
          the (uts_count s c) - int (card {u \<in> T. thread_ns utsContainer s u = Some c}))"
  by (rule uts_ns.move_keeps_excess [OF assms]) (simp add: uts_ns.excess_def)

section \<open>Deleting a container\<close>

lemma uts_remove_sel [simp]:
  "utss (rtems_uts_container_remove_from_list p s) = utss s"
  "threads (rtems_uts_container_remove_from_list p s) = threads s"
  "cfg (rtems_uts_container_remove_from_list p s) = cfg s"
  "g_rootUtsContainer (rtems_uts_container_remove_from_list p s) = g_rootUtsContainer s"
  by (simp_all add: rtems_uts_container_remove_from_list_def split: option.splits prod.splits)

lemma uts_add_sel [simp]:
  "utss (rtems_uts_container_add_to_list p s) = utss s"
  "threads (rtems_uts_container_add_to_list p s) = threads s"
  "cfg (rtems_uts_container_add_to_list p s) = cfg s"
  "g_rootUtsContainer (rtems_uts_container_add_to_list p s) = g_rootUtsContainer s"
  "thread_table (rtems_uts_container_add_to_list p s) = thread_table s"
  "executing (rtems_uts_container_add_to_list p s) = executing s"
  by (simp_all add: rtems_uts_container_add_to_list_def split: option.splits prod.splits)

lemma uts_rehome_other:
  "t \<in> dom (threads s) \<Longrightarrow> thread_ns utsContainer s t \<noteq> Some c \<Longrightarrow> uts_rehome c r t s = Some s"
  by (auto simp: uts_rehome_def)

lemma uts_iterate_unused:
  assumes "threads_ok s" "\<And>t. thread_ns utsContainer s t \<noteq> Some c"
  shows "Thread_Iterate (uts_switch_to_root c) s = Some s"
proof (cases "thread_table s")
  case (Cons t ts)
  with assms(1) have "t \<in> dom (threads s)" by (auto simp: threads_ok_def)
  with Cons uts_rehome_other [of t s c] assms(2) show ?thesis
    by (simp add: Thread_Iterate_def uts_switch_to_root_def split: option.split)
qed (simp add: Thread_Iterate_def)

text \<open>A container that no thread is in is unlinked and freed, and nothing else changes.\<close>

lemma uts_delete_unused:
  assumes "threads_ok s" "\<And>t. thread_ns utsContainer s t \<noteq> Some c" "utss s c = Some u"
    "g_rootUtsContainer s = Some r" "c \<noteq> r" "rootContainer s \<noteq> None"
  shows "rtems_uts_container_delete (Some c) s =
     Some ((rtems_uts_container_remove_from_list (Some c) s)
       \<lparr>mem := free_block (mem (rtems_uts_container_remove_from_list (Some c) s)),
        utss := (utss s)(c := None)\<rparr>)"
proof -
  have "(case executing s of None \<Rightarrow> Some s | Some t \<Rightarrow> uts_rehome c r t s) = Some s"
    using assms(1,2) by (auto simp: threads_ok_def uts_rehome_other split: option.split)
  then show ?thesis
    using assms(3-6) uts_iterate_unused [OF assms(1,2)]
    by (auto simp: rtems_uts_container_delete_def rtems_container_get_root_def)
qed

text \<open>Creating a UTS container and deleting it again, with no task in it, gives back every
  block it took: the containers, the registry and the number of blocks in use are as before,
  also when the registry node could not be allocated.\<close>

theorem uts_create_delete:
  assumes "heap_ok (mem s) (utss s)" "threads_ok s" "rootContainer s \<noteq> None"
    "g_rootUtsContainer s = Some r" "r \<in> dom (utss s)" "set (uts_registry s) \<subseteq> dom (utss s)"
    "\<And>t. thread_ns utsContainer s t \<noteq> Some (brk (mem s))"
    "rtems_uts_container_create name s = (Some c, s1)"
  shows "\<exists>s2. rtems_uts_container_delete (Some c) s1 = Some s2 \<and> utss s2 = utss s \<and>
     uts_registry s2 = uts_registry s \<and> live (mem s2) = live (mem s)"
proof -
  from assms(8) have ok: "\<not> oom (mem s) (brk (mem s))" and c: "c = brk (mem s)"
    by (auto simp: rtems_uts_container_create_def malloc_def split: if_splits)
  let ?u = "\<lparr>uts_rc = 0, uts_ID = g_utsContainerId s + 1, uts_name = uts_new_name name\<rparr>"
  define s0 where "s0 = s\<lparr>mem := snd (malloc (mem s)), g_utsContainerId := g_utsContainerId s + 1,
     utss := (utss s)(c \<mapsto> ?u)\<rparr>"
  have s1: "s1 = rtems_uts_container_add_to_list (Some c) s0"
    using assms(8) ok by (simp add: rtems_uts_container_create_def malloc_def s0_def c)
  have fresh: "utss s c = None" using heap_ok_fresh [OF assms(1)] c by simp
  have reg0: "uts_registry s0 = uts_registry s" "rootContainer s0 \<noteq> None"
    using assms(3) by (simp_all add: uts_registry_def s0_def)
  have ns: "thread_ns utsContainer s1 t \<noteq> Some c" for t
    using assms(7) [of t] by (simp add: thread_ns_def s1) (simp add: s0_def c)
  define s3 where "s3 = rtems_uts_container_remove_from_list (Some c) s1"
  have "rtems_uts_container_delete (Some c) s1 =
      Some (s3\<lparr>mem := free_block (mem s3), utss := (utss s1)(c := None)\<rparr>)"
    unfolding s3_def
  proof (rule uts_delete_unused [OF _ ns, of ?u r])
    show "threads_ok s1" using assms(2) by (simp add: threads_ok_def s1) (simp add: s0_def)
    show "utss s1 c = Some ?u" "g_rootUtsContainer s1 = Some r" using assms(4) by (simp_all add: s1 s0_def)
    show "c \<noteq> r" using assms(5) fresh by auto
    show "rootContainer s1 \<noteq> None" using uts_reg.add_ready [OF reg0(2)] by (simp add: s1)
  qed
  moreover have "c \<notin> set (uts_registry s0)" using assms(6) fresh reg0 by auto
  then have "uts_registry s3 = uts_registry s" "live (mem s3) = live (mem s) + 1"
    using uts_reg.remove_add [OF reg0(2), of c] reg0 ok
    by (simp_all add: s3_def s1) (simp add: s0_def malloc_def)
  moreover have "(utss s1)(c := None) = utss s" using fresh by (auto simp: s1 s0_def)
  ultimately show ?thesis by (simp add: uts_registry_def)
qed

text \<open>The last task leaves a container: it is deleted.\<close>

text \<open>When the last reference of a non-root UTS container moves away (logging not compiled in),
  the move frees the source container, takes it off the registry and still counts the task in the
  destination.\<close>

theorem uts_move_last_deletes:
  assumes "thread_ns utsContainer s t = Some a" "uts_count s a = Some 1" "uts_count s b = Some k" "a \<noteq> b"
    "\<And>u. thread_ns utsContainer s u = Some a \<Longrightarrow> u = t" "threads_ok s" "rootContainer s \<noteq> None"
    "g_rootUtsContainer s = Some r" "a \<noteq> r" "distinct (uts_registry s)"
    "\<not> RTEMSCFG_CONTAINER_LOG (cfg s)"
  shows "\<exists>s'. rtems_uts_container_move_task (Some a) (Some b) (Some t) s = Some s' \<and>
     uts_count s' = (uts_count s)(a := None, b \<mapsto> k + 1) \<and> thread_ns utsContainer s' t = Some b \<and>
     a \<notin> set (uts_registry s')"
proof -
  from assms(2,3) obtain ua ub where u: "utss s a = Some ua" "uts_rc ua = 1" "utss s b = Some ub" "uts_rc ub = k"
    by (auto simp: uts_count_def)
  obtain th where th: "threads s t = Some th" using thread_ns_live [OF assms(1)] by blast
  define s1 where "s1 = (set_uts t (Some b) s)\<lparr>utss := (utss s)(a \<mapsto> ua\<lparr>uts_rc := 0\<rparr>)\<rparr>"
  have ns1: "thread_ns utsContainer s1 = (thread_ns utsContainer s)(t := Some b)"
    using thread_ns_set_uts [OF assms(1)] by (simp add: s1_def)
  define s3 where "s3 = rtems_uts_container_remove_from_list (Some a) s1"
  define s2 where "s2 = s3\<lparr>mem := free_block (mem s3), utss := (utss s1)(a := None)\<rparr>"
  have del: "rtems_uts_container_delete (Some a) s1 = Some s2"
    unfolding s2_def s3_def
  proof (rule uts_delete_unused [where r = r and u = "ua\<lparr>uts_rc := 0\<rparr>"])
    show "threads_ok s1" using assms(6) by (simp add: s1_def threads_ok_def)
    show "thread_ns utsContainer s1 u \<noteq> Some a" for u
      using assms(4,5) by (auto simp: ns1)
  qed (use assms(4,7-9) u in \<open>simp_all add: s1_def\<close>)
  let ?s = "s2\<lparr>utss := (utss s2)(b \<mapsto> ub\<lparr>uts_rc := k + 1\<rparr>)\<rparr>"
  have mv: "rtems_uts_container_move_task (Some a) (Some b) (Some t) s = Some ?s"
    using u th assms(1,4,11) del
    by (simp add: rtems_uts_container_move_task_def uts_add_rc_Some s1_def [symmetric])
      (simp add: uts_add_rc_def s2_def s3_def s1_def)
  have "rootContainer s1 \<noteq> None" using assms(7) by (simp add: s1_def)
  then have "uts_registry s3 = remove1 a (uts_registry s1)"
    unfolding s3_def by (rule uts_reg.registry_remove)
  moreover have "uts_registry s1 = uts_registry s" by (simp add: uts_registry_def s1_def)
  moreover have "uts_registry ?s = uts_registry s3" by (simp add: uts_registry_def s2_def)
  ultimately have "a \<notin> set (uts_registry ?s)" using assms(10) by simp
  moreover have "uts_count ?s = (uts_count s)(a := None, b \<mapsto> k + 1)"
    using assms(4) by (auto simp: uts_count_def fun_eq_iff s2_def s1_def)
  moreover have "thread_ns utsContainer ?s t = thread_ns utsContainer s1 t"
    by (simp add: thread_ns_def s2_def s3_def)
  ultimately show ?thesis using mv ns1 by auto
qed

lemma uts_rehome_cfg: "uts_rehome c r t s = Some s' \<Longrightarrow> cfg s' = cfg s"
  by (auto simp: uts_rehome_def uts_add_rc_def bind_eq_Some_conv split: if_splits)

lemma uts_delete_cfg:
  assumes "rtems_uts_container_delete p s = Some s'"
  shows "cfg s' = cfg s"
proof -
  have "cfg s1 = cfg s" if "Thread_Iterate (uts_switch_to_root c) s = Some s1" for c s1
    using that unfolding Thread_Iterate_def
    by (rule Thread_Iterate_loop_inv)
      (auto simp: uts_switch_to_root_def uts_rehome_cfg split: option.splits)
  with assms show ?thesis
    by (auto simp: rtems_uts_container_delete_def bind_eq_Some_conv uts_rehome_cfg
        split: option.splits if_splits)
qed

text \<open>(C40) Deleting a UTS container visits only the first task of the object table besides the
  executing one, because the visitor \<open>switch_to_root\<close> returns true and true stops
  \<open>_Thread_Iterate\<close>. A task of the deleted container that is neither keeps a pointer to the
  freed block.\<close>

theorem uts_delete_leaves_dangling:
  assumes "rtems_uts_container_delete (Some c) s = Some s'" "thread_table s = t0 # ts" "t \<noteq> t0"
    "executing s \<noteq> Some t" "thread_ns utsContainer s t = Some c" "g_rootUtsContainer s = Some r" "c \<noteq> r"
    "rootContainer s \<noteq> None"
  shows "thread_ns utsContainer s' t = Some c \<and> utss s' c = None"
proof -
  have other: "thread_ns utsContainer s2 t = thread_ns utsContainer s1 t \<and> executing s2 = executing s1"
    if "uts_rehome c r u s1 = Some s2" "u \<noteq> t" for u s1 s2
    using that by (auto simp: uts_rehome_def uts_add_rc_def bind_eq_Some_conv thread_ns_set_uts
        split: if_splits)
  from assms obtain s1 s2 where s1: "Thread_Iterate (uts_switch_to_root c) s = Some s1"
    "(case executing s1 of None \<Rightarrow> Some s1 | Some t \<Rightarrow> uts_rehome c r t s1) = Some s2"
    and s': "s' = (rtems_uts_container_remove_from_list (Some c) s2)\<lparr>mem := free_block
        (mem (rtems_uts_container_remove_from_list (Some c) s2)), utss := (utss s2)(c := None)\<rparr>"
    by (auto simp: rtems_uts_container_delete_def rtems_container_get_root_def bind_eq_Some_conv)
  have "Thread_Iterate (uts_switch_to_root c) s = uts_rehome c r t0 s"
    using assms(2,6) by (cases "uts_rehome c r t0 s") (simp_all add: Thread_Iterate_def uts_switch_to_root_def)
  then have "thread_ns utsContainer s1 t = Some c" "executing s1 \<noteq> Some t"
    using s1(1) other [of t0 s s1] assms(3-5) by simp_all
  then have "thread_ns utsContainer s2 t = Some c"
    using s1(2) other [of _ s1 s2] by (auto split: option.splits)
  then show ?thesis by (simp add: s' thread_ns_def)
qed

text \<open>With logging compiled in, the same move reads the number of the source container after it
  was freed: the log call at the end of \<open>rtems_uts_container_move_task\<close> evaluates
  \<open>srcContainer->ID\<close>, so the call has undefined behaviour.\<close>

theorem uts_move_last_logged_undefined:
  assumes "thread_ns utsContainer s t = Some a" "uts_count s a = Some 1" "a \<noteq> b"
    "g_rootUtsContainer s = Some r" "a \<noteq> r" "rootContainer s \<noteq> None" "RTEMSCFG_CONTAINER_LOG (cfg s)"
  shows "rtems_uts_container_move_task (Some a) (Some b) (Some t) s = None"
proof (rule ccontr)
  assume "rtems_uts_container_move_task (Some a) (Some b) (Some t) s \<noteq> None"
  then obtain s' where "rtems_uts_container_move_task (Some a) (Some b) (Some t) s = Some s'" by auto
  moreover obtain ua where ua: "utss s a = Some ua" "uts_rc ua = 1"
    using assms(2) by (auto simp: uts_count_def)
  ultimately obtain s1 s2 where s1: "rtems_uts_container_delete (Some a) s1 = Some s2"
      "g_rootUtsContainer s1 = g_rootUtsContainer s" "rootContainer s1 = rootContainer s" "cfg s1 = cfg s"
    and end': "uts_add_rc b 1 s2 = Some s'" "log_deref s' (utss s') [Some a, Some b] = Some ()"
    using assms(1) by (auto simp: rtems_uts_container_move_task_def bind_eq_Some_conv uts_add_rc_def
        split: if_splits)
  have "utss s2 a = None"
    using s1 assms(4-6) by (auto simp: rtems_uts_container_delete_def rtems_container_get_root_def
        bind_eq_Some_conv)
  then have "utss s' a = None" using end'(1) assms(3) by (auto simp: uts_add_rc_def bind_eq_Some_conv)
  moreover have "RTEMSCFG_CONTAINER_LOG (cfg s')"
    using uts_delete_cfg [OF s1(1)] s1(4) end'(1) assms(7)
    by (auto simp: uts_add_rc_def bind_eq_Some_conv)
  ultimately show False using end'(2) by (simp add: log_deref_def)
qed

section \<open>Host names\<close>

text \<open>(C37) A task that sets a host name of fewer than 50 characters reads the same name back with a
  large enough buffer, in its own UTS container; the names of all other containers are untouched.\<close>

theorem uts_hostname_roundtrip:
  assumes "uts_current s = Some c" "utss s c = Some u" "length (uts_name u) = UTS_NAME_SIZE"
    "NUL \<notin> set name" "length name < UTS_NAME_SIZE" "length name < MAXHOSTNAMELEN" "length name < n"
  shows "\<exists>s' buf. sethostname MAXHOSTNAMELEN name (length name) s = Some (0, s') \<and>
     gethostname n s' = Some buf \<and> cstr buf = name \<and> (\<forall>d. d \<noteq> c \<longrightarrow> utss s' d = utss s d)"
proof -
  obtain b where b: "strncpy (uts_name u) name (length name) = Some b"
    using assms(3,5) by (simp add: strncpy_def)
  let ?s = "s\<lparr>utss := (utss s)(c \<mapsto> u\<lparr>uts_name := b[length name := NUL]\<rparr>)\<rparr>"
  have set: "sethostname MAXHOSTNAMELEN name (length name) s = Some (0, ?s)"
    using assms b by (simp add: sethostname_def)
  have "cstr (b[length name := NUL]) = name"
    using cstr_strncpy_set [OF b assms(4)] assms(3,5) by simp
  moreover have "uts_current ?s = Some c"
    using assms(1) unfolding uts_current_def rtems_container_get_root_def thread_ns_def
    by (simp split: option.splits)
  ultimately have "gethostname n ?s = strncpy (replicate n NUL) name n" by (simp add: gethostname_def)
  also have "\<dots> = Some (name @ replicate (n - length name) NUL)"
    using assms(7) by (simp add: strncpy_def)
  also have "replicate (n - length name) NUL = NUL # replicate (n - length name - 1) NUL"
    using assms(7) by (cases "n - length name") auto
  finally have "gethostname n ?s = Some (name @ NUL # replicate (n - length name - 1) NUL)" .
  then show ?thesis using set cstr_append_NUL [OF assms(4)]
    by (intro exI [of _ ?s] exI [of _ "name @ NUL # replicate (n - length name - 1) NUL"]) simp
qed

text \<open>\<open>sethostname\<close> only checks the length against \<open>MAXHOSTNAMELEN\<close>: a length above the
  50 characters of the container's buffer and below that bound overruns the buffer.\<close>

theorem uts_sethostname_overrun:
  assumes "uts_current s = Some c" "utss s c = Some u" "length (uts_name u) = UTS_NAME_SIZE"
    "UTS_NAME_SIZE < namelen" "namelen < MAXHOSTNAMELEN"
  shows "sethostname MAXHOSTNAMELEN name namelen s = None"
  using assms by (simp add: sethostname_def strncpy_def)

section \<open>A concrete system\<close>

definition demo_uts_thread :: "u32 \<Rightarrow> ptr \<Rightarrow> Thread_Control" where
  "demo_uts_thread oid p = \<lparr>Object_id = oid, container = Some (Container_zero\<lparr>utsContainer := p\<rparr>),
     cgroup = None, last_cpu_start_timestamp = 0, is_added_to_cgroup = False, current_state = 0\<rparr>"

text \<open>A root container 0 and a registered container 1, whose reference counts are \<open>n\<close> and
  \<open>k\<close>; task 3 executes in the root, task 4 is in the container.\<close>

definition demo_uts :: "rtemscfg \<Rightarrow> int \<Rightarrow> int \<Rightarrow> uts_kernel" where
  "demo_uts cf n k = \<lparr>cfg = cf, mem = \<lparr>brk = 10, oom = (\<lambda>_. False), live = 3\<rparr>,
     rootContainer = Some (Container_zero\<lparr>c_rc := 1, utsContainer := Some 0, utsContainerList := [1]\<rparr>),
     threads = [3 \<mapsto> demo_uts_thread 7 (Some 0), 4 \<mapsto> demo_uts_thread 8 (Some 1)],
     thread_table = [3, 4], executing = Some 3, pids = Map.empty, g_pidContainerId = 0,
     utss = [0 \<mapsto> \<lparr>uts_rc = n, uts_ID = 1, uts_name = uts_buffer ''root''\<rparr>,
             1 \<mapsto> \<lparr>uts_rc = k, uts_ID = 2, uts_name = uts_buffer ''web''\<rparr>],
     g_utsContainerId = 2, g_rootUtsContainer = Some 0\<rparr>"

lemma demo_uts_ns: "thread_ns utsContainer (demo_uts cf n k) = [3 \<mapsto> 0, 4 \<mapsto> 1]"
  by (auto simp: thread_ns_def demo_uts_def demo_uts_thread_def Container_zero_def fun_eq_iff)

lemma demo_uts_count: "uts_count (demo_uts cf n k) = [0 \<mapsto> n, 1 \<mapsto> k]"
  by (auto simp: uts_count_def demo_uts_def fun_eq_iff)

lemma demo_uts_ok:
  "threads_ok (demo_uts cf n k)" "rootContainer (demo_uts cf n k) \<noteq> None"
  "g_rootUtsContainer (demo_uts cf n k) = Some 0" "uts_registry (demo_uts cf n k) = [1]"
  "cfg (demo_uts cf n k) = cf"
  by (simp_all add: demo_uts_def threads_ok_def uts_registry_def)

theorem uts_move_keeps_counts_witness:
  "\<exists>s'. rtems_uts_container_move_task (Some 0) (Some 1) (Some 3) (demo_uts demo_cfg 2 2) = Some s' \<and>
     thread_ns utsContainer s' 3 = Some 1"
  using uts_move_keeps_counts [of "{3, 4}" 3 "demo_uts demo_cfg 2 2" 0 2 1 2]
  by (auto simp: demo_uts_ns demo_uts_count)

theorem uts_create_delete_witness:
  "\<exists>s1 s2. rtems_uts_container_create (Some ''db'') (demo_uts demo_cfg 1 1) = (Some 10, s1) \<and>
     rtems_uts_container_delete (Some 10) s1 = Some s2 \<and> live (mem s2) = 3"
proof -
  let ?s = "demo_uts demo_cfg 1 1"
  have m: "mem ?s = \<lparr>brk = 10, oom = (\<lambda>_. False), live = 3\<rparr>" by (simp add: demo_uts_def)
  obtain s1 where s1: "rtems_uts_container_create (Some ''db'') ?s = (Some 10, s1)"
    by (simp add: rtems_uts_container_create_def malloc_def m)
  have "heap_ok (mem ?s) (utss ?s)" "0 \<in> dom (utss ?s)" "set (uts_registry ?s) \<subseteq> dom (utss ?s)"
    by (auto simp: heap_ok_def demo_uts_def uts_registry_def split: if_splits)
  moreover have "thread_ns utsContainer ?s t \<noteq> Some (brk (mem ?s))" for t
    by (simp add: demo_uts_ns m)
  ultimately have "\<exists>s2. rtems_uts_container_delete (Some 10) s1 = Some s2 \<and> utss s2 = utss ?s \<and>
     uts_registry s2 = uts_registry ?s \<and> live (mem s2) = live (mem ?s)"
    by (intro uts_create_delete [OF _ _ _ _ _ _ _ s1, of 0]) (simp_all add: demo_uts_ok)
  with s1 m show ?thesis by auto
qed

theorem uts_move_last_deletes_witness:
  "\<exists>s'. rtems_uts_container_move_task (Some 1) (Some 0) (Some 4) (demo_uts demo_cfg 1 1) = Some s' \<and>
     uts_count s' = [0 \<mapsto> 2]"
proof -
  have "([0 \<mapsto> 1, 1 \<mapsto> (1 :: int)])(1 := None, 0 \<mapsto> 2) = [0 :: nat \<mapsto> 2]" by (auto simp: fun_eq_iff)
  moreover have "\<exists>s'. rtems_uts_container_move_task (Some 1) (Some 0) (Some 4) (demo_uts demo_cfg 1 1) = Some s' \<and>
     uts_count s' = (uts_count (demo_uts demo_cfg 1 1))(1 := None, 0 \<mapsto> 1 + 1) \<and>
     thread_ns utsContainer s' 4 = Some 0 \<and> 1 \<notin> set (uts_registry s')"
    by (rule uts_move_last_deletes [of _ _ _ _ _ 0])
      (simp_all add: demo_uts_ns demo_uts_count demo_uts_ok demo_cfg_def split: if_splits)
  ultimately show ?thesis by (simp add: demo_uts_count) blast
qed

theorem uts_move_last_logged_undefined_witness:
  "rtems_uts_container_move_task (Some 1) (Some 0) (Some 4)
     (demo_uts (demo_cfg\<lparr>RTEMSCFG_CONTAINER_LOG := True\<rparr>) 1 1) = None"
  by (rule uts_move_last_logged_undefined [of _ _ _ _ 0])
    (simp_all add: demo_uts_ns demo_uts_count demo_uts_ok)

theorem uts_delete_leaves_dangling_witness:
  "\<exists>s'. rtems_uts_container_delete (Some 1) (demo_uts demo_cfg 1 1) = Some s' \<and>
     thread_ns utsContainer s' 4 = Some 1 \<and> utss s' 1 = None"
proof -
  let ?s = "demo_uts demo_cfg 1 1"
  have table: "thread_table ?s = [3, 4]" "executing ?s = Some 3" by (simp_all add: demo_uts_def)
  have "utss ?s 1 \<noteq> None" by (simp add: demo_uts_def)
  have "uts_rehome 1 0 3 ?s = Some ?s"
    by (rule uts_rehome_other) (simp_all add: demo_uts_ns, simp add: demo_uts_def)
  then have it: "Thread_Iterate (uts_switch_to_root 1) ?s = Some ?s"
    using demo_uts_ok(3) [of demo_cfg 1 1] table
    by (simp add: Thread_Iterate_def uts_switch_to_root_def)
  have "\<exists>s'. rtems_uts_container_delete (Some 1) ?s = Some s'"
    using it \<open>uts_rehome 1 0 3 ?s = Some ?s\<close> \<open>utss ?s 1 \<noteq> None\<close> table demo_uts_ok [of demo_cfg 1 1]
    by (auto simp: rtems_uts_container_delete_def rtems_container_get_root_def)
  then obtain s' where "rtems_uts_container_delete (Some 1) ?s = Some s'" by blast
  then show ?thesis
    using uts_delete_leaves_dangling [of 1 ?s s' 3 "[4]" 4 0] demo_uts_ok [of demo_cfg 1 1] table
    by (simp add: demo_uts_ns)
qed

theorem uts_hostname_roundtrip_witness:
  "\<exists>s' buf. sethostname 64 ''node'' 4 (demo_uts demo_cfg 1 1) = Some (0, s') \<and>
     gethostname 20 s' = Some buf \<and> cstr buf = ''node''"
proof -
  let ?s = "demo_uts demo_cfg 1 1" and ?u = "\<lparr>uts_rc = 1, uts_ID = 1, uts_name = uts_buffer ''root''\<rparr>"
  have cur: "uts_current ?s = Some 0" "utss ?s 0 = Some ?u"
    by (simp_all add: uts_current_def demo_uts_def thread_ns_def demo_uts_thread_def Container_zero_def)
  have "\<exists>s' buf. sethostname 64 ''node'' (length ''node'') ?s = Some (0, s') \<and>
     gethostname 20 s' = Some buf \<and> cstr buf = ''node'' \<and> (\<forall>d. d \<noteq> 0 \<longrightarrow> utss s' d = utss ?s d)"
    by (rule uts_hostname_roundtrip [OF cur]) (simp_all add: uts_buffer_def UTS_NAME_SIZE_def NUL_def)
  moreover have "length ''node'' = 4" by simp
  ultimately show ?thesis by metis
qed

theorem uts_sethostname_overrun_witness:
  "sethostname 64 (replicate 60 CHR ''x'') 60 (demo_uts demo_cfg 1 1) = None"
  by (rule uts_sethostname_overrun [of _ 0 "\<lparr>uts_rc = 1, uts_ID = 1, uts_name = uts_buffer ''root''\<rparr>"])
    (simp_all add: uts_current_def demo_uts_def thread_ns_def demo_uts_thread_def Container_zero_def
      uts_buffer_def UTS_NAME_SIZE_def)

end
