(* ===== verification/Objects.thy ===== *)
theory Objects
  imports Kernel
begin

text \<open>
  Object identifiers and object information blocks, from \<open>score/object.h\<close>,
  \<open>score/objectimpl.h\<close> and the object handler sources, and the two allocators that IPC
  containers install: the static one of the object handler and the private one of
  \<open>score/src/ipcContainer.c\<close> for semaphores.

  An object is an element of an array of control blocks; a pointer to it is the address of the array
  with the element's position. Of a control block the identifier and the name are kept. The chain of
  inactive objects is a list. The configuration is uniprocessor without \<open>RTEMS_MULTIPROCESSING\<close>.
\<close>

section \<open>Identifiers\<close>

definition Objects_Build_id :: "u32 \<Rightarrow> u32 \<Rightarrow> u32 \<Rightarrow> u32 \<Rightarrow> u32" where
  "Objects_Build_id the_api the_class node index =
     push_bit 24 the_api OR push_bit 27 the_class OR push_bit 16 node OR index"

definition Objects_Get_API :: "u32 \<Rightarrow> u32" where
  "Objects_Get_API i = drop_bit 24 i AND 7"

definition Objects_Get_class :: "u32 \<Rightarrow> u32" where
  "Objects_Get_class i = drop_bit 27 i AND 31"

definition Objects_Get_node :: "u32 \<Rightarrow> u32" where
  "Objects_Get_node i = drop_bit 16 i AND 255"

definition Objects_Get_index :: "u32 \<Rightarrow> u16" where
  "Objects_Get_index i = ucast (i AND 0xffff)"

definition OBJECTS_INDEX_MINIMUM :: u32 where "OBJECTS_INDEX_MINIMUM = 1"
definition OBJECTS_CLASSIC_API :: u32 where "OBJECTS_CLASSIC_API = 2"
definition OBJECTS_RTEMS_SEMAPHORES :: u32 where "OBJECTS_RTEMS_SEMAPHORES = 3"
definition OBJECTS_RTEMS_MESSAGE_QUEUES :: u32 where "OBJECTS_RTEMS_MESSAGE_QUEUES = 4"

section \<open>Information blocks\<close>

type_synonym objp = "addr \<times> nat"

record Objects_Control =
  obj_id :: u32
  obj_name :: u32

text \<open>The values that the function pointers of an information block take.\<close>

datatype objects_allocator = NO_ALLOCATOR | OBJECTS_STATIC | IPC_SEMAPHORE_STATIC

record Objects_Information =
  maximum_id :: u32
  local_table :: "objp option list option"
  allocate :: objects_allocator
  deallocate :: objects_allocator
  inactive :: u16
  objects_per_block :: u16
  name_length :: u16
  Inactive :: "objp list"
  initial_objects :: ptr

definition Objects_Information_zero :: Objects_Information where
  "Objects_Information_zero = \<lparr>maximum_id = 0, local_table = None, allocate = NO_ALLOCATOR,
     deallocate = NO_ALLOCATOR, inactive = 0, objects_per_block = 0, name_length = 0, Inactive = [],
     initial_objects = None\<rparr>"

text \<open>Reading and writing a control block.\<close>

type_synonym objects_heap = "addr \<rightharpoonup> Objects_Control list"

definition obj_read :: "objects_heap \<Rightarrow> objp \<Rightarrow> Objects_Control option" where
  "obj_read h p = do { b \<leftarrow> h (fst p); if snd p < length b then Some (b ! snd p) else None }"

definition obj_write :: "objp \<Rightarrow> (Objects_Control \<Rightarrow> Objects_Control) \<Rightarrow> objects_heap \<Rightarrow> objects_heap option" where
  "obj_write p f h = do {
     b \<leftarrow> h (fst p);
     b' \<leftarrow> (if snd p < length b then Some (b[snd p := f (b ! snd p)]) else None);
     Some (h(fst p \<mapsto> b')) }"

definition Objects_Set_local_object ::
  "Objects_Information \<Rightarrow> u32 \<Rightarrow> objp option \<Rightarrow> Objects_Information option" where
  "Objects_Set_local_object info index p = do {
     tab \<leftarrow> local_table info;
     tab' \<leftarrow> array_update tab (int (unat (index - OBJECTS_INDEX_MINIMUM))) p;
     Some (info\<lparr>local_table := Some tab'\<rparr>) }"

text \<open>Looking an identifier up; the inner option is the result, with \<open>None\<close> for NULL.\<close>

definition Objects_Get :: "u32 \<Rightarrow> Objects_Information \<Rightarrow> objp option option" where
  "Objects_Get i info =
     (let delta = maximum_id info - i; end' = ucast (Objects_Get_index (maximum_id info)) :: u32
      in if delta < end' then do {
           tab \<leftarrow> local_table info;
           let k = unat (end' - OBJECTS_INDEX_MINIMUM - delta) in
             if k < length tab then Some (tab ! k) else None }
         else Some None)"

definition Objects_Open_u32 ::
  "objp \<Rightarrow> u32 \<Rightarrow> Objects_Information \<Rightarrow> objects_heap \<Rightarrow> (u32 \<times> Objects_Information \<times> objects_heap) option" where
  "Objects_Open_u32 p name info h = do {
     h' \<leftarrow> obj_write p (\<lambda>ob. ob\<lparr>obj_name := name\<rparr>) h;
     ob \<leftarrow> obj_read h' p;
     info' \<leftarrow> Objects_Set_local_object info (ucast (Objects_Get_index (obj_id ob))) (Some p);
     Some (obj_id ob, info', h') }"

definition Objects_Close ::
  "objp \<Rightarrow> Objects_Information \<Rightarrow> objects_heap \<Rightarrow> (Objects_Information \<times> objects_heap) option" where
  "Objects_Close p info h = do {
     ob \<leftarrow> obj_read h p;
     info' \<leftarrow> Objects_Set_local_object info (ucast (Objects_Get_index (obj_id ob))) None;
     h' \<leftarrow> obj_write p (\<lambda>ob. ob\<lparr>obj_name := 0\<rparr>) h;
     Some (info', h') }"

section \<open>Allocation\<close>

definition Objects_Get_inactive :: "Objects_Information \<Rightarrow> objp option \<times> Objects_Information" where
  "Objects_Get_inactive info =
     (case Inactive info of [] \<Rightarrow> (None, info) | p # ps \<Rightarrow> (Some p, info\<lparr>Inactive := ps\<rparr>))"

definition Objects_Free_static :: "objp \<Rightarrow> Objects_Information \<Rightarrow> Objects_Information" where
  "Objects_Free_static p info = info\<lparr>Inactive := Inactive info @ [p]\<rparr>"

definition IPC_Semaphore_Allocate_static ::
  "objects_heap \<Rightarrow> Objects_Information \<Rightarrow> (objp option \<times> Objects_Information) option" where
  "IPC_Semaphore_Allocate_static h info =
     (case Objects_Get_inactive info of
        (None, info') \<Rightarrow> Some (None, info')
      | (Some p, info') \<Rightarrow> do {
          ob \<leftarrow> obj_read h p;
          info2 \<leftarrow> Objects_Set_local_object info' (ucast (Objects_Get_index (obj_id ob))) (Some p);
          Some (Some p, info2\<lparr>inactive := inactive info2 - 1\<rparr>) })"

definition IPC_Semaphore_Free_static ::
  "objects_heap \<Rightarrow> objp option \<Rightarrow> Objects_Information \<Rightarrow> Objects_Information option" where
  "IPC_Semaphore_Free_static h the_object info =
     (case the_object of
        None \<Rightarrow> Some info
      | Some p \<Rightarrow> do {
          ob \<leftarrow> obj_read h p;
          tab \<leftarrow> local_table info;
          tab' \<leftarrow> array_update tab (int (unat (Objects_Get_index (obj_id ob)))) None;
          Some (info\<lparr>local_table := Some tab', Inactive := Inactive info @ [p],
                     inactive := inactive info + 1\<rparr>) })"

text \<open>Calls through the function pointers; a call through NULL is undefined.\<close>

definition Objects_Allocate ::
  "objects_heap \<Rightarrow> Objects_Information \<Rightarrow> (objp option \<times> Objects_Information) option" where
  "Objects_Allocate h info =
     (case allocate info of
        NO_ALLOCATOR \<Rightarrow> None
      | OBJECTS_STATIC \<Rightarrow> Some (Objects_Get_inactive info)
      | IPC_SEMAPHORE_STATIC \<Rightarrow> IPC_Semaphore_Allocate_static h info)"

definition Objects_Free ::
  "objects_heap \<Rightarrow> objp \<Rightarrow> Objects_Information \<Rightarrow> Objects_Information option" where
  "Objects_Free h p info =
     (case deallocate info of
        NO_ALLOCATOR \<Rightarrow> None
      | OBJECTS_STATIC \<Rightarrow> Some (Objects_Free_static p info)
      | IPC_SEMAPHORE_STATIC \<Rightarrow> IPC_Semaphore_Free_static h (Some p) info)"

text \<open>\<open>_Objects_Initialize_information\<close>: rebuild the chain and the identifiers from the array. The
  registration in the table of classes is a separate store of the caller.\<close>

definition Objects_Initialize_information ::
  "Objects_Information \<Rightarrow> objects_heap \<Rightarrow> (Objects_Information \<times> objects_heap) option" where
  "Objects_Initialize_information info h =
     (let n = unat (Objects_Get_index (maximum_id info));
          base = maximum_id info AND NOT 0xffff
      in if n = 0 then Some (info\<lparr>Inactive := []\<rparr>, h)
         else do {
           a \<leftarrow> initial_objects info;
           b \<leftarrow> h a;
           if n \<le> length b then
             Some (info\<lparr>Inactive := map (Pair a) [0..<n]\<rparr>,
               h(a \<mapsto> map (\<lambda>i. (b ! i)\<lparr>obj_id := base OR of_nat (Suc i)\<rparr>) [0..<n] @ drop n b))
           else None })"

section \<open>Arithmetic of identifiers\<close>

lemma bit_index_high:
  assumes "unat (i :: u32) < 2 ^ 16" "16 \<le> k"
  shows "\<not> bit i k"
proof -
  have "take_bit 16 i = i" using assms(1)
    by (simp add: word_unat_eq_iff unsigned_take_bit_eq take_bit_nat_eq_self)
  then show ?thesis using assms(2) by (metis bit_take_bit_iff not_less)
qed

lemma index_masks: "(0xffff :: u32) = mask 16" "(255 :: u32) = mask 8" "(7 :: u32) = mask 3" "(31 :: u32) = mask 5"
  by (simp_all add: mask_eq_exp_minus_1)

lemma Objects_Get_index_Build:
  "unat i < 2 ^ 16 \<Longrightarrow> Objects_Get_index (Objects_Build_id a c n i) = ucast i"
  unfolding Objects_Get_index_def Objects_Build_id_def index_masks
  by (rule bit_word_eqI) (auto simp: bit_simps)

lemma Objects_Get_node_Build:
  assumes "unat i < 2 ^ 16"
  shows "Objects_Get_node (Objects_Build_id a c n i) = n AND 255"
  unfolding Objects_Get_node_def Objects_Build_id_def index_masks
  by (rule bit_word_eqI) (use bit_index_high [OF assms] in \<open>auto simp: bit_simps\<close>)

lemma Objects_Build_id_add:
  assumes "unat i < 2 ^ 16"
  shows "Objects_Build_id a c n i = Objects_Build_id a c n 0 + i"
proof -
  have "Objects_Build_id a c n 0 AND i = 0"
    unfolding Objects_Build_id_def
    by (rule bit_word_eqI) (use bit_index_high [OF assms] in \<open>auto simp: bit_simps\<close>)
  then have "Objects_Build_id a c n 0 + i = Objects_Build_id a c n 0 OR i"
    by (simp add: disjunctive_add_eq_or)
  then show ?thesis by (simp add: Objects_Build_id_def or.assoc)
qed

lemma Objects_Build_id_inject:
  "unat i < 2 ^ 16 \<Longrightarrow> unat j < 2 ^ 16 \<Longrightarrow> Objects_Build_id a c n i = Objects_Build_id a c n j \<longleftrightarrow> i = j"
  by (metis Objects_Build_id_add add_left_cancel)

lemma unat_ucast_index: "unat i < 2 ^ 16 \<Longrightarrow> unat (ucast (i :: u32) :: u16) = unat i"
  by (simp add: unsigned_ucast_eq take_bit_nat_eq_self)

lemma ucast_ucast_index: "unat i < 2 ^ 16 \<Longrightarrow> ucast (ucast (i :: u32) :: u16) = i"
  by (simp add: word_unat_eq_iff unat_ucast_up unat_ucast_index)

lemma unat_of_nat_index: "k < 2 ^ 16 \<Longrightarrow> unat (of_nat k :: u32) = k"
  by (simp add: unat_of_nat take_bit_nat_eq_self)

lemma Objects_Build_id_Suc:
  assumes "Suc k < 2 ^ 16"
  shows "Objects_Build_id a c n (of_nat k) + 1 = Objects_Build_id a c n (of_nat (Suc k))"
proof -
  have "unat (of_nat k :: u32) < 2 ^ 16" "unat (of_nat (Suc k) :: u32) < 2 ^ 16"
    using assms by (subst unat_of_nat_index; simp)+
  from this [THEN Objects_Build_id_add, of a c n] show ?thesis by simp
qed

text \<open>What the range test of a lookup accepts: identifiers of the same class and node with an index
  between one and the maximum.\<close>

lemma Objects_id_range:
  assumes "Objects_Build_id a c n k - i < k" "unat k < 2 ^ 16"
  obtains j where "0 < unat j" "unat j \<le> unat k" "i = Objects_Build_id a c n j"
    "k - 1 - (Objects_Build_id a c n k - i) = j - 1"
proof
  let ?d = "Objects_Build_id a c n k - i" and ?j = "k - (Objects_Build_id a c n k - i)"
  have d: "unat ?d < unat k" using assms(1) by (simp add: word_less_nat_alt)
  have j: "unat ?j = unat k - unat ?d" using d by (simp add: unat_sub_if')
  show "0 < unat ?j" "unat ?j \<le> unat k" using d j by simp_all
  then have "unat ?j < 2 ^ 16" using assms(2) by simp
  then have "Objects_Build_id a c n ?j = Objects_Build_id a c n 0 + ?j" by (rule Objects_Build_id_add)
  also have "\<dots> = i" using Objects_Build_id_add [OF assms(2), of a c n] by simp
  finally show "i = Objects_Build_id a c n ?j" by simp
  show "k - 1 - ?d = ?j - 1" by simp
qed

section \<open>Well-formed information blocks\<close>

text \<open>The blocks that an IPC container builds: \<open>n\<close> objects with consecutive identifiers of one
  class and node, a table that maps an index to nothing or to its own object, and a chain of some of
  the objects.\<close>

definition info_wf :: "objects_heap \<Rightarrow> u32 \<Rightarrow> u32 \<Rightarrow> nat \<Rightarrow> Objects_Information \<Rightarrow> bool" where
  "info_wf h cls node n info \<longleftrightarrow> n < 2 ^ 16 \<and>
     maximum_id info = Objects_Build_id OBJECTS_CLASSIC_API cls node (of_nat n) \<and>
     (\<exists>a b tab. initial_objects info = Some a \<and> h a = Some b \<and> length b = n \<and>
        (\<forall>i < n. obj_id (b ! i) = Objects_Build_id OBJECTS_CLASSIC_API cls node (of_nat (Suc i))) \<and>
        local_table info = Some tab \<and> length tab = Suc n \<and>
        (\<forall>i < n. tab ! i = None \<or> tab ! i = Some (a, i)) \<and>
        distinct (Inactive info) \<and> set (Inactive info) \<subseteq> Pair a ` {..<n}) \<and>
     allocate info = deallocate info \<and> allocate info \<noteq> NO_ALLOCATOR"

definition info_objects :: "Objects_Information \<Rightarrow> objp set" where
  "info_objects info = (case initial_objects info of None \<Rightarrow> {}
     | Some a \<Rightarrow> Pair a ` {..<unat (Objects_Get_index (maximum_id info))})"

lemma info_objects_frame [simp]:
  "info_objects (info\<lparr>local_table := t\<rparr>) = info_objects info"
  "info_objects (info\<lparr>Inactive := q\<rparr>) = info_objects info"
  "info_objects (info\<lparr>inactive := k\<rparr>) = info_objects info"
  by (cases "initial_objects info"; simp add: info_objects_def)+

text \<open>The entry of the table for an object.\<close>

definition info_slot :: "Objects_Information \<Rightarrow> nat \<Rightarrow> objp option" where
  "info_slot info i = the (local_table info) ! i"

lemma info_wf_end:
  assumes "info_wf h cls node n info"
  shows "unat (Objects_Get_index (maximum_id info)) = n"
    "ucast (Objects_Get_index (maximum_id info)) = (of_nat n :: u32)"
  using assms by (simp_all add: info_wf_def Objects_Get_index_Build unat_of_nat_index unat_ucast_index
      ucast_ucast_index)

lemma Objects_Get_own:
  assumes "info_wf h cls node n info" "i < n"
  shows "Objects_Get (Objects_Build_id OBJECTS_CLASSIC_API cls node (of_nat (Suc i))) info =
     Some (info_slot info i)"
proof -
  from assms have n: "n < 2 ^ 16" and m: "maximum_id info = Objects_Build_id OBJECTS_CLASSIC_API cls node (of_nat n)"
    by (simp_all add: info_wf_def)
  obtain tab where tab: "local_table info = Some tab" "length tab = Suc n"
    using assms(1) by (auto simp: info_wf_def)
  have nat: "unat (of_nat n :: u32) = n" "unat (of_nat (Suc i) :: u32) = Suc i"
    using n assms(2) by (simp_all add: unat_of_nat_index del: of_nat_Suc)
  have d: "maximum_id info - Objects_Build_id OBJECTS_CLASSIC_API cls node (of_nat (Suc i)) =
      of_nat n - of_nat (Suc i)"
    using n assms(2) nat unfolding m
    by (simp add: Objects_Build_id_add [of "of_nat n"] Objects_Build_id_add [of "of_nat (Suc i)"] del: of_nat_Suc)
  have dn: "of_nat n - of_nat (Suc i) = (of_nat (n - Suc i) :: u32)" using assms(2) by (simp add: of_nat_diff)
  have lt: "(of_nat (n - Suc i) :: u32) < of_nat n"
    using n assms(2) by (simp add: word_less_nat_alt unat_of_nat_index del: of_nat_diff)
  have "of_nat n - OBJECTS_INDEX_MINIMUM - of_nat (n - Suc i) = (of_nat i :: u32)"
    using assms(2) by (simp add: OBJECTS_INDEX_MINIMUM_def of_nat_diff)
  then have k: "unat (of_nat n - OBJECTS_INDEX_MINIMUM - of_nat (n - Suc i) :: u32) = i"
    using n assms(2) by (simp add: unat_of_nat_index)
  show ?thesis
    using tab lt assms(2) unfolding Objects_Get_def Let_def info_wf_end(2) [OF assms(1)] d dn k
    by (simp add: info_slot_def)
qed

text \<open>A lookup finds an object only under the identifier stored in it.\<close>

lemma Objects_Get_sound:
  assumes "info_wf h cls node n info" "Objects_Get i info = Some (Some p)"
  obtains k ob where "k < n" "i = Objects_Build_id OBJECTS_CLASSIC_API cls node (of_nat (Suc k))"
    "info_slot info k = Some p" "initial_objects info = Some (fst p)" "snd p = k"
    "obj_read h p = Some ob" "obj_id ob = i"
proof -
  from assms have n: "n < 2 ^ 16" and m: "maximum_id info = Objects_Build_id OBJECTS_CLASSIC_API cls node (of_nat n)"
    by (simp_all add: info_wf_def)
  have un: "unat (of_nat n :: u32) = n" using n by (simp add: unat_of_nat_index)
  from assms(2) have "maximum_id info - i < (of_nat n :: u32)"
    by (simp add: Objects_Get_def Let_def info_wf_end(2) [OF assms(1)] split: if_splits)
  then obtain j where j: "0 < unat j" "unat j \<le> n" "i = Objects_Build_id OBJECTS_CLASSIC_API cls node j"
    using Objects_id_range [of OBJECTS_CLASSIC_API cls node "of_nat n" i] n un unfolding m by metis
  define k where "k = unat j - 1"
  have k: "k < n" "Suc k = unat j" using j by (simp_all add: k_def)
  have i: "i = Objects_Build_id OBJECTS_CLASSIC_API cls node (of_nat (Suc k))"
    unfolding k(2) j(3) by simp
  have slot: "info_slot info k = Some p" using Objects_Get_own [OF assms(1) k(1)] assms(2) i by simp
  from assms(1) obtain a b tab where ab: "initial_objects info = Some a" "h a = Some b" "length b = n"
    "obj_id (b ! k) = i" "local_table info = Some tab" "tab ! k = None \<or> tab ! k = Some (a, k)"
    using k(1) i unfolding info_wf_def by blast
  with slot have p: "p = (a, k)" by (simp add: info_slot_def)
  show thesis by (rule that [OF k(1) i slot _ _ _ ab(4)]) (use p ab k in \<open>simp_all add: obj_read_def\<close>)
qed

text \<open>No lookup finds an object of another node.\<close>

lemma Objects_Get_foreign:
  assumes "info_wf h cls node n info" "node' AND 255 \<noteq> node AND 255" "unat k < 2 ^ 16"
  shows "Objects_Get (Objects_Build_id a c node' k) info = Some None"
proof -
  let ?i = "Objects_Build_id a c node' k"
  from assms have n: "n < 2 ^ 16" and m: "maximum_id info = Objects_Build_id OBJECTS_CLASSIC_API cls node (of_nat n)"
    by (simp_all add: info_wf_def)
  have "\<not> maximum_id info - ?i < (of_nat n :: u32)"
  proof
    assume "maximum_id info - ?i < (of_nat n :: u32)"
    then obtain j where j: "unat j \<le> n" "?i = Objects_Build_id OBJECTS_CLASSIC_API cls node j"
      using Objects_id_range [of OBJECTS_CLASSIC_API cls node "of_nat n" ?i] n unfolding m
      by (metis unat_of_nat_index)
    then have "Objects_Get_node ?i = node AND 255" using n by (simp add: Objects_Get_node_Build)
    then show False using assms(2,3) by (simp add: Objects_Get_node_Build)
  qed
  then show ?thesis by (simp add: Objects_Get_def Let_def info_wf_end(2) [OF assms(1)])
qed

text \<open>Changing one entry of the table changes one lookup.\<close>

lemma Objects_Get_cong:
  "maximum_id info' = maximum_id info \<Longrightarrow> local_table info' = local_table info \<Longrightarrow>
     Objects_Get i info' = Objects_Get i info"
  by (simp add: Objects_Get_def Let_def)

lemma Objects_Get_update_other:
  assumes "info_wf h cls node n info" "i \<noteq> Objects_Build_id OBJECTS_CLASSIC_API cls node (of_nat (Suc k))"
  shows "Objects_Get i (info\<lparr>local_table := Some ((the (local_table info))[k := v])\<rparr>) = Objects_Get i info"
proof (cases "maximum_id info - i < (of_nat n :: u32)")
  case False
  then show ?thesis by (simp add: Objects_Get_def info_wf_end(2) [OF assms(1)])
next
  case True
  from assms have n: "n < 2 ^ 16" and m: "maximum_id info = Objects_Build_id OBJECTS_CLASSIC_API cls node (of_nat n)"
    by (simp_all add: info_wf_def)
  have un: "unat (of_nat n :: u32) = n" using n by (simp add: unat_of_nat_index)
  obtain j where j: "0 < unat j" "unat j \<le> n" "i = Objects_Build_id OBJECTS_CLASSIC_API cls node j"
    "of_nat n - 1 - (maximum_id info - i) = j - 1"
    using Objects_id_range [of OBJECTS_CLASSIC_API cls node "of_nat n" i] True n un unfolding m by metis
  have "unat (j - 1) = unat j - 1" using j(1) by (intro unat_minus_one) auto
  moreover have "unat j \<noteq> Suc k"
  proof
    assume "unat j = Suc k"
    then have "j = of_nat (Suc k)" by (metis of_nat_unat ucast_id)
    then show False using assms(2) j(3) by simp
  qed
  ultimately have "unat (of_nat n - OBJECTS_INDEX_MINIMUM - (maximum_id info - i) :: u32) \<noteq> k"
    unfolding OBJECTS_INDEX_MINIMUM_def j(4) using j(1) by simp
  moreover obtain tab where "local_table info = Some tab" using assms(1) by (auto simp: info_wf_def)
  ultimately show ?thesis by (simp add: Objects_Get_def Let_def info_wf_end(2) [OF assms(1)])
qed

text \<open>Names do not matter for well-formedness.\<close>

lemma obj_write_name_Some:
  assumes "obj_read h p = Some ob"
  obtains h' where "obj_write p (\<lambda>ob. ob\<lparr>obj_name := x\<rparr>) h = Some h'"
    "obj_read h' p = Some (ob\<lparr>obj_name := x\<rparr>)"
    "\<And>cls node n info. info_wf h cls node n info \<Longrightarrow> info_wf h' cls node n info"
proof -
  from assms obtain b where b: "h (fst p) = Some b" "snd p < length b" "ob = b ! snd p"
    by (auto simp: obj_read_def bind_eq_Some_conv split: if_splits)
  let ?h = "h(fst p \<mapsto> b[snd p := (b ! snd p)\<lparr>obj_name := x\<rparr>])"
  have "obj_write p (\<lambda>ob. ob\<lparr>obj_name := x\<rparr>) h = Some ?h" using b by (simp add: obj_write_def)
  moreover have "obj_read ?h p = Some (ob\<lparr>obj_name := x\<rparr>)" using b by (simp add: obj_read_def)
  moreover have "info_wf ?h cls node n info" if "info_wf h cls node n info" for cls node n info
  proof -
    from that obtain a c where ac: "initial_objects info = Some a" "h a = Some c" "length c = n"
      "\<forall>i < n. obj_id (c ! i) = Objects_Build_id OBJECTS_CLASSIC_API cls node (of_nat (Suc i))"
      by (auto simp: info_wf_def)
    obtain d where d: "?h a = Some d" "length d = n" "\<forall>i < n. obj_id (d ! i) = obj_id (c ! i)"
      using ac b by (cases "a = fst p") (auto simp: nth_list_update)
    show ?thesis using that d ac unfolding info_wf_def by auto
  qed
  ultimately show thesis by (rule that)
qed

section \<open>A pool of objects\<close>

text \<open>The contract that object classes rely on: the idle objects form a queue, an allocation takes
  the first of them or reports that there is none, and a released object goes to the end.\<close>

locale object_pool =
  fixes alloc :: "'s \<Rightarrow> ('o option \<times> 's) option"
    and release :: "'o \<Rightarrow> 's \<Rightarrow> 's option"
    and idle :: "'s \<Rightarrow> 'o list"
    and objects :: "'s \<Rightarrow> 'o set"
    and ok :: "'s \<Rightarrow> bool"
  assumes alloc_none: "ok s \<Longrightarrow> idle s = [] \<Longrightarrow> alloc s = Some (None, s)"
    and alloc_first: "ok s \<Longrightarrow> idle s = p # ps \<Longrightarrow>
      \<exists>s'. alloc s = Some (Some p, s') \<and> idle s' = ps \<and> ok s' \<and> objects s' = objects s"
    and release_last: "ok s \<Longrightarrow> p \<in> objects s \<Longrightarrow> p \<notin> set (idle s) \<Longrightarrow>
      \<exists>s'. release p s = Some s' \<and> idle s' = idle s @ [p] \<and> ok s' \<and> objects s' = objects s"
    and idle_objects: "ok s \<Longrightarrow> distinct (idle s) \<and> set (idle s) \<subseteq> objects s"
begin

fun alloc_many :: "nat \<Rightarrow> 's \<Rightarrow> ('o option list \<times> 's) option" where
  "alloc_many 0 s = Some ([], s)"
| "alloc_many (Suc k) s = (case alloc s of None \<Rightarrow> None
     | Some (p, s1) \<Rightarrow> (case alloc_many k s1 of None \<Rightarrow> None | Some (ps, s2) \<Rightarrow> Some (p # ps, s2)))"

text \<open>A run of allocations hands out the idle objects in order, each once, and then fails.\<close>

lemma alloc_many_idle:
  assumes "ok s"
  shows "\<exists>s'. alloc_many k s = Some (map Some (take k (idle s)) @ replicate (k - length (idle s)) None, s') \<and>
     ok s' \<and> idle s' = drop k (idle s) \<and> objects s' = objects s"
  using assms
proof (induction k arbitrary: s)
  case (Suc k)
  show ?case
  proof (cases "idle s")
    case Nil
    then show ?thesis using Suc.IH [OF Suc.prems] alloc_none [OF Suc.prems] by auto
  next
    case (Cons p ps)
    then obtain s1 where s1: "alloc s = Some (Some p, s1)" "idle s1 = ps" "ok s1" "objects s1 = objects s"
      using alloc_first [OF Suc.prems] by blast
    then show ?thesis using Suc.IH [OF s1(3)] Cons by auto
  qed
qed simp

lemma alloc_many_distinct:
  assumes "ok s" "alloc_many k s = Some (ps, s')" "i < j" "j < length ps" "ps ! i = Some p"
  shows "ps ! j \<noteq> Some p"
proof
  assume pj: "ps ! j = Some p"
  have ps: "ps = map Some (take k (idle s)) @ replicate (k - length (idle s)) None"
    using alloc_many_idle [OF assms(1), of k] assms(2) by auto
  have "i < length (take k (idle s))" "j < length (take k (idle s))"
    using assms(3-5) pj unfolding ps by (auto simp: nth_append split: if_splits)
  then have "take k (idle s) ! i = p" "take k (idle s) ! j = p"
    using assms(5) pj unfolding ps by (simp_all add: nth_append)
  then show False using idle_objects [OF assms(1)] assms(3) \<open>j < length (take k (idle s))\<close>
    by (metis distinct_take nth_eq_iff_index_eq less_imp_neq less_trans)
qed

text \<open>An allocation undone by a release leaves the pool usable, with the object at the end.\<close>

lemma alloc_release:
  assumes "ok s" "idle s = p # ps"
  obtains s' s'' where "alloc s = Some (Some p, s')" "release p s' = Some s''" "ok s''"
    "idle s'' = ps @ [p]" "objects s'' = objects s"
proof -
  obtain s' where s': "alloc s = Some (Some p, s')" "idle s' = ps" "ok s'" "objects s' = objects s"
    using alloc_first [OF assms] by blast
  have "p \<in> objects s'" "p \<notin> set (idle s')" using idle_objects [OF assms(1)] assms(2) s' by auto
  then obtain s'' where "release p s' = Some s''" "idle s'' = ps @ [p]" "ok s''" "objects s'' = objects s'"
    using release_last [OF s'(3)] s'(2) by auto
  with s' that show thesis by blast
qed

end

text \<open>Both allocators implement it on well-formed blocks.\<close>

lemma info_wf_obj:
  assumes "info_wf h cls node n info" "p \<in> info_objects info"
  obtains a i ob where "p = (a, i)" "i < n" "initial_objects info = Some a" "obj_read h p = Some ob"
    "Objects_Get_index (obj_id ob) = ucast (of_nat (Suc i) :: u32)" "unat (Objects_Get_index (obj_id ob)) = Suc i"
    "unat (ucast (Objects_Get_index (obj_id ob)) - OBJECTS_INDEX_MINIMUM :: u32) = i"
proof -
  from assms obtain a i b where a: "p = (a, i)" "i < n" "initial_objects info = Some a" "h a = Some b"
    "length b = n" "obj_id (b ! i) = Objects_Build_id OBJECTS_CLASSIC_API cls node (of_nat (Suc i))" "n < 2 ^ 16"
    using info_wf_end(1) [OF assms(1)] unfolding info_objects_def info_wf_def by auto
  have u: "unat (of_nat (Suc i) :: u32) = Suc i" using a by (intro unat_of_nat_index) simp
  then have g: "Objects_Get_index (obj_id (b ! i)) = ucast (of_nat (Suc i) :: u32)"
    using a by (simp add: Objects_Get_index_Build del: of_nat_Suc)
  have s: "unat (Objects_Get_index (obj_id (b ! i))) = Suc i"
    unfolding g using u a by (simp add: unat_ucast_index del: of_nat_Suc)
  have "ucast (Objects_Get_index (obj_id (b ! i))) = (of_nat (Suc i) :: u32)"
    unfolding g using u a by (intro ucast_ucast_index) simp
  then have "unat (ucast (Objects_Get_index (obj_id (b ! i))) - OBJECTS_INDEX_MINIMUM :: u32) = i"
    using a by (simp add: OBJECTS_INDEX_MINIMUM_def unat_of_nat_index)
  with a g s that [of a i "b ! i"] show thesis by (simp add: obj_read_def)
qed

lemma info_wf_inactive:
  "info_wf h cls node n info \<Longrightarrow> distinct (Inactive info) \<and> set (Inactive info) \<subseteq> info_objects info"
  using info_wf_end(1) [of h cls node n info] unfolding info_wf_def info_objects_def by auto

lemma info_wf_update:
  assumes "info_wf h cls node n info" "i \<le> n" "v = None \<or> i < n \<and> (\<exists>a. initial_objects info = Some a \<and> v = Some (a, i))"
    "distinct ps" "set ps \<subseteq> info_objects info"
  shows "info_wf h cls node n (info\<lparr>local_table := Some ((the (local_table info))[i := v]), Inactive := ps,
     inactive := k\<rparr>)"
proof -
  have "set ps \<subseteq> Pair a ` {..<n}" if "initial_objects info = Some a" for a
    using assms(5) that info_wf_end(1) [OF assms(1)] by (simp add: info_objects_def)
  then show ?thesis using assms(1-4) unfolding info_wf_def by (auto simp: nth_list_update)
qed

lemma info_wf_chain:
  assumes "info_wf h cls node n info" "distinct ps" "set ps \<subseteq> info_objects info"
  shows "info_wf h cls node n (info\<lparr>Inactive := ps\<rparr>)"
proof -
  have "set ps \<subseteq> Pair a ` {..<n}" if "initial_objects info = Some a" for a
    using assms(3) that info_wf_end(1) [OF assms(1)] by (simp add: info_objects_def)
  then show ?thesis using assms(1,2) unfolding info_wf_def by auto
qed

text \<open>The exact effect of the private semaphore allocator, and of stores by identifier.\<close>

lemma Objects_Set_local_object_own:
  assumes "unat (ucast (Objects_Get_index (obj_id ob)) - OBJECTS_INDEX_MINIMUM :: u32) = i"
    "local_table info = Some tab" "i < length tab"
  shows "Objects_Set_local_object info (ucast (Objects_Get_index (obj_id ob))) v =
     Some (info\<lparr>local_table := Some (tab[i := v])\<rparr>)"
  using assms by (simp add: Objects_Set_local_object_def array_update_nat del: of_nat_unat)

lemma Objects_Allocate_sem:
  assumes "info_wf h cls node n info" "Inactive info = p # ps" "allocate info = IPC_SEMAPHORE_STATIC"
  shows "Objects_Allocate h info = Some (Some p, info
     \<lparr>local_table := Some ((the (local_table info))[snd p := Some p]), Inactive := ps,
      inactive := inactive info - 1\<rparr>)"
proof -
  have "p \<in> info_objects info" using info_wf_inactive [OF assms(1)] assms(2) by simp
  then obtain a i ob where p: "p = (a, i)" "i < n" "obj_read h p = Some ob"
    "unat (ucast (Objects_Get_index (obj_id ob)) - OBJECTS_INDEX_MINIMUM :: u32) = i"
    by (rule info_wf_obj [OF assms(1)])
  obtain tab where tab: "local_table info = Some tab" "length tab = Suc n"
    using assms(1) by (auto simp: info_wf_def)
  have "Objects_Set_local_object (info\<lparr>Inactive := ps\<rparr>) (ucast (Objects_Get_index (obj_id ob))) (Some p) =
      Some (info\<lparr>Inactive := ps, local_table := Some (tab[i := Some p])\<rparr>)"
    using Objects_Set_local_object_own [OF p(4), of "info\<lparr>Inactive := ps\<rparr>" tab] tab p(2) by simp
  then show ?thesis using assms(2,3) p tab
    by (simp add: Objects_Allocate_def IPC_Semaphore_Allocate_static_def Objects_Get_inactive_def)
qed

lemma Objects_Free_sem:
  assumes "info_wf h cls node n info" "p \<in> info_objects info" "deallocate info = IPC_SEMAPHORE_STATIC"
  shows "Objects_Free h p info = Some (info\<lparr>local_table := Some ((the (local_table info))[Suc (snd p) := None]),
     Inactive := Inactive info @ [p], inactive := inactive info + 1\<rparr>)"
proof -
  obtain a i ob where p: "p = (a, i)" "i < n" "obj_read h p = Some ob"
    "unat (Objects_Get_index (obj_id ob)) = Suc i"
    by (rule info_wf_obj [OF assms(1,2)])
  obtain tab where "local_table info = Some tab" "length tab = Suc n"
    using assms(1) by (auto simp: info_wf_def)
  then show ?thesis using assms(3) p
    by (simp add: Objects_Free_def IPC_Semaphore_Free_static_def array_update_nat del: of_nat_unat of_nat_Suc)
qed

lemma Objects_Allocate_first:
  assumes wf: "info_wf h cls node n info" and q: "Inactive info = p # ps"
  shows "\<exists>info'. Objects_Allocate h info = Some (Some p, info') \<and> Inactive info' = ps \<and>
     info_wf h cls node n info' \<and> info_objects info' = info_objects info"
proof -
  have dp: "distinct ps" "set ps \<subseteq> info_objects info" "p \<in> info_objects info"
    using info_wf_inactive [OF wf] q by auto
  show ?thesis
  proof (cases "allocate info = IPC_SEMAPHORE_STATIC")
    case True
    obtain i where "snd p = i" "i < n" "initial_objects info = Some (fst p)"
      by (rule info_wf_obj [OF wf dp(3)]) simp
    then have "info_wf h cls node n (info\<lparr>local_table := Some ((the (local_table info))[snd p := Some p]),
        Inactive := ps, inactive := inactive info - 1\<rparr>)"
      by (intro info_wf_update [OF wf]) (use dp in auto)
    then show ?thesis using Objects_Allocate_sem [OF wf q True] by simp
  next
    case False
    then have "Objects_Allocate h info = Some (Some p, info\<lparr>Inactive := ps\<rparr>)"
      using q wf by (cases "allocate info") (simp_all add: Objects_Allocate_def Objects_Get_inactive_def info_wf_def)
    then show ?thesis using info_wf_chain [OF wf dp(1,2)] by simp
  qed
qed

lemma Objects_Free_last:
  assumes wf: "info_wf h cls node n info" and p: "p \<in> info_objects info" "p \<notin> set (Inactive info)"
  shows "\<exists>info'. Objects_Free h p info = Some info' \<and> Inactive info' = Inactive info @ [p] \<and>
     info_wf h cls node n info' \<and> info_objects info' = info_objects info"
proof -
  have q: "distinct (Inactive info @ [p])" "set (Inactive info @ [p]) \<subseteq> info_objects info"
    using info_wf_inactive [OF wf] p by auto
  show ?thesis
  proof (cases "deallocate info = IPC_SEMAPHORE_STATIC")
    case True
    obtain i where "snd p = i" "i < n" by (rule info_wf_obj [OF wf p(1)]) simp
    then have "info_wf h cls node n (info\<lparr>local_table := Some ((the (local_table info))[Suc (snd p) := None]),
        Inactive := Inactive info @ [p], inactive := inactive info + 1\<rparr>)"
      by (intro info_wf_update [OF wf _ _ q]) auto
    then show ?thesis using Objects_Free_sem [OF wf p(1) True] by simp
  next
    case False
    then have "Objects_Free h p info = Some (Objects_Free_static p info)"
      using wf by (cases "deallocate info") (simp_all add: Objects_Free_def info_wf_def)
    then show ?thesis using info_wf_chain [OF wf q] by (simp add: Objects_Free_static_def)
  qed
qed

lemma Objects_Allocate_none:
  "info_wf h cls node n info \<Longrightarrow> Inactive info = [] \<Longrightarrow> Objects_Allocate h info = Some (None, info)"
  by (cases "allocate info") (simp_all add: Objects_Allocate_def Objects_Get_inactive_def
      IPC_Semaphore_Allocate_static_def info_wf_def)

interpretation pool: object_pool "Objects_Allocate h" "Objects_Free h" Inactive info_objects
  "info_wf h cls node n" for h cls node n
proof unfold_locales
  fix info p ps
  assume wf: "info_wf h cls node n info"
  show "Inactive info = [] \<Longrightarrow> Objects_Allocate h info = Some (None, info)"
    using wf by (rule Objects_Allocate_none)
  show "Inactive info = p # ps \<Longrightarrow> \<exists>info'. Objects_Allocate h info = Some (Some p, info') \<and>
      Inactive info' = ps \<and> info_wf h cls node n info' \<and> info_objects info' = info_objects info"
    using wf by (rule Objects_Allocate_first)
  show "p \<in> info_objects info \<Longrightarrow> p \<notin> set (Inactive info) \<Longrightarrow> \<exists>info'. Objects_Free h p info = Some info' \<and>
      Inactive info' = Inactive info @ [p] \<and> info_wf h cls node n info' \<and> info_objects info' = info_objects info"
    using wf by (rule Objects_Free_last)
  show "distinct (Inactive info) \<and> set (Inactive info) \<subseteq> info_objects info"
    using wf by (rule info_wf_inactive)
qed

end
