(* ===== verification/IpcContainer.thy ===== *)
theory IpcContainer
  imports UtsContainer Objects
begin

text \<open>
  The IPC namespace, \<open>score/src/ipcContainer.c\<close>, with the directives that create, delete and
  find semaphores and message queues in the namespace of the executing task
  (\<open>rtems/src/semcreate.c\<close>, \<open>semdelete.c\<close>, \<open>msgqconstruct.c\<close>, \<open>msgqdelete.c\<close>,
  \<open>rtems/semimpl.h\<close>, \<open>rtems/messageimpl.h\<close>).

  A container holds three information blocks. A block owns two heap blocks, its array of objects and
  its table. The core semaphores and message queues themselves are not part of the model: whether
  their initialisation succeeds and whether a mutex is locked are arguments of the directives.
\<close>

section \<open>Data\<close>

record IpcContainer =
  ipc_rc :: int
  containerID :: int
  rtems_message_queue_info :: Objects_Information
  posix_message_queue_info :: Objects_Information
  semaphore_info :: Objects_Information

text \<open>The information blocks that a pointer of type \<open>Objects_Information\<close> can name.\<close>

datatype info_ptr = INFO_SEMAPHORE | INFO_MESSAGE_QUEUE | INFO_POSIX_MESSAGE_QUEUE
  | INFO_IPC_SEMAPHORE addr | INFO_IPC_MESSAGE_QUEUE addr

record ipc_kernel = uts_kernel +
  ipcs :: "addr \<rightharpoonup> IpcContainer"
  objs :: objects_heap
  g_ipcContainerIdCounter :: int
  g_currentIpcContainerNum :: int
  Semaphore_Information :: Objects_Information
  Message_queue_Information :: Objects_Information
  POSIX_Message_queue_Information :: Objects_Information
  Objects_Information_table :: "u32 \<times> u32 \<rightharpoonup> info_ptr"

fun get_info :: "info_ptr \<Rightarrow> 'a ipc_kernel_scheme \<Rightarrow> Objects_Information option" where
  "get_info INFO_SEMAPHORE s = Some (Semaphore_Information s)"
| "get_info INFO_MESSAGE_QUEUE s = Some (Message_queue_Information s)"
| "get_info INFO_POSIX_MESSAGE_QUEUE s = Some (POSIX_Message_queue_Information s)"
| "get_info (INFO_IPC_SEMAPHORE a) s = map_option semaphore_info (ipcs s a)"
| "get_info (INFO_IPC_MESSAGE_QUEUE a) s = map_option rtems_message_queue_info (ipcs s a)"

fun set_info :: "info_ptr \<Rightarrow> Objects_Information \<Rightarrow> 'a ipc_kernel_scheme \<Rightarrow> 'a ipc_kernel_scheme" where
  "set_info INFO_SEMAPHORE i s = s\<lparr>Semaphore_Information := i\<rparr>"
| "set_info INFO_MESSAGE_QUEUE i s = s\<lparr>Message_queue_Information := i\<rparr>"
| "set_info INFO_POSIX_MESSAGE_QUEUE i s = s\<lparr>POSIX_Message_queue_Information := i\<rparr>"
| "set_info (INFO_IPC_SEMAPHORE a) i s =
     s\<lparr>ipcs := (ipcs s)(a := map_option (\<lambda>c. c\<lparr>semaphore_info := i\<rparr>) (ipcs s a))\<rparr>"
| "set_info (INFO_IPC_MESSAGE_QUEUE a) i s =
     s\<lparr>ipcs := (ipcs s)(a := map_option (\<lambda>c. c\<lparr>rtems_message_queue_info := i\<rparr>) (ipcs s a))\<rparr>"

section \<open>Building the information blocks\<close>

text \<open>The allocations and the loop that the initialisation functions share; on a failed allocation
  the block stays zeroed.\<close>

definition ipc_build_info ::
  "u32 \<Rightarrow> objects_allocator \<Rightarrow> int \<Rightarrow> u16 \<Rightarrow> Memory \<Rightarrow> objects_heap \<Rightarrow>
     Objects_Information \<times> Memory \<times> objects_heap" where
  "ipc_build_info cls al cid max_objects m h =
     (let n = unat max_objects; build = Objects_Build_id OBJECTS_CLASSIC_API cls (of_int cid) in
      case malloc m of
        (None, m1) \<Rightarrow> (Objects_Information_zero, m1, h)
      | (Some objects, m1) \<Rightarrow>
          (case malloc m1 of
             (None, m2) \<Rightarrow> (Objects_Information_zero, free_block m2, h)
           | (Some _, m2) \<Rightarrow>
               (Objects_Information_zero\<lparr>maximum_id := build (ucast max_objects),
                  local_table := Some (replicate (n + 1) None), allocate := al, deallocate := al,
                  inactive := max_objects, objects_per_block := 0, name_length := 0,
                  Inactive := map (Pair objects) [0..<n], initial_objects := Some objects\<rparr>,
                m2,
                h(objects \<mapsto> map (\<lambda>i. \<lparr>obj_id = build (of_nat i + OBJECTS_INDEX_MINIMUM), obj_name = 0\<rparr>)
                              [0..<n]))))"

text \<open>Only the root container publishes its block in the table of classes.\<close>

definition ipc_publish ::
  "info_ptr \<Rightarrow> int \<Rightarrow> 'a ipc_kernel_scheme \<Rightarrow> 'a ipc_kernel_scheme option" where
  "ipc_publish ip cid s = do {
     info \<leftarrow> get_info ip s;
     if initial_objects info = None \<or> cid \<noteq> 1 then Some s
     else do {
       (info', h) \<leftarrow> Objects_Initialize_information info (objs s);
       Some ((set_info ip info' s)\<lparr>objs := h, Objects_Information_table := (Objects_Information_table s)
         ((Objects_Get_API (maximum_id info), Objects_Get_class (maximum_id info)) \<mapsto> ip)\<rparr>) } }"

definition IPC_Container_Initialize_RTEMS_Message_Queue_Info ::
  "addr \<Rightarrow> u16 \<Rightarrow> 'a ipc_kernel_scheme \<Rightarrow> 'a ipc_kernel_scheme option" where
  "IPC_Container_Initialize_RTEMS_Message_Queue_Info c max_objects s = do {
     ic \<leftarrow> ipcs s c;
     (info, m, h) \<leftarrow> Some (ipc_build_info OBJECTS_RTEMS_MESSAGE_QUEUES OBJECTS_STATIC (containerID ic)
                              max_objects (mem s) (objs s));
     ipc_publish (INFO_IPC_MESSAGE_QUEUE c) (containerID ic)
       (set_info (INFO_IPC_MESSAGE_QUEUE c) info (s\<lparr>mem := m, objs := h\<rparr>)) }"

definition IPC_Container_Initialize_Semaphore_Info ::
  "addr \<Rightarrow> u16 \<Rightarrow> 'a ipc_kernel_scheme \<Rightarrow> 'a ipc_kernel_scheme option" where
  "IPC_Container_Initialize_Semaphore_Info c max_objects s = do {
     ic \<leftarrow> ipcs s c;
     (info, m, h) \<leftarrow> Some (ipc_build_info OBJECTS_RTEMS_SEMAPHORES IPC_SEMAPHORE_STATIC (containerID ic)
                              max_objects (mem s) (objs s));
     ipc_publish (INFO_IPC_SEMAPHORE c) (containerID ic)
       (set_info (INFO_IPC_SEMAPHORE c) info (s\<lparr>mem := m, objs := h\<rparr>)) }"

section \<open>Containers\<close>

definition IpcContainer_new :: "int \<Rightarrow> int \<Rightarrow> IpcContainer" where
  "IpcContainer_new n i = \<lparr>ipc_rc = n, containerID = i, rtems_message_queue_info = Objects_Information_zero,
     posix_message_queue_info = Objects_Information_zero, semaphore_info = Objects_Information_zero\<rparr>"

definition rtems_ipc_container_initialize_root ::
  "bool \<Rightarrow> 'a ipc_kernel_scheme \<Rightarrow> (int \<times> ptr \<times> 'a ipc_kernel_scheme) option" where
  "rtems_ipc_container_initialize_root arg_null s =
     (if arg_null then Some (-1, None, s)
      else case malloc (mem s) of
        (None, m) \<Rightarrow> Some (-1, None, s\<lparr>mem := m\<rparr>)
      | (Some a, m) \<Rightarrow> do {
          s1 \<leftarrow> IPC_Container_Initialize_RTEMS_Message_Queue_Info a 10
                 (s\<lparr>mem := m, ipcs := (ipcs s)(a \<mapsto> IpcContainer_new 3 1)\<rparr>);
          s2 \<leftarrow> IPC_Container_Initialize_Semaphore_Info a 20 s1;
          Some (0, Some a, s2\<lparr>g_currentIpcContainerNum := g_currentIpcContainerNum s2 + 1\<rparr>) })"

definition rtems_ipc_container_add_to_list ::
  "ptr \<Rightarrow> 'a ipc_kernel_scheme \<Rightarrow> 'a ipc_kernel_scheme" where
  "rtems_ipc_container_add_to_list p s =
     (case (p, rtems_container_get_root s) of
        (Some c, Some r) \<Rightarrow>
          (case list_push c (ipcContainerList r) (mem s) of
             (l, m) \<Rightarrow> s\<lparr>mem := m, rootContainer := Some (r\<lparr>ipcContainerList := l\<rparr>)\<rparr>)
      | _ \<Rightarrow> s)"

definition rtems_ipc_container_remove_from_list ::
  "ptr \<Rightarrow> 'a ipc_kernel_scheme \<Rightarrow> 'a ipc_kernel_scheme" where
  "rtems_ipc_container_remove_from_list p s =
     (case (p, rtems_container_get_root s) of
        (Some c, Some r) \<Rightarrow>
          (case list_unlink c (ipcContainerList r) (mem s) of
             (l, m) \<Rightarrow> s\<lparr>mem := m, rootContainer := Some (r\<lparr>ipcContainerList := l\<rparr>)\<rparr>)
      | _ \<Rightarrow> s)"

definition rtems_ipc_container_create ::
  "'a ipc_kernel_scheme \<Rightarrow> (ptr \<times> 'a ipc_kernel_scheme) option" where
  "rtems_ipc_container_create s =
     (case malloc (mem s) of
        (None, m) \<Rightarrow> Some (None, s\<lparr>mem := m\<rparr>)
      | (Some a, m) \<Rightarrow> do {
          s1 \<leftarrow> IPC_Container_Initialize_RTEMS_Message_Queue_Info a 5
                 (s\<lparr>mem := m, g_ipcContainerIdCounter := g_ipcContainerIdCounter s + 1,
                    ipcs := (ipcs s)(a \<mapsto> IpcContainer_new 1 (g_ipcContainerIdCounter s + 1))\<rparr>);
          s2 \<leftarrow> IPC_Container_Initialize_Semaphore_Info a 10 s1;
          Some (Some a, rtems_ipc_container_add_to_list (Some a)
            (s2\<lparr>g_currentIpcContainerNum := g_currentIpcContainerNum s2 + 1\<rparr>)) })"

text \<open>\<open>free\<close> of an information block's array and table, when they are set.\<close>

definition ipc_free_info ::
  "Objects_Information \<Rightarrow> 'a ipc_kernel_scheme \<Rightarrow> 'a ipc_kernel_scheme" where
  "ipc_free_info info s =
     (let s1 = (case initial_objects info of None \<Rightarrow> s
                | Some a \<Rightarrow> s\<lparr>mem := free_block (mem s), objs := (objs s)(a := None)\<rparr>)
      in if local_table info = None then s1 else s1\<lparr>mem := free_block (mem s1)\<rparr>)"

definition rtems_ipc_container_delete ::
  "ptr \<Rightarrow> 'a ipc_kernel_scheme \<Rightarrow> 'a ipc_kernel_scheme option" where
  "rtems_ipc_container_delete p s =
     (case (p, do { r \<leftarrow> rtems_container_get_root s; ipcContainer r }) of
        (Some c, Some r) \<Rightarrow>
          if c = r then Some s
          else do {
            s1 \<leftarrow> Some (rtems_ipc_container_remove_from_list (Some c) s);
            ic \<leftarrow> ipcs s1 c;
            s2 \<leftarrow> Some (ipc_free_info (rtems_message_queue_info ic) s1);
            s3 \<leftarrow> Some (ipc_free_info (semaphore_info ic) s2);
            Some (s3\<lparr>mem := free_block (mem s3), ipcs := (ipcs s3)(c := None),
                     g_currentIpcContainerNum := g_currentIpcContainerNum s3 - 1\<rparr>) }
      | _ \<Rightarrow> Some s)"

definition ipc_add_rc :: "addr \<Rightarrow> int \<Rightarrow> 'a ipc_kernel_scheme \<Rightarrow> 'a ipc_kernel_scheme option" where
  "ipc_add_rc c d s = do {
     u \<leftarrow> ipcs s c;
     Some (s\<lparr>ipcs := (ipcs s)(c \<mapsto> u\<lparr>ipc_rc := ipc_rc u + d\<rparr>)\<rparr>) }"

definition set_ipc :: "addr \<Rightarrow> ptr \<Rightarrow> 'a ipc_kernel_scheme \<Rightarrow> 'a ipc_kernel_scheme" where
  "set_ipc t p = upd_thread t (upd_container (ipcContainer_update (\<lambda>_. p)))"

definition rtems_ipc_container_move_task ::
  "ptr \<Rightarrow> ptr \<Rightarrow> ptr \<Rightarrow> 'a ipc_kernel_scheme \<Rightarrow> 'a ipc_kernel_scheme option" where
  "rtems_ipc_container_move_task srcContainer destContainer thread s =
     (case (srcContainer, destContainer, thread) of
        (Some a, Some b, Some t) \<Rightarrow> do {
          _ \<leftarrow> threads s t;
          if thread_ns ipcContainer s t = Some a
          then do {
            s1 \<leftarrow> ipc_add_rc a (-1) (set_ipc t (Some b) s);
            u \<leftarrow> ipcs s1 a;
            s2 \<leftarrow> (if ipc_rc u \<le> 0 \<and> containerID u \<noteq> 1
                    then rtems_ipc_container_delete (Some a) s1 else Some s1);
            s3 \<leftarrow> ipc_add_rc b 1 s2;
            _ \<leftarrow> log_deref s3 (ipcs s3) [Some a, Some b];
            Some s3 }
          else do {
            _ \<leftarrow> log_deref s (ipcs s) [Some a];
            Some s } }
      | _ \<Rightarrow> Some s)"

definition rtems_ipc_container_get_id :: "ptr \<Rightarrow> 'a ipc_kernel_scheme \<Rightarrow> int option" where
  "rtems_ipc_container_get_id p s =
     (case p of None \<Rightarrow> Some (-1) | Some c \<Rightarrow> map_option containerID (ipcs s c))"

definition rtems_ipc_container_get_rc :: "ptr \<Rightarrow> 'a ipc_kernel_scheme \<Rightarrow> int option" where
  "rtems_ipc_container_get_rc p s =
     (case p of None \<Rightarrow> Some 0 | Some c \<Rightarrow> map_option ipc_rc (ipcs s c))"

section \<open>The namespace of the executing task\<close>

definition current_ipc :: "'a ipc_kernel_scheme \<Rightarrow> ptr" where
  "current_ipc s = do { t \<leftarrow> executing s; thread_ns ipcContainer s t }"

definition Message_queue_Get_information_from_container :: "'a ipc_kernel_scheme \<Rightarrow> info_ptr" where
  "Message_queue_Get_information_from_container s =
     (case current_ipc s of
        Some c \<Rightarrow> if RTEMSCFG_IPC_CONTAINER (cfg s) then INFO_IPC_MESSAGE_QUEUE c else INFO_MESSAGE_QUEUE
      | None \<Rightarrow> INFO_MESSAGE_QUEUE)"

definition POSIX_Message_queue_Get_information_from_container :: "'a ipc_kernel_scheme \<Rightarrow> info_ptr" where
  "POSIX_Message_queue_Get_information_from_container s = INFO_POSIX_MESSAGE_QUEUE"

definition Semaphore_Get_information_from_container :: "'a ipc_kernel_scheme \<Rightarrow> info_ptr" where
  "Semaphore_Get_information_from_container s =
     (case current_ipc s of
        Some c \<Rightarrow> if RTEMSCFG_IPC_CONTAINER (cfg s) then INFO_IPC_SEMAPHORE c else INFO_SEMAPHORE
      | None \<Rightarrow> INFO_SEMAPHORE)"

text \<open>\<open>_Semaphore_Allocate\<close>, \<open>_Message_queue_Allocate\<close> and their counterparts on the block a
  pointer names.\<close>

definition info_allocate ::
  "info_ptr \<Rightarrow> 'a ipc_kernel_scheme \<Rightarrow> (objp option \<times> 'a ipc_kernel_scheme) option" where
  "info_allocate ip s = do {
     info \<leftarrow> get_info ip s;
     (p, info') \<leftarrow> Objects_Allocate (objs s) info;
     Some (p, set_info ip info' s) }"

definition info_free :: "info_ptr \<Rightarrow> objp \<Rightarrow> 'a ipc_kernel_scheme \<Rightarrow> 'a ipc_kernel_scheme option" where
  "info_free ip p s = do {
     info \<leftarrow> get_info ip s;
     info' \<leftarrow> Objects_Free (objs s) p info;
     Some (set_info ip info' s) }"

definition info_open ::
  "info_ptr \<Rightarrow> objp \<Rightarrow> u32 \<Rightarrow> 'a ipc_kernel_scheme \<Rightarrow> (u32 \<times> 'a ipc_kernel_scheme) option" where
  "info_open ip p name s = do {
     info \<leftarrow> get_info ip s;
     (i, info', h) \<leftarrow> Objects_Open_u32 p name info (objs s);
     Some (i, (set_info ip info' s)\<lparr>objs := h\<rparr>) }"

definition info_close :: "info_ptr \<Rightarrow> objp \<Rightarrow> 'a ipc_kernel_scheme \<Rightarrow> 'a ipc_kernel_scheme option" where
  "info_close ip p s = do {
     info \<leftarrow> get_info ip s;
     (info', h) \<leftarrow> Objects_Close p info (objs s);
     Some ((set_info ip info' s)\<lparr>objs := h\<rparr>) }"

definition Semaphore_Get :: "u32 \<Rightarrow> 'a ipc_kernel_scheme \<Rightarrow> objp option option" where
  "Semaphore_Get i s = do {
     info \<leftarrow> get_info (Semaphore_Get_information_from_container s) s;
     Objects_Get i info }"

definition Message_queue_Get :: "u32 \<Rightarrow> 'a ipc_kernel_scheme \<Rightarrow> objp option option" where
  "Message_queue_Get i s = do {
     info \<leftarrow> get_info (Message_queue_Get_information_from_container s) s;
     Objects_Get i info }"

section \<open>Directives\<close>

datatype Semaphore_Variant = SEMAPHORE_VARIANT_MUTEX_INHERIT_PRIORITY
  | SEMAPHORE_VARIANT_MUTEX_PRIORITY_CEILING | SEMAPHORE_VARIANT_MUTEX_NO_PROTOCOL
  | SEMAPHORE_VARIANT_SIMPLE_BINARY | SEMAPHORE_VARIANT_COUNTING

text \<open>The attribute decoding of \<open>rtems_semaphore_create\<close>, with the masks of \<open>rtems/attr.h\<close>
  written out: 0x10 binary, 0x20 simple binary, 0x40 inherit, 0x80 ceiling, 0x100 multiprocessor
  resource sharing, 0x4 priority, 0x2 global.\<close>

definition semaphore_variant :: "u32 \<Rightarrow> Semaphore_Variant option" where
  "semaphore_variant attribute_set =
     (let maybe_global = attribute_set AND 0x1f0; mutex_with_protocol = attribute_set AND 0x1f6 in
      if maybe_global = 0 then Some SEMAPHORE_VARIANT_COUNTING
      else if maybe_global = 0x20 then Some SEMAPHORE_VARIANT_SIMPLE_BINARY
      else if maybe_global = 0x10 then Some SEMAPHORE_VARIANT_MUTEX_NO_PROTOCOL
      else if mutex_with_protocol = 0x54 then Some SEMAPHORE_VARIANT_MUTEX_INHERIT_PRIORITY
      else if mutex_with_protocol = 0x94 then Some SEMAPHORE_VARIANT_MUTEX_PRIORITY_CEILING
      else if mutex_with_protocol = 0x114 then Some SEMAPHORE_VARIANT_MUTEX_PRIORITY_CEILING
      else None)"

text \<open>\<open>core\<close> is the status of the core object's initialisation.\<close>

definition rtems_semaphore_create ::
  "(Semaphore_Variant \<Rightarrow> rtems_status_code) \<Rightarrow> u32 \<Rightarrow> u32 \<Rightarrow> u32 \<Rightarrow> bool \<Rightarrow> 'a ipc_kernel_scheme \<Rightarrow>
     (rtems_status_code \<times> u32 option \<times> 'a ipc_kernel_scheme) option" where
  "rtems_semaphore_create core name cnt attribute_set id_null s =
     (if name = 0 then Some (RTEMS_INVALID_NAME, None, s)
      else if id_null then Some (RTEMS_INVALID_ADDRESS, None, s)
      else case semaphore_variant attribute_set of
        None \<Rightarrow> Some (RTEMS_NOT_DEFINED, None, s)
      | Some variant \<Rightarrow>
          if cnt > 1 \<and> variant \<noteq> SEMAPHORE_VARIANT_COUNTING then Some (RTEMS_INVALID_NUMBER, None, s)
          else do {
            (p, s1) \<leftarrow> info_allocate (Semaphore_Get_information_from_container s) s;
            case p of
              None \<Rightarrow> Some (RTEMS_TOO_MANY, None, s1)
            | Some the_semaphore \<Rightarrow>
                if core variant \<noteq> RTEMS_SUCCESSFUL then do {
                  s2 \<leftarrow> info_free (Semaphore_Get_information_from_container s1) the_semaphore s1;
                  Some (core variant, None, s2) }
                else do {
                  (i, s2) \<leftarrow> info_open INFO_SEMAPHORE the_semaphore name s1;
                  Some (RTEMS_SUCCESSFUL, Some i, s2) } })"

text \<open>\<open>locked\<close> says whether the semaphore is a mutex that is locked.\<close>

definition rtems_semaphore_delete ::
  "(objp \<Rightarrow> bool) \<Rightarrow> u32 \<Rightarrow> 'a ipc_kernel_scheme \<Rightarrow> (rtems_status_code \<times> 'a ipc_kernel_scheme) option" where
  "rtems_semaphore_delete locked i s = do {
     p \<leftarrow> Semaphore_Get i s;
     case p of
       None \<Rightarrow> Some (RTEMS_INVALID_ID, s)
     | Some the_semaphore \<Rightarrow>
         if locked the_semaphore then Some (RTEMS_RESOURCE_IN_USE, s)
         else do {
           s1 \<leftarrow> info_close INFO_SEMAPHORE the_semaphore s;
           s2 \<leftarrow> info_free (Semaphore_Get_information_from_container s1) the_semaphore s1;
           Some (RTEMS_SUCCESSFUL, s2) } }"

record message_queue_config =
  mq_name :: u32
  maximum_pending_messages :: u32
  maximum_message_size :: u32

definition Message_queue_Create ::
  "rtems_status_code \<Rightarrow> message_queue_config \<Rightarrow> bool \<Rightarrow> 'a ipc_kernel_scheme \<Rightarrow>
     (rtems_status_code \<times> u32 option \<times> 'a ipc_kernel_scheme) option" where
  "Message_queue_Create core config id_null s =
     (if mq_name config = 0 then Some (RTEMS_INVALID_NAME, None, s)
      else if id_null then Some (RTEMS_INVALID_ADDRESS, None, s)
      else if maximum_pending_messages config = 0 then Some (RTEMS_INVALID_NUMBER, None, s)
      else if maximum_message_size config = 0 then Some (RTEMS_INVALID_SIZE, None, s)
      else do {
        (p, s1) \<leftarrow> info_allocate (Message_queue_Get_information_from_container s) s;
        case p of
          None \<Rightarrow> Some (RTEMS_TOO_MANY, None, s1)
        | Some the_message_queue \<Rightarrow>
            if core \<noteq> RTEMS_SUCCESSFUL then do {
              s2 \<leftarrow> info_free (Message_queue_Get_information_from_container s1) the_message_queue s1;
              Some (core, None, s2) }
            else do {
              (i, s2) \<leftarrow> info_open (Message_queue_Get_information_from_container s1) the_message_queue
                          (mq_name config) s1;
              Some (RTEMS_SUCCESSFUL, Some i, s2) } })"

definition rtems_message_queue_delete ::
  "u32 \<Rightarrow> 'a ipc_kernel_scheme \<Rightarrow> (rtems_status_code \<times> 'a ipc_kernel_scheme) option" where
  "rtems_message_queue_delete i s = do {
     p \<leftarrow> Message_queue_Get i s;
     case p of
       None \<Rightarrow> Some (RTEMS_INVALID_ID, s)
     | Some the_message_queue \<Rightarrow> do {
         s1 \<leftarrow> info_close INFO_MESSAGE_QUEUE the_message_queue s;
         s2 \<leftarrow> info_free (Message_queue_Get_information_from_container s1) the_message_queue s1;
         Some (RTEMS_SUCCESSFUL, s2) } }"

section \<open>Registry and reference counts\<close>

definition ipc_registry :: "'a ipc_kernel_scheme \<Rightarrow> addr list" where
  "ipc_registry s = (case rootContainer s of None \<Rightarrow> [] | Some r \<Rightarrow> ipcContainerList r)"

definition ipc_root :: "'a ipc_kernel_scheme \<Rightarrow> ptr" where
  "ipc_root s = do { r \<leftarrow> rootContainer s; ipcContainer r }"

definition ipc_count :: "'a ipc_kernel_scheme \<Rightarrow> addr \<Rightarrow> int option" where
  "ipc_count s c = map_option ipc_rc (ipcs s c)"

interpretation ipc_reg: ns_registry rtems_ipc_container_add_to_list
  rtems_ipc_container_remove_from_list ipc_registry mem "\<lambda>s. rootContainer s \<noteq> None"
  by unfold_locales
    (auto simp: rtems_ipc_container_add_to_list_def rtems_ipc_container_remove_from_list_def
      rtems_container_get_root_def ipc_registry_def split: option.splits prod.splits)

lemma ipc_list_sel [simp]:
  "ipcs (rtems_ipc_container_remove_from_list p s) = ipcs s"
  "objs (rtems_ipc_container_remove_from_list p s) = objs s"
  "threads (rtems_ipc_container_remove_from_list p s) = threads s"
  "g_currentIpcContainerNum (rtems_ipc_container_remove_from_list p s) = g_currentIpcContainerNum s"
  "cfg (rtems_ipc_container_remove_from_list p s) = cfg s"
  "executing (rtems_ipc_container_remove_from_list p s) = executing s"
  "ipcs (rtems_ipc_container_add_to_list p s) = ipcs s"
  "objs (rtems_ipc_container_add_to_list p s) = objs s"
  "threads (rtems_ipc_container_add_to_list p s) = threads s"
  "g_currentIpcContainerNum (rtems_ipc_container_add_to_list p s) = g_currentIpcContainerNum s"
  by (simp_all add: rtems_ipc_container_remove_from_list_def rtems_ipc_container_add_to_list_def
      split: option.splits prod.splits)

lemma ipc_list_root [simp]:
  "ipc_root (rtems_ipc_container_remove_from_list p s) = ipc_root s"
  "ipc_root (rtems_ipc_container_add_to_list p s) = ipc_root s"
  by (auto simp: rtems_ipc_container_remove_from_list_def rtems_ipc_container_add_to_list_def ipc_root_def
      rtems_container_get_root_def split: option.splits prod.splits)

lemma set_ipc_sel [simp]:
  "ipcs (set_ipc t p s) = ipcs s" "mem (set_ipc t p s) = mem s" "cfg (set_ipc t p s) = cfg s"
  "objs (set_ipc t p s) = objs s" "rootContainer (set_ipc t p s) = rootContainer s"
  "dom (threads (set_ipc t p s)) = dom (threads s)"
  by (auto simp: set_ipc_def upd_thread_def)

lemma thread_ns_set_ipc:
  "thread_ns ipcContainer s t = Some a \<Longrightarrow>
     thread_ns ipcContainer (set_ipc t p s) = (thread_ns ipcContainer s)(t := p)"
  unfolding set_ipc_def by (rule thread_ns_set) simp_all

lemma thread_ns_ipcs [simp]: "thread_ns sel (s\<lparr>ipcs := h\<rparr>) = thread_ns sel s"
  by (simp add: thread_ns_def fun_eq_iff)

lemma ipc_add_rc_Some:
  "ipcs s c = Some u \<Longrightarrow> ipc_add_rc c d s = Some (s\<lparr>ipcs := (ipcs s)(c \<mapsto> u\<lparr>ipc_rc := ipc_rc u + d\<rparr>)\<rparr>)"
  by (simp add: ipc_add_rc_def)

text \<open>A move between two containers when the source keeps other users.\<close>

lemma ipc_move_eq:
  assumes "thread_ns ipcContainer s t = Some a" "ipcs s a = Some ua" "ipcs s b = Some ub" "a \<noteq> b" "1 < ipc_rc ua"
  shows "rtems_ipc_container_move_task (Some a) (Some b) (Some t) s =
     Some ((set_ipc t (Some b) s)\<lparr>ipcs := (ipcs s)(a \<mapsto> ua\<lparr>ipc_rc := ipc_rc ua - 1\<rparr>, b \<mapsto> ub\<lparr>ipc_rc := ipc_rc ub + 1\<rparr>)\<rparr>)"
proof -
  obtain th where "threads s t = Some th" using thread_ns_live [OF assms(1)] by blast
  then show ?thesis using assms by (simp add: rtems_ipc_container_move_task_def ipc_add_rc_Some)
qed

lemma ipc_move_member:
  assumes "thread_ns ipcContainer s t = Some a" "ipc_count s a = Some n" "ipc_count s b = Some k" "a \<noteq> b" "1 < n"
  shows "\<exists>s'. rtems_ipc_container_move_task (Some a) (Some b) (Some t) s = Some s' \<and>
     thread_ns ipcContainer s' = (thread_ns ipcContainer s)(t := Some b) \<and>
     ipc_count s' = (ipc_count s)(a \<mapsto> n - 1, b \<mapsto> k + 1)"
proof -
  from assms obtain ua ub where u: "ipcs s a = Some ua" "ipc_rc ua = n" "ipcs s b = Some ub" "ipc_rc ub = k"
    by (auto simp: ipc_count_def)
  show ?thesis
    using ipc_move_eq [OF assms(1) u(1,3) assms(4)] thread_ns_set_ipc [OF assms(1)] u assms(4,5)
    by (auto simp: ipc_count_def fun_eq_iff)
qed

interpretation ipc_ns: ns_refcount "thread_ns ipcContainer" ipc_count rtems_ipc_container_move_task
  by unfold_locales (rule ipc_move_member)

text \<open>A task that enters an IPC container and returns leaves everything as it was: both moves are
  defined, and afterwards every task is in its former container and every reference count has its
  former value.\<close>

theorem ipc_move_there_and_back:
  assumes "thread_ns ipcContainer s t = Some a" "ipc_count s a = Some n" "ipc_count s b = Some k" "a \<noteq> b"
    "1 < n" "1 \<le> k"
  shows "\<exists>s' s''. rtems_ipc_container_move_task (Some a) (Some b) (Some t) s = Some s' \<and>
     rtems_ipc_container_move_task (Some b) (Some a) (Some t) s' = Some s'' \<and>
     thread_ns ipcContainer s'' = thread_ns ipcContainer s \<and> ipc_count s'' = ipc_count s"
  by (rule ipc_ns.move_back [OF assms]) blast

section \<open>Building and freeing information blocks\<close>

definition info_blocks :: "Objects_Information \<Rightarrow> int" where
  "info_blocks info = (if initial_objects info = None then 0 else 1) + (if local_table info = None then 0 else 1)"

lemma ipc_build_info_spec:
  assumes "ipc_build_info cls al cid mx m h = (info, m', h')" "al \<noteq> NO_ALLOCATOR"
  shows "live m' = live m + info_blocks info" "brk m < brk m'" "oom m' = oom m"
    "initial_objects info = None \<Longrightarrow> h' = h"
    "initial_objects info = Some a \<Longrightarrow> a = brk m \<and> h' = h(a := h' a) \<and> h' a \<noteq> None"
    "initial_objects info = Some a \<Longrightarrow> info_wf h' cls (of_int cid) (unat mx) info \<and>
       allocate info = al \<and> Inactive info = map (Pair a) [0..<unat mx] \<and>
       (\<forall>i < unat mx. info_slot info i = None)"
proof -
  have mx: "unat mx < 2 ^ 16" using unat_bound [of mx] by simp
  have um: "(ucast mx :: u32) = of_nat (unat mx)" by (simp add: word_unat_eq_iff unat_ucast_up unat_of_nat_index mx)
  show "live m' = live m + info_blocks info" "brk m < brk m'" "oom m' = oom m"
    "initial_objects info = None \<Longrightarrow> h' = h"
    "initial_objects info = Some a \<Longrightarrow> a = brk m \<and> h' = h(a := h' a) \<and> h' a \<noteq> None"
    using assms(1) by (auto simp: ipc_build_info_def info_blocks_def malloc_def Objects_Information_zero_def
        Let_def split: if_splits)
  show "initial_objects info = Some a \<Longrightarrow> info_wf h' cls (of_int cid) (unat mx) info \<and>
       allocate info = al \<and> Inactive info = map (Pair a) [0..<unat mx] \<and>
       (\<forall>i < unat mx. info_slot info i = None)"
    using assms mx um unfolding info_wf_def
    by (auto simp: ipc_build_info_def malloc_def Objects_Information_zero_def Let_def info_slot_def
        nth_append OBJECTS_INDEX_MINIMUM_def distinct_map inj_on_def add.commute
        simp del: replicate.simps replicate_Suc split: if_splits)
qed

lemma ipc_free_info_sel:
  "live (mem (ipc_free_info info s)) = live (mem s) - info_blocks info"
  "objs (ipc_free_info info s) = (case initial_objects info of None \<Rightarrow> objs s | Some a \<Rightarrow> (objs s)(a := None))"
  "ipcs (ipc_free_info info s) = ipcs s" "rootContainer (ipc_free_info info s) = rootContainer s"
  "threads (ipc_free_info info s) = threads s" "cfg (ipc_free_info info s) = cfg s"
  "executing (ipc_free_info info s) = executing s"
  "g_currentIpcContainerNum (ipc_free_info info s) = g_currentIpcContainerNum s"
  by (auto simp: ipc_free_info_def info_blocks_def Let_def split: option.splits)

section \<open>Creating and deleting containers\<close>

text \<open>What \<open>rtems_ipc_container_create\<close> builds, whatever allocations fail after the first.\<close>

lemma ipc_create_shape:
  assumes "malloc (mem s) = (Some a, m)" "g_ipcContainerIdCounter s \<noteq> 0"
    "ipc_build_info OBJECTS_RTEMS_MESSAGE_QUEUES OBJECTS_STATIC (g_ipcContainerIdCounter s + 1) 5 m (objs s) = (i1, m1, h1)"
    "ipc_build_info OBJECTS_RTEMS_SEMAPHORES IPC_SEMAPHORE_STATIC (g_ipcContainerIdCounter s + 1) 10 m1 h1 = (i2, m2, h2)"
  obtains s2 where "rtems_ipc_container_create s = Some (Some a, rtems_ipc_container_add_to_list (Some a) s2)"
    "ipcs s2 = (ipcs s)(a \<mapsto> (IpcContainer_new 1 (g_ipcContainerIdCounter s + 1))
        \<lparr>rtems_message_queue_info := i1, semaphore_info := i2\<rparr>)"
    "mem s2 = m2" "objs s2 = h2" "rootContainer s2 = rootContainer s" "threads s2 = threads s"
    "g_currentIpcContainerNum s2 = g_currentIpcContainerNum s + 1"
proof -
  let ?n = "IpcContainer_new 1 (g_ipcContainerIdCounter s + 1)"
  let ?s0 = "s\<lparr>mem := m, g_ipcContainerIdCounter := g_ipcContainerIdCounter s + 1, ipcs := (ipcs s)(a \<mapsto> ?n)\<rparr>"
  let ?s1 = "?s0\<lparr>mem := m1, objs := h1, ipcs := (ipcs s)(a \<mapsto> ?n\<lparr>rtems_message_queue_info := i1\<rparr>)\<rparr>"
  let ?s2 = "?s1\<lparr>mem := m2, objs := h2, ipcs := (ipcs s)(a \<mapsto> ?n\<lparr>rtems_message_queue_info := i1,
     semaphore_info := i2\<rparr>)\<rparr>"
  have "IPC_Container_Initialize_RTEMS_Message_Queue_Info a 5 ?s0 = Some ?s1"
    using assms(2,3)
    by (simp add: IPC_Container_Initialize_RTEMS_Message_Queue_Info_def IpcContainer_new_def ipc_publish_def)
  moreover have "IPC_Container_Initialize_Semaphore_Info a 10 ?s1 = Some ?s2"
    using assms(2,4)
    by (simp add: IPC_Container_Initialize_Semaphore_Info_def IpcContainer_new_def ipc_publish_def)
  ultimately have "rtems_ipc_container_create s = Some (Some a, rtems_ipc_container_add_to_list (Some a)
      (?s2\<lparr>g_currentIpcContainerNum := g_currentIpcContainerNum s + 1\<rparr>))"
    using assms(1) by (simp add: rtems_ipc_container_create_def)
  then show thesis by (rule that) simp_all
qed

lemma ipc_delete_eq:
  assumes "ipcs s c = Some ic" "ipc_root s = Some r" "c \<noteq> r"
  obtains s' where "rtems_ipc_container_delete (Some c) s = Some s'" "ipcs s' = (ipcs s)(c := None)"
    "objs s' = objs (ipc_free_info (semaphore_info ic) (ipc_free_info (rtems_message_queue_info ic) s))"
    "live (mem s') = live (mem (rtems_ipc_container_remove_from_list (Some c) s)) - 1
       - info_blocks (rtems_message_queue_info ic) - info_blocks (semaphore_info ic)"
    "ipc_registry s' = remove1 c (ipc_registry s)" "threads s' = threads s"
    "g_currentIpcContainerNum s' = g_currentIpcContainerNum s - 1" "cfg s' = cfg s" "executing s' = executing s"
proof -
  let ?s1 = "rtems_ipc_container_remove_from_list (Some c) s"
  let ?s3 = "ipc_free_info (semaphore_info ic) (ipc_free_info (rtems_message_queue_info ic) ?s1)"
  let ?s = "?s3\<lparr>mem := free_block (mem ?s3), ipcs := (ipcs ?s3)(c := None),
     g_currentIpcContainerNum := g_currentIpcContainerNum ?s3 - 1\<rparr>"
  have del: "rtems_ipc_container_delete (Some c) s = Some ?s"
    using assms by (simp add: rtems_ipc_container_delete_def ipc_root_def rtems_container_get_root_def
        ipc_free_info_sel)
  have "rootContainer s \<noteq> None" using assms(2) by (auto simp: ipc_root_def bind_eq_Some_conv)
  then have reg: "ipc_registry ?s = remove1 c (ipc_registry s)"
    using ipc_reg.registry_remove [of s c] by (simp add: ipc_registry_def ipc_free_info_sel)
  have ob: "objs ?s = objs (ipc_free_info (semaphore_info ic) (ipc_free_info (rtems_message_queue_info ic) s))"
    by (simp add: ipc_free_info_sel split: option.splits)
  show thesis by (rule that [OF del _ ob _ reg]) (simp_all add: ipc_free_info_sel)
qed

lemma ipc_build_undo:
  assumes "ipc_build_info cls al cid mx m h = (info, m', h')" "h (brk m) = None"
  shows "(case initial_objects info of None \<Rightarrow> h' | Some b \<Rightarrow> h'(b := None)) = h"
  using assms by (auto simp: ipc_build_info_def malloc_def Objects_Information_zero_def Let_def fun_upd_idem
      split: if_splits)

text \<open>(C21) A new IPC container can always be taken down again without a trace, also when some of the
  allocations of its tables failed: deletion gives back every block the creation took, and leaves the
  heap of containers, the heap of objects, the registry and the number of containers as they were.\<close>

theorem ipc_create_delete:
  assumes "heap_ok (mem s) (ipcs s)" "heap_ok (mem s) (objs s)" "ipc_root s = Some r" "ipcs s r \<noteq> None"
    "set (ipc_registry s) \<subseteq> dom (ipcs s)" "g_ipcContainerIdCounter s \<noteq> 0" "\<not> oom (mem s) (brk (mem s))"
  shows "\<exists>a s1 s2. rtems_ipc_container_create s = Some (Some a, s1) \<and>
     rtems_ipc_container_delete (Some a) s1 = Some s2 \<and> ipcs s2 = ipcs s \<and> objs s2 = objs s \<and>
     ipc_registry s2 = ipc_registry s \<and> live (mem s2) = live (mem s) \<and>
     g_currentIpcContainerNum s2 = g_currentIpcContainerNum s"
proof -
  let ?id = "g_ipcContainerIdCounter s + 1"
  obtain a m where m: "malloc (mem s) = (Some a, m)" using assms(7) by (simp add: malloc_def)
  then have a: "a = brk (mem s)" "brk m = Suc a" "live m = live (mem s) + 1" by (auto simp: alloc_simps)
  obtain i1 m1 h1 where b1: "ipc_build_info OBJECTS_RTEMS_MESSAGE_QUEUES OBJECTS_STATIC ?id 5 m (objs s) = (i1, m1, h1)"
    by (metis prod_cases3)
  obtain i2 m2 h2 where b2: "ipc_build_info OBJECTS_RTEMS_SEMAPHORES IPC_SEMAPHORE_STATIC ?id 10 m1 h1 = (i2, m2, h2)"
    by (metis prod_cases3)
  note spec1 = ipc_build_info_spec [OF b1] and spec2 = ipc_build_info_spec [OF b2]
  let ?ic = "(IpcContainer_new 1 ?id)\<lparr>rtems_message_queue_info := i1, semaphore_info := i2\<rparr>"
  obtain s2 where s2: "rtems_ipc_container_create s = Some (Some a, rtems_ipc_container_add_to_list (Some a) s2)"
    "ipcs s2 = (ipcs s)(a \<mapsto> ?ic)" "mem s2 = m2" "objs s2 = h2" "rootContainer s2 = rootContainer s"
    "threads s2 = threads s" "g_currentIpcContainerNum s2 = g_currentIpcContainerNum s + 1"
    by (rule ipc_create_shape [OF m assms(6) b1 b2])
  let ?s1 = "rtems_ipc_container_add_to_list (Some a) s2"
  have fresh: "ipcs s a = None" using heap_ok_fresh [OF assms(1)] a by simp
  then have ar: "a \<noteq> r" "a \<notin> set (ipc_registry s)" using assms(4,5) by auto
  have ready: "rootContainer s2 \<noteq> None" using assms(3) s2(5) by (auto simp: ipc_root_def bind_eq_Some_conv)
  have ready1: "rootContainer ?s1 \<noteq> None" by (rule ipc_reg.add_ready [OF ready])
  have reg: "ipc_registry s2 = ipc_registry s" "ipc_root ?s1 = Some r"
    using assms(3) s2(5) by (simp_all add: ipc_registry_def ipc_root_def [of s2] ipc_root_def [of s])
  obtain s3 where s3: "rtems_ipc_container_delete (Some a) ?s1 = Some s3" "ipcs s3 = (ipcs ?s1)(a := None)"
    "objs s3 = objs (ipc_free_info (semaphore_info ?ic) (ipc_free_info (rtems_message_queue_info ?ic) ?s1))"
    "live (mem s3) = live (mem (rtems_ipc_container_remove_from_list (Some a) ?s1)) - 1
       - info_blocks (rtems_message_queue_info ?ic) - info_blocks (semaphore_info ?ic)"
    "ipc_registry s3 = remove1 a (ipc_registry ?s1)"
    "g_currentIpcContainerNum s3 = g_currentIpcContainerNum ?s1 - 1"
    by (rule ipc_delete_eq [of ?s1 a ?ic r]) (use s2(2) reg ar in simp_all)
  have "ipcs s3 = ipcs s" using s3(2) s2(2) fresh by (simp add: fun_upd_idem)
  moreover have "objs s3 = objs s"
  proof -
    have o: "objs s (brk m) = None" "objs s (brk m1) = None"
      using heap_ok_fresh [OF heap_ok_mono [OF assms(2), of m]] heap_ok_fresh [OF heap_ok_mono [OF assms(2), of m1]]
        a spec1(2) by auto
    have "h1 (brk m1) = None"
    proof (cases "initial_objects i1")
      case None
      then show ?thesis using spec1(4) o(2) by simp
    next
      case (Some b)
      then have "h1 = (objs s)(b := h1 b)" "b \<noteq> brk m1" using spec1(2,5) by auto
      then show ?thesis using o(2) by (metis fun_upd_other)
    qed
    then have u2: "(case initial_objects i2 of None \<Rightarrow> h2 | Some b \<Rightarrow> h2(b := None)) = h1"
      by (rule ipc_build_undo [OF b2])
    have "objs s3 = (case initial_objects i1 of None \<Rightarrow> h1 | Some b \<Rightarrow> h1(b := None))"
      unfolding s3(3) u2 [symmetric] using s2(4)
      by (auto simp: ipc_free_info_sel IpcContainer_new_def fun_upd_twist split: option.splits)
    then show ?thesis using ipc_build_undo [OF b1 o(1)] by simp
  qed
  moreover have "ipc_registry s3 = ipc_registry s" "live (mem s3) = live (mem s)"
    using ipc_reg.remove_add [OF ready, of a] ipc_reg.registry_remove [OF ready1, of a]
      s3(4,5) ar(2) reg(1) s2(3) spec1(1) spec2(1) a(3)
    by (simp_all add: IpcContainer_new_def)
  moreover have "g_currentIpcContainerNum s3 = g_currentIpcContainerNum s" using s3(6) s2(7) by simp
  ultimately show ?thesis using s2(1) s3(1) by blast
qed

section \<open>Semaphores and message queues of a container\<close>

text \<open>The executing task is in container \<open>c\<close>, whose class of objects is well formed with
  \<open>n\<close> objects; the configured global table, into which the directives also write, has at least
  as many entries.\<close>

definition ipc_class_ok ::
  "(IpcContainer \<Rightarrow> Objects_Information) \<Rightarrow> u32 \<Rightarrow> objects_allocator \<Rightarrow> 'a ipc_kernel_scheme \<Rightarrow> addr \<Rightarrow> nat \<Rightarrow> bool"
where
  "ipc_class_ok sel cls al s c n \<longleftrightarrow> RTEMSCFG_IPC_CONTAINER (cfg s) \<and> current_ipc s = Some c \<and>
     (\<exists>ic. ipcs s c = Some ic \<and> info_wf (objs s) cls (of_int (containerID ic)) n (sel ic) \<and>
        allocate (sel ic) = al)"

definition sem_ns_ok :: "'a ipc_kernel_scheme \<Rightarrow> addr \<Rightarrow> nat \<Rightarrow> bool" where
  "sem_ns_ok s c n \<longleftrightarrow>
     ipc_class_ok semaphore_info OBJECTS_RTEMS_SEMAPHORES IPC_SEMAPHORE_STATIC s c n \<and>
     (\<exists>gt. local_table (Semaphore_Information s) = Some gt \<and> n \<le> length gt)"

definition mq_ns_ok :: "'a ipc_kernel_scheme \<Rightarrow> addr \<Rightarrow> nat \<Rightarrow> bool" where
  "mq_ns_ok s c n \<longleftrightarrow>
     ipc_class_ok rtems_message_queue_info OBJECTS_RTEMS_MESSAGE_QUEUES OBJECTS_STATIC s c n \<and>
     (\<exists>gt. local_table (Message_queue_Information s) = Some gt \<and> n \<le> length gt)"

definition sem_idle :: "'a ipc_kernel_scheme \<Rightarrow> addr \<Rightarrow> objp list" where
  "sem_idle s c = (case ipcs s c of None \<Rightarrow> [] | Some ic \<Rightarrow> Inactive (semaphore_info ic))"

definition mq_idle :: "'a ipc_kernel_scheme \<Rightarrow> addr \<Rightarrow> objp list" where
  "mq_idle s c = (case ipcs s c of None \<Rightarrow> [] | Some ic \<Rightarrow> Inactive (rtems_message_queue_info ic))"

lemma current_ipc_frame [simp]:
  "current_ipc (s\<lparr>ipcs := h\<rparr>) = current_ipc s" "current_ipc (s\<lparr>objs := b\<rparr>) = current_ipc s"
  "current_ipc (s\<lparr>Semaphore_Information := i\<rparr>) = current_ipc s"
  "current_ipc (s\<lparr>Message_queue_Information := i\<rparr>) = current_ipc s"
  by (simp_all add: current_ipc_def thread_ns_def)

lemma sem_ns_info:
  assumes "sem_ns_ok s c n"
  obtains ic gt where "ipcs s c = Some ic" "Semaphore_Get_information_from_container s = INFO_IPC_SEMAPHORE c"
    "info_wf (objs s) OBJECTS_RTEMS_SEMAPHORES (of_int (containerID ic)) n (semaphore_info ic)"
    "allocate (semaphore_info ic) = IPC_SEMAPHORE_STATIC" "deallocate (semaphore_info ic) = IPC_SEMAPHORE_STATIC"
    "RTEMSCFG_IPC_CONTAINER (cfg s)" "current_ipc s = Some c"
    "local_table (Semaphore_Information s) = Some gt" "n \<le> length gt"
  using assms by (auto simp: sem_ns_ok_def ipc_class_ok_def Semaphore_Get_information_from_container_def info_wf_def)

lemma mq_ns_info:
  assumes "mq_ns_ok s c n"
  obtains ic gt where "ipcs s c = Some ic" "Message_queue_Get_information_from_container s = INFO_IPC_MESSAGE_QUEUE c"
    "info_wf (objs s) OBJECTS_RTEMS_MESSAGE_QUEUES (of_int (containerID ic)) n (rtems_message_queue_info ic)"
    "allocate (rtems_message_queue_info ic) = OBJECTS_STATIC" "deallocate (rtems_message_queue_info ic) = OBJECTS_STATIC"
    "RTEMSCFG_IPC_CONTAINER (cfg s)" "current_ipc s = Some c"
    "local_table (Message_queue_Information s) = Some gt" "n \<le> length gt"
  using assms by (auto simp: mq_ns_ok_def ipc_class_ok_def Message_queue_Get_information_from_container_def info_wf_def)

text \<open>(C19) Creating a semaphore in the IPC container of the executing task, when a semaphore is free
  there: the call succeeds, the identifier it returns is looked up to the new semaphore, every other
  identifier is looked up as before, the number of free semaphores drops by one and the container stays
  well formed. When none is free the call reports \<open>RTEMS_TOO_MANY\<close> and changes nothing.\<close>

theorem ipc_semaphore_create_effect:
  assumes "sem_ns_ok s c n" "name \<noteq> 0" "semaphore_variant attr = Some v"
    "cnt \<le> 1 \<or> v = SEMAPHORE_VARIANT_COUNTING" "core v = RTEMS_SUCCESSFUL"
  shows "case sem_idle s c of
      [] \<Rightarrow> rtems_semaphore_create core name cnt attr False s = Some (RTEMS_TOO_MANY, None, s)
    | p # ps \<Rightarrow> \<exists>i s'. rtems_semaphore_create core name cnt attr False s = Some (RTEMS_SUCCESSFUL, Some i, s') \<and>
        Semaphore_Get i s' = Some (Some p) \<and> (\<forall>j. j \<noteq> i \<longrightarrow> Semaphore_Get j s' = Semaphore_Get j s) \<and>
        sem_idle s' c = ps \<and> sem_ns_ok s' c n"
proof -
  obtain ic gt where ic: "ipcs s c = Some ic" "Semaphore_Get_information_from_container s = INFO_IPC_SEMAPHORE c"
    "info_wf (objs s) OBJECTS_RTEMS_SEMAPHORES (of_int (containerID ic)) n (semaphore_info ic)"
    "allocate (semaphore_info ic) = IPC_SEMAPHORE_STATIC" "deallocate (semaphore_info ic) = IPC_SEMAPHORE_STATIC"
    "RTEMSCFG_IPC_CONTAINER (cfg s)" "current_ipc s = Some c"
    "local_table (Semaphore_Information s) = Some gt" "n \<le> length gt"
    by (rule sem_ns_info [OF assms(1)])
  let ?info = "semaphore_info ic"
  have c1: "\<not> (cnt > 1 \<and> v \<noteq> SEMAPHORE_VARIANT_COUNTING)" using assms(4) by auto
  show ?thesis
  proof (cases "Inactive ?info")
    case Nil
    have "set_info (INFO_IPC_SEMAPHORE c) ?info s = s" using ic(1) by (simp add: fun_upd_idem)
    then have "rtems_semaphore_create core name cnt attr False s = Some (RTEMS_TOO_MANY, None, s)"
      using assms c1 ic Objects_Allocate_none [OF ic(3) Nil]
      by (simp add: rtems_semaphore_create_def info_allocate_def del: set_info.simps)
    then show ?thesis using Nil ic(1) by (simp add: sem_idle_def)
  next
    case (Cons p ps)
    then have mem: "p \<in> info_objects ?info" "distinct ps" "set ps \<subseteq> info_objects ?info"
      using info_wf_inactive [OF ic(3)] by auto
    obtain a k ob where p: "p = (a, k)" "k < n" "initial_objects ?info = Some a" "obj_read (objs s) p = Some ob"
      "unat (ucast (Objects_Get_index (obj_id ob)) - OBJECTS_INDEX_MINIMUM :: u32) = k"
      by (rule info_wf_obj [OF ic(3) mem(1)])
    let ?i2 = "?info\<lparr>local_table := Some ((the (local_table ?info))[k := Some p]), Inactive := ps,
      inactive := inactive ?info - 1\<rparr>"
    let ?s1 = "s\<lparr>ipcs := (ipcs s)(c \<mapsto> ic\<lparr>semaphore_info := ?i2\<rparr>)\<rparr>"
    have alloc: "info_allocate (INFO_IPC_SEMAPHORE c) s = Some (Some p, ?s1)"
      using ic(1) p(1) Objects_Allocate_sem [OF ic(3) Cons ic(4)] by (simp add: info_allocate_def)
    obtain h where h: "obj_write p (\<lambda>ob. ob\<lparr>obj_name := name\<rparr>) (objs s) = Some h"
      "obj_read h p = Some (ob\<lparr>obj_name := name\<rparr>)"
      "\<And>cls node n info. info_wf (objs s) cls node n info \<Longrightarrow> info_wf h cls node n info"
      by (rule obj_write_name_Some [OF p(4)]) blast
    let ?s2 = "?s1\<lparr>Semaphore_Information := (Semaphore_Information s)\<lparr>local_table := Some (gt[k := Some p])\<rparr>, objs := h\<rparr>"
    have opn: "info_open INFO_SEMAPHORE p name ?s1 = Some (obj_id ob, ?s2)"
      using h p(2,5) ic(8,9) Objects_Set_local_object_own [of ob k "Semaphore_Information s" gt "Some p"]
      by (simp add: info_open_def Objects_Open_u32_def)
    have create: "rtems_semaphore_create core name cnt attr False s = Some (RTEMS_SUCCESSFUL, Some (obj_id ob), ?s2)"
      using assms(2,3,5) c1 ic(2) alloc opn by (simp add: rtems_semaphore_create_def)
    have wf1: "info_wf (objs s) OBJECTS_RTEMS_SEMAPHORES (of_int (containerID ic)) n ?i2"
      by (rule info_wf_update [OF ic(3)]) (use p mem in auto)
    have oid: "obj_id ob = Objects_Build_id OBJECTS_CLASSIC_API OBJECTS_RTEMS_SEMAPHORES (of_int (containerID ic))
        (of_nat (Suc k))"
      using ic(3) p by (auto simp: info_wf_def obj_read_def)
    have get: "Semaphore_Get j ?s2 = Objects_Get j ?i2" "Semaphore_Get j s = Objects_Get j ?info" for j
      using ic by (simp_all add: Semaphore_Get_def Semaphore_Get_information_from_container_def)
    obtain tab where tab: "local_table ?info = Some tab" "length tab = Suc n" using ic(3) by (auto simp: info_wf_def)
    have found: "Semaphore_Get (obj_id ob) ?s2 = Some (Some p)"
      using Objects_Get_own [OF wf1 p(2)] p(2) tab unfolding get oid by (simp add: info_slot_def)
    have other: "Semaphore_Get j ?s2 = Semaphore_Get j s" if "j \<noteq> obj_id ob" for j
      using Objects_Get_update_other [OF ic(3), of j k "Some p"] that
      unfolding get oid by (subst Objects_Get_cong [of _ "?info\<lparr>local_table :=
          Some ((the (local_table ?info))[k := Some p])\<rparr>"]) simp_all
    have "sem_idle ?s2 c = ps" by (simp add: sem_idle_def)
    moreover have "sem_ns_ok ?s2 c n"
      using ic h(3) [OF wf1] by (simp add: sem_ns_ok_def ipc_class_ok_def)
    ultimately show ?thesis using create found other Cons ic(1) by (auto simp: sem_idle_def)
  qed
qed

lemma Objects_Close_Some:
  assumes "info_wf h cls node n info" "p \<in> info_objects info" "local_table gi = Some gt" "n \<le> length gt"
  obtains h' where "Objects_Close p gi h = Some (gi\<lparr>local_table := Some (gt[snd p := None])\<rparr>, h')"
    "info_wf h' cls node n info"
proof -
  obtain k ob where p: "snd p = k" "k < n" "obj_read h p = Some ob"
    "unat (ucast (Objects_Get_index (obj_id ob)) - OBJECTS_INDEX_MINIMUM :: u32) = k"
    by (rule info_wf_obj [OF assms(1,2)]) (metis snd_conv)
  obtain h' where h: "obj_write p (\<lambda>ob. ob\<lparr>obj_name := 0\<rparr>) h = Some h'" "info_wf h' cls node n info"
    using obj_write_name_Some [OF p(3)] assms(1) by metis
  have "Objects_Close p gi h = Some (gi\<lparr>local_table := Some (gt[snd p := None])\<rparr>, h')"
    using h(1) p assms(4) Objects_Set_local_object_own [OF p(4) assms(3), of None]
    by (simp add: Objects_Close_def)
  then show thesis using h(2) by (rule that)
qed

lemma Objects_Get_member:
  assumes "info_wf h cls node n info" "Objects_Get i info = Some (Some p)"
  shows "p \<in> info_objects info" "i = Objects_Build_id OBJECTS_CLASSIC_API cls node (of_nat (Suc (snd p)))"
    "snd p < n" "info_slot info (snd p) = Some p"
  by (rule Objects_Get_sound [OF assms], auto simp: info_objects_def info_wf_end(1) [OF assms(1)] image_iff prod_eq_iff)+

text \<open>Deleting a semaphore of an IPC container clears the wrong table entries: the directive
  closes it in the global table, and the container's free function stores NULL at the index of the
  identifier, not at the index minus one. The deleted identifier therefore still finds the
  semaphore, which is back on the chain of free ones, and the semaphore with the next identifier is no
  longer found.\<close>

theorem ipc_semaphore_delete_wrong_slot:
  assumes "sem_ns_ok s c n" "Semaphore_Get i s = Some (Some p)" "\<not> locked p"
  shows "\<exists>s'. rtems_semaphore_delete locked i s = Some (RTEMS_SUCCESSFUL, s') \<and> p \<in> set (sem_idle s' c) \<and>
     Semaphore_Get i s' = Some (Some p) \<and> (Suc (snd p) < n \<longrightarrow> Semaphore_Get (i + 1) s' = Some None)"
proof -
  obtain ic gt where ic: "ipcs s c = Some ic" "Semaphore_Get_information_from_container s = INFO_IPC_SEMAPHORE c"
    "info_wf (objs s) OBJECTS_RTEMS_SEMAPHORES (of_int (containerID ic)) n (semaphore_info ic)"
    "deallocate (semaphore_info ic) = IPC_SEMAPHORE_STATIC" "RTEMSCFG_IPC_CONTAINER (cfg s)" "current_ipc s = Some c"
    "local_table (Semaphore_Information s) = Some gt" "n \<le> length gt"
    by (rule sem_ns_info [OF assms(1)])
  let ?info = "semaphore_info ic" and ?node = "of_int (containerID ic) :: u32"
  have "Objects_Get i ?info = Some (Some p)"
    using assms(2) ic by (simp add: Semaphore_Get_def)
  note p = Objects_Get_member [OF ic(3) this]
  obtain h where h: "Objects_Close p (Semaphore_Information s) (objs s) =
      Some ((Semaphore_Information s)\<lparr>local_table := Some (gt[snd p := None])\<rparr>, h)"
    "info_wf h OBJECTS_RTEMS_SEMAPHORES ?node n ?info"
    by (rule Objects_Close_Some [OF ic(3) p(1) ic(7,8)])
  let ?s1 = "s\<lparr>Semaphore_Information := (Semaphore_Information s)\<lparr>local_table := Some (gt[snd p := None])\<rparr>, objs := h\<rparr>"
  let ?i2 = "?info\<lparr>local_table := Some ((the (local_table ?info))[Suc (snd p) := None]),
     Inactive := Inactive ?info @ [p], inactive := inactive ?info + 1\<rparr>"
  let ?s2 = "?s1\<lparr>ipcs := (ipcs s)(c \<mapsto> ic\<lparr>semaphore_info := ?i2\<rparr>)\<rparr>"
  have ip: "Semaphore_Get_information_from_container ?s1 = INFO_IPC_SEMAPHORE c"
    using ic(5,6) by (simp add: Semaphore_Get_information_from_container_def)
  have "rtems_semaphore_delete locked i s = Some (RTEMS_SUCCESSFUL, ?s2)"
    using assms(2,3) h(1) ic(1) Objects_Free_sem [OF h(2) p(1) ic(4)]
    by (simp add: rtems_semaphore_delete_def info_close_def info_free_def ip)
  moreover have get: "Semaphore_Get j ?s2 = Objects_Get j ?i2" for j
    using ic(5,6) by (simp add: Semaphore_Get_def Semaphore_Get_information_from_container_def)
  obtain tab where tab: "local_table ?info = Some tab" "length tab = Suc n" using ic(3) by (auto simp: info_wf_def)
  have frame: "Objects_Get j ?i2 = Objects_Get j (?info\<lparr>local_table := Some (tab[Suc (snd p) := None])\<rparr>)" for j
    using tab by (intro Objects_Get_cong) simp_all
  have wf: "info_wf (objs s) OBJECTS_RTEMS_SEMAPHORES ?node n (?info\<lparr>local_table := Some (tab[Suc (snd p) := None])\<rparr>)"
    using info_wf_update [OF ic(3), of "Suc (snd p)" None "Inactive ?info" "inactive ?info"]
      info_wf_inactive [OF ic(3)] tab(1) p(3) by simp
  have "Semaphore_Get i ?s2 = Some (Some p)"
    using Objects_Get_own [OF wf p(3)] p(4) tab(1) unfolding get frame p(2) [symmetric]
    by (simp add: info_slot_def)
  moreover have "Semaphore_Get (i + 1) ?s2 = Some None" if lt: "Suc (snd p) < n"
  proof -
    have n: "n < 2 ^ 16" using ic(3) by (simp add: info_wf_def)
    have "i + 1 = Objects_Build_id OBJECTS_CLASSIC_API OBJECTS_RTEMS_SEMAPHORES ?node (of_nat (Suc (Suc (snd p))))"
      unfolding p(2) using n lt by (intro Objects_Build_id_Suc) simp
    then show ?thesis using Objects_Get_own [OF wf lt] tab lt unfolding get frame by (simp add: info_slot_def)
  qed
  moreover have "p \<in> set (sem_idle ?s2 c)" by (simp add: sem_idle_def)
  ultimately show ?thesis by blast
qed

text \<open>Deleting a message queue of an IPC container does not invalidate its identifier: the
  directive closes the queue in the global table only, so the deleted identifier still finds the
  queue although it is on the chain of free ones.\<close>

theorem ipc_message_queue_delete_keeps_id:
  assumes "mq_ns_ok s c n" "Message_queue_Get i s = Some (Some p)"
  shows "\<exists>s'. rtems_message_queue_delete i s = Some (RTEMS_SUCCESSFUL, s') \<and> p \<in> set (mq_idle s' c) \<and>
     Message_queue_Get i s' = Some (Some p)"
proof -
  obtain ic gt where ic: "ipcs s c = Some ic" "Message_queue_Get_information_from_container s = INFO_IPC_MESSAGE_QUEUE c"
    "info_wf (objs s) OBJECTS_RTEMS_MESSAGE_QUEUES (of_int (containerID ic)) n (rtems_message_queue_info ic)"
    "deallocate (rtems_message_queue_info ic) = OBJECTS_STATIC" "RTEMSCFG_IPC_CONTAINER (cfg s)" "current_ipc s = Some c"
    "local_table (Message_queue_Information s) = Some gt" "n \<le> length gt"
    by (rule mq_ns_info [OF assms(1)])
  let ?info = "rtems_message_queue_info ic"
  have g: "Objects_Get i ?info = Some (Some p)"
    using assms(2) ic by (simp add: Message_queue_Get_def)
  note p = Objects_Get_member [OF ic(3) g]
  obtain h where h: "Objects_Close p (Message_queue_Information s) (objs s) =
      Some ((Message_queue_Information s)\<lparr>local_table := Some (gt[snd p := None])\<rparr>, h)"
    by (rule Objects_Close_Some [OF ic(3) p(1) ic(7,8)])
  let ?s1 = "s\<lparr>Message_queue_Information := (Message_queue_Information s)\<lparr>local_table := Some (gt[snd p := None])\<rparr>, objs := h\<rparr>"
  let ?s2 = "?s1\<lparr>ipcs := (ipcs s)(c \<mapsto> ic\<lparr>rtems_message_queue_info := Objects_Free_static p ?info\<rparr>)\<rparr>"
  have ip: "Message_queue_Get_information_from_container ?s1 = INFO_IPC_MESSAGE_QUEUE c"
    "Message_queue_Get_information_from_container ?s2 = INFO_IPC_MESSAGE_QUEUE c"
    using ic(5,6) by (simp_all add: Message_queue_Get_information_from_container_def)
  have "rtems_message_queue_delete i s = Some (RTEMS_SUCCESSFUL, ?s2)"
    using assms(2) h ic(1,4)
    by (simp add: rtems_message_queue_delete_def info_close_def info_free_def ip(1) Objects_Free_def)
  moreover have "Message_queue_Get i ?s2 = Objects_Get i (Objects_Free_static p ?info)"
    unfolding Message_queue_Get_def ip(2) by simp
  moreover have "Objects_Get i (Objects_Free_static p ?info) = Some (Some p)"
    using g by (subst Objects_Get_cong [of _ ?info]) (simp_all add: Objects_Free_static_def)
  moreover have "p \<in> set (mq_idle ?s2 c)" by (simp add: mq_idle_def Objects_Free_static_def)
  ultimately show ?thesis by auto
qed

section \<open>Isolation\<close>

lemma node_byte:
  assumes "x mod 256 \<noteq> y mod 256"
  shows "(of_int x :: u32) AND 255 \<noteq> of_int y AND 255"
proof
  assume "(of_int x :: u32) AND 255 = of_int y AND 255"
  then have "take_bit 8 (of_int x :: u32) = take_bit 8 (of_int y)"
    by (simp add: index_masks take_bit_eq_mask and.commute)
  then have "uint (take_bit 8 (of_int x :: u32)) = uint (take_bit 8 (of_int y :: u32))" by simp
  then have "take_bit 8 x = take_bit 8 y" by (simp add: unsigned_take_bit_eq unsigned_of_int)
  then show False using assms by (simp add: take_bit_eq_mod)
qed

text \<open>(C20) IPC containers isolate semaphores: an identifier that finds a semaphore for a task of one
  container finds nothing for a task of another container, as long as the two container numbers differ
  modulo 256.\<close>

theorem ipc_semaphore_isolation:
  assumes "sem_ns_ok s c n" "sem_ns_ok (s\<lparr>executing := Some t\<rparr>) d m"
    "ipcs s c = Some ic" "ipcs s d = Some jc" "containerID ic mod 256 \<noteq> containerID jc mod 256"
    "Semaphore_Get i s = Some (Some p)"
  shows "Semaphore_Get i (s\<lparr>executing := Some t\<rparr>) = Some None"
proof -
  have c: "Semaphore_Get_information_from_container s = INFO_IPC_SEMAPHORE c"
    "info_wf (objs s) OBJECTS_RTEMS_SEMAPHORES (of_int (containerID ic)) n (semaphore_info ic)"
    using assms(3) by (rule_tac [!] sem_ns_info [OF assms(1)]) auto
  have d: "Semaphore_Get_information_from_container (s\<lparr>executing := Some t\<rparr>) = INFO_IPC_SEMAPHORE d"
    "info_wf (objs s) OBJECTS_RTEMS_SEMAPHORES (of_int (containerID jc)) m (semaphore_info jc)"
    using assms(4) by (rule_tac [!] sem_ns_info [OF assms(2)]) auto
  have "Objects_Get i (semaphore_info ic) = Some (Some p)"
    using assms(3,6) c(1) by (simp add: Semaphore_Get_def)
  note p = Objects_Get_member [OF c(2) this]
  have "n < 2 ^ 16" using c(2) by (simp add: info_wf_def)
  then have u: "unat (of_nat (Suc (snd p)) :: u32) < 2 ^ 16" using p(3) by (subst unat_of_nat_index) simp_all
  have "Objects_Get i (semaphore_info jc) = Some None"
    unfolding p(2) by (rule Objects_Get_foreign [OF d(2) node_byte [OF assms(5)] u])
  then show ?thesis using assms(4) d(1) by (simp add: Semaphore_Get_def)
qed

text \<open>The container number is stored in an identifier field of eight bits. Container 512 + k gets
  the same identifiers as container k, since the surplus bit falls on a bit of the class-API field
  that is already set.\<close>

theorem ipc_identifier_collision:
  assumes "0 \<le> k" "k < 512"
  shows "Objects_Build_id OBJECTS_CLASSIC_API cls (of_int (512 + k)) i =
     Objects_Build_id OBJECTS_CLASSIC_API cls (of_int k) i"
proof -
  have "take_bit 9 k = k" using assms by (simp add: take_bit_eq_mod)
  then have k: "take_bit 9 (of_int k :: u32) = of_int k" by (metis take_bit_of_int)
  have "(512 :: u32) AND of_int k = 0"
  proof -
    have "push_bit 9 (1 :: u32) AND take_bit 9 (of_int k) = 0"
      by (rule bit_word_eqI) (auto simp only: bit_and_iff bit_push_bit_iff bit_take_bit_iff bit_0_eq bot_fun_def bot_bool_def)
    then show ?thesis unfolding k by simp
  qed
  then have "(of_int (512 + k) :: u32) = 512 OR of_int k" by (simp add: disjunctive_add_eq_or)
  then have "push_bit 16 (of_int (512 + k) :: u32) = push_bit 16 512 OR push_bit 16 (of_int k)"
    by (simp only: push_bit_or)
  moreover have "push_bit 24 OBJECTS_CLASSIC_API = (0x2000000 :: u32)" "push_bit 16 512 = (0x2000000 :: u32)"
    by (simp_all add: OBJECTS_CLASSIC_API_def push_bit_eq_mult)
  ultimately show ?thesis unfolding Objects_Build_id_def by (simp add: or.assoc or.left_commute)
qed

text \<open>Deleting an IPC container leaves its tasks in it: no task is moved. A task that deletes the
  container it is in and then creates a semaphore goes through the freed container.\<close>

theorem ipc_delete_then_create_undefined:
  assumes "ipc_class_ok sel cls al s c n" "ipc_root s = Some r" "c \<noteq> r" "name \<noteq> 0" "semaphore_variant attr = Some v"
    "cnt \<le> 1"
  shows "\<exists>s'. rtems_ipc_container_delete (Some c) s = Some s' \<and>
     rtems_semaphore_create core name cnt attr False s' = None"
proof -
  from assms(1) obtain ic where ic: "ipcs s c = Some ic" "RTEMSCFG_IPC_CONTAINER (cfg s)" "current_ipc s = Some c"
    by (auto simp: ipc_class_ok_def)
  obtain s' where s': "rtems_ipc_container_delete (Some c) s = Some s'" "ipcs s' = (ipcs s)(c := None)" "threads s' = threads s"
    "cfg s' = cfg s" "executing s' = executing s"
    by (rule ipc_delete_eq [OF ic(1) assms(2,3)]) simp_all
  then have "Semaphore_Get_information_from_container s' = INFO_IPC_SEMAPHORE c"
    using ic(2,3) by (simp add: Semaphore_Get_information_from_container_def current_ipc_def thread_ns_def)
  moreover have "\<not> 1 < cnt" using assms(6) by simp
  ultimately have "rtems_semaphore_create core name cnt attr False s' = None"
    using assms(4,5) s'(2) by (simp add: rtems_semaphore_create_def info_allocate_def)
  then show ?thesis using s'(1) by blast
qed

section \<open>A concrete system\<close>

text \<open>An information block with three objects at address \<open>a\<close>, the first two of them in use.\<close>

definition demo_info :: "u32 \<Rightarrow> objects_allocator \<Rightarrow> int \<Rightarrow> addr \<Rightarrow> Objects_Information" where
  "demo_info cls al cid a = Objects_Information_zero
     \<lparr>maximum_id := Objects_Build_id OBJECTS_CLASSIC_API cls (of_int cid) 3,
      local_table := Some [Some (a, 0), Some (a, 1), None, None], allocate := al, deallocate := al,
      inactive := 1, Inactive := [(a, 2)], initial_objects := Some a\<rparr>"

definition demo_id :: "u32 \<Rightarrow> int \<Rightarrow> nat \<Rightarrow> u32" where
  "demo_id cls cid i = Objects_Build_id OBJECTS_CLASSIC_API cls (of_int cid) (of_nat (Suc i))"

definition demo_objects :: "u32 \<Rightarrow> int \<Rightarrow> Objects_Control list" where
  "demo_objects cls cid = map (\<lambda>i. \<lparr>obj_id = demo_id cls cid i, obj_name = 0\<rparr>) [0..<3]"

lemma demo_info_wf:
  assumes "h a = Some (demo_objects cls cid)" "al \<noteq> NO_ALLOCATOR"
  shows "info_wf h cls (of_int cid) 3 (demo_info cls al cid a)"
proof -
  have "\<forall>i < 3. [Some (a, 0), Some (a, Suc 0), None, None] ! i = None \<or>
      [Some (a, 0), Some (a, Suc 0), None, None] ! i = Some (a, i)"
    by (auto simp: numeral_3_eq_3 less_Suc_eq)
  then show ?thesis using assms unfolding info_wf_def
    by (simp add: demo_info_def Objects_Information_zero_def demo_objects_def demo_id_def)
qed

definition demo_ipc_thread :: "u32 \<Rightarrow> ptr \<Rightarrow> Thread_Control" where
  "demo_ipc_thread oid p = \<lparr>Object_id = oid, container = Some (Container_zero\<lparr>ipcContainer := p\<rparr>),
     cgroup = None, last_cpu_start_timestamp = 0, is_added_to_cgroup = False, current_state = 0\<rparr>"

definition demo_ipc_container :: "int \<Rightarrow> addr \<Rightarrow> addr \<Rightarrow> IpcContainer" where
  "demo_ipc_container cid a b = (IpcContainer_new 2 cid)
     \<lparr>rtems_message_queue_info := demo_info OBJECTS_RTEMS_MESSAGE_QUEUES OBJECTS_STATIC cid a,
      semaphore_info := demo_info OBJECTS_RTEMS_SEMAPHORES IPC_SEMAPHORE_STATIC cid b\<rparr>"

text \<open>The root container 0 and containers 1 and 2, with the numbers 2 and 3; task 3 executes in
  container 1, task 4 is in container 2.\<close>

definition demo_ipc :: ipc_kernel where
  "demo_ipc = \<lparr>cfg = demo_cfg, mem = \<lparr>brk = 20, oom = (\<lambda>_. False), live = 13\<rparr>,
     rootContainer = Some (Container_zero\<lparr>c_rc := 1, ipcContainer := Some 0, ipcContainerList := [2, 1]\<rparr>),
     threads = [3 \<mapsto> demo_ipc_thread 7 (Some 1), 4 \<mapsto> demo_ipc_thread 8 (Some 2)],
     thread_table = [3, 4], executing = Some 3, pids = Map.empty, g_pidContainerId = 0,
     utss = Map.empty, g_utsContainerId = 0, g_rootUtsContainer = None,
     ipcs = [0 \<mapsto> IpcContainer_new 3 1, 1 \<mapsto> demo_ipc_container 2 10 12, 2 \<mapsto> demo_ipc_container 3 14 16],
     objs = [10 \<mapsto> demo_objects OBJECTS_RTEMS_MESSAGE_QUEUES 2, 12 \<mapsto> demo_objects OBJECTS_RTEMS_SEMAPHORES 2,
             14 \<mapsto> demo_objects OBJECTS_RTEMS_MESSAGE_QUEUES 3, 16 \<mapsto> demo_objects OBJECTS_RTEMS_SEMAPHORES 3],
     g_ipcContainerIdCounter = 3, g_currentIpcContainerNum = 3,
     Semaphore_Information = Objects_Information_zero\<lparr>local_table := Some (replicate 5 None)\<rparr>,
     Message_queue_Information = Objects_Information_zero\<lparr>local_table := Some (replicate 5 None)\<rparr>,
     POSIX_Message_queue_Information = Objects_Information_zero, Objects_Information_table = Map.empty\<rparr>"

lemma demo_ipc_ns: "thread_ns ipcContainer demo_ipc = [3 \<mapsto> 1, 4 \<mapsto> 2]"
  by (auto simp: thread_ns_def demo_ipc_def demo_ipc_thread_def Container_zero_def fun_eq_iff)

lemma demo_ipc_count: "ipc_count demo_ipc = [0 \<mapsto> 3, 1 \<mapsto> 2, 2 \<mapsto> 2]"
  by (auto simp: ipc_count_def demo_ipc_def demo_ipc_container_def IpcContainer_new_def fun_eq_iff)

lemma demo_ipc_sel:
  "ipcs demo_ipc 1 = Some (demo_ipc_container 2 10 12)" "ipcs demo_ipc 2 = Some (demo_ipc_container 3 14 16)"
  "current_ipc demo_ipc = Some 1" "current_ipc (demo_ipc\<lparr>executing := Some 4\<rparr>) = Some 2"
  "RTEMSCFG_IPC_CONTAINER (cfg demo_ipc)" "ipc_root demo_ipc = Some 0"
  by (simp_all add: demo_ipc_def current_ipc_def thread_ns_def demo_ipc_thread_def Container_zero_def
      ipc_root_def demo_cfg_def)

lemma demo_ipc_wf:
  "info_wf (objs demo_ipc) OBJECTS_RTEMS_SEMAPHORES (of_int 2) 3 (semaphore_info (demo_ipc_container 2 10 12))"
  "info_wf (objs demo_ipc) OBJECTS_RTEMS_SEMAPHORES (of_int 3) 3 (semaphore_info (demo_ipc_container 3 14 16))"
  "info_wf (objs demo_ipc) OBJECTS_RTEMS_MESSAGE_QUEUES (of_int 2) 3
     (rtems_message_queue_info (demo_ipc_container 2 10 12))"
  using demo_info_wf [of "objs demo_ipc" 12 OBJECTS_RTEMS_SEMAPHORES 2 IPC_SEMAPHORE_STATIC]
    demo_info_wf [of "objs demo_ipc" 16 OBJECTS_RTEMS_SEMAPHORES 3 IPC_SEMAPHORE_STATIC]
    demo_info_wf [of "objs demo_ipc" 10 OBJECTS_RTEMS_MESSAGE_QUEUES 2 OBJECTS_STATIC]
  by (simp_all add: demo_ipc_container_def) (simp_all add: demo_ipc_def)

lemma demo_container_sel [simp]:
  "containerID (demo_ipc_container cid a b) = cid"
  "allocate (semaphore_info (demo_ipc_container cid a b)) = IPC_SEMAPHORE_STATIC"
  "allocate (rtems_message_queue_info (demo_ipc_container cid a b)) = OBJECTS_STATIC"
  by (simp_all add: demo_ipc_container_def IpcContainer_new_def demo_info_def)

lemma demo_sem_ok: "sem_ns_ok demo_ipc 1 3" "sem_ns_ok (demo_ipc\<lparr>executing := Some 4\<rparr>) 2 3"
    "mq_ns_ok demo_ipc 1 3"
  using demo_ipc_wf demo_ipc_sel unfolding sem_ns_ok_def mq_ns_ok_def ipc_class_ok_def
  by (auto simp: demo_ipc_def Objects_Information_zero_def)

lemma demo_sem_get: "Semaphore_Get (demo_id OBJECTS_RTEMS_SEMAPHORES 2 0) demo_ipc = Some (Some (12, 0))"
proof -
  have "info_slot (semaphore_info (demo_ipc_container 2 10 12)) 0 = Some (12, 0)"
    by (simp add: info_slot_def demo_ipc_container_def demo_info_def)
  then show ?thesis using Objects_Get_own [OF demo_ipc_wf(1), of 0] demo_ipc_sel
    by (simp add: Semaphore_Get_def demo_id_def Semaphore_Get_information_from_container_def)
qed

lemma demo_mq_get: "Message_queue_Get (demo_id OBJECTS_RTEMS_MESSAGE_QUEUES 2 0) demo_ipc = Some (Some (10, 0))"
proof -
  have "info_slot (rtems_message_queue_info (demo_ipc_container 2 10 12)) 0 = Some (10, 0)"
    by (simp add: info_slot_def demo_ipc_container_def demo_info_def)
  then show ?thesis using Objects_Get_own [OF demo_ipc_wf(3), of 0] demo_ipc_sel
    by (simp add: Message_queue_Get_def demo_id_def Message_queue_Get_information_from_container_def)
qed

theorem ipc_move_there_and_back_witness:
  "\<exists>s' s''. rtems_ipc_container_move_task (Some 1) (Some 2) (Some 3) demo_ipc = Some s' \<and>
     rtems_ipc_container_move_task (Some 2) (Some 1) (Some 3) s' = Some s'' \<and>
     thread_ns ipcContainer s'' = [3 \<mapsto> 1, 4 \<mapsto> 2]"
  using ipc_move_there_and_back [of demo_ipc 3 1 2 2 2] by (auto simp: demo_ipc_ns demo_ipc_count)

theorem ipc_create_delete_witness:
  "\<exists>a s1 s2. rtems_ipc_container_create demo_ipc = Some (Some a, s1) \<and>
     rtems_ipc_container_delete (Some a) s1 = Some s2 \<and> live (mem s2) = 13"
proof -
  have "heap_ok (mem demo_ipc) (ipcs demo_ipc)" "heap_ok (mem demo_ipc) (objs demo_ipc)"
    by (auto simp: heap_ok_def demo_ipc_def split: if_splits)
  moreover have "set (ipc_registry demo_ipc) \<subseteq> dom (ipcs demo_ipc)" "ipcs demo_ipc 0 \<noteq> None"
    by (auto simp: demo_ipc_def ipc_registry_def)
  moreover have "g_ipcContainerIdCounter demo_ipc \<noteq> 0" "\<not> oom (mem demo_ipc) (brk (mem demo_ipc))"
    "live (mem demo_ipc) = 13" by (simp_all add: demo_ipc_def)
  ultimately show ?thesis using ipc_create_delete [of demo_ipc 0] demo_ipc_sel(6) by metis
qed

theorem ipc_semaphore_create_effect_witness:
  "\<exists>i s'. rtems_semaphore_create (\<lambda>_. RTEMS_SUCCESSFUL) 1 5 0 False demo_ipc = Some (RTEMS_SUCCESSFUL, Some i, s') \<and>
     Semaphore_Get i s' = Some (Some (12, 2)) \<and> sem_idle s' 1 = []"
proof -
  have "sem_idle demo_ipc 1 = [(12, 2)]"
    unfolding sem_idle_def demo_ipc_sel by (simp add: demo_ipc_container_def demo_info_def)
  then show ?thesis
    using ipc_semaphore_create_effect [OF demo_sem_ok(1), of 1 0 SEMAPHORE_VARIANT_COUNTING 5 "\<lambda>_. RTEMS_SUCCESSFUL"]
    by (auto simp: semaphore_variant_def)
qed

theorem ipc_semaphore_delete_wrong_slot_witness:
  "\<exists>s'. rtems_semaphore_delete (\<lambda>_. False) (demo_id OBJECTS_RTEMS_SEMAPHORES 2 0) demo_ipc = Some (RTEMS_SUCCESSFUL, s') \<and>
     Semaphore_Get (demo_id OBJECTS_RTEMS_SEMAPHORES 2 0) s' = Some (Some (12, 0)) \<and>
     Semaphore_Get (demo_id OBJECTS_RTEMS_SEMAPHORES 2 0 + 1) s' = Some None"
  using ipc_semaphore_delete_wrong_slot [OF demo_sem_ok(1) demo_sem_get, of "\<lambda>_. False"] by auto

theorem ipc_message_queue_delete_keeps_id_witness:
  "\<exists>s'. rtems_message_queue_delete (demo_id OBJECTS_RTEMS_MESSAGE_QUEUES 2 0) demo_ipc = Some (RTEMS_SUCCESSFUL, s') \<and>
     Message_queue_Get (demo_id OBJECTS_RTEMS_MESSAGE_QUEUES 2 0) s' = Some (Some (10, 0))"
  using ipc_message_queue_delete_keeps_id [OF demo_sem_ok(3) demo_mq_get] by blast

theorem ipc_semaphore_isolation_witness:
  "Semaphore_Get (demo_id OBJECTS_RTEMS_SEMAPHORES 2 0) (demo_ipc\<lparr>executing := Some 4\<rparr>) = Some None"
  by (rule ipc_semaphore_isolation [OF demo_sem_ok(1,2) demo_ipc_sel(1,2) _ demo_sem_get]) simp

theorem ipc_identifier_collision_witness:
  "Objects_Build_id OBJECTS_CLASSIC_API OBJECTS_RTEMS_SEMAPHORES (of_int (512 + 2)) 1 =
     Objects_Build_id OBJECTS_CLASSIC_API OBJECTS_RTEMS_SEMAPHORES (of_int 2) 1"
  by (rule ipc_identifier_collision) simp_all

theorem ipc_delete_then_create_undefined_witness:
  "\<exists>s'. rtems_ipc_container_delete (Some 1) demo_ipc = Some s' \<and>
     rtems_semaphore_create (\<lambda>_. RTEMS_SUCCESSFUL) 1 1 0 False s' = None"
  by (rule ipc_delete_then_create_undefined [of semaphore_info OBJECTS_RTEMS_SEMAPHORES IPC_SEMAPHORE_STATIC demo_ipc 1 3 0])
    (use demo_sem_ok(1) demo_ipc_sel(6) in \<open>simp_all add: sem_ns_ok_def semaphore_variant_def\<close>)

end
