(* ===== verification/MntContainer.thy ===== *)
theory MntContainer
  imports IpcContainer
begin

text \<open>
  The mount namespace, \<open>score/src/mntContainer.c\<close>, and its use by path evaluation
  (\<open>libcsupport/src/sup_fs_eval_path.c\<close>, \<open>sup_fs_location.c\<close>) and by
  \<open>libcsupport/src/mount.c\<close>. A mount container is a reference count, a number and a list of
  mount table entries.

  A global location is a block with a reference count. The null location is a static object whose
  address is a field of the state. An entry that \<open>mount\<close> allocates holds its strings and its root
  location in the same block (\<open>mt_embedded\<close>); an entry that \<open>clone_mount_entry\<close> builds has
  strings of its own. Releases are deferred: they are collected in a list that the next
  \<open>rtems_filesystem_global_location_obtain\<close> works off by calling handlers of the file systems
  concerned, so that step is a parameter (\<open>deferred_release\<close>).
\<close>

section \<open>Data\<close>

record Global_Location =
  gl_refs :: int
  gl_null :: bool
  gl_mt_entry :: ptr
  gl_deferred :: int

record mount_entry =
  mt_target :: "string option"
  mt_type :: "string option"
  mt_fs_root :: ptr
  mt_mounted :: bool
  mt_unmount_task :: u32
  mt_embedded :: bool

record MntContainer =
  mnt_rc :: int
  mnt_ID :: int
  mountList :: "addr list"

record mnt_kernel = ipc_kernel +
  mnts :: "addr \<rightharpoonup> MntContainer"
  mts :: "addr \<rightharpoonup> mount_entry"
  locs :: "addr \<rightharpoonup> Global_Location"
  g_mntContainerId :: int
  rootMntContainer :: ptr
  current_eval_path :: "string option"
  adjusted_eval_path :: "string option"
  deferred_locs :: "addr list"
  null_loc :: addr
  fs_root_loc :: addr
  fs_mount_table :: "addr list"
  user_env :: "addr \<rightharpoonup> ptr"

type_synonym 'a deferred_release = "'a mnt_kernel_scheme \<Rightarrow> 'a mnt_kernel_scheme option"

section \<open>Locations\<close>

definition loc_add_refs :: "addr \<Rightarrow> int \<Rightarrow> 'a mnt_kernel_scheme \<Rightarrow> 'a mnt_kernel_scheme option" where
  "loc_add_refs l d s = do {
     g \<leftarrow> locs s l;
     Some (s\<lparr>locs := (locs s)(l \<mapsto> g\<lparr>gl_refs := gl_refs g + d\<rparr>)\<rparr>) }"

definition location_is_null :: "addr \<Rightarrow> 'a mnt_kernel_scheme \<Rightarrow> bool option" where
  "location_is_null l s = map_option gl_null (locs s l)"

definition global_location_obtain ::
  "'a deferred_release \<Rightarrow> ptr \<Rightarrow> 'a mnt_kernel_scheme \<Rightarrow> (addr \<times> 'a mnt_kernel_scheme) option" where
  "global_location_obtain deferred_release p s = do {
     s1 \<leftarrow> (if deferred_locs s \<noteq> [] then deferred_release s else Some s);
     l \<leftarrow> (case p of
             None \<Rightarrow> Some (null_loc s1)
           | Some l \<Rightarrow> do {
               g \<leftarrow> locs s1 l;
               m \<leftarrow> gl_mt_entry g;
               e \<leftarrow> mts s1 m;
               Some (if mt_mounted e then l else null_loc s1) });
     s2 \<leftarrow> loc_add_refs l 1 s1;
     Some (l, s2) }"

text \<open>\<open>rtems_filesystem_global_location_release\<close> with \<open>deferred = true\<close>.\<close>

definition global_location_release_deferred ::
  "addr \<Rightarrow> 'a mnt_kernel_scheme \<Rightarrow> 'a mnt_kernel_scheme option" where
  "global_location_release_deferred l s = do {
     g \<leftarrow> locs s l;
     let s1 = s\<lparr>locs := (locs s)(l \<mapsto> g\<lparr>gl_deferred := gl_deferred g + 1\<rparr>)\<rparr> in
     Some (if gl_deferred g = 0 then s1\<lparr>deferred_locs := l # deferred_locs s\<rparr> else s1) }"

section \<open>Containers\<close>

definition set_current_eval_path :: "string option \<Rightarrow> 'a mnt_kernel_scheme \<Rightarrow> 'a mnt_kernel_scheme" where
  "set_current_eval_path path s = s\<lparr>current_eval_path := path, adjusted_eval_path := None\<rparr>"

definition clear_current_eval_path :: "'a mnt_kernel_scheme \<Rightarrow> 'a mnt_kernel_scheme" where
  "clear_current_eval_path s = s\<lparr>current_eval_path := None, adjusted_eval_path := None\<rparr>"

definition rtems_mnt_container_initialize_root ::
  "bool \<Rightarrow> 'a mnt_kernel_scheme \<Rightarrow> int \<times> ptr \<times> 'a mnt_kernel_scheme" where
  "rtems_mnt_container_initialize_root arg_null s =
     (if arg_null then (-1, None, s)
      else case rootMntContainer s of
        Some a \<Rightarrow> (0, Some a, s)
      | None \<Rightarrow>
          (case malloc (mem s) of
             (None, m) \<Rightarrow> (-1, None, s\<lparr>mem := m\<rparr>)
           | (Some a, m) \<Rightarrow>
               (0, Some a, s\<lparr>mem := m, rootMntContainer := Some a,
                  mnts := (mnts s)(a \<mapsto> \<lparr>mnt_rc = 1, mnt_ID = 1, mountList = []\<rparr>)\<rparr>)))"

text \<open>\<open>strdup\<close> of a string that may be NULL: the copy, or \<open>None\<close> when the allocation fails.\<close>

definition strdup_opt :: "string option \<Rightarrow> Memory \<Rightarrow> string option option \<times> Memory" where
  "strdup_opt t m =
     (case t of
        None \<Rightarrow> (Some None, m)
      | Some x \<Rightarrow> (case malloc m of (None, m') \<Rightarrow> (None, m') | (Some _, m') \<Rightarrow> (Some (Some x), m')))"

text \<open>The root location of a clone.\<close>

definition clone_fs_root ::
  "'a deferred_release \<Rightarrow> mount_entry \<Rightarrow> mount_entry \<Rightarrow> 'a mnt_kernel_scheme \<Rightarrow>
     (mount_entry \<times> 'a mnt_kernel_scheme) option" where
  "clone_fs_root dr original clone s =
     (case mt_fs_root original of
        None \<Rightarrow> Some (clone\<lparr>mt_fs_root := None\<rparr>, s)
      | Some l \<Rightarrow> do {
          nl \<leftarrow> location_is_null l s;
          if nl then Some (clone\<lparr>mt_fs_root := None\<rparr>, s)
          else do {
            (l', s1) \<leftarrow> global_location_obtain dr (Some l) s;
            nl' \<leftarrow> location_is_null l' s1;
            Some (if nl' then (clone\<lparr>mt_fs_root := None\<rparr>, s1)
                  else (clone\<lparr>mt_fs_root := Some l', mt_mounted := True, mt_unmount_task := 0\<rparr>, s1)) } })"

definition clone_mount_entry ::
  "'a deferred_release \<Rightarrow> addr \<Rightarrow> 'a mnt_kernel_scheme \<Rightarrow> (ptr \<times> 'a mnt_kernel_scheme) option" where
  "clone_mount_entry dr original s = do {
     e \<leftarrow> mts s original;
     case malloc (mem s) of
       (None, m) \<Rightarrow> Some (None, s\<lparr>mem := m\<rparr>)
     | (Some c, m) \<Rightarrow>
         (case strdup_opt (mt_target e) m of
            (None, m1) \<Rightarrow> Some (None, s\<lparr>mem := free_block m1\<rparr>)
          | (Some tg, m1) \<Rightarrow>
              (case strdup_opt (mt_type e) m1 of
                 (None, m2) \<Rightarrow> Some (None, s\<lparr>mem := free_block (if tg = None then m2 else free_block m2)\<rparr>)
               | (Some ty, m2) \<Rightarrow> do {
                   (ce, s1) \<leftarrow> clone_fs_root dr e (e\<lparr>mt_target := tg, mt_type := ty, mt_embedded := False\<rparr>)
                                 (s\<lparr>mem := m2\<rparr>);
                   Some (Some c, s1\<lparr>mts := (mts s1)(c \<mapsto> ce)\<rparr>) })) }"

text \<open>The loop of \<open>inherit_mount_points\<close> over the parent's list. The child's list is extended entry by
  entry; parent and child are different containers, so the list that is walked does not change.\<close>

fun inherit_loop ::
  "'a deferred_release \<Rightarrow> addr \<Rightarrow> addr list \<Rightarrow> int \<Rightarrow> 'a mnt_kernel_scheme \<Rightarrow> (int \<times> 'a mnt_kernel_scheme) option"
where
  "inherit_loop dr child [] n s = Some (n, s)"
| "inherit_loop dr child (m # ms) n s = do {
     (c, s1) \<leftarrow> clone_mount_entry dr m s;
     case c of
       None \<Rightarrow> inherit_loop dr child ms n s1
     | Some e \<Rightarrow> do {
         mc \<leftarrow> mnts s1 child;
         inherit_loop dr child ms (n + 1)
           (s1\<lparr>mnts := (mnts s1)(child \<mapsto> mc\<lparr>mountList := mountList mc @ [e]\<rparr>)\<rparr>) } }"

definition inherit_mount_points ::
  "'a deferred_release \<Rightarrow> ptr \<Rightarrow> ptr \<Rightarrow> 'a mnt_kernel_scheme \<Rightarrow> (int \<times> 'a mnt_kernel_scheme) option" where
  "inherit_mount_points dr child parent s =
     (case (child, parent) of
        (Some c, Some p) \<Rightarrow> do { mp \<leftarrow> mnts s p; inherit_loop dr c (mountList mp) 0 s }
      | _ \<Rightarrow> Some (-1, s))"

definition rtems_mnt_container_create :: "'a mnt_kernel_scheme \<Rightarrow> ptr \<times> 'a mnt_kernel_scheme" where
  "rtems_mnt_container_create s =
     (case malloc (mem s) of
        (None, m) \<Rightarrow> (None, s\<lparr>mem := m\<rparr>)
      | (Some a, m) \<Rightarrow>
          (Some a, s\<lparr>mem := m, g_mntContainerId := g_mntContainerId s + 1,
             mnts := (mnts s)(a \<mapsto> \<lparr>mnt_rc = 1, mnt_ID = g_mntContainerId s + 1, mountList = []\<rparr>)\<rparr>))"

definition rtems_mnt_container_create_with_inheritance ::
  "'a deferred_release \<Rightarrow> ptr \<Rightarrow> 'a mnt_kernel_scheme \<Rightarrow> (ptr \<times> 'a mnt_kernel_scheme) option" where
  "rtems_mnt_container_create_with_inheritance dr parent s =
     (case rtems_mnt_container_create s of
        (None, s1) \<Rightarrow> Some (None, s1)
      | (Some c, s1) \<Rightarrow> do {
          s2 \<leftarrow> (if parent = None then Some s1
                  else do { (n, s2) \<leftarrow> inherit_mount_points dr (Some c) parent s1; Some s2 });
          _ \<leftarrow> log_deref s2 (mnts s2) [Some c, parent];
          Some (Some c, s2) })"

definition mnt_add_rc :: "addr \<Rightarrow> int \<Rightarrow> 'a mnt_kernel_scheme \<Rightarrow> 'a mnt_kernel_scheme option" where
  "mnt_add_rc c d s = do {
     u \<leftarrow> mnts s c;
     Some (s\<lparr>mnts := (mnts s)(c \<mapsto> u\<lparr>mnt_rc := mnt_rc u + d\<rparr>)\<rparr>) }"

definition set_mnt :: "addr \<Rightarrow> ptr \<Rightarrow> 'a mnt_kernel_scheme \<Rightarrow> 'a mnt_kernel_scheme" where
  "set_mnt t p = upd_thread t (upd_container (mntContainer_update (\<lambda>_. p)))"

definition mnt_rehome ::
  "addr \<Rightarrow> addr \<Rightarrow> addr \<Rightarrow> 'a mnt_kernel_scheme \<Rightarrow> 'a mnt_kernel_scheme option" where
  "mnt_rehome c r t s = do {
     _ \<leftarrow> threads s t;
     if thread_ns mntContainer s t = Some c
     then do { s1 \<leftarrow> mnt_add_rc r 1 (set_mnt t (Some r) s); mnt_add_rc c (-1) s1 }
     else Some s }"

definition mnt_switch_to_root ::
  "addr \<Rightarrow> addr \<Rightarrow> addr \<Rightarrow> 'a mnt_kernel_scheme \<Rightarrow> (bool \<times> 'a mnt_kernel_scheme) option" where
  "mnt_switch_to_root c r t s = map_option (Pair True) (mnt_rehome c r t s)"

definition rtems_mnt_container_add_to_list ::
  "ptr \<Rightarrow> 'a mnt_kernel_scheme \<Rightarrow> 'a mnt_kernel_scheme" where
  "rtems_mnt_container_add_to_list p s =
     (case (p, rtems_container_get_root s) of
        (Some c, Some r) \<Rightarrow>
          (case list_push c (mntContainerList r) (mem s) of
             (l, m) \<Rightarrow> s\<lparr>mem := m, rootContainer := Some (r\<lparr>mntContainerList := l\<rparr>)\<rparr>)
      | _ \<Rightarrow> s)"

definition rtems_mnt_container_remove_from_list ::
  "ptr \<Rightarrow> 'a mnt_kernel_scheme \<Rightarrow> 'a mnt_kernel_scheme" where
  "rtems_mnt_container_remove_from_list p s =
     (case (p, rtems_container_get_root s) of
        (Some c, Some r) \<Rightarrow>
          (case list_unlink c (mntContainerList r) (mem s) of
             (l, m) \<Rightarrow> s\<lparr>mem := m, rootContainer := Some (r\<lparr>mntContainerList := l\<rparr>)\<rparr>)
      | _ \<Rightarrow> s)"

text \<open>\<open>free\<close> of a string of an entry; a pointer into the middle of a block must not be freed.\<close>

definition free_string :: "bool \<Rightarrow> string option \<Rightarrow> Memory \<Rightarrow> Memory option" where
  "free_string embedded t m =
     (case t of None \<Rightarrow> Some m | Some _ \<Rightarrow> if embedded then None else Some (free_block m))"

definition cleanup_mount_entry :: "addr \<Rightarrow> 'a mnt_kernel_scheme \<Rightarrow> 'a mnt_kernel_scheme option" where
  "cleanup_mount_entry a s = do {
     e \<leftarrow> mts s a;
     s1 \<leftarrow> (case mt_fs_root e of None \<Rightarrow> Some s | Some l \<Rightarrow> global_location_release_deferred l s);
     m1 \<leftarrow> free_string (mt_embedded e) (mt_target e) (mem s1);
     m2 \<leftarrow> free_string (mt_embedded e) (mt_type e) m1;
     Some (s1\<lparr>mem := free_block m2, mts := (mts s1)(a := None)\<rparr>) }"

fun cleanup_loop :: "addr list \<Rightarrow> 'a mnt_kernel_scheme \<Rightarrow> 'a mnt_kernel_scheme option" where
  "cleanup_loop [] s = Some s"
| "cleanup_loop (a # as) s = do { s1 \<leftarrow> cleanup_mount_entry a s; cleanup_loop as s1 }"

definition cleanup_container_mounts :: "addr \<Rightarrow> 'a mnt_kernel_scheme \<Rightarrow> 'a mnt_kernel_scheme option" where
  "cleanup_container_mounts c s = do {
     mc \<leftarrow> mnts s c;
     s1 \<leftarrow> cleanup_loop (mountList mc) s;
     Some (s1\<lparr>mnts := (mnts s1)(c \<mapsto> mc\<lparr>mountList := []\<rparr>)\<rparr>) }"

definition rtems_mnt_container_delete ::
  "ptr \<Rightarrow> 'a mnt_kernel_scheme \<Rightarrow> 'a mnt_kernel_scheme option" where
  "rtems_mnt_container_delete p s = do {
     _ \<leftarrow> log_deref s (mnts s) [p];
     case (p, do { r \<leftarrow> rtems_container_get_root s; mntContainer r }) of
       (Some c, Some r) \<Rightarrow>
         if c = r then Some s
         else do {
           s1 \<leftarrow> Thread_Iterate (mnt_switch_to_root c r) s;
           s2 \<leftarrow> (case executing s1 of None \<Rightarrow> Some s1 | Some t \<Rightarrow> mnt_rehome c r t s1);
           s3 \<leftarrow> cleanup_container_mounts c s2;
           s4 \<leftarrow> Some (rtems_mnt_container_remove_from_list (Some c) s3);
           Some (s4\<lparr>mem := free_block (mem s4), mnts := (mnts s4)(c := None)\<rparr>) }
     | _ \<Rightarrow> Some s }"

text \<open>The second disjunct of the membership test reads \<open>ID\<close> of the thread's container only when the
  source is numbered 1.\<close>

definition mnt_is_member :: "addr \<Rightarrow> addr \<Rightarrow> 'a mnt_kernel_scheme \<Rightarrow> bool option" where
  "mnt_is_member a t s = do {
     th \<leftarrow> threads s t;
     case container th of
       None \<Rightarrow> Some False
     | Some cb \<Rightarrow>
         if mntContainer cb = Some a then Some True
         else do {
           ma \<leftarrow> mnts s a;
           if mnt_ID ma = 1 then do { c \<leftarrow> mntContainer cb; mc \<leftarrow> mnts s c; Some (mnt_ID mc = 1) }
           else Some False } }"

definition rtems_mnt_container_move_task ::
  "ptr \<Rightarrow> ptr \<Rightarrow> ptr \<Rightarrow> 'a mnt_kernel_scheme \<Rightarrow> 'a mnt_kernel_scheme option" where
  "rtems_mnt_container_move_task srcContainer destContainer thread s =
     (case (srcContainer, destContainer, thread) of
        (Some a, Some b, Some t) \<Rightarrow> do {
          member \<leftarrow> mnt_is_member a t s;
          if member
          then do {
            s1 \<leftarrow> mnt_add_rc a (-1) (set_mnt t (Some b) s);
            u \<leftarrow> mnts s1 a;
            s2 \<leftarrow> (if mnt_rc u \<le> 0 \<and> mnt_ID u \<noteq> 1
                    then rtems_mnt_container_delete (Some a) s1 else Some s1);
            s3 \<leftarrow> mnt_add_rc b 1 s2;
            _ \<leftarrow> log_deref s3 (mnts s3) [Some a, Some b];
            Some s3 }
          else Some s }
      | _ \<Rightarrow> Some s)"

definition rtems_mnt_container_get_id :: "ptr \<Rightarrow> 'a mnt_kernel_scheme \<Rightarrow> int option" where
  "rtems_mnt_container_get_id p s =
     (case p of None \<Rightarrow> Some (-1) | Some c \<Rightarrow> map_option mnt_ID (mnts s c))"

definition rtems_mnt_container_get_rc :: "ptr \<Rightarrow> 'a mnt_kernel_scheme \<Rightarrow> int option" where
  "rtems_mnt_container_get_rc p s =
     (case p of None \<Rightarrow> Some 0 | Some c \<Rightarrow> map_option mnt_rc (mnts s c))"

definition get_current_thread_mnt_container :: "'a mnt_kernel_scheme \<Rightarrow> ptr" where
  "get_current_thread_mnt_container s = do { t \<leftarrow> executing s; thread_ns mntContainer s t }"

definition get_current_mnt_container :: "'a mnt_kernel_scheme \<Rightarrow> ptr" where
  "get_current_mnt_container s = get_current_thread_mnt_container s"

definition get_adjusted_eval_path :: "'a mnt_kernel_scheme \<Rightarrow> string option" where
  "get_adjusted_eval_path s = adjusted_eval_path s"

section \<open>Looking a path up\<close>

definition is_mount_entry_valid :: "mount_entry \<Rightarrow> 'a mnt_kernel_scheme \<Rightarrow> bool option" where
  "is_mount_entry_valid e s =
     (case mt_fs_root e of
        None \<Rightarrow> Some False
      | Some l \<Rightarrow>
          if \<not> mt_mounted e then Some False
          else do {
            g \<leftarrow> locs s l;
            Some (0 < gl_refs g \<and> \<not> gl_null g \<or> 0 < gl_refs g \<and> mt_target e \<noteq> None \<or> gl_mt_entry g \<noteq> None) })"

text \<open>\<open>strncmp(path, target, strlen(target)) == 0\<close> and the next character ends a path component.\<close>

definition path_matches :: "string \<Rightarrow> string \<Rightarrow> bool" where
  "path_matches path target \<longleftrightarrow> take (length target) path = target \<and>
     (length path = length target \<or> path ! length target = CHR ''/'')"

fun find_best_loop ::
  "string \<Rightarrow> 'a mnt_kernel_scheme \<Rightarrow> addr list \<Rightarrow> ptr \<times> nat \<times> bool \<Rightarrow> (ptr \<times> nat \<times> bool) option" where
  "find_best_loop path s [] r = Some r"
| "find_best_loop path s (m # ms) (best, len, bad) = do {
     e \<leftarrow> mts s m;
     case mt_target e of
       None \<Rightarrow> find_best_loop path s ms (best, len, bad)
     | Some target \<Rightarrow>
         if path_matches path target \<and> length target > len
         then do {
           valid \<leftarrow> is_mount_entry_valid e s;
           find_best_loop path s ms
             (if valid then (Some m, length target, False)
              else if len = 0 then (best, length target, True)
              else (best, len, bad)) }
         else find_best_loop path s ms (best, len, bad) }"

definition find_best_mount_for_path ::
  "addr list \<Rightarrow> string \<Rightarrow> 'a mnt_kernel_scheme \<Rightarrow> (ptr \<times> bool) option" where
  "find_best_mount_for_path ms path s = do {
     (best, len, bad) \<leftarrow> find_best_loop path s ms (None, 0, False);
     Some (best, bad) }"

text \<open>The rest of a path behind a mount point.\<close>

definition adjust_path :: "string \<Rightarrow> string \<Rightarrow> string" where
  "adjust_path path target =
     (if length path > length target then drop (length target) path
      else if length path = length target then ''/'' else path)"

definition use_fs_root :: "ptr \<Rightarrow> 'a mnt_kernel_scheme \<Rightarrow> (addr \<times> 'a mnt_kernel_scheme) option" where
  "use_fs_root p s =
     (case p of
        None \<Rightarrow> Some (null_loc s, s)
      | Some l \<Rightarrow> do {
          nl \<leftarrow> location_is_null l s;
          if nl then Some (null_loc s, s) else do { s1 \<leftarrow> loc_add_refs l 1 s; Some (l, s1) } })"

fun find_root_mount :: "'a mnt_kernel_scheme \<Rightarrow> addr list \<Rightarrow> ptr option" where
  "find_root_mount s [] = Some None"
| "find_root_mount s (m # ms) = do {
     e \<leftarrow> mts s m;
     if mt_target e = Some ''/'' then do {
       valid \<leftarrow> is_mount_entry_valid e s;
       if valid then Some (Some m) else find_root_mount s ms }
     else find_root_mount s ms }"

text \<open>What the path decides: a mount (\<open>Inl\<close> an entry), the null location (\<open>Inl None\<close>), or nothing.\<close>

definition choose_mount ::
  "addr list \<Rightarrow> 'a mnt_kernel_scheme \<Rightarrow> (ptr + unit) option" where
  "choose_mount ms s =
     (case current_eval_path s of
        None \<Rightarrow> Some (Inr ())
      | Some path \<Rightarrow> do {
          (best, bad) \<leftarrow> find_best_mount_for_path ms path s;
          valid \<leftarrow> (case best of None \<Rightarrow> Some False
                      | Some m \<Rightarrow> do { e \<leftarrow> mts s m; is_mount_entry_valid e s });
          Some (if valid then Inl best else if bad then Inl None else Inr ()) })"

definition get_container_root_location ::
  "'a mnt_kernel_scheme \<Rightarrow> (addr \<times> 'a mnt_kernel_scheme) option" where
  "get_container_root_location s =
     (case get_current_thread_mnt_container s of
        Some c \<Rightarrow>
          if RTEMSCFG_MNT_CONTAINER (cfg s) then do {
            mc \<leftarrow> mnts s c;
            d \<leftarrow> choose_mount (mountList mc) s;
            case d of
              Inl None \<Rightarrow> Some (null_loc s, s)
            | Inl (Some m) \<Rightarrow> do {
                e \<leftarrow> mts s m;
                target \<leftarrow> mt_target e;
                path \<leftarrow> current_eval_path s;
                use_fs_root (mt_fs_root e) (s\<lparr>adjusted_eval_path := Some (adjust_path path target)\<rparr>) }
            | Inr _ \<Rightarrow> do {
                r \<leftarrow> find_root_mount s (mountList mc);
                case r of
                  None \<Rightarrow> Some (null_loc s, s)
                | Some m \<Rightarrow> do { e \<leftarrow> mts s m; use_fs_root (mt_fs_root e) s } } }
          else do { s1 \<leftarrow> loc_add_refs (fs_root_loc s) 1 s; Some (fs_root_loc s, s1) }
      | None \<Rightarrow> do { s1 \<leftarrow> loc_add_refs (fs_root_loc s) 1 s; Some (fs_root_loc s, s1) })"

text \<open>\<open>get_container_current_location\<close> in a build with mount containers.\<close>

definition get_container_current_location ::
  "'a mnt_kernel_scheme \<Rightarrow> (addr \<times> 'a mnt_kernel_scheme) option" where
  "get_container_current_location s =
     (case do { t \<leftarrow> executing s; cwd \<leftarrow> user_env s t; cwd } of
        None \<Rightarrow> get_container_root_location s
      | Some l \<Rightarrow> do {
          g \<leftarrow> locs s l;
          if \<not> gl_null g \<and> gl_mt_entry g \<noteq> None
          then do { s1 \<leftarrow> loc_add_refs l 1 s; Some (l, s1) }
          else get_container_root_location s })"

section \<open>Path evaluation\<close>

text \<open>The context that path evaluation starts with; the walk through the file system from there is
  the file systems' own.\<close>

record eval_ctx =
  ctx_path :: string
  ctx_rootloc :: addr
  ctx_startloc :: addr
  ctx_enoent :: bool

definition rtems_filesystem_is_delimiter :: "char \<Rightarrow> bool" where
  "rtems_filesystem_is_delimiter c \<longleftrightarrow> c = CHR ''/'' \<or> c = CHR 0x5C"

definition set_startloc ::
  "'a deferred_release \<Rightarrow> string \<Rightarrow> addr \<Rightarrow> addr \<Rightarrow> 'a mnt_kernel_scheme \<Rightarrow> (eval_ctx \<times> 'a mnt_kernel_scheme) option"
where
  "set_startloc dr path root current s =
     (case path of
        [] \<Rightarrow> do {
          (r, s1) \<leftarrow> global_location_obtain dr None s;
          (st, s2) \<leftarrow> global_location_obtain dr None s1;
          Some (\<lparr>ctx_path = [], ctx_rootloc = r, ctx_startloc = st, ctx_enoent = True\<rparr>, s2) }
      | c # cs \<Rightarrow> do {
          (r, s1) \<leftarrow> global_location_obtain dr (Some root) s;
          if rtems_filesystem_is_delimiter c then do {
            (st, s2) \<leftarrow> global_location_obtain dr (Some r) s1;
            Some (\<lparr>ctx_path = cs, ctx_rootloc = r, ctx_startloc = st, ctx_enoent = False\<rparr>, s2) }
          else do {
            (st, s2) \<leftarrow> global_location_obtain dr (Some current) s1;
            Some (\<lparr>ctx_path = path, ctx_rootloc = r, ctx_startloc = st, ctx_enoent = False\<rparr>, s2) } })"

text \<open>\<open>rtems_filesystem_eval_path_start\<close> in a build with mount containers, up to the walk.\<close>

definition rtems_filesystem_eval_path_start ::
  "'a deferred_release \<Rightarrow> string \<Rightarrow> 'a mnt_kernel_scheme \<Rightarrow> (eval_ctx \<times> 'a mnt_kernel_scheme) option" where
  "rtems_filesystem_eval_path_start dr path s = do {
     (root, s1) \<leftarrow> get_container_root_location (set_current_eval_path (Some path) s);
     (current, s2) \<leftarrow> get_container_current_location s1;
     nr \<leftarrow> location_is_null root s2;
     nc \<leftarrow> (if nr then Some True else location_is_null current s2);
     if nr \<or> nc then do {
       (r, s3) \<leftarrow> global_location_obtain dr None s2;
       (st, s4) \<leftarrow> global_location_obtain dr None s3;
       Some (\<lparr>ctx_path = [], ctx_rootloc = r, ctx_startloc = st, ctx_enoent = True\<rparr>, s4) }
     else set_startloc dr (case adjusted_eval_path s2 of None \<Rightarrow> path | Some p \<Rightarrow> p) root current s2 }"

section \<open>Mounting\<close>

text \<open>\<open>get_mount_table\<close>: the list of the executing task's container, or the global one.\<close>

definition append_to_mount_table :: "addr \<Rightarrow> 'a mnt_kernel_scheme \<Rightarrow> 'a mnt_kernel_scheme option" where
  "append_to_mount_table a s =
     (case get_current_thread_mnt_container s of
        Some c \<Rightarrow>
          if RTEMSCFG_MNT_CONTAINER (cfg s) then do {
            mc \<leftarrow> mnts s c;
            Some (s\<lparr>mnts := (mnts s)(c \<mapsto> mc\<lparr>mountList := mountList mc @ [a]\<rparr>)\<rparr>) }
          else Some (s\<lparr>fs_mount_table := fs_mount_table s @ [a]\<rparr>)
      | None \<Rightarrow> Some (s\<lparr>fs_mount_table := fs_mount_table s @ [a]\<rparr>))"

text \<open>\<open>alloc_mount_table_entry\<close>: one block for the entry, its strings and its root location. The
  location gets an address of its own; it is not a separate allocation.\<close>

definition alloc_mount_table_entry ::
  "string option \<Rightarrow> string \<Rightarrow> addr \<Rightarrow> 'a mnt_kernel_scheme \<Rightarrow> ptr \<times> 'a mnt_kernel_scheme" where
  "alloc_mount_table_entry target_or_null fstype l s =
     (case malloc (mem s) of
        (None, m) \<Rightarrow> (None, s\<lparr>mem := m\<rparr>)
      | (Some a, m) \<Rightarrow>
          (Some a, s\<lparr>mem := m,
             mts := (mts s)(a \<mapsto> \<lparr>mt_target = Some (case target_or_null of None \<Rightarrow> ''/'' | Some t \<Rightarrow> t),
                       mt_type = Some fstype, mt_fs_root = Some l,
                       mt_mounted = True, mt_unmount_task = 0, mt_embedded = True\<rparr>),
             locs := (locs s)(l \<mapsto> \<lparr>gl_refs = 1, gl_null = False, gl_mt_entry = Some a, gl_deferred = 0\<rparr>)\<rparr>))"

section \<open>Registry and reference counts\<close>

definition mnt_registry :: "'a mnt_kernel_scheme \<Rightarrow> addr list" where
  "mnt_registry s = (case rootContainer s of None \<Rightarrow> [] | Some r \<Rightarrow> mntContainerList r)"

definition mnt_root :: "'a mnt_kernel_scheme \<Rightarrow> ptr" where
  "mnt_root s = do { r \<leftarrow> rootContainer s; mntContainer r }"

definition mnt_count :: "'a mnt_kernel_scheme \<Rightarrow> addr \<Rightarrow> int option" where
  "mnt_count s c = map_option mnt_rc (mnts s c)"

interpretation mnt_reg: ns_registry rtems_mnt_container_add_to_list
  rtems_mnt_container_remove_from_list mnt_registry mem "\<lambda>s. rootContainer s \<noteq> None"
  by unfold_locales
    (auto simp: rtems_mnt_container_add_to_list_def rtems_mnt_container_remove_from_list_def
      rtems_container_get_root_def mnt_registry_def split: option.splits prod.splits)

lemma mnt_list_sel [simp]:
  "mnts (rtems_mnt_container_remove_from_list p s) = mnts s"
  "mts (rtems_mnt_container_remove_from_list p s) = mts s"
  "locs (rtems_mnt_container_remove_from_list p s) = locs s"
  "threads (rtems_mnt_container_remove_from_list p s) = threads s"
  by (simp_all add: rtems_mnt_container_remove_from_list_def split: option.splits prod.splits)

lemma set_mnt_sel [simp]:
  "mnts (set_mnt t p s) = mnts s" "mts (set_mnt t p s) = mts s" "locs (set_mnt t p s) = locs s"
  "mem (set_mnt t p s) = mem s" "cfg (set_mnt t p s) = cfg s"
  "rootContainer (set_mnt t p s) = rootContainer s"
  by (simp_all add: set_mnt_def upd_thread_def)

lemma thread_ns_set_mnt:
  "thread_ns mntContainer s t = Some a \<Longrightarrow>
     thread_ns mntContainer (set_mnt t p s) = (thread_ns mntContainer s)(t := p)"
  unfolding set_mnt_def by (rule thread_ns_set) simp_all

lemma thread_ns_mnts [simp]: "thread_ns sel (s\<lparr>mnts := h\<rparr>) = thread_ns sel s"
  by (simp add: thread_ns_def fun_eq_iff)

lemma mnt_add_rc_Some:
  "mnts s c = Some u \<Longrightarrow> mnt_add_rc c d s = Some (s\<lparr>mnts := (mnts s)(c \<mapsto> u\<lparr>mnt_rc := mnt_rc u + d\<rparr>)\<rparr>)"
  by (simp add: mnt_add_rc_def)

lemma mnt_is_member_ns: "thread_ns mntContainer s t = Some a \<Longrightarrow> mnt_is_member a t s = Some True"
  by (auto simp: thread_ns_def mnt_is_member_def bind_eq_Some_conv)

text \<open>A move between two containers when the source keeps other users.\<close>

lemma mnt_move_eq:
  assumes "thread_ns mntContainer s t = Some a" "mnts s a = Some ua" "mnts s b = Some ub" "a \<noteq> b" "1 < mnt_rc ua"
  shows "rtems_mnt_container_move_task (Some a) (Some b) (Some t) s =
     Some ((set_mnt t (Some b) s)\<lparr>mnts := (mnts s)(a \<mapsto> ua\<lparr>mnt_rc := mnt_rc ua - 1\<rparr>, b \<mapsto> ub\<lparr>mnt_rc := mnt_rc ub + 1\<rparr>)\<rparr>)"
proof -
  show ?thesis using assms mnt_is_member_ns [OF assms(1)]
    by (simp add: rtems_mnt_container_move_task_def mnt_add_rc_Some)
qed

lemma mnt_move_member:
  assumes "thread_ns mntContainer s t = Some a" "mnt_count s a = Some n" "mnt_count s b = Some k" "a \<noteq> b" "1 < n"
  shows "\<exists>s'. rtems_mnt_container_move_task (Some a) (Some b) (Some t) s = Some s' \<and>
     thread_ns mntContainer s' = (thread_ns mntContainer s)(t := Some b) \<and>
     mnt_count s' = (mnt_count s)(a \<mapsto> n - 1, b \<mapsto> k + 1)"
proof -
  from assms obtain ua ub where u: "mnts s a = Some ua" "mnt_rc ua = n" "mnts s b = Some ub" "mnt_rc ub = k"
    by (auto simp: mnt_count_def)
  show ?thesis
    using mnt_move_eq [OF assms(1) u(1,3) assms(4)] thread_ns_set_mnt [OF assms(1)] u assms(4,5)
    by (auto simp: mnt_count_def fun_eq_iff)
qed

interpretation mnt_ns: ns_refcount "thread_ns mntContainer" mnt_count rtems_mnt_container_move_task
  by unfold_locales (rule mnt_move_member)

section \<open>The longest mount\<close>

text \<open>The reference: of the entries whose non-empty target is a path prefix, the first one with the
  longest target.\<close>

definition mt_len :: "'a mnt_kernel_scheme \<Rightarrow> addr \<Rightarrow> nat" where
  "mt_len s m = (case mts s m of None \<Rightarrow> 0 | Some e \<Rightarrow> (case mt_target e of None \<Rightarrow> 0 | Some t \<Rightarrow> length t))"

definition mt_matches :: "string \<Rightarrow> 'a mnt_kernel_scheme \<Rightarrow> addr \<Rightarrow> bool" where
  "mt_matches path s m = (case mts s m of None \<Rightarrow> False
     | Some e \<Rightarrow> (case mt_target e of None \<Rightarrow> False | Some t \<Rightarrow> t \<noteq> [] \<and> path_matches path t))"

definition matching :: "string \<Rightarrow> 'a mnt_kernel_scheme \<Rightarrow> addr list \<Rightarrow> addr list" where
  "matching path s ms = filter (mt_matches path s) ms"

definition longest_mount :: "string \<Rightarrow> 'a mnt_kernel_scheme \<Rightarrow> addr list \<Rightarrow> ptr" where
  "longest_mount path s ms =
     find (\<lambda>m. \<forall>m' \<in> set (matching path s ms). mt_len s m' \<le> mt_len s m) (matching path s ms)"

definition mt_ok :: "'a mnt_kernel_scheme \<Rightarrow> addr \<Rightarrow> bool" where
  "mt_ok s m \<longleftrightarrow> (\<exists>e. mts s m = Some e \<and> is_mount_entry_valid e s = Some True)"

lemma find_best_step_skip:
  assumes "mts s m = Some e" "\<not> (mt_matches path s m \<and> len < mt_len s m)"
  shows "find_best_loop path s (m # ms) (best, len, bad) = find_best_loop path s ms (best, len, bad)"
  using assms by (auto simp: mt_matches_def mt_len_def split: option.splits)

lemma find_best_step_take:
  assumes "mt_ok s m" "mt_matches path s m" "len < mt_len s m"
  shows "find_best_loop path s (m # ms) (best, len, bad) = find_best_loop path s ms (Some m, mt_len s m, False)"
  using assms by (auto simp: mt_matches_def mt_len_def mt_ok_def split: option.splits)

lemma find_best_loop_spec:
  assumes "\<forall>m \<in> set ms. mts s m \<noteq> None" "\<forall>m \<in> set (matching path s ms). mt_ok s m"
  shows "\<exists>k. find_best_loop path s ms (best, len, bad) =
     Some (if \<forall>m \<in> set (matching path s ms). mt_len s m \<le> len then (best, len, bad)
           else (longest_mount path s ms, k, False))"
  using assms
proof (induction ms arbitrary: best len bad)
  case (Cons m ms)
  let ?M = "matching path s ms"
  have IH: "\<exists>k. find_best_loop path s ms (best, len, bad) =
     Some (if \<forall>m \<in> set ?M. mt_len s m \<le> len then (best, len, bad) else (longest_mount path s ms, k, False))"
    for best len bad using Cons by (auto simp: matching_def)
  obtain e where e: "mts s m = Some e" using Cons.prems(1) by auto
  show ?case
  proof (cases "mt_matches path s m \<and> len < mt_len s m")
    case False
    have M: "(\<forall>m' \<in> set (matching path s (m # ms)). mt_len s m' \<le> len) \<longleftrightarrow> (\<forall>m' \<in> set ?M. mt_len s m' \<le> len)"
      using False by (auto simp: matching_def)
    have "longest_mount path s (m # ms) = longest_mount path s ms" if big: "\<exists>m' \<in> set ?M. len < mt_len s m'"
    proof (cases "mt_matches path s m")
      case True
      then have "mt_len s m \<le> len" using False by simp
      then have "\<not> (\<forall>m' \<in> set (matching path s (m # ms)). mt_len s m' \<le> mt_len s m)"
        using big by (auto simp: matching_def)
      moreover have "(\<forall>m' \<in> set (m # ?M). mt_len s m' \<le> mt_len s x) \<longleftrightarrow> (\<forall>m' \<in> set ?M. mt_len s m' \<le> mt_len s x)" for x
        using big \<open>mt_len s m \<le> len\<close> by auto
      ultimately show ?thesis using True by (auto simp: longest_mount_def matching_def)
    next
      case False
      then show ?thesis by (simp add: longest_mount_def matching_def)
    qed
    then have L: "\<not> (\<forall>m' \<in> set ?M. mt_len s m' \<le> len) \<Longrightarrow> longest_mount path s (m # ms) = longest_mount path s ms"
      by (simp add: not_le)
    show ?thesis
      using IH [of best len bad] L unfolding M find_best_step_skip [OF e False]
      by (cases "\<forall>m' \<in> set ?M. mt_len s m' \<le> len") (simp, simp, blast)
  next
    case True
    then have ok: "mt_ok s m" using Cons.prems(2) by (simp add: matching_def)
    have step: "find_best_loop path s (m # ms) (best, len, bad) = find_best_loop path s ms (Some m, mt_len s m, False)"
      using find_best_step_take [OF ok] True by blast
    have "\<not> (\<forall>m' \<in> set (matching path s (m # ms)). mt_len s m' \<le> len)" using True by (auto simp: matching_def not_le)
    moreover have "longest_mount path s (m # ms) =
        (if \<forall>m' \<in> set ?M. mt_len s m' \<le> mt_len s m then Some m else longest_mount path s ms)"
    proof (cases "\<forall>m' \<in> set ?M. mt_len s m' \<le> mt_len s m")
      case True
      then show ?thesis using \<open>mt_matches path s m \<and> len < mt_len s m\<close> by (auto simp: longest_mount_def matching_def)
    next
      case False
      then have "(\<forall>m' \<in> set (m # ?M). mt_len s m' \<le> mt_len s x) \<longleftrightarrow> (\<forall>m' \<in> set ?M. mt_len s m' \<le> mt_len s x)" for x
        by auto
      then show ?thesis using False \<open>mt_matches path s m \<and> len < mt_len s m\<close>
        by (auto simp: longest_mount_def matching_def)
    qed
    ultimately show ?thesis using IH [of "Some m" "mt_len s m" False] step by auto
  qed
qed (simp add: matching_def)

lemma find_best_longest:
  assumes "\<forall>m \<in> set ms. mts s m \<noteq> None" "\<forall>m \<in> set (matching path s ms). mt_ok s m"
  shows "find_best_mount_for_path ms path s = Some (longest_mount path s ms, False)"
proof -
  obtain k where k: "find_best_loop path s ms (None, 0, False) =
     Some (if \<forall>m \<in> set (matching path s ms). mt_len s m \<le> 0 then (None, 0, False)
           else (longest_mount path s ms, k, False))"
    using find_best_loop_spec [OF assms] by blast
  have "matching path s ms = []" if "\<forall>m \<in> set (matching path s ms). mt_len s m \<le> 0"
    using that by (auto simp: matching_def mt_matches_def mt_len_def filter_empty_conv split: option.splits)
  then have "longest_mount path s ms = None" if "\<forall>m \<in> set (matching path s ms). mt_len s m \<le> 0"
    using that by (simp add: longest_mount_def)
  then show ?thesis using k by (auto simp: find_best_mount_for_path_def)
qed


text \<open>With an invalid entry the result depends on the order of the mounts: an invalid entry with
  a longer target hides a valid shorter one that comes later in the list, but not one that comes
  earlier.\<close>

theorem mnt_find_best_order_dependent:
  assumes "mts s a = Some ea" "mt_target ea = Some ta" "is_mount_entry_valid ea s = Some False"
    "mts s b = Some eb" "mt_target eb = Some tb" "is_mount_entry_valid eb s = Some True"
    "path_matches path ta" "path_matches path tb" "tb \<noteq> []" "length tb < length ta"
  shows "find_best_mount_for_path [a, b] path s = Some (None, True) \<and>
     find_best_mount_for_path [b, a] path s = Some (Some b, False)"
  using assms by (cases ta) (auto simp: find_best_mount_for_path_def)

section \<open>Evaluating a path\<close>

text \<open>A location that can be obtained.\<close>

definition loc_live :: "'a mnt_kernel_scheme \<Rightarrow> addr \<Rightarrow> bool" where
  "loc_live s l \<longleftrightarrow> (\<exists>g m e. locs s l = Some g \<and> \<not> gl_null g \<and> gl_mt_entry g = Some m \<and>
     mts s m = Some e \<and> mt_mounted e)"

definition loc_refs :: "'a mnt_kernel_scheme \<Rightarrow> addr \<Rightarrow> int" where
  "loc_refs s l = (case locs s l of None \<Rightarrow> 0 | Some g \<Rightarrow> gl_refs g)"

definition bump :: "addr \<Rightarrow> 'a mnt_kernel_scheme \<Rightarrow> 'a mnt_kernel_scheme" where
  "bump l s = s\<lparr>locs := (locs s)(l := map_option (\<lambda>g. g\<lparr>gl_refs := gl_refs g + 1\<rparr>) (locs s l))\<rparr>"

lemma bump_sel [simp]:
  "mts (bump l s) = mts s" "mnts (bump l s) = mnts s" "mem (bump l s) = mem s" "threads (bump l s) = threads s"
  "executing (bump l s) = executing s" "user_env (bump l s) = user_env s" "cfg (bump l s) = cfg s"
  "deferred_locs (bump l s) = deferred_locs s" "current_eval_path (bump l s) = current_eval_path s"
  "adjusted_eval_path (bump l s) = adjusted_eval_path s" "null_loc (bump l s) = null_loc s"
  by (simp_all add: bump_def)

lemma loc_refs_bump: "loc_live s l \<Longrightarrow> loc_refs (bump l s) k = loc_refs s k + (if k = l then 1 else 0)"
  by (auto simp: loc_refs_def bump_def loc_live_def)

lemma loc_live_bump [simp]: "loc_live (bump l s) k = loc_live s k"
  by (auto simp: loc_live_def bump_def)

lemma loc_live_add_refs: "loc_live s l \<Longrightarrow> loc_add_refs l 1 s = Some (bump l s)"
  by (auto simp: loc_live_def loc_add_refs_def bump_def)

lemma loc_live_not_null: "loc_live s l \<Longrightarrow> location_is_null l s = Some False"
  by (auto simp: loc_live_def location_is_null_def)

lemma obtain_live:
  assumes "loc_live s l" "deferred_locs s = []"
  shows "global_location_obtain dr (Some l) s = Some (l, bump l s)"
proof -
  obtain g m e where "locs s l = Some g" "gl_mt_entry g = Some m" "mts s m = Some e" "mt_mounted e"
    using assms(1) by (auto simp: loc_live_def)
  then show ?thesis using assms(2) loc_live_add_refs [OF assms(1)]
    by (simp add: global_location_obtain_def)
qed

lemma use_fs_root_live: "loc_live s l \<Longrightarrow> use_fs_root (Some l) s = Some (l, bump l s)"
  by (simp add: use_fs_root_def loc_live_not_null loc_live_add_refs)

text \<open>The validity of entries and the choice of a mount only look at a few fields.\<close>

lemma valid_live:
  assumes "mt_fs_root e = Some l" "loc_live s l" "mt_mounted e"
  shows "is_mount_entry_valid e s = Some True"
  using assms by (auto simp: is_mount_entry_valid_def loc_live_def)

definition mounts_live :: "'a mnt_kernel_scheme \<Rightarrow> addr list \<Rightarrow> bool" where
  "mounts_live s ms \<longleftrightarrow> (\<forall>m \<in> set ms. \<exists>e l. mts s m = Some e \<and> mt_mounted e \<and> mt_fs_root e = Some l \<and> loc_live s l)"

lemma mounts_live_ok: "mounts_live s ms \<Longrightarrow> m \<in> set ms \<Longrightarrow> mt_ok s m"
  unfolding mounts_live_def mt_ok_def using valid_live by blast

lemma mounts_live_bump [simp]: "mounts_live (bump l s) ms = mounts_live s ms"
  by (simp add: mounts_live_def)

lemma loc_live_eval [simp]:
  "loc_live (s\<lparr>adjusted_eval_path := p\<rparr>) k = loc_live s k" "loc_live (s\<lparr>current_eval_path := p\<rparr>) k = loc_live s k"
  "mounts_live (s\<lparr>adjusted_eval_path := p\<rparr>) ms = mounts_live s ms"
  "mounts_live (s\<lparr>current_eval_path := p\<rparr>) ms = mounts_live s ms"
  by (simp_all add: loc_live_def mounts_live_def)

lemma longest_mount_frame: "mts s' = mts s \<Longrightarrow> longest_mount path s' ms = longest_mount path s ms"
proof -
  assume "mts s' = mts s"
  then have "mt_matches path s' = mt_matches path s" "mt_len s' = mt_len s"
    by (auto simp: fun_eq_iff mt_matches_def mt_len_def)
  then show ?thesis by (simp add: longest_mount_def matching_def)
qed

lemma longest_mount_in:
  assumes "longest_mount path s ms = Some m"
  obtains e t where "m \<in> set ms" "mts s m = Some e" "mt_target e = Some t" "path_matches path t"
proof -
  have "m \<in> set ms \<and> mt_matches path s m"
    using assms by (auto simp: longest_mount_def matching_def find_Some_iff dest!: nth_mem)
  then show thesis using that by (auto simp: mt_matches_def split: option.splits)
qed

lemma choose_longest:
  assumes "mounts_live s ms" "current_eval_path s = Some path" "longest_mount path s ms = Some m"
  shows "choose_mount ms s = Some (Inl (Some m))"
proof -
  obtain e t where m: "m \<in> set ms" "mts s m = Some e" by (rule longest_mount_in [OF assms(3)])
  have "find_best_mount_for_path ms path s = Some (Some m, False)"
    using find_best_longest [of ms s path] mounts_live_ok [OF assms(1)] assms(1,3)
    by (auto simp: mounts_live_def matching_def)
  moreover have "is_mount_entry_valid e s = Some True"
    using mounts_live_ok [OF assms(1) m(1)] m(2) by (simp add: mt_ok_def)
  ultimately show ?thesis using assms(2) m(2) by (simp add: choose_mount_def)
qed

lemma root_location_longest:
  assumes "RTEMSCFG_MNT_CONTAINER (cfg s)" "get_current_thread_mnt_container s = Some c" "mnts s c = Some mc"
    "mounts_live s (mountList mc)" "current_eval_path s = Some path"
    "longest_mount path s (mountList mc) = Some m" "mts s m = Some e" "mt_target e = Some t"
    "mt_fs_root e = Some l" "loc_live s l"
  shows "get_container_root_location s =
     Some (l, bump l (s\<lparr>adjusted_eval_path := Some (adjust_path path t)\<rparr>))"
  using assms choose_longest [OF assms(4-6)] use_fs_root_live [of "s\<lparr>adjusted_eval_path := Some (adjust_path path t)\<rparr>" l]
  by (simp add: get_container_root_location_def loc_live_def)


section \<open>Inheriting mounts\<close>

definition mt_view :: "mount_entry \<Rightarrow> string option \<times> string option \<times> ptr" where
  "mt_view e = (mt_target e, mt_type e, mt_fs_root e)"

text \<open>The blocks of an entry with strings of its own.\<close>

definition mt_blocks :: "mount_entry \<Rightarrow> int" where
  "mt_blocks e = 1 + (if mt_target e = None then 0 else 1) + (if mt_type e = None then 0 else 1)"

definition inherit_ok :: "'a mnt_kernel_scheme \<Rightarrow> addr list \<Rightarrow> bool" where
  "inherit_ok s ms \<longleftrightarrow> heap_ok (mem s) (mts s) \<and> (\<forall>n. \<not> oom (mem s) n) \<and> deferred_locs s = [] \<and> mounts_live s ms"

definition mt_uses :: "'a mnt_kernel_scheme \<Rightarrow> addr list \<Rightarrow> addr \<Rightarrow> int" where
  "mt_uses s ms l = int (length (filter (\<lambda>m. map_option mt_fs_root (mts s m) = Some (Some l)) ms))"

lemma mt_uses_Cons: "mts s m = Some e \<Longrightarrow>
    mt_uses s (m # ms) l = (if mt_fs_root e = Some l then 1 else 0) + mt_uses s ms l"
  by (simp add: mt_uses_def)

lemma strdup_opt_ok:
  "\<forall>n. \<not> oom m n \<Longrightarrow> \<exists>m'. strdup_opt t m = (Some t, m') \<and> brk m \<le> brk m' \<and> oom m' = oom m \<and>
     live m' = live m + (if t = None then 0 else 1)"
  by (cases t) (auto simp: strdup_opt_def malloc_def)

lemma clone_mount_entry_ok:
  assumes "\<forall>n. \<not> oom (mem s) n" "mts s m = Some e" "deferred_locs s = []" "mt_fs_root e = Some l" "loc_live s l"
  obtains ce m' where "clone_mount_entry dr m s =
      Some (Some (brk (mem s)), (bump l (s\<lparr>mem := m'\<rparr>))\<lparr>mts := (mts s)(brk (mem s) \<mapsto> ce)\<rparr>)"
    "mt_view ce = mt_view e" "\<not> mt_embedded ce" "mt_mounted ce" "brk (mem s) < brk m'" "oom m' = oom (mem s)"
    "live m' = live (mem s) + mt_blocks e"
proof -
  obtain m0 where a: "malloc (mem s) = (Some (brk (mem s)), m0)" using assms(1) by (simp add: malloc_def)
  then have m0: "malloc (mem s) = (Some (brk (mem s)), m0)" "brk m0 = Suc (brk (mem s))" "oom m0 = oom (mem s)"
    "live m0 = live (mem s) + 1" by (auto simp: alloc_simps)
  obtain m1 where m1: "strdup_opt (mt_target e) m0 = (Some (mt_target e), m1)" "brk m0 \<le> brk m1" "oom m1 = oom m0"
    "live m1 = live m0 + (if mt_target e = None then 0 else 1)" using strdup_opt_ok [of m0] m0 assms(1) by metis
  obtain m2 where m2: "strdup_opt (mt_type e) m1 = (Some (mt_type e), m2)" "brk m1 \<le> brk m2" "oom m2 = oom m1"
    "live m2 = live m1 + (if mt_type e = None then 0 else 1)" using strdup_opt_ok [of m1] m0 m1 assms(1) by metis
  let ?ce = "e\<lparr>mt_target := mt_target e, mt_type := mt_type e, mt_embedded := False, mt_fs_root := Some l,
     mt_mounted := True, mt_unmount_task := 0\<rparr>"
  let ?s = "s\<lparr>mem := m2\<rparr>"
  have live: "loc_live ?s l" "deferred_locs ?s = []" using assms(3,5) by (simp_all add: loc_live_def)
  then have live': "loc_live (bump l ?s) l" by simp
  have "clone_mount_entry dr m s = Some (Some (brk (mem s)), (bump l ?s)\<lparr>mts := (mts s)(brk (mem s) \<mapsto> ?ce)\<rparr>)"
    using m0(1) m1(1) m2(1) assms(2,4) obtain_live [OF live(1,2)] loc_live_not_null [OF live(1)]
      loc_live_not_null [OF live']
    by (simp add: clone_mount_entry_def clone_fs_root_def)
  then show thesis
    by (rule that) (use m0 m1 m2 assms(4) in \<open>auto simp: mt_view_def mt_blocks_def\<close>)
qed

lemma inherit_loop_ok:
  assumes "inherit_ok s ms" "mnts s child = Some mc"
  shows "\<exists>s' cs. inherit_loop dr child ms n s = Some (n + int (length ms), s') \<and>
     mnts s' = (mnts s)(child \<mapsto> mc\<lparr>mountList := mountList mc @ cs\<rparr>) \<and> length cs = length ms \<and>
     map (\<lambda>c. map_option mt_view (mts s' c)) cs = map (\<lambda>m. map_option mt_view (mts s m)) ms \<and>
     (\<forall>c \<in> set cs. mts s c = None \<and> (\<exists>e. mts s' c = Some e \<and> \<not> mt_embedded e)) \<and>
     (\<forall>a. mts s a \<noteq> None \<longrightarrow> mts s' a = mts s a) \<and> (\<forall>l. loc_refs s' l = loc_refs s l + mt_uses s ms l) \<and>
     live (mem s') = live (mem s) + (\<Sum>m\<leftarrow>ms. mt_blocks (the (mts s m)))"
  using assms
proof (induction ms arbitrary: n s mc)
  case Nil
  then show ?case by (intro exI [of _ s] exI [of _ "[]"]) (simp add: fun_upd_idem mt_uses_def)
next
  case (Cons m ms)
  from Cons.prems(1) obtain e l where e: "mts s m = Some e" "mt_fs_root e = Some l" "loc_live s l"
    and ok: "heap_ok (mem s) (mts s)" "\<forall>n. \<not> oom (mem s) n" "deferred_locs s = []" "mounts_live s ms"
    by (auto simp: inherit_ok_def mounts_live_def)
  let ?c = "brk (mem s)"
  obtain ce m' where c: "clone_mount_entry dr m s =
      Some (Some ?c, (bump l (s\<lparr>mem := m'\<rparr>))\<lparr>mts := (mts s)(?c \<mapsto> ce)\<rparr>)"
    "mt_view ce = mt_view e" "\<not> mt_embedded ce" "?c < brk m'" "oom m' = oom (mem s)"
    "live m' = live (mem s) + mt_blocks e"
    by (rule clone_mount_entry_ok [OF ok(2) e(1) ok(3) e(2,3)])
  define s1 where "s1 = (bump l (s\<lparr>mem := m'\<rparr>))\<lparr>mts := (mts s)(?c \<mapsto> ce),
     mnts := (mnts s)(child \<mapsto> mc\<lparr>mountList := mountList mc @ [?c]\<rparr>)\<rparr>"
  have s1: "mts s1 = (mts s)(?c \<mapsto> ce)" "mem s1 = m'" "deferred_locs s1 = deferred_locs s"
    "mnts s1 = (mnts s)(child \<mapsto> mc\<lparr>mountList := mountList mc @ [?c]\<rparr>)"
    "locs s1 = (locs s)(l := map_option (\<lambda>g. g\<lparr>gl_refs := gl_refs g + 1\<rparr>) (locs s l))"
    by (simp_all add: s1_def) (simp add: bump_def)
  have fresh: "mts s ?c = None" using ok(1) by (rule heap_ok_fresh)
  have keep: "mts s1 a = mts s a" if "mts s a \<noteq> None" for a using that fresh by (auto simp: s1)
  have loc: "loc_live s1 k" if "loc_live s k" for k
  proof -
    from that obtain g a e' where "locs s k = Some g" "\<not> gl_null g" "gl_mt_entry g = Some a" "mts s a = Some e'" "mt_mounted e'"
      by (auto simp: loc_live_def)
    then show ?thesis using fresh
      by (cases "k = l") (auto simp: loc_live_def s1 intro!: exI [of _ a])
  qed
  have ms: "mts s1 x = mts s x \<and> mts s x \<noteq> None" if "x \<in> set ms" for x
    using ok(4) that keep [of x] by (auto simp: mounts_live_def)
  have "mounts_live s1 ms" unfolding mounts_live_def
  proof
    fix x assume x: "x \<in> set ms"
    with ok(4) obtain e' l' where "mts s x = Some e'" "mt_mounted e'" "mt_fs_root e' = Some l'" "loc_live s l'"
      by (auto simp: mounts_live_def)
    then show "\<exists>e l. mts s1 x = Some e \<and> mt_mounted e \<and> mt_fs_root e = Some l \<and> loc_live s1 l"
      using ms [OF x] loc by metis
  qed
  then have io: "inherit_ok s1 ms"
    using ok(2,3) c(4,5) heap_ok_new [OF ok(1), of m' ce] by (simp add: inherit_ok_def s1)
  have mn: "mnts s1 child = Some (mc\<lparr>mountList := mountList mc @ [?c]\<rparr>)" by (simp add: s1)
  obtain s' cs where IH: "inherit_loop dr child ms (n + 1) s1 = Some (n + 1 + int (length ms), s')"
    "mnts s' = (mnts s1)(child \<mapsto> mc\<lparr>mountList := (mountList mc @ [?c]) @ cs\<rparr>)" "length cs = length ms"
    "map (\<lambda>c. map_option mt_view (mts s' c)) cs = map (\<lambda>m. map_option mt_view (mts s1 m)) ms"
    "\<forall>c \<in> set cs. mts s1 c = None \<and> (\<exists>e. mts s' c = Some e \<and> \<not> mt_embedded e)"
    "\<forall>a. mts s1 a \<noteq> None \<longrightarrow> mts s' a = mts s1 a" "\<forall>l. loc_refs s' l = loc_refs s1 l + mt_uses s1 ms l"
    "live (mem s') = live (mem s1) + (\<Sum>m\<leftarrow>ms. mt_blocks (the (mts s1 m)))"
    using Cons.IH [of s1 "mc\<lparr>mountList := mountList mc @ [?c]\<rparr>" "n + 1", OF io mn]
    by (elim exE conjE) (rule that, simp_all add: fun_upd_def)
  have views: "map (\<lambda>m. map_option mt_view (mts s1 m)) ms = map (\<lambda>m. map_option mt_view (mts s m)) ms"
    "map (\<lambda>m. mt_blocks (the (mts s1 m))) ms = map (\<lambda>m. mt_blocks (the (mts s m))) ms"
    using ms by auto
  have uses: "mt_uses s1 ms k = mt_uses s ms k" for k
    unfolding mt_uses_def using ms by (simp cong: filter_cong)
  have c': "mts s' ?c = Some ce" using IH(6) by (simp add: s1)
  have refs: "loc_refs s1 k = loc_refs s k + (if k = l then 1 else 0)" for k
    using e(3) by (auto simp: loc_refs_def s1 loc_live_def)
  show ?case
  proof (intro exI [of _ s'] exI [of _ "?c # cs"] conjI)
    show "inherit_loop dr child (m # ms) n s = Some (n + int (length (m # ms)), s')"
      using c(1) Cons.prems(2) IH(1) by (simp add: s1_def)
    show "mnts s' = (mnts s)(child \<mapsto> mc\<lparr>mountList := mountList mc @ ?c # cs\<rparr>)" using IH(2) by (simp add: s1)
    show "length (?c # cs) = length (m # ms)" using IH(3) by simp
    show "map (\<lambda>c. map_option mt_view (mts s' c)) (?c # cs) = map (\<lambda>m. map_option mt_view (mts s m)) (m # ms)"
      using IH(4) views(1) c' c(2) e(1) by simp
    show "\<forall>c \<in> set (?c # cs). mts s c = None \<and> (\<exists>e. mts s' c = Some e \<and> \<not> mt_embedded e)"
    proof
      fix x assume "x \<in> set (?c # cs)"
      then consider "x = ?c" | "x \<in> set cs" by auto
      then show "mts s x = None \<and> (\<exists>e. mts s' x = Some e \<and> \<not> mt_embedded e)"
      proof cases
        case 1
        then show ?thesis using fresh c' c(3) by simp
      next
        case 2
        then show ?thesis using IH(5) keep [of x] by (cases "mts s x") auto
      qed
    qed
    show "\<forall>a. mts s a \<noteq> None \<longrightarrow> mts s' a = mts s a" using IH(6) keep by metis
    show "\<forall>k. loc_refs s' k = loc_refs s k + mt_uses s (m # ms) k"
      using IH(7) refs uses mt_uses_Cons [OF e(1), of ms] e(2) by auto
    show "live (mem s') = live (mem s) + (\<Sum>m\<leftarrow>m # ms. mt_blocks (the (mts s m)))"
      using IH(8) views(2) c(6) e(1) s1(2) by simp
  qed
qed

text \<open>A mount container created with inheritance starts with copies of its parent's mounts: same
  targets, file system types and root locations in the same order, in entries of its own. The
  parent keeps its mounts, every root location gains one reference per copy that uses it, and the
  blocks taken are the container and the entries with their strings.\<close>

theorem mnt_inherit_copies:
  assumes "mnts s p = Some mp" "inherit_ok s (mountList mp)" "heap_ok (mem s) (mnts s)"
    "\<not> RTEMSCFG_CONTAINER_LOG (cfg s)"
  shows "\<exists>c s' cs. rtems_mnt_container_create_with_inheritance dr (Some p) s = Some (Some c, s') \<and>
     mnts s' = (mnts s)(c \<mapsto> \<lparr>mnt_rc = 1, mnt_ID = g_mntContainerId s + 1, mountList = cs\<rparr>) \<and> mnts s c = None \<and>
     map (\<lambda>m. map_option mt_view (mts s' m)) cs = map (\<lambda>m. map_option mt_view (mts s m)) (mountList mp) \<and>
     (\<forall>m \<in> set cs. mts s m = None) \<and> (\<forall>m \<in> set (mountList mp). mts s' m = mts s m) \<and>
     (\<forall>l. loc_refs s' l = loc_refs s l + mt_uses s (mountList mp) l) \<and>
     live (mem s') = live (mem s) + 1 + (\<Sum>m\<leftarrow>mountList mp. mt_blocks (the (mts s m)))"
proof -
  let ?c = "brk (mem s)" and ?new = "\<lparr>mnt_rc = 1, mnt_ID = g_mntContainerId s + 1, mountList = []\<rparr>"
  from assms(2) have ok: "heap_ok (mem s) (mts s)" "\<forall>n. \<not> oom (mem s) n" "deferred_locs s = []"
    "mounts_live s (mountList mp)" by (simp_all add: inherit_ok_def)
  obtain m where m: "malloc (mem s) = (Some ?c, m)" using ok(2) by (simp add: malloc_def)
  then have m': "brk m = Suc ?c" "oom m = oom (mem s)" "live m = live (mem s) + 1" by (auto simp: alloc_simps)
  define s1 where "s1 = s\<lparr>mem := m, g_mntContainerId := g_mntContainerId s + 1, mnts := (mnts s)(?c \<mapsto> ?new)\<rparr>"
  have s1: "mts s1 = mts s" "mem s1 = m" "deferred_locs s1 = deferred_locs s" "mnts s1 = (mnts s)(?c \<mapsto> ?new)"
    "locs s1 = locs s" "cfg s1 = cfg s" by (simp_all add: s1_def)
  have create: "rtems_mnt_container_create s = (Some ?c, s1)" using m by (simp add: rtems_mnt_container_create_def s1_def)
  have fresh: "mnts s ?c = None" using assms(3) by (rule heap_ok_fresh)
  then have "?c \<noteq> p" using assms(1) by auto
  have "inherit_ok s1 (mountList mp)"
    using ok m' heap_ok_mono [OF ok(1), of m] by (simp add: inherit_ok_def s1 mounts_live_def loc_live_def)
  moreover have "mnts s1 ?c = Some ?new" by (simp add: s1)
  ultimately obtain s' cs where s': "inherit_loop dr ?c (mountList mp) 0 s1 = Some (0 + int (length (mountList mp)), s')"
    "mnts s' = (mnts s1)(?c \<mapsto> ?new\<lparr>mountList := mountList ?new @ cs\<rparr>)"
    "map (\<lambda>m. map_option mt_view (mts s' m)) cs = map (\<lambda>m. map_option mt_view (mts s1 m)) (mountList mp)"
    "\<forall>m \<in> set cs. mts s1 m = None \<and> (\<exists>e. mts s' m = Some e \<and> \<not> mt_embedded e)"
    "\<forall>a. mts s1 a \<noteq> None \<longrightarrow> mts s' a = mts s1 a"
    "\<forall>l. loc_refs s' l = loc_refs s1 l + mt_uses s1 (mountList mp) l"
    "live (mem s') = live (mem s1) + (\<Sum>m\<leftarrow>mountList mp. mt_blocks (the (mts s1 m)))"
    using inherit_loop_ok [of s1 "mountList mp" ?c ?new dr 0] by blast
  have "mnts s1 p = Some mp" using assms(1) \<open>?c \<noteq> p\<close> by (simp add: s1)
  then have "rtems_mnt_container_create_with_inheritance dr (Some p) s = do {
      _ \<leftarrow> log_deref s' (mnts s') [Some ?c, Some p]; Some (Some ?c, s') }"
    using create s'(1) by (simp add: rtems_mnt_container_create_with_inheritance_def inherit_mount_points_def)
  also have "\<dots> = Some (Some ?c, s')" using s'(2) assms(1) \<open>?c \<noteq> p\<close> by (simp add: s1)
  finally have "rtems_mnt_container_create_with_inheritance dr (Some p) s = Some (Some ?c, s')" .
  moreover have "mnts s' = (mnts s)(?c \<mapsto> \<lparr>mnt_rc = 1, mnt_ID = g_mntContainerId s + 1, mountList = cs\<rparr>)"
    using s'(2) by (simp add: s1)
  moreover have "\<forall>m \<in> set (mountList mp). mts s' m = mts s m"
    using ok(4) s'(5) by (auto simp: mounts_live_def s1)
  moreover have "loc_refs s1 l = loc_refs s l" "mt_uses s1 ms l = mt_uses s ms l" for l ms
    by (simp_all add: loc_refs_def s1 mt_uses_def)
  ultimately show ?thesis using fresh s'(3,4,6,7) m'(3) unfolding s1 by auto
qed

section \<open>Deleting a container\<close>

definition loc_pending :: "'a mnt_kernel_scheme \<Rightarrow> addr \<Rightarrow> int" where
  "loc_pending s l = (case locs s l of None \<Rightarrow> 0 | Some g \<Rightarrow> gl_deferred g)"

text \<open>An entry that \<open>cleanup_container_mounts\<close> can dismantle.\<close>

definition mt_cloned :: "'a mnt_kernel_scheme \<Rightarrow> addr \<Rightarrow> bool" where
  "mt_cloned s m \<longleftrightarrow> (\<exists>e. mts s m = Some e \<and> \<not> mt_embedded e \<and> (\<forall>l. mt_fs_root e = Some l \<longrightarrow> locs s l \<noteq> None))"

lemma cleanup_mount_entry_ok:
  assumes "mts s m = Some e" "mt_cloned s m"
  obtains s' where "cleanup_mount_entry m s = Some s'" "mts s' = (mts s)(m := None)" "mnts s' = mnts s"
    "live (mem s') = live (mem s) - mt_blocks e" "dom (locs s') = dom (locs s)"
    "\<And>l. loc_pending s' l = loc_pending s l + (if mt_fs_root e = Some l then 1 else 0)"
    "\<And>l. loc_refs s' l = loc_refs s l" "threads s' = threads s" "rootContainer s' = rootContainer s" "cfg s' = cfg s"
proof -
  have own: "\<not> mt_embedded e" using assms by (simp add: mt_cloned_def)
  obtain s1 where s1: "(case mt_fs_root e of None \<Rightarrow> Some s | Some l \<Rightarrow> global_location_release_deferred l s) = Some s1"
    "mts s1 = mts s" "mnts s1 = mnts s" "mem s1 = mem s" "dom (locs s1) = dom (locs s)"
    "\<And>l. loc_pending s1 l = loc_pending s l + (if mt_fs_root e = Some l then 1 else 0)"
    "\<And>l. loc_refs s1 l = loc_refs s l" "threads s1 = threads s" "rootContainer s1 = rootContainer s" "cfg s1 = cfg s"
  proof (cases "mt_fs_root e")
    case None
    then show thesis by (intro that [of s]) simp_all
  next
    case (Some l)
    then obtain g where g: "locs s l = Some g" using assms by (auto simp: mt_cloned_def)
    let ?s1 = "s\<lparr>locs := (locs s)(l \<mapsto> g\<lparr>gl_deferred := gl_deferred g + 1\<rparr>)\<rparr>"
    show thesis
      by (rule that [of "if gl_deferred g = 0 then ?s1\<lparr>deferred_locs := l # deferred_locs s\<rparr> else ?s1"])
        (use Some g in \<open>auto simp: global_location_release_deferred_def Let_def loc_pending_def loc_refs_def\<close>)
  qed
  obtain m2 where m2: "do { m1 \<leftarrow> free_string (mt_embedded e) (mt_target e) (mem s1);
      free_string (mt_embedded e) (mt_type e) m1 } = Some m2" "live m2 - 1 = live (mem s) - mt_blocks e"
    using own s1(4) by (cases "mt_target e"; cases "mt_type e") (auto simp: free_string_def mt_blocks_def)
  have "cleanup_mount_entry m s = Some (s1\<lparr>mem := free_block m2, mts := (mts s1)(m := None)\<rparr>)"
    using s1(1) m2(1) assms(1) by (auto simp: cleanup_mount_entry_def bind_eq_Some_conv)
  then show thesis by (rule that) (use s1 m2(2) in \<open>simp_all add: loc_pending_def loc_refs_def\<close>)
qed

lemma cleanup_loop_ok:
  assumes "distinct ms" "\<forall>m \<in> set ms. mt_cloned s m"
  shows "\<exists>s'. cleanup_loop ms s = Some s' \<and> (\<forall>a. mts s' a = (if a \<in> set ms then None else mts s a)) \<and> mnts s' = mnts s \<and>
     live (mem s') = live (mem s) - (\<Sum>m\<leftarrow>ms. mt_blocks (the (mts s m))) \<and>
     (\<forall>l. loc_pending s' l = loc_pending s l + mt_uses s ms l) \<and> (\<forall>l. loc_refs s' l = loc_refs s l) \<and>
     threads s' = threads s \<and> rootContainer s' = rootContainer s \<and> cfg s' = cfg s"
  using assms
proof (induction ms arbitrary: s)
  case (Cons m ms)
  obtain e where e: "mts s m = Some e" using Cons.prems(2) by (auto simp: mt_cloned_def)
  obtain s1 where s1: "cleanup_mount_entry m s = Some s1" "mts s1 = (mts s)(m := None)" "mnts s1 = mnts s"
    "live (mem s1) = live (mem s) - mt_blocks e" "dom (locs s1) = dom (locs s)"
    "\<And>l. loc_pending s1 l = loc_pending s l + (if mt_fs_root e = Some l then 1 else 0)"
    "\<And>l. loc_refs s1 l = loc_refs s l" "threads s1 = threads s" "rootContainer s1 = rootContainer s" "cfg s1 = cfg s"
    by (rule cleanup_mount_entry_ok [OF e]) (use Cons.prems(2) in auto)
  have same: "mts s1 x = mts s x" if "x \<in> set ms" for x using that Cons.prems(1) by (auto simp: s1(2))
  have "\<forall>x \<in> set ms. mt_cloned s1 x"
  proof
    fix x assume x: "x \<in> set ms"
    then have "mt_cloned s x" using Cons.prems(2) by simp
    then show "mt_cloned s1 x" using same [OF x] s1(5) unfolding mt_cloned_def by (metis domIff)
  qed
  then obtain s' where IH: "cleanup_loop ms s1 = Some s'" "\<forall>a. mts s' a = (if a \<in> set ms then None else mts s1 a)"
    "mnts s' = mnts s1" "live (mem s') = live (mem s1) - (\<Sum>m\<leftarrow>ms. mt_blocks (the (mts s1 m)))"
    "\<forall>l. loc_pending s' l = loc_pending s1 l + mt_uses s1 ms l" "\<forall>l. loc_refs s' l = loc_refs s1 l"
    "threads s' = threads s1" "rootContainer s' = rootContainer s1" "cfg s' = cfg s1"
    using Cons.IH [of s1] Cons.prems(1) by auto
  have blocks: "map (\<lambda>m. mt_blocks (the (mts s1 m))) ms = map (\<lambda>m. mt_blocks (the (mts s m))) ms"
    using same by simp
  have "live (mem s') = live (mem s) - (\<Sum>m\<leftarrow>m # ms. mt_blocks (the (mts s m)))"
    using IH(4) [unfolded blocks] s1(4) e by simp
  moreover have "mt_uses s1 ms l = mt_uses s ms l" for l unfolding mt_uses_def using same by (simp cong: filter_cong)
  ultimately show ?case using s1(1-3,6-) IH(1-3,5-) e mt_uses_Cons [OF e, of ms]
    by (intro exI [of _ s']) auto
qed (simp add: mt_uses_def)

text \<open>(C32) Deleting a mount container without tasks whose mounts are copies takes it apart
  completely: the entries with their strings, the container and its registry node are freed, the
  entry heap loses exactly its entries, and each root location has one more pending release per entry
  that used it, with its references untouched until the releases are worked off.\<close>

theorem mnt_delete_releases:
  assumes "threads_ok s" "\<forall>t. thread_ns mntContainer s t \<noteq> Some c" "mnt_root s = Some r" "c \<noteq> r"
    "mnts s c = Some mc" "distinct (mountList mc)" "\<forall>m \<in> set (mountList mc). mt_cloned s m"
    "c \<in> set (mnt_registry s)"
  shows "\<exists>s'. rtems_mnt_container_delete (Some c) s = Some s' \<and> mnts s' = (mnts s)(c := None) \<and>
     mnt_registry s' = remove1 c (mnt_registry s) \<and>
     (\<forall>m. mts s' m = (if m \<in> set (mountList mc) then None else mts s m)) \<and>
     (\<forall>l. loc_pending s' l = loc_pending s l + mt_uses s (mountList mc) l \<and> loc_refs s' l = loc_refs s l) \<and>
     live (mem s') = live (mem s) - 2 - (\<Sum>m\<leftarrow>mountList mc. mt_blocks (the (mts s m)))"
proof -
  have same: "mnt_rehome c r t s = Some s" if "t \<in> dom (threads s)" for t
    using that assms(2) by (auto simp: mnt_rehome_def)
  have it: "Thread_Iterate (mnt_switch_to_root c r) s = Some s"
    using assms(1) same by (cases "thread_table s")
      (auto simp: Thread_Iterate_def mnt_switch_to_root_def threads_ok_def)
  have ex: "(case executing s of None \<Rightarrow> Some s | Some t \<Rightarrow> mnt_rehome c r t s) = Some s"
    using assms(1) same by (auto simp: threads_ok_def split: option.splits)
  obtain s1 where s1: "cleanup_loop (mountList mc) s = Some s1"
    "\<forall>a. mts s1 a = (if a \<in> set (mountList mc) then None else mts s a)" "mnts s1 = mnts s"
    "live (mem s1) = live (mem s) - (\<Sum>m\<leftarrow>mountList mc. mt_blocks (the (mts s m)))"
    "\<forall>l. loc_pending s1 l = loc_pending s l + mt_uses s (mountList mc) l" "\<forall>l. loc_refs s1 l = loc_refs s l"
    "rootContainer s1 = rootContainer s"
    using cleanup_loop_ok [OF assms(6,7)] by blast
  define s2 where "s2 = s1\<lparr>mnts := (mnts s1)(c \<mapsto> mc\<lparr>mountList := []\<rparr>)\<rparr>"
  have clean: "cleanup_container_mounts c s = Some s2"
    using s1(1,3) assms(5) by (simp add: cleanup_container_mounts_def s2_def)
  let ?s3 = "rtems_mnt_container_remove_from_list (Some c) s2"
  let ?s = "?s3\<lparr>mem := free_block (mem ?s3), mnts := (mnts ?s3)(c := None)\<rparr>"
  have del: "rtems_mnt_container_delete (Some c) s = Some ?s"
    using assms(3-5) it ex clean
    by (simp add: rtems_mnt_container_delete_def mnt_root_def rtems_container_get_root_def)
  have ready: "rootContainer s2 \<noteq> None" using assms(3) s1(7) by (auto simp: mnt_root_def s2_def bind_eq_Some_conv)
  have reg: "mnt_registry s2 = mnt_registry s" using s1(7) by (simp add: mnt_registry_def s2_def)
  have "mnt_registry ?s = remove1 c (mnt_registry s)"
    using mnt_reg.registry_remove [OF ready, of c] reg by (simp add: mnt_registry_def)
  moreover have "live (mem ?s3) = live (mem s2) - 1"
    using mnt_reg.remove_accounts [OF ready, of "Some c"] mnt_reg.registry_remove [OF ready, of c] reg assms(8) by simp
  ultimately show ?thesis using del s1 by (intro exI [of _ ?s])
    (simp_all add: s2_def loc_pending_def loc_refs_def)
qed

text \<open>A mount that a task makes inside its container breaks the deletion of the container:
  \<open>mount\<close> appends an entry whose strings lie in the entry's own block, and the cleanup frees them
  as separate blocks, which is undefined.\<close>

theorem mnt_delete_own_mount_undefined:
  assumes "RTEMSCFG_MNT_CONTAINER (cfg s)" "get_current_thread_mnt_container s = Some c" "mnts s c = Some mc"
    "mountList mc = []" "alloc_mount_table_entry target fstype l s = (Some a, s1)" "append_to_mount_table a s1 = Some s2"
  shows "cleanup_container_mounts c s2 = None"
proof -
  from assms(5) have s1: "mts s1 a = Some \<lparr>mt_target = Some (case target of None \<Rightarrow> ''/'' | Some t \<Rightarrow> t),
      mt_type = Some fstype, mt_fs_root = Some l, mt_mounted = True, mt_unmount_task = 0, mt_embedded = True\<rparr>"
    "mnts s1 = mnts s" "cfg s1 = cfg s" "threads s1 = threads s" "executing s1 = executing s"
    by (auto simp: alloc_mount_table_entry_def malloc_def split: if_splits)
  then have "get_current_thread_mnt_container s1 = Some c"
    using assms(2) by (simp add: get_current_thread_mnt_container_def thread_ns_def)
  then have s2: "s2 = s1\<lparr>mnts := (mnts s)(c \<mapsto> mc\<lparr>mountList := [a]\<rparr>)\<rparr>"
    using assms(1,3,4,6) s1 by (simp add: append_to_mount_table_def)
  have "cleanup_mount_entry a s2 = None"
    using s1(1) by (auto simp: s2 cleanup_mount_entry_def free_string_def Option.bind_eq_None_conv)
  then show ?thesis by (simp add: cleanup_container_mounts_def s2)
qed

section \<open>Witnesses\<close>

definition demo_mt :: "string \<Rightarrow> ptr \<Rightarrow> bool \<Rightarrow> bool \<Rightarrow> mount_entry" where
  "demo_mt target l mounted embedded = \<lparr>mt_target = Some target, mt_type = Some ''imfs'', mt_fs_root = l,
     mt_mounted = mounted, mt_unmount_task = 0, mt_embedded = embedded\<rparr>"

definition demo_loc :: "addr \<Rightarrow> Global_Location" where
  "demo_loc m = \<lparr>gl_refs = 2, gl_null = False, gl_mt_entry = Some m, gl_deferred = 0\<rparr>"

definition demo_mnt_thread :: "u32 \<Rightarrow> ptr \<Rightarrow> Thread_Control" where
  "demo_mnt_thread oid p = \<lparr>Object_id = oid, container = Some (Container_zero\<lparr>mntContainer := p\<rparr>),
     cgroup = None, last_cpu_start_timestamp = 0, is_added_to_cgroup = False, current_state = 0\<rparr>"

text \<open>The root container 0 with the mounts 12 and 13, and container 1 with copies 10 and 11 of them
  and task 3; container 2 has no mounts and no tasks besides the executing task, when it is \<open>4\<close>;
  entry 14 has been unmounted.\<close>

definition demo_mnt :: mnt_kernel where
  "demo_mnt = \<lparr>cfg = demo_cfg, mem = \<lparr>brk = 40, oom = (\<lambda>_. False), live = 20\<rparr>,
     rootContainer = Some (Container_zero\<lparr>c_rc := 1, mntContainer := Some 0, mntContainerList := [5, 2, 1]\<rparr>),
     threads = [3 \<mapsto> demo_mnt_thread 7 (Some 1), 4 \<mapsto> demo_mnt_thread 8 (Some 2)],
     thread_table = [3, 4], executing = Some 3, pids = Map.empty, g_pidContainerId = 0,
     utss = Map.empty, g_utsContainerId = 0, g_rootUtsContainer = None, ipcs = Map.empty, objs = Map.empty,
     g_ipcContainerIdCounter = 3, g_currentIpcContainerNum = 3,
     Semaphore_Information = Objects_Information_zero, Message_queue_Information = Objects_Information_zero,
     POSIX_Message_queue_Information = Objects_Information_zero, Objects_Information_table = Map.empty,
     mnts = [0 \<mapsto> \<lparr>mnt_rc = 1, mnt_ID = 1, mountList = [12, 13]\<rparr>, 1 \<mapsto> \<lparr>mnt_rc = 2, mnt_ID = 2, mountList = [10, 11]\<rparr>,
             2 \<mapsto> \<lparr>mnt_rc = 2, mnt_ID = 3, mountList = []\<rparr>, 5 \<mapsto> \<lparr>mnt_rc = 1, mnt_ID = 4, mountList = [15, 16]\<rparr>],
     mts = [10 \<mapsto> demo_mt ''/'' (Some 20) True False, 11 \<mapsto> demo_mt ''/data'' (Some 21) True False,
            12 \<mapsto> demo_mt ''/'' (Some 20) True True, 13 \<mapsto> demo_mt ''/data'' (Some 21) True True,
            14 \<mapsto> demo_mt ''/data/old'' (Some 22) False True,
            15 \<mapsto> demo_mt ''/'' (Some 20) True False, 16 \<mapsto> demo_mt ''/data'' (Some 21) True False],
     locs = [20 \<mapsto> demo_loc 12, 21 \<mapsto> demo_loc 13, 22 \<mapsto> demo_loc 14, 30 \<mapsto> \<lparr>gl_refs = 1, gl_null = True, gl_mt_entry = None, gl_deferred = 0\<rparr>],
     g_mntContainerId = 4, rootMntContainer = Some 0, current_eval_path = None, adjusted_eval_path = None,
     deferred_locs = [], null_loc = 30, fs_root_loc = 20, fs_mount_table = [], user_env = Map.empty\<rparr>"

lemma demo_mt_sel [simp]:
  "mt_target (demo_mt t l m em) = Some t" "mt_type (demo_mt t l m em) = Some ''imfs''"
  "mt_fs_root (demo_mt t l m em) = l" "mt_mounted (demo_mt t l m em) = m" "mt_embedded (demo_mt t l m em) = em"
  by (simp_all add: demo_mt_def)

lemma demo_mnt_live: "loc_live demo_mnt 20" "loc_live demo_mnt 21"
  by (simp_all add: loc_live_def demo_mnt_def demo_loc_def)

lemma demo_mounts_live: "mounts_live demo_mnt [10, 11]" "mounts_live demo_mnt [12, 13]"
  using demo_mnt_live by (simp_all add: mounts_live_def) (simp_all add: demo_mnt_def)

lemma demo_longest: "longest_mount ''/data/x'' demo_mnt [10, 11] = Some 11"
  by (simp add: longest_mount_def matching_def mt_matches_def mt_len_def demo_mnt_def path_matches_def)

lemma demo_mnt_container: "get_current_thread_mnt_container demo_mnt = Some 1"
    "get_current_thread_mnt_container (demo_mnt\<lparr>executing := Some 4\<rparr>) = Some 2"
  by (simp_all add: get_current_thread_mnt_container_def thread_ns_def demo_mnt_def demo_mnt_thread_def)


theorem mnt_find_best_order_dependent_witness:
  "find_best_mount_for_path [14, 11] ''/data/old/x'' demo_mnt = Some (None, True) \<and>
     find_best_mount_for_path [11, 14] ''/data/old/x'' demo_mnt = Some (Some 11, False)"
  by (rule mnt_find_best_order_dependent [of _ _ "demo_mt ''/data/old'' (Some 22) False True" "''/data/old''"
        _ "demo_mt ''/data'' (Some 21) True False" "''/data''"])
    (simp_all add: demo_mnt_def is_mount_entry_valid_def demo_loc_def path_matches_def)


lemma demo_inherit_ok: "inherit_ok demo_mnt [12, 13]"
  using demo_mounts_live(2) by (simp add: inherit_ok_def) (auto simp: demo_mnt_def heap_ok_def split: if_splits)

theorem mnt_inherit_copies_witness:
  "\<exists>c s' cs. rtems_mnt_container_create_with_inheritance Some (Some 0) demo_mnt = Some (Some c, s') \<and>
     map (\<lambda>m. map_option mt_view (mts s' m)) cs = [Some (Some ''/'', Some ''imfs'', Some 20), Some (Some ''/data'', Some ''imfs'', Some 21)] \<and>
     live (mem s') = 27"
proof -
  have "mnts demo_mnt 0 = Some \<lparr>mnt_rc = 1, mnt_ID = 1, mountList = [12, 13]\<rparr>" by (simp add: demo_mnt_def)
  moreover have "heap_ok (mem demo_mnt) (mnts demo_mnt)" "\<not> RTEMSCFG_CONTAINER_LOG (cfg demo_mnt)"
    by (auto simp: demo_mnt_def heap_ok_def demo_cfg_def split: if_splits)
  moreover have "mts demo_mnt 12 = Some (demo_mt ''/'' (Some 20) True True)"
    "mts demo_mnt 13 = Some (demo_mt ''/data'' (Some 21) True True)" "live (mem demo_mnt) = 20" by (simp_all add: demo_mnt_def)
  ultimately show ?thesis
    using mnt_inherit_copies [of demo_mnt 0 "\<lparr>mnt_rc = 1, mnt_ID = 1, mountList = [12, 13]\<rparr>" Some] demo_inherit_ok
    by (simp add: mt_view_def mt_blocks_def) (elim exE conjE, intro exI conjI, assumption+)
qed

theorem mnt_delete_releases_witness:
  "\<exists>s'. rtems_mnt_container_delete (Some 5) demo_mnt = Some s' \<and> mnt_registry s' = [2, 1] \<and>
     mts s' 15 = None \<and> loc_pending s' 20 = 1 \<and> loc_pending s' 21 = 1 \<and> live (mem s') = 12"
proof -
  have ns: "\<forall>t. thread_ns mntContainer demo_mnt t \<noteq> Some 5"
    by (simp add: thread_ns_def demo_mnt_def demo_mnt_thread_def)
  have ok: "threads_ok demo_mnt" "mnt_root demo_mnt = Some 0" "mnt_registry demo_mnt = [5, 2, 1]"
    "mnts demo_mnt 5 = Some \<lparr>mnt_rc = 1, mnt_ID = 4, mountList = [15, 16]\<rparr>"
    "mt_cloned demo_mnt 15" "mt_cloned demo_mnt 16" "live (mem demo_mnt) = 20"
    by (simp_all add: demo_mnt_def threads_ok_def mnt_root_def mnt_registry_def mt_cloned_def)
  have val: "mt_uses demo_mnt [15, 16] 20 = 1" "mt_uses demo_mnt [15, 16] 21 = 1"
    "loc_pending demo_mnt 20 = 0" "loc_pending demo_mnt 21 = 0" "mt_blocks (the (mts demo_mnt 15)) = 3"
    "mt_blocks (the (mts demo_mnt 16)) = 3"
    by (simp_all add: mt_uses_def loc_pending_def demo_mnt_def demo_loc_def mt_blocks_def)
  obtain s' where "rtems_mnt_container_delete (Some 5) demo_mnt = Some s'" "mnt_registry s' = remove1 5 [5, 2, 1]"
    "\<forall>m. mts s' m = (if m \<in> set [15, 16] then None else mts demo_mnt m)"
    "\<forall>l. loc_pending s' l = loc_pending demo_mnt l + mt_uses demo_mnt [15, 16] l \<and> loc_refs s' l = loc_refs demo_mnt l"
    "live (mem s') = 20 - 2 - (\<Sum>m\<leftarrow>[15, 16]. mt_blocks (the (mts demo_mnt m)))"
    using mnt_delete_releases [OF ok(1) ns ok(2) _ ok(4)] ok(3,5-7) by auto
  then show ?thesis using val by (intro exI [of _ s']) simp
qed

theorem mnt_delete_own_mount_undefined_witness:
  "\<exists>s1 s2. alloc_mount_table_entry (Some ''/mnt'') ''imfs'' 50 (demo_mnt\<lparr>executing := Some 4\<rparr>) = (Some 40, s1) \<and>
     append_to_mount_table 40 s1 = Some s2 \<and> cleanup_container_mounts 2 s2 = None"
proof -
  let ?s = "demo_mnt\<lparr>executing := Some 4\<rparr>"
  have c: "mnts ?s 2 = Some \<lparr>mnt_rc = 2, mnt_ID = 3, mountList = []\<rparr>" "RTEMSCFG_MNT_CONTAINER (cfg ?s)"
    by (simp_all add: demo_mnt_def demo_cfg_def)
  obtain s1 where s1: "alloc_mount_table_entry (Some ''/mnt'') ''imfs'' 50 ?s = (Some 40, s1)"
    "mnts s1 = mnts ?s" "executing s1 = executing ?s" "threads s1 = threads ?s" "cfg s1 = cfg ?s"
    by (simp add: alloc_mount_table_entry_def malloc_def demo_mnt_def)
  have "get_current_thread_mnt_container s1 = Some 2"
    using demo_mnt_container(2) s1 by (simp add: get_current_thread_mnt_container_def thread_ns_def)
  then obtain s2 where s2: "append_to_mount_table 40 s1 = Some s2"
    using c s1 by (simp add: append_to_mount_table_def)
  show ?thesis
    using s1(1) s2 mnt_delete_own_mount_undefined [OF c(2) demo_mnt_container(2) c(1) _ s1(1) s2] by auto
qed

end
