(* ===== verification/CoreCgroup.thy ===== *)
theory CoreCgroup
  imports MntContainer
begin

text \<open>
  Control groups: \<open>score/src/corecgroup.c\<close> with \<open>score/corecgroupimpl.h\<close>, the directives
  \<open>rtems/src/cg*.c\<close>, the hooks in \<open>score/src/threaddispatch.c\<close> that charge processor time, and
  the hooks in \<open>score/src/heapallocate.c\<close> and \<open>score/src/heapfree.c\<close> that charge memory.

  A group is a control block of the object pool \<open>_Cgroup\<close>, so a pointer to it is the address of
  the pool's array with a position. The blocks are static: they outlive the deletion of a group. The
  watchdog header of the ticks clock is kept as the list of its scheduled group watchdogs in the order
  of the red-black tree (ascending expiry, equal expiries in insertion order); a watchdog is scheduled
  when it is in the list. Of a thread's readiness the state bits are modelled, not the scheduler's
  queues.
\<close>

section \<open>Data\<close>

type_synonym cgp = "addr \<times> nat"

record CORE_cgroup_config =
  cpu_shares :: u64
  cpu_quota :: u64
  cpu_period :: u64
  memory_limit :: u64
  blkio_limit :: u64

record Thread_cgroup_node =
  node_thread :: addr
  node_cgroup :: cgp
  node_cpu_usage :: u64

record CORE_cgroup_Control =
  cg_state :: u32
  cg_config :: ptr
  cg_threads :: "Thread_cgroup_node list"
  thread_count :: u32
  max_threads :: u32
  cpu_usage_total :: u64
  cpu_quota_available :: u64
  cpu_period_arrival_time :: u64
  mem_quota_available :: u64
  shrink_callback :: ptr
  shrink_arg :: ptr
  should_charge_next_free :: bool

datatype cg_watchdog = CPU_SUSPEND cgp | CPU_RESUME cgp

record Heap_Block =
  requested_size :: u64
  charged_cgroup :: "cgp option"

record cg_kernel = mnt_kernel +
  cgs :: "cgp \<rightharpoonup> CORE_cgroup_Control"
  cgcfgs :: "addr \<rightharpoonup> CORE_cgroup_config"
  Cgroup_Information :: Objects_Information
  wd_ticks :: u64
  wd_header :: "(u64 \<times> cg_watchdog) list"
  hblocks :: "addr \<rightharpoonup> Heap_Block"

definition STATES_READY :: u32 where "STATES_READY = 0"
definition STATES_WAITING_FOR_CGROUP_CPU_QUOTA :: u32 where "STATES_WAITING_FOR_CGROUP_CPU_QUOTA = 0x00040000"
definition STATES_WAITING_FOR_CGROUP_MEMORY :: u32 where "STATES_WAITING_FOR_CGROUP_MEMORY = 0x00080000"

text \<open>\<open>STATES_BLOCKED\<close> with control groups configured: the disjunction of the sixteen low state bits
  without \<open>JOIN_AT_EXIT\<close> and \<open>SUSPENDED\<close>, the segment and RPC bits, the signal bit and the three
  group bits.\<close>

definition STATES_BLOCKED :: u32 where "STATES_BLOCKED = 0x301d5fff"

definition upd_cg :: "cgp \<Rightarrow> (CORE_cgroup_Control \<Rightarrow> CORE_cgroup_Control) \<Rightarrow> 'a cg_kernel_scheme \<Rightarrow> 'a cg_kernel_scheme" where
  "upd_cg p f s = s\<lparr>cgs := (cgs s)(p := map_option f (cgs s p))\<rparr>"

section \<open>Watchdogs\<close>

fun wd_insert :: "u64 \<Rightarrow> cg_watchdog \<Rightarrow> (u64 \<times> cg_watchdog) list \<Rightarrow> (u64 \<times> cg_watchdog) list" where
  "wd_insert e w [] = [(e, w)]"
| "wd_insert e w ((e', w') # ws) = (if e < e' then (e, w) # (e', w') # ws else (e', w') # wd_insert e w ws)"

definition Watchdog_Is_scheduled :: "cg_watchdog \<Rightarrow> 'a cg_kernel_scheme \<Rightarrow> bool" where
  "Watchdog_Is_scheduled w s \<longleftrightarrow> w \<in> snd ` set (wd_header s)"

text \<open>\<open>_Watchdog_Per_CPU_insert_ticks\<close>. The interval is a 32-bit \<open>Watchdog_Interval\<close>. Inserting a
  scheduled watchdog a second time is undefined.\<close>

definition Watchdog_Per_CPU_insert_ticks :: "cg_watchdog \<Rightarrow> u32 \<Rightarrow> 'a cg_kernel_scheme \<Rightarrow> 'a cg_kernel_scheme option" where
  "Watchdog_Per_CPU_insert_ticks w ticks s =
     (if Watchdog_Is_scheduled w s then None
      else Some (s\<lparr>wd_header := wd_insert (ucast ticks + wd_ticks s) w (wd_header s)\<rparr>))"

definition Watchdog_Remove :: "cg_watchdog \<Rightarrow> 'a cg_kernel_scheme \<Rightarrow> 'a cg_kernel_scheme" where
  "Watchdog_Remove w s = s\<lparr>wd_header := filter (\<lambda>(e, w'). w' \<noteq> w) (wd_header s)\<rparr>"

definition set_cpu_suspend_watchdog :: "cgp \<Rightarrow> 'a cg_kernel_scheme \<Rightarrow> 'a cg_kernel_scheme option" where
  "set_cpu_suspend_watchdog p s = do {
     cg \<leftarrow> cgs s p;
     Watchdog_Per_CPU_insert_ticks (CPU_SUSPEND p) (ucast (cpu_quota_available cg)) s }"

definition cancel_cpu_suspend_watchdog :: "cgp \<Rightarrow> 'a cg_kernel_scheme \<Rightarrow> 'a cg_kernel_scheme" where
  "cancel_cpu_suspend_watchdog p s = Watchdog_Remove (CPU_SUSPEND p) s"

definition set_cpu_resume_watchdog :: "cgp \<Rightarrow> 'a cg_kernel_scheme \<Rightarrow> 'a cg_kernel_scheme option" where
  "set_cpu_resume_watchdog p s = do {
     cg \<leftarrow> cgs s p;
     c \<leftarrow> cg_config cg;
     conf \<leftarrow> cgcfgs s c;
     Watchdog_Per_CPU_insert_ticks (CPU_RESUME p) (ucast (cpu_period conf))
       (upd_cg p (cpu_quota_available_update (\<lambda>_. cpu_quota conf)) s) }"

definition cancel_cpu_resume_watchdog :: "cgp \<Rightarrow> 'a cg_kernel_scheme \<Rightarrow> 'a cg_kernel_scheme" where
  "cancel_cpu_resume_watchdog p s = Watchdog_Remove (CPU_RESUME p) s"

section \<open>Thread states\<close>

definition Thread_Set_state :: "addr \<Rightarrow> u32 \<Rightarrow> 'a cg_kernel_scheme \<Rightarrow> 'a cg_kernel_scheme option" where
  "Thread_Set_state t st s = do {
     th \<leftarrow> threads s t;
     Some (upd_thread t (current_state_update (\<lambda>x. x OR st)) s) }"

definition Thread_Clear_state :: "addr \<Rightarrow> u32 \<Rightarrow> 'a cg_kernel_scheme \<Rightarrow> 'a cg_kernel_scheme option" where
  "Thread_Clear_state t st s = do {
     th \<leftarrow> threads s t;
     Some (if current_state th AND st \<noteq> 0
           then upd_thread t (current_state_update (\<lambda>x. x AND NOT st)) s else s) }"

fun for_threads ::
  "(addr \<Rightarrow> 'a cg_kernel_scheme \<Rightarrow> 'a cg_kernel_scheme option) \<Rightarrow> Thread_cgroup_node list \<Rightarrow> 'a cg_kernel_scheme \<Rightarrow>
     'a cg_kernel_scheme option" where
  "for_threads f [] s = Some s"
| "for_threads f (n # ns) s = do { s1 \<leftarrow> f (node_thread n) s; for_threads f ns s1 }"

section \<open>Groups\<close>

definition CORE_cgroup_Destroy :: "cgp option \<Rightarrow> 'a cg_kernel_scheme \<Rightarrow> 'a cg_kernel_scheme" where
  "CORE_cgroup_Destroy p s =
     (case p of
        None \<Rightarrow> s
      | Some p \<Rightarrow>
          (let s1 = (if Watchdog_Is_scheduled (CPU_SUSPEND p) s then cancel_cpu_suspend_watchdog p s else s)
           in if Watchdog_Is_scheduled (CPU_RESUME p) s1 then cancel_cpu_resume_watchdog p s1 else s1))"

definition CORE_cgroup_Suspend ::
  "cgp option \<Rightarrow> u32 \<Rightarrow> 'a cg_kernel_scheme \<Rightarrow> (rtems_status_code \<times> 'a cg_kernel_scheme) option" where
  "CORE_cgroup_Suspend the_cgroup wait_state s =
     (case the_cgroup of
        None \<Rightarrow> Some (RTEMS_INVALID_ADDRESS, s)
      | Some p \<Rightarrow> do {
          cg \<leftarrow> cgs s p;
          if cg_state cg AND wait_state \<noteq> 0 then Some (RTEMS_INCORRECT_STATE, s)
          else do {
            s1 \<leftarrow> for_threads (\<lambda>t. Thread_Set_state t wait_state) (cg_threads cg)
                    (upd_cg p (cg_state_update (\<lambda>x. x OR wait_state)) s);
            Some (RTEMS_SUCCESSFUL, s1) } })"

definition CORE_cgroup_Initialize ::
  "cgp \<Rightarrow> ptr \<Rightarrow> 'a cg_kernel_scheme \<Rightarrow> 'a cg_kernel_scheme option" where
  "CORE_cgroup_Initialize p config s = do {
     _ \<leftarrow> cgs s p;
     s1 \<leftarrow> set_cpu_resume_watchdog p
             (upd_cg p (\<lambda>cg. cg\<lparr>cg_state := STATES_READY, thread_count := 0, cpu_usage_total := 0,
                cpu_quota_available := 0, cpu_period_arrival_time := 0, cg_threads := [], max_threads := 10,
                cg_config := config\<rparr>) s);
     c \<leftarrow> config;
     conf \<leftarrow> cgcfgs s1 c;
     Some (upd_cg p (\<lambda>cg. cg\<lparr>mem_quota_available := memory_limit conf, should_charge_next_free := True\<rparr>) s1) }"

definition CORE_cgroup_Resume ::
  "cgp option \<Rightarrow> u32 \<Rightarrow> 'a cg_kernel_scheme \<Rightarrow> (rtems_status_code \<times> 'a cg_kernel_scheme) option" where
  "CORE_cgroup_Resume the_cgroup wait_state s =
     (case the_cgroup of
        None \<Rightarrow> Some (RTEMS_INVALID_ADDRESS, s)
      | Some p \<Rightarrow> do {
          cg \<leftarrow> cgs s p;
          if cg_state cg AND wait_state = 0 then Some (RTEMS_INCORRECT_STATE, s)
          else if cg_state cg \<noteq> 0 \<and> wait_state AND STATES_BLOCKED = 0 then Some (RTEMS_INCORRECT_STATE, s)
          else do {
            let s1 = upd_cg p (cg_state_update (\<lambda>x. x AND NOT wait_state)) s;
            s2 \<leftarrow> (if cg_state cg AND NOT wait_state AND STATES_BLOCKED = 0
                    then for_threads (\<lambda>t. Thread_Clear_state t wait_state) (cg_threads cg) s1
                    else Some s1);
            Some (RTEMS_SUCCESSFUL, s2) } })"

definition CORE_cgroup_Add_thread ::
  "cgp \<Rightarrow> addr \<Rightarrow> 'a cg_kernel_scheme \<Rightarrow> (bool \<times> 'a cg_kernel_scheme) option" where
  "CORE_cgroup_Add_thread p t s =
     (case malloc (mem s) of
        (None, m) \<Rightarrow> Some (False, s\<lparr>mem := m\<rparr>)
      | (Some _, m) \<Rightarrow> do {
          _ \<leftarrow> cgs s p;
          _ \<leftarrow> threads s t;
          let n = \<lparr>node_thread = t, node_cgroup = p, node_cpu_usage = 0\<rparr>;
          let s1 = upd_cg p (\<lambda>cg. cg\<lparr>cg_threads := cg_threads cg @ [n], thread_count := thread_count cg + 1\<rparr>) (s\<lparr>mem := m\<rparr>);
          Some (True, upd_thread t (\<lambda>th. th\<lparr>cgroup := Some p, is_added_to_cgroup := True\<rparr>) s1) })"

definition CORE_cgroup_Find_thread :: "CORE_cgroup_Control \<Rightarrow> addr \<Rightarrow> Thread_cgroup_node option" where
  "CORE_cgroup_Find_thread cg t = find (\<lambda>n. node_thread n = t) (cg_threads cg)"

definition CORE_cgroup_Remove_thread ::
  "cgp \<Rightarrow> addr \<Rightarrow> 'a cg_kernel_scheme \<Rightarrow> (bool \<times> 'a cg_kernel_scheme) option" where
  "CORE_cgroup_Remove_thread p t s = do {
     cg \<leftarrow> cgs s p;
     case CORE_cgroup_Find_thread cg t of
       None \<Rightarrow> Some (False, s)
     | Some n \<Rightarrow>
         Some (True, (upd_cg p (\<lambda>cg. cg\<lparr>cg_threads := remove1 n (cg_threads cg), thread_count := thread_count cg - 1\<rparr>) s)
           \<lparr>mem := free_block (mem s)\<rparr>) }"

definition CORE_cgroup_Can_add_thread :: "CORE_cgroup_Control \<Rightarrow> bool" where
  "CORE_cgroup_Can_add_thread cg \<longleftrightarrow> thread_count cg < max_threads cg"

definition CORE_cgroup_Get_thread_count :: "CORE_cgroup_Control \<Rightarrow> u32" where
  "CORE_cgroup_Get_thread_count cg = thread_count cg"

definition CORE_cgroup_Consume_cpu_quota ::
  "cgp \<Rightarrow> u64 \<Rightarrow> 'a cg_kernel_scheme \<Rightarrow> 'a cg_kernel_scheme option" where
  "CORE_cgroup_Consume_cpu_quota p delta s = do {
     cg \<leftarrow> cgs s p;
     if cpu_quota_available cg \<le> delta
     then do {
       (sc, s1) \<leftarrow> CORE_cgroup_Suspend (Some p) STATES_WAITING_FOR_CGROUP_CPU_QUOTA
                     (upd_cg p (cpu_quota_available_update (\<lambda>_. 0)) s);
       Some s1 }
     else Some (upd_cg p (cpu_quota_available_update (\<lambda>q. q - delta)) s) }"

definition CORE_cgroup_Get_total_cpu_usage :: "CORE_cgroup_Control \<Rightarrow> u64" where
  "CORE_cgroup_Get_total_cpu_usage cg = fold (\<lambda>n u. u + node_cpu_usage n) (cg_threads cg) (cpu_usage_total cg)"

definition CORE_cgroup_set_cpu_quota :: "cgp \<Rightarrow> u32 \<Rightarrow> u32 \<Rightarrow> 'a cg_kernel_scheme \<Rightarrow> 'a cg_kernel_scheme option" where
  "CORE_cgroup_set_cpu_quota p quota period s = do {
     cg \<leftarrow> cgs s p;
     c \<leftarrow> cg_config cg;
     conf \<leftarrow> cgcfgs s c;
     Some (s\<lparr>cgcfgs := (cgcfgs s)(c \<mapsto> conf\<lparr>cpu_quota := ucast quota, cpu_period := ucast period\<rparr>)\<rparr>) }"

definition CORE_cgroup_set_shrink_callback :: "cgp \<Rightarrow> ptr \<Rightarrow> ptr \<Rightarrow> 'a cg_kernel_scheme \<Rightarrow> 'a cg_kernel_scheme option" where
  "CORE_cgroup_set_shrink_callback p cb arg s = do {
     _ \<leftarrow> cgs s p;
     Some (upd_cg p (\<lambda>cg. cg\<lparr>shrink_callback := cb, shrink_arg := arg\<rparr>) s) }"

section \<open>Watchdog routines and the clock tick\<close>

definition cpu_suspend_routine :: "cgp \<Rightarrow> 'a cg_kernel_scheme \<Rightarrow> 'a cg_kernel_scheme option" where
  "cpu_suspend_routine p s = do {
     (sc, s1) \<leftarrow> CORE_cgroup_Suspend (Some p) STATES_WAITING_FOR_CGROUP_CPU_QUOTA s;
     Some s1 }"

definition cpu_resume_routine :: "cgp \<Rightarrow> 'a cg_kernel_scheme \<Rightarrow> 'a cg_kernel_scheme option" where
  "cpu_resume_routine p s = do {
     (sc, s1) \<leftarrow> CORE_cgroup_Resume (Some p) STATES_WAITING_FOR_CGROUP_CPU_QUOTA s;
     set_cpu_resume_watchdog p s1 }"

fun wd_routine :: "cg_watchdog \<Rightarrow> 'a cg_kernel_scheme \<Rightarrow> 'a cg_kernel_scheme option" where
  "wd_routine (CPU_SUSPEND p) s = cpu_suspend_routine p s"
| "wd_routine (CPU_RESUME p) s = cpu_resume_routine p s"

text \<open>The loop of \<open>_Watchdog_Do_tickle\<close>: as long as the first watchdog has expired, take it off and run
  its routine. A routine may insert watchdogs, so the loop need not end.\<close>

partial_function (option) Watchdog_Do_tickle :: "'a cg_kernel_scheme \<Rightarrow> 'a cg_kernel_scheme option" where
  "Watchdog_Do_tickle s =
     (case wd_header s of
        [] \<Rightarrow> Some s
      | w # ws \<Rightarrow>
          if fst w \<le> wd_ticks s
          then Option.bind (wd_routine (snd w) (s\<lparr>wd_header := ws\<rparr>)) Watchdog_Do_tickle
          else Some s)"

definition Watchdog_Tick :: "'a cg_kernel_scheme \<Rightarrow> 'a cg_kernel_scheme option" where
  "Watchdog_Tick s = Watchdog_Do_tickle (s\<lparr>wd_ticks := wd_ticks s + 1\<rparr>)"

section \<open>Directives\<close>

definition Thread_Get :: "u32 \<Rightarrow> 'a cg_kernel_scheme \<Rightarrow> ptr" where
  "Thread_Get i s =
     (if i = 0 then executing s
      else find (\<lambda>t. map_option Object_id (threads s t) = Some i) (thread_table s))"

definition Cgroup_Get :: "u32 \<Rightarrow> 'a cg_kernel_scheme \<Rightarrow> cgp option option" where
  "Cgroup_Get i s = Objects_Get i (Cgroup_Information s)"

definition rtems_cgroup_create ::
  "u32 \<Rightarrow> bool \<Rightarrow> ptr \<Rightarrow> 'a cg_kernel_scheme \<Rightarrow> (rtems_status_code \<times> u32 option \<times> 'a cg_kernel_scheme) option" where
  "rtems_cgroup_create name id_null config s =
     (if name = 0 then Some (RTEMS_INVALID_NAME, None, s)
      else if id_null then Some (RTEMS_INVALID_ADDRESS, None, s)
      else do {
        (p, info) \<leftarrow> Objects_Allocate (objs s) (Cgroup_Information s);
        case p of
          None \<Rightarrow> Some (RTEMS_TOO_MANY, None, s\<lparr>Cgroup_Information := info\<rparr>)
        | Some p \<Rightarrow> do {
            s1 \<leftarrow> CORE_cgroup_Initialize p config (s\<lparr>Cgroup_Information := info\<rparr>);
            (i, info', h) \<leftarrow> Objects_Open_u32 p name (Cgroup_Information s1) (objs s1);
            Some (RTEMS_SUCCESSFUL, Some i, s1\<lparr>Cgroup_Information := info', objs := h\<rparr>) } })"

definition rtems_cgroup_delete ::
  "u32 \<Rightarrow> 'a cg_kernel_scheme \<Rightarrow> (rtems_status_code \<times> 'a cg_kernel_scheme) option" where
  "rtems_cgroup_delete i s = do {
     p \<leftarrow> Cgroup_Get i s;
     case p of
       None \<Rightarrow> Some (RTEMS_INVALID_ID, s)
     | Some p \<Rightarrow> do {
         let s1 = CORE_cgroup_Destroy (Some p) s;
         (info, h) \<leftarrow> Objects_Close p (Cgroup_Information s1) (objs s1);
         info' \<leftarrow> Objects_Free h p info;
         Some (RTEMS_SUCCESSFUL, s1\<lparr>Cgroup_Information := info', objs := h\<rparr>) } }"

text \<open>Neither directive checks what the lookups return; \<open>NULL\<close> is dereferenced.\<close>

definition rtems_cgroup_add_task ::
  "u32 \<Rightarrow> u32 \<Rightarrow> 'a cg_kernel_scheme \<Rightarrow> (rtems_status_code \<times> 'a cg_kernel_scheme) option" where
  "rtems_cgroup_add_task cgroup_id task_id s = do {
     p \<leftarrow> Cgroup_Get cgroup_id s;
     p \<leftarrow> p;
     t \<leftarrow> Thread_Get task_id s;
     (ok, s1) \<leftarrow> CORE_cgroup_Add_thread p t s;
     Some (if ok then RTEMS_SUCCESSFUL else RTEMS_RESOURCE_IN_USE, s1) }"

definition rtems_cgroup_remove_task ::
  "u32 \<Rightarrow> u32 \<Rightarrow> 'a cg_kernel_scheme \<Rightarrow> (rtems_status_code \<times> 'a cg_kernel_scheme) option" where
  "rtems_cgroup_remove_task cgroup_id task_id s = do {
     p \<leftarrow> Cgroup_Get cgroup_id s;
     p \<leftarrow> p;
     t \<leftarrow> Thread_Get task_id s;
     (ok, s1) \<leftarrow> CORE_cgroup_Remove_thread p t s;
     Some (if ok then RTEMS_SUCCESSFUL else RTEMS_RESOURCE_IN_USE, s1) }"

datatype rtems_cgroup_state = RTEMS_CGROUP_READY | RTEMS_CGROUP_RUNNING | RTEMS_CGROUP_BLOCKED

definition rtems_cgroup_get_state ::
  "u32 \<Rightarrow> bool \<Rightarrow> 'a cg_kernel_scheme \<Rightarrow> (rtems_status_code \<times> rtems_cgroup_state option) option" where
  "rtems_cgroup_get_state i state_null s =
     (if state_null then Some (RTEMS_INVALID_ADDRESS, None)
      else do {
        p \<leftarrow> Cgroup_Get i s;
        case p of
          None \<Rightarrow> Some (RTEMS_INVALID_ID, None)
        | Some p \<Rightarrow> do {
            cg \<leftarrow> cgs s p;
            Some (RTEMS_SUCCESSFUL, Some (if cg_state cg AND STATES_BLOCKED \<noteq> 0 then RTEMS_CGROUP_BLOCKED else RTEMS_CGROUP_READY)) } })"

definition rtems_cgroup_get_task_count ::
  "u32 \<Rightarrow> bool \<Rightarrow> 'a cg_kernel_scheme \<Rightarrow> (rtems_status_code \<times> u32 option) option" where
  "rtems_cgroup_get_task_count i count_null s =
     (if count_null then Some (RTEMS_INVALID_ADDRESS, None)
      else do {
        p \<leftarrow> Cgroup_Get i s;
        case p of
          None \<Rightarrow> Some (RTEMS_INVALID_ID, None)
        | Some p \<Rightarrow> do { cg \<leftarrow> cgs s p; Some (RTEMS_SUCCESSFUL, Some (thread_count cg)) } })"

section \<open>Charging processor time and memory\<close>

text \<open>What \<open>_Thread_Do_dispatch\<close> does for the thread that leaves the processor.\<close>

definition dispatch_charge :: "addr \<Rightarrow> 'a cg_kernel_scheme \<Rightarrow> 'a cg_kernel_scheme option" where
  "dispatch_charge t s = do {
     th \<leftarrow> threads s t;
     if is_added_to_cgroup th
     then do {
       p \<leftarrow> cgroup th;
       s1 \<leftarrow> CORE_cgroup_Consume_cpu_quota p (wd_ticks s - last_cpu_start_timestamp th) s;
       Some (cancel_cpu_suspend_watchdog p s1) }
     else Some s }"

text \<open>What it does for the heir; the result tells whether the heir may run.\<close>

definition dispatch_heir :: "addr \<Rightarrow> 'a cg_kernel_scheme \<Rightarrow> (bool \<times> 'a cg_kernel_scheme) option" where
  "dispatch_heir t s = do {
     th \<leftarrow> threads s t;
     if is_added_to_cgroup th
     then do {
       p \<leftarrow> cgroup th;
       cg \<leftarrow> cgs s p;
       if cpu_quota_available cg = 0
       then do {
         (sc, s1) \<leftarrow> CORE_cgroup_Suspend (Some p) STATES_WAITING_FOR_CGROUP_CPU_QUOTA s;
         Some (False, s1) }
       else do {
         let s1 = upd_thread t (last_cpu_start_timestamp_update (\<lambda>_. wd_ticks s)) s;
         s2 \<leftarrow> (if Watchdog_Is_scheduled (CPU_SUSPEND p) s1 then Some s1 else set_cpu_suspend_watchdog p s1);
         Some (True, s2) } }
     else Some (True, s) }"

text \<open>The end of \<open>_Heap_Free\<close>, for a block that the heap has taken back.\<close>

definition heap_free_uncharge :: "addr \<Rightarrow> 'a cg_kernel_scheme \<Rightarrow> 'a cg_kernel_scheme option" where
  "heap_free_uncharge b s = do {
     blk \<leftarrow> hblocks s b;
     case charged_cgroup blk of
       None \<Rightarrow> Some (s\<lparr>hblocks := (hblocks s)(b := None)\<rparr>)
     | Some p \<Rightarrow> do {
         cg \<leftarrow> cgs s p;
         Some ((upd_cg p (\<lambda>cg. if should_charge_next_free cg
                   then cg\<lparr>mem_quota_available := mem_quota_available cg + requested_size blk\<rparr>
                   else cg\<lparr>should_charge_next_free := True\<rparr>) s)
               \<lparr>hblocks := (hblocks s)(b := None)\<rparr>) } }"

text \<open>The end of \<open>_Heap_Allocate_aligned_with_boundary\<close>, for a new block at \<open>b\<close>. The callback
  is the application's; it gets its argument and the size.\<close>

definition heap_alloc_charge ::
  "(addr \<Rightarrow> ptr \<Rightarrow> u64 \<Rightarrow> 'a cg_kernel_scheme \<Rightarrow> 'a cg_kernel_scheme option) \<Rightarrow> addr \<Rightarrow> u64 \<Rightarrow> 'a cg_kernel_scheme \<Rightarrow>
     (ptr \<times> 'a cg_kernel_scheme) option" where
  "heap_alloc_charge callback b charge_size s = do {
     let uncharged = s\<lparr>hblocks := (hblocks s)(b \<mapsto> \<lparr>requested_size = charge_size, charged_cgroup = None\<rparr>)\<rparr>;
     th \<leftarrow> (case executing s of None \<Rightarrow> Some None | Some t \<Rightarrow> map_option Some (threads s t));
     case th of
       None \<Rightarrow> Some (Some b, uncharged)
     | Some th \<Rightarrow>
         if \<not> is_added_to_cgroup th then Some (Some b, uncharged)
         else do {
           p \<leftarrow> cgroup th;
           let s1 = s\<lparr>hblocks := (hblocks s)(b \<mapsto> \<lparr>requested_size = charge_size, charged_cgroup = Some p\<rparr>)\<rparr>;
           cg \<leftarrow> cgs s1 p;
           s2 \<leftarrow> (if charge_size > mem_quota_available cg
                   then (case shrink_callback cg of None \<Rightarrow> Some s1 | Some f \<Rightarrow> callback f (shrink_arg cg) charge_size s1)
                   else Some s1);
           cg2 \<leftarrow> cgs s2 p;
           if charge_size > mem_quota_available cg2
           then do {
             s3 \<leftarrow> heap_free_uncharge b (upd_cg p (should_charge_next_free_update (\<lambda>_. False)) s2);
             Some (None, s3) }
           else Some (Some b, upd_cg p (\<lambda>cg. cg\<lparr>mem_quota_available := mem_quota_available cg - charge_size\<rparr>) s2) } }"

section \<open>Suspending and resuming\<close>

lemma upd_cg_sel [simp]:
  "threads (upd_cg p f s) = threads s" "mem (upd_cg p f s) = mem s" "cgcfgs (upd_cg p f s) = cgcfgs s"
  "wd_header (upd_cg p f s) = wd_header s" "wd_ticks (upd_cg p f s) = wd_ticks s"
  "hblocks (upd_cg p f s) = hblocks s" "Cgroup_Information (upd_cg p f s) = Cgroup_Information s"
  "objs (upd_cg p f s) = objs s" "executing (upd_cg p f s) = executing s"
  "cgs (upd_cg p f s) = (cgs s)(p := map_option f (cgs s p))" "thread_table (upd_cg p f s) = thread_table s"
  by (simp_all add: upd_cg_def)

lemma dom_upd_cg [simp]: "dom (\<lambda>a. if a = p then map_option f (h p) else h a) = dom h"
    "dom (h(p := map_option f (h p))) = dom h"
  by (auto simp: dom_def)

lemma find_filter: "find P xs = (case filter P xs of [] \<Rightarrow> None | x # _ \<Rightarrow> Some x)"
  by (induction xs) auto

lemma upd_thread_cg [simp]:
  "cgs (upd_thread t f s) = cgs s" "cgcfgs (upd_thread t f s) = cgcfgs s"
  "wd_header (upd_thread t f s) = wd_header s" "wd_ticks (upd_thread t f s) = wd_ticks s"
  by (simp_all add: upd_thread_def)

text \<open>The loops over a group's nodes change the states of its threads and nothing else.\<close>

definition map_states :: "(u32 \<Rightarrow> u32) \<Rightarrow> Thread_cgroup_node list \<Rightarrow> 'a cg_kernel_scheme \<Rightarrow> 'a cg_kernel_scheme" where
  "map_states f ns s = s\<lparr>threads := \<lambda>t. if t \<in> node_thread ` set ns
     then map_option (current_state_update f) (threads s t) else threads s t\<rparr>"

lemma map_states_sel [simp]:
  "cgs (map_states f ns s) = cgs s" "cgcfgs (map_states f ns s) = cgcfgs s" "wd_header (map_states f ns s) = wd_header s"
  "wd_ticks (map_states f ns s) = wd_ticks s" "mem (map_states f ns s) = mem s"
  "threads (map_states f ns s) t = (if t \<in> node_thread ` set ns then map_option (current_state_update f) (threads s t) else threads s t)"
  by (simp_all add: map_states_def)

lemma for_threads_map:
  assumes step: "\<And>t s. threads s t \<noteq> None \<Longrightarrow> g t s = Some (upd_thread t (current_state_update f) s)"
    and idem: "\<And>x. f (f x) = f x" and live: "\<forall>n \<in> set ns. threads s (node_thread n) \<noteq> None"
  shows "for_threads g ns s = Some (map_states f ns s)"
  using live
proof (induction ns arbitrary: s)
  case (Cons n ns)
  have "\<forall>m \<in> set ns. threads (upd_thread (node_thread n) (current_state_update f) s) (node_thread m) \<noteq> None"
    using Cons.prems by (auto simp: upd_thread_def)
  from Cons.IH [OF this] have "for_threads g (n # ns) s =
      Some (map_states f ns (upd_thread (node_thread n) (current_state_update f) s))"
    using step Cons.prems by simp
  moreover have "map_states f ns (upd_thread (node_thread n) (current_state_update f) s) = map_states f (n # ns) s"
    using idem by (auto simp: map_states_def upd_thread_def fun_eq_iff option.map_comp comp_def
        intro!: kernel.fold_congs option.map_cong)
  ultimately show ?case by simp
qed (simp add: map_states_def)

lemma and_not_idle:
  assumes "(x :: u32) AND st = 0"
  shows "x AND NOT st = x"
proof -
  have "x = (x AND st) OR (x AND NOT st)" by (rule bit_word_eqI) (auto simp: bit_simps)
  then show ?thesis using assms by simp
qed

lemma set_state_loop:
  "\<forall>n \<in> set ns. threads s (node_thread n) \<noteq> None \<Longrightarrow>
     for_threads (\<lambda>t. Thread_Set_state t st) ns s = Some (map_states (\<lambda>x. x OR st) ns s)"
  by (rule for_threads_map) (auto simp: Thread_Set_state_def or.assoc)

lemma clear_state_loop:
  assumes "\<forall>n \<in> set ns. threads s (node_thread n) \<noteq> None"
  shows "for_threads (\<lambda>t. Thread_Clear_state t st) ns s = Some (map_states (\<lambda>x. x AND NOT st) ns s)"
proof (rule for_threads_map [OF _ _ assms])
  fix t and s :: "'a cg_kernel_scheme"
  assume "threads s t \<noteq> None"
  then obtain th where th: "threads s t = Some th" by auto
  have "upd_thread t (current_state_update (\<lambda>x. x AND NOT st)) s = s" if "current_state th AND st = 0"
    using th and_not_idle [OF that] by (simp add: upd_thread_def fun_upd_idem)
  then show "Thread_Clear_state t st s = Some (upd_thread t (current_state_update (\<lambda>x. x AND NOT st)) s)"
    using th by (auto simp: Thread_Clear_state_def)
qed (simp add: and.assoc)

lemma Suspend_effect:
  assumes "cgs s p = Some cg" "cg_state cg AND st = 0" "\<forall>n \<in> set (cg_threads cg). threads s (node_thread n) \<noteq> None"
  shows "CORE_cgroup_Suspend (Some p) st s = Some (RTEMS_SUCCESSFUL,
     map_states (\<lambda>x. x OR st) (cg_threads cg) (upd_cg p (cg_state_update (\<lambda>x. x OR st)) s))"
  using assms by (simp add: CORE_cgroup_Suspend_def set_state_loop)

lemma Resume_effect:
  assumes "cgs s p = Some cg" "cg_state cg AND st \<noteq> 0" "st AND STATES_BLOCKED \<noteq> 0"
    "cg_state cg AND NOT st AND STATES_BLOCKED = 0" "\<forall>n \<in> set (cg_threads cg). threads s (node_thread n) \<noteq> None"
  shows "CORE_cgroup_Resume (Some p) st s = Some (RTEMS_SUCCESSFUL,
     map_states (\<lambda>x. x AND NOT st) (cg_threads cg) (upd_cg p (cg_state_update (\<lambda>x. x AND NOT st)) s))"
  using assms by (simp add: CORE_cgroup_Resume_def Let_def clear_state_loop)

text \<open>The members of a group as threads with their state.\<close>

definition member_state :: "'a cg_kernel_scheme \<Rightarrow> Thread_cgroup_node \<Rightarrow> u32" where
  "member_state s n = (case threads s (node_thread n) of None \<Rightarrow> 0 | Some th \<Rightarrow> current_state th)"

lemma member_state_map:
  "n \<in> set ns \<Longrightarrow> threads s (node_thread n) \<noteq> None \<Longrightarrow> member_state (map_states f ns s) n = f (member_state s n)"
  by (auto simp: member_state_def)

lemma member_state_upd_cg [simp]: "member_state (upd_cg p f s) n = member_state s n"
  by (simp add: member_state_def)

lemma or_and_not: "(x :: u32) AND st = 0 \<Longrightarrow> (x OR st) AND NOT st = x"
  using and_not_idle [of x st] by (simp add: bit.conj_disj_distrib2)

lemma and_not_self [simp]: "(st :: u32) AND NOT st AND b = 0"
  by (simp flip: and.assoc)

lemma or_and_self: "((x :: u32) OR st) AND st = st"
  by (rule bit_word_eqI) (auto simp: bit_simps)

lemma states_back:
  assumes "\<forall>n \<in> set ns. member_state s n AND st = 0"
  shows "threads (map_states (\<lambda>x. x AND NOT st) ns (map_states (\<lambda>x. x OR st) ns s)) = threads s"
proof
  fix t
  show "threads (map_states (\<lambda>x. x AND NOT st) ns (map_states (\<lambda>x. x OR st) ns s)) t = threads s t"
  proof (cases "threads s t")
    case (Some th)
    have "(current_state th OR st) AND NOT st = current_state th" if "t \<in> node_thread ` set ns"
      using that assms Some or_and_not [of "current_state th" st] by (auto simp: member_state_def)
    then show ?thesis using Some by (auto simp: image_iff)
  qed auto
qed

text \<open>Suspending a ready group blocks every one of its tasks, and resuming it with the same state bit
  restores the complete kernel state.\<close>

theorem cg_suspend_resume:
  assumes "cgs s p = Some cg" "cg_state cg = STATES_READY" "st AND STATES_BLOCKED \<noteq> 0"
    "\<forall>n \<in> set (cg_threads cg). threads s (node_thread n) \<noteq> None \<and> member_state s n AND st = 0"
  shows "\<exists>s1. CORE_cgroup_Suspend (Some p) st s = Some (RTEMS_SUCCESSFUL, s1) \<and>
     (\<forall>n \<in> set (cg_threads cg). member_state s1 n AND st = st) \<and>
     CORE_cgroup_Resume (Some p) st s1 = Some (RTEMS_SUCCESSFUL, s)"
proof -
  let ?ns = "cg_threads cg" and ?up = "upd_cg p (cg_state_update (\<lambda>x. x OR st)) s"
  let ?s1 = "map_states (\<lambda>x. x OR st) ?ns ?up"
  have sus: "CORE_cgroup_Suspend (Some p) st s = Some (RTEMS_SUCCESSFUL, ?s1)"
    using assms by (intro Suspend_effect) (simp_all add: STATES_READY_def)
  have st: "st \<noteq> 0" using assms(3) by auto
  have cg1: "cgs ?s1 p = Some (cg\<lparr>cg_state := st\<rparr>)" using assms(1,2) by (simp add: STATES_READY_def)
  have live: "\<forall>n \<in> set ?ns. threads ?s1 (node_thread n) \<noteq> None" using assms(4) by auto
  have "CORE_cgroup_Resume (Some p) st ?s1 = Some (RTEMS_SUCCESSFUL,
      map_states (\<lambda>x. x AND NOT st) ?ns (upd_cg p (cg_state_update (\<lambda>x. x AND NOT st)) ?s1))"
    using cg1 live assms(3) st by (intro Resume_effect [of _ _ "cg\<lparr>cg_state := st\<rparr>", simplified]) simp_all
  also have "map_states (\<lambda>x. x AND NOT st) ?ns (upd_cg p (cg_state_update (\<lambda>x. x AND NOT st)) ?s1) = s" (is "?X = s")
  proof -
    have X: "?X = s\<lparr>threads := threads ?X, cgs := cgs ?X\<rparr>" by (simp add: map_states_def upd_cg_def)
    have "threads ?X = threads (map_states (\<lambda>x. x AND NOT st) ?ns (map_states (\<lambda>x. x OR st) ?ns s))"
      by (simp add: fun_eq_iff)
    also have "\<dots> = threads s" using assms(4) by (intro states_back) simp
    finally have th: "threads ?X = threads s" .
    have "cg_state_update (\<lambda>x. x AND NOT st) (cg\<lparr>cg_state := st\<rparr>) = cg" using assms(2) by (simp add: STATES_READY_def)
    then have "cgs ?X = cgs s" using assms(1,2) by (auto simp: STATES_READY_def fun_upd_idem)
    then show ?thesis using th by (subst X) simp
  qed
  finally have "CORE_cgroup_Resume (Some p) st ?s1 = Some (RTEMS_SUCCESSFUL, s)" .
  moreover have "\<forall>n \<in> set ?ns. member_state ?s1 n AND st = st"
    using assms(4) by (simp add: member_state_map or_and_self)
  ultimately show ?thesis using sus by blast
qed

lemma Resume_still_blocked:
  assumes "cgs s p = Some cg" "cg_state cg AND st \<noteq> 0" "st AND STATES_BLOCKED \<noteq> 0"
    "cg_state cg AND NOT st AND STATES_BLOCKED \<noteq> 0"
  shows "CORE_cgroup_Resume (Some p) st s =
     Some (RTEMS_SUCCESSFUL, upd_cg p (cg_state_update (\<lambda>x. x AND NOT st)) s)"
  using assms by (simp add: CORE_cgroup_Resume_def Let_def)

lemmas cg_states = STATES_WAITING_FOR_CGROUP_CPU_QUOTA_def STATES_WAITING_FOR_CGROUP_MEMORY_def
  STATES_BLOCKED_def STATES_READY_def

lemma cg_bits:
  "STATES_WAITING_FOR_CGROUP_CPU_QUOTA AND STATES_BLOCKED \<noteq> 0" "STATES_WAITING_FOR_CGROUP_MEMORY AND STATES_BLOCKED \<noteq> 0"
  "(STATES_WAITING_FOR_CGROUP_CPU_QUOTA OR STATES_WAITING_FOR_CGROUP_MEMORY) AND NOT STATES_WAITING_FOR_CGROUP_CPU_QUOTA =
     STATES_WAITING_FOR_CGROUP_MEMORY"
  "STATES_WAITING_FOR_CGROUP_CPU_QUOTA AND STATES_WAITING_FOR_CGROUP_MEMORY = 0"
  "STATES_WAITING_FOR_CGROUP_MEMORY \<noteq> 0" "STATES_WAITING_FOR_CGROUP_CPU_QUOTA \<noteq> 0"
  by (simp_all add: cg_states)

text \<open>Two overlapping suspensions lose a wake-up. When a group is suspended for processor time and for
  memory and then resumed for both in the same order, the group is ready again but its tasks keep the
  processor-time bit: the first resumption clears the group's bit only, because the group is still
  blocked, and the second clears the other bit only.\<close>

theorem cg_overlapping_suspends:
  assumes "cgs s p = Some cg" "cg_state cg = STATES_READY"
    "\<forall>n \<in> set (cg_threads cg). threads s (node_thread n) \<noteq> None"
  shows "\<exists>s1 s2 s3 s4.
     CORE_cgroup_Suspend (Some p) STATES_WAITING_FOR_CGROUP_CPU_QUOTA s = Some (RTEMS_SUCCESSFUL, s1) \<and>
     CORE_cgroup_Suspend (Some p) STATES_WAITING_FOR_CGROUP_MEMORY s1 = Some (RTEMS_SUCCESSFUL, s2) \<and>
     CORE_cgroup_Resume (Some p) STATES_WAITING_FOR_CGROUP_CPU_QUOTA s2 = Some (RTEMS_SUCCESSFUL, s3) \<and>
     CORE_cgroup_Resume (Some p) STATES_WAITING_FOR_CGROUP_MEMORY s3 = Some (RTEMS_SUCCESSFUL, s4) \<and>
     cgs s4 p = Some cg \<and>
     (\<forall>n \<in> set (cg_threads cg). member_state s4 n AND STATES_WAITING_FOR_CGROUP_CPU_QUOTA \<noteq> 0)"
proof -
  let ?Q = STATES_WAITING_FOR_CGROUP_CPU_QUOTA and ?M = STATES_WAITING_FOR_CGROUP_MEMORY and ?ns = "cg_threads cg"
  define s1 where "s1 = map_states (\<lambda>x. x OR ?Q) ?ns (upd_cg p (cg_state_update (\<lambda>x. x OR ?Q)) s)"
  define s2 where "s2 = map_states (\<lambda>x. x OR ?M) ?ns (upd_cg p (cg_state_update (\<lambda>x. x OR ?M)) s1)"
  define s3 where "s3 = upd_cg p (cg_state_update (\<lambda>x. x AND NOT ?Q)) s2"
  define s4 where "s4 = map_states (\<lambda>x. x AND NOT ?M) ?ns (upd_cg p (cg_state_update (\<lambda>x. x AND NOT ?M)) s3)"
  have zero: "cg_state cg = 0" using assms(2) by (simp add: STATES_READY_def)
  have c: "cgs s1 p = Some (cg\<lparr>cg_state := ?Q\<rparr>)" "cgs s2 p = Some (cg\<lparr>cg_state := ?Q OR ?M\<rparr>)"
    "cgs s3 p = Some (cg\<lparr>cg_state := ?M\<rparr>)" "cgs s4 p = Some cg"
    using assms(1) zero cg_bits(3) by (simp_all add: s1_def s2_def s3_def s4_def)
  have l1: "\<forall>n \<in> set ?ns. threads s1 (node_thread n) \<noteq> None" using assms(3) by (auto simp: s1_def)
  have l2: "\<forall>n \<in> set ?ns. threads s2 (node_thread n) \<noteq> None" using l1 by (auto simp: s2_def)
  have l3: "\<forall>n \<in> set ?ns. threads s3 (node_thread n) \<noteq> None" using l2 by (simp add: s3_def)
  have "CORE_cgroup_Suspend (Some p) ?Q s = Some (RTEMS_SUCCESSFUL, s1)"
    unfolding s1_def using assms zero by (intro Suspend_effect) simp_all
  moreover have "CORE_cgroup_Suspend (Some p) ?M s1 = Some (RTEMS_SUCCESSFUL, s2)"
    unfolding s2_def using c l1 cg_bits(4) by (intro Suspend_effect [of _ _ "cg\<lparr>cg_state := ?Q\<rparr>", simplified]) simp_all
  moreover have "CORE_cgroup_Resume (Some p) ?Q s2 = Some (RTEMS_SUCCESSFUL, s3)"
    unfolding s3_def by (intro Resume_still_blocked [OF c(2)]) (simp_all add: cg_states)
  moreover have "CORE_cgroup_Resume (Some p) ?M s3 = Some (RTEMS_SUCCESSFUL, s4)"
    unfolding s4_def using c l3 cg_bits(2,5) by (intro Resume_effect [of _ _ "cg\<lparr>cg_state := ?M\<rparr>", simplified]) simp_all
  moreover have "member_state s4 n AND ?Q \<noteq> 0" if n: "n \<in> set ?ns" for n
  proof -
    have "member_state s4 n = ((member_state s n OR ?Q) OR ?M) AND NOT ?M"
      using n assms(3) l1 l2 l3 by (simp add: s4_def s3_def s2_def s1_def member_state_map)
    moreover have "(((x :: u32) OR ?Q) OR ?M) AND NOT ?M AND ?Q = ?Q" for x
      by (rule bit_word_eqI) (auto simp: bit_simps cg_states bit_numeral_rec)
    ultimately show ?thesis using cg_bits(6) by (simp add: and.assoc)
  qed
  ultimately show ?thesis using c(4) by blast
qed


section \<open>The clock tick\<close>

fun wd_group :: "cg_watchdog \<Rightarrow> cgp" where
  "wd_group (CPU_SUSPEND p) = p"
| "wd_group (CPU_RESUME p) = p"

text \<open>A group whose configuration is there, whose period is not zero as a 32-bit interval, and whose nodes
  belong to live threads that point back to it.\<close>

definition cg_wf :: "'a cg_kernel_scheme \<Rightarrow> cgp \<Rightarrow> bool" where
  "cg_wf s p \<longleftrightarrow> (\<exists>cg c conf. cgs s p = Some cg \<and> cg_config cg = Some c \<and> cgcfgs s c = Some conf \<and>
     (ucast (cpu_period conf) :: u32) \<noteq> 0 \<and>
     (\<forall>n \<in> set (cg_threads cg). \<exists>th. threads s (node_thread n) = Some th \<and> cgroup th = Some p))"

definition wd_inv :: "'a cg_kernel_scheme \<Rightarrow> bool" where
  "wd_inv s \<longleftrightarrow> sorted (map fst (wd_header s)) \<and> distinct (map snd (wd_header s)) \<and>
     (\<forall>w \<in> snd ` set (wd_header s). cg_wf s (wd_group w)) \<and> unat (wd_ticks s) + 2 ^ 32 \<le> 2 ^ 64"

lemma set_wd_insert [simp]: "set (wd_insert e w ws) = insert (e, w) (set ws)"
  by (induction e w ws rule: wd_insert.induct) auto

lemma sorted_wd_insert: "sorted (map fst ws) \<Longrightarrow> sorted (map fst (wd_insert e w ws))"
  by (induction e w ws rule: wd_insert.induct) auto

lemma distinct_wd_insert: "distinct (map snd ws) \<Longrightarrow> w \<notin> snd ` set ws \<Longrightarrow> distinct (map snd (wd_insert e w ws))"
  by (induction e w ws rule: wd_insert.induct) (auto simp: image_iff)

text \<open>What the routines leave alone: configurations, members, and which thread is in which group.\<close>

definition cg_frame :: "'a cg_kernel_scheme \<Rightarrow> 'a cg_kernel_scheme \<Rightarrow> bool" where
  "cg_frame s s' \<longleftrightarrow> cgcfgs s' = cgcfgs s \<and> wd_ticks s' = wd_ticks s \<and>
     (\<forall>p. map_option (\<lambda>cg. (cg_config cg, cg_threads cg)) (cgs s' p) =
          map_option (\<lambda>cg. (cg_config cg, cg_threads cg)) (cgs s p)) \<and>
     (\<forall>t. map_option cgroup (threads s' t) = map_option cgroup (threads s t))"

lemma cg_frameD:
  assumes "cg_frame s s'"
  shows "cgcfgs s' = cgcfgs s" "wd_ticks s' = wd_ticks s"
    "map_option (\<lambda>cg. (cg_config cg, cg_threads cg)) (cgs s' p) = map_option (\<lambda>cg. (cg_config cg, cg_threads cg)) (cgs s p)"
    "map_option cgroup (threads s' t) = map_option cgroup (threads s t)"
  using assms unfolding cg_frame_def by blast+

lemma cg_frame_refl: "cg_frame s s"
  by (simp add: cg_frame_def)

lemma cg_frame_trans: "cg_frame s s' \<Longrightarrow> cg_frame s' s'' \<Longrightarrow> cg_frame s s''"
  by (simp add: cg_frame_def)

lemma cg_frame_wf:
  assumes "cg_frame s s'" "cg_wf s p"
  shows "cg_wf s' p"
proof -
  from assms(2) obtain cg c conf where w: "cgs s p = Some cg" "cg_config cg = Some c" "cgcfgs s c = Some conf"
    "(ucast (cpu_period conf) :: u32) \<noteq> 0"
    "\<forall>n \<in> set (cg_threads cg). \<exists>th. threads s (node_thread n) = Some th \<and> cgroup th = Some p" by (auto simp: cg_wf_def)
  have "map_option (\<lambda>cg. (cg_config cg, cg_threads cg)) (cgs s' p) = Some (cg_config cg, cg_threads cg)"
    unfolding cg_frameD(3) [OF assms(1)] w(1) by simp
  then obtain cg' where cg': "cgs s' p = Some cg'" "cg_config cg' = Some c" "cg_threads cg' = cg_threads cg"
    using w(2) by auto
  have "\<exists>th. threads s' t = Some th \<and> cgroup th = Some p" if "\<exists>th. threads s t = Some th \<and> cgroup th = Some p" for t
  proof -
    from that have "map_option cgroup (threads s' t) = Some (Some p)" using assms(1) by (auto simp: cg_frame_def)
    then show ?thesis by auto
  qed
  moreover have "cgcfgs s' c = Some conf" using assms(1) w(3) by (simp add: cg_frame_def)
  ultimately show ?thesis using w(4,5) cg' unfolding cg_wf_def by (intro exI [of _ cg'] exI [of _ c] exI [of _ conf]) simp
qed

lemma cg_frame_map_states:
  assumes "\<And>cg. cg_config (f cg) = cg_config cg \<and> cg_threads (f cg) = cg_threads cg"
  shows "cg_frame s (map_states g ns (upd_cg p f s))" "cg_frame s (upd_cg p f s)"
  using assms by (auto simp: cg_frame_def option.map_comp comp_def)

text \<open>A group that waits at most for processor time, with tasks that wait for it only when the group does.\<close>

definition quota_only :: "'a cg_kernel_scheme \<Rightarrow> cgp \<Rightarrow> bool" where
  "quota_only s p \<longleftrightarrow> (\<exists>cg. cgs s p = Some cg \<and>
     cg_state cg AND NOT STATES_WAITING_FOR_CGROUP_CPU_QUOTA AND STATES_BLOCKED = 0 \<and>
     (cg_state cg AND STATES_WAITING_FOR_CGROUP_CPU_QUOTA = 0 \<longrightarrow>
        (\<forall>n \<in> set (cg_threads cg). member_state s n AND STATES_WAITING_FOR_CGROUP_CPU_QUOTA = 0)))"

text \<open>A group at the start of a period: full quota, the group not blocked, and no task waiting for quota.\<close>

definition refilled :: "'a cg_kernel_scheme \<Rightarrow> cgp \<Rightarrow> bool" where
  "refilled s p \<longleftrightarrow> (\<exists>cg c conf. cgs s p = Some cg \<and> cg_config cg = Some c \<and> cgcfgs s c = Some conf \<and>
     cpu_quota_available cg = cpu_quota conf \<and> cg_state cg AND STATES_BLOCKED = 0 \<and>
     (\<forall>n \<in> set (cg_threads cg). member_state s n AND STATES_WAITING_FOR_CGROUP_CPU_QUOTA = 0))"

lemma not_blocked:
  assumes "(x :: u32) AND STATES_BLOCKED = 0"
  shows "x AND NOT b AND STATES_BLOCKED = 0" "x AND STATES_WAITING_FOR_CGROUP_CPU_QUOTA = 0"
proof -
  have "x AND NOT b AND STATES_BLOCKED = (x AND STATES_BLOCKED) AND NOT b" by (simp add: ac_simps)
  then show "x AND NOT b AND STATES_BLOCKED = 0" using assms by simp
  have "STATES_BLOCKED AND STATES_WAITING_FOR_CGROUP_CPU_QUOTA = STATES_WAITING_FOR_CGROUP_CPU_QUOTA"
    by (simp add: cg_states)
  then have "x AND STATES_WAITING_FOR_CGROUP_CPU_QUOTA = (x AND STATES_BLOCKED) AND STATES_WAITING_FOR_CGROUP_CPU_QUOTA"
    by (simp add: and.assoc)
  then show "x AND STATES_WAITING_FOR_CGROUP_CPU_QUOTA = 0" using assms by simp
qed

lemma refilled_quota_only: "refilled s p \<Longrightarrow> quota_only s p"
  using not_blocked by (auto simp: refilled_def quota_only_def)

text \<open>Nothing of the group \<open>p\<close> changes between two states, nor the expiry of its resume watchdog.\<close>

definition cg_same :: "cgp \<Rightarrow> 'a cg_kernel_scheme \<Rightarrow> 'a cg_kernel_scheme \<Rightarrow> bool" where
  "cg_same p s s' \<longleftrightarrow> cgs s' p = cgs s p \<and> cgcfgs s' = cgcfgs s \<and>
     (\<forall>cg. cgs s p = Some cg \<longrightarrow> (\<forall>n \<in> set (cg_threads cg). threads s' (node_thread n) = threads s (node_thread n))) \<and>
     (\<forall>e w. wd_group w = p \<longrightarrow> (e, w) \<in> set (wd_header s') \<longleftrightarrow> (e, w) \<in> set (wd_header s))"

lemma cg_same_refl: "cg_same p s s"
  by (simp add: cg_same_def)

lemma cg_same_trans: "cg_same p s s' \<Longrightarrow> cg_same p s' s'' \<Longrightarrow> cg_same p s s''"
  by (auto simp: cg_same_def)

lemma cg_same_refilled: "cg_same p s s' \<Longrightarrow> refilled s p \<Longrightarrow> refilled s' p"
  by (fastforce simp: cg_same_def refilled_def member_state_def)

lemma cg_same_quota_only: "cg_same p s s' \<Longrightarrow> quota_only s p \<Longrightarrow> quota_only s' p"
  by (fastforce simp: cg_same_def quota_only_def member_state_def)

text \<open>Operations on one group leave the members of another one alone.\<close>

lemma map_states_other:
  assumes "cg_wf s p" "cg_wf s q" "p \<noteq> q" "cgs s q = Some cq" "cgs s p = Some cg" "n \<in> set (cg_threads cg)"
  shows "threads (map_states f (cg_threads cq) s') (node_thread n) = threads s' (node_thread n)"
proof -
  have "node_thread n \<notin> node_thread ` set (cg_threads cq)"
  proof
    assume "node_thread n \<in> node_thread ` set (cg_threads cq)"
    then have "\<exists>th. threads s (node_thread n) = Some th \<and> cgroup th = Some q"
      using assms(2,4) by (auto simp: cg_wf_def)
    moreover have "\<exists>th. threads s (node_thread n) = Some th \<and> cgroup th = Some p"
      using assms(1,5,6) by (auto simp: cg_wf_def)
    ultimately show False using assms(3) by auto
  qed
  then show ?thesis by simp
qed

text \<open>What a call on group \<open>p\<close> keeps: the frame, the watchdogs, and all other groups.\<close>

definition cg_local :: "cgp \<Rightarrow> 'a cg_kernel_scheme \<Rightarrow> 'a cg_kernel_scheme \<Rightarrow> bool" where
  "cg_local p s s' \<longleftrightarrow> cg_frame s s' \<and> (\<forall>q. cg_wf s q \<longrightarrow> q \<noteq> p \<longrightarrow> cg_same q s s')"

lemma cg_localD: "cg_local p s s' \<Longrightarrow> cg_wf s q \<Longrightarrow> q \<noteq> p \<Longrightarrow> cg_same q s s'"
  unfolding cg_local_def by blast

lemma cg_local_refl: "cg_local p s s"
  by (simp add: cg_local_def cg_frame_refl cg_same_refl)

lemma cg_local_trans: "cg_local p s s' \<Longrightarrow> cg_local p s' s'' \<Longrightarrow> cg_local p s s''"
  unfolding cg_local_def using cg_frame_trans cg_same_trans cg_frame_wf by metis

lemma cg_local_map_states:
  assumes "cg_wf s p" "cgs s p = Some cg" "\<And>cg. cg_config (f cg) = cg_config cg \<and> cg_threads (f cg) = cg_threads cg"
  shows "cg_local p s (map_states g (cg_threads cg) (upd_cg p f s))"
  unfolding cg_local_def
proof (intro conjI allI impI)
  show "cg_frame s (map_states g (cg_threads cg) (upd_cg p f s))" using assms(3) by (rule cg_frame_map_states)
  fix q assume q: "cg_wf s q" "q \<noteq> p"
  have "threads (map_states g (cg_threads cg) (upd_cg p f s)) (node_thread n) = threads s (node_thread n)"
    if "cgs s q = Some cq" "n \<in> set (cg_threads cq)" for n cq
    using map_states_other [OF q(1) assms(1) q(2) assms(2) that, of g "upd_cg p f s"] by simp
  then show "cg_same q s (map_states g (cg_threads cg) (upd_cg p f s))"
    using q(2) by (simp add: cg_same_def del: map_states_sel(6)) 
qed

lemma cg_local_upd_cg:
  assumes "\<And>cg. cg_config (f cg) = cg_config cg \<and> cg_threads (f cg) = cg_threads cg"
  shows "cg_local p s (upd_cg p f s)"
  unfolding cg_local_def
proof (intro conjI allI impI)
  show "cg_frame s (upd_cg p f s)" using assms by (rule cg_frame_map_states)
  fix q assume "q \<noteq> p"
  then show "cg_same q s (upd_cg p f s)" by (simp add: cg_same_def)
qed

lemma cg_wf_obtain:
  assumes "cg_wf s p"
  obtains cg where "cgs s p = Some cg" "\<forall>n \<in> set (cg_threads cg). threads s (node_thread n) \<noteq> None"
  using assms by (fastforce simp: cg_wf_def)

lemma suspend_routine_ok:
  assumes "cg_wf s p"
  obtains s1 where "cpu_suspend_routine p s = Some s1" "cg_local p s s1" "wd_header s1 = wd_header s"
proof -
  obtain cg where cg: "cgs s p = Some cg" "\<forall>n \<in> set (cg_threads cg). threads s (node_thread n) \<noteq> None"
    using assms by (rule cg_wf_obtain)
  show thesis
  proof (cases "cg_state cg AND STATES_WAITING_FOR_CGROUP_CPU_QUOTA = 0")
    case True
    show thesis
      by (rule that [of "map_states (\<lambda>x. x OR STATES_WAITING_FOR_CGROUP_CPU_QUOTA) (cg_threads cg)
            (upd_cg p (cg_state_update (\<lambda>x. x OR STATES_WAITING_FOR_CGROUP_CPU_QUOTA)) s)"])
        (use Suspend_effect [OF cg(1) True cg(2)] cg_local_map_states [OF assms cg(1)] in \<open>simp_all add: cpu_suspend_routine_def\<close>)
  next
    case False
    then have "cpu_suspend_routine p s = Some s" using cg by (simp add: cpu_suspend_routine_def CORE_cgroup_Suspend_def)
    then show thesis by (rule that) (simp_all add: cg_local_refl)
  qed
qed

definition unblocked :: "'a cg_kernel_scheme \<Rightarrow> cgp \<Rightarrow> bool" where
  "unblocked s p \<longleftrightarrow> (\<exists>cg. cgs s p = Some cg \<and> cg_state cg AND STATES_BLOCKED = 0 \<and>
     (\<forall>n \<in> set (cg_threads cg). member_state s n AND STATES_WAITING_FOR_CGROUP_CPU_QUOTA = 0))"

lemma and_not_and [simp]: "((x :: u32) AND NOT st) AND st = 0"
  by (rule bit_word_eqI) (auto simp: bit_simps)

lemma quota_resume_ok:
  assumes "cg_wf s p"
  obtains sc s1 where "CORE_cgroup_Resume (Some p) STATES_WAITING_FOR_CGROUP_CPU_QUOTA s = Some (sc, s1)"
    "cg_local p s s1" "wd_header s1 = wd_header s" "quota_only s p \<Longrightarrow> unblocked s1 p"
proof -
  let ?Q = STATES_WAITING_FOR_CGROUP_CPU_QUOTA
  obtain cg where cg: "cgs s p = Some cg" "\<forall>n \<in> set (cg_threads cg). threads s (node_thread n) \<noteq> None"
    using assms by (rule cg_wf_obtain)
  consider (idle) "cg_state cg AND ?Q = 0" | (clear) "cg_state cg AND ?Q \<noteq> 0" "cg_state cg AND NOT ?Q AND STATES_BLOCKED = 0"
    | (blocked) "cg_state cg AND ?Q \<noteq> 0" "cg_state cg AND NOT ?Q AND STATES_BLOCKED \<noteq> 0" by blast
  then show thesis
  proof cases
    case idle
    then have "CORE_cgroup_Resume (Some p) ?Q s = Some (RTEMS_INCORRECT_STATE, s)" using cg(1) by (simp add: CORE_cgroup_Resume_def)
    then show thesis
      by (rule that) (use idle and_not_idle [OF idle] cg(1) in \<open>auto simp: cg_local_refl quota_only_def unblocked_def simp flip: and.assoc\<close>)
  next
    case clear
    have "unblocked (map_states (\<lambda>x. x AND NOT ?Q) (cg_threads cg) (upd_cg p (cg_state_update (\<lambda>x. x AND NOT ?Q)) s)) p"
      using cg clear(2) by (simp add: unblocked_def member_state_map and.assoc)
    then show thesis
      by (intro that [OF Resume_effect [OF cg(1) clear(1) cg_bits(1) clear(2) cg(2)]] cg_local_map_states [OF assms cg(1)]) simp_all
  next
    case blocked
    then show thesis
      by (intro that [OF Resume_still_blocked [OF cg(1) blocked(1) cg_bits(1) blocked(2)]] cg_local_upd_cg)
        (use cg(1) in \<open>simp_all add: quota_only_def\<close>)
  qed
qed

lemma member_state_frame: "threads s' = threads s \<Longrightarrow> member_state s' n = member_state s n"
  by (simp add: member_state_def)

lemma resume_routine_ok:
  assumes wf: "cg_wf s p" and free: "CPU_RESUME p \<notin> snd ` set (wd_header s)"
  obtains s1 k where "cpu_resume_routine p s = Some s1" "cg_frame s s1" "k \<noteq> (0 :: u32)"
    "wd_header s1 = wd_insert (ucast k + wd_ticks s) (CPU_RESUME p) (wd_header s)" "quota_only s p \<Longrightarrow> refilled s1 p"
    "\<And>q. cg_wf s q \<Longrightarrow> q \<noteq> p \<Longrightarrow> cg_same q s s1"
proof -
  obtain sc s0 where s0: "CORE_cgroup_Resume (Some p) STATES_WAITING_FOR_CGROUP_CPU_QUOTA s = Some (sc, s0)"
    "cg_local p s s0" "wd_header s0 = wd_header s" "quota_only s p \<Longrightarrow> unblocked s0 p"
    using quota_resume_ok [OF wf] by blast
  have fr: "cg_frame s s0" using s0(2) by (simp add: cg_local_def)
  obtain cg c conf where w: "cgs s0 p = Some cg" "cg_config cg = Some c" "cgcfgs s0 c = Some conf"
    "(ucast (cpu_period conf) :: u32) \<noteq> 0" using cg_frame_wf [OF fr wf] by (auto simp: cg_wf_def)
  let ?s2 = "upd_cg p (cpu_quota_available_update (\<lambda>_. cpu_quota conf)) s0"
  let ?e = "ucast (ucast (cpu_period conf) :: u32) + wd_ticks s :: u64"
  let ?s1 = "?s2\<lparr>wd_header := wd_insert ?e (CPU_RESUME p) (wd_header s)\<rparr>"
  have l2: "cg_local p s ?s2"
    using s0(2) cg_local_upd_cg [of "cpu_quota_available_update (\<lambda>_. cpu_quota conf)" p s0] cg_local_trans by fastforce
  have "cpu_resume_routine p s = Some ?s1"
    using s0(1,3) w free cg_frameD(2) [OF fr]
    by (simp add: cpu_resume_routine_def set_cpu_resume_watchdog_def Watchdog_Per_CPU_insert_ticks_def Watchdog_Is_scheduled_def)
  moreover have "cg_frame s ?s1" using l2 by (simp add: cg_local_def cg_frame_def)
  moreover have "refilled ?s1 p" if "quota_only s p"
    using s0(4) [OF that] w by (auto simp: unblocked_def refilled_def member_state_frame [of ?s1 s0])
  moreover have "cg_same q s ?s1" if "cg_wf s q" "q \<noteq> p" for q
    using cg_localD [OF l2 that] that(2) s0(3) by (auto simp: cg_same_def)
  ultimately show thesis using that w(4) by simp
qed

definition wd_expired :: "'a cg_kernel_scheme \<Rightarrow> nat" where
  "wd_expired s = length (filter (\<lambda>x. fst x \<le> wd_ticks s) (wd_header s))"

lemma filter_wd_insert: "\<not> P (e, w) \<Longrightarrow> filter P (wd_insert e w ws) = filter P ws"
  by (induction e w ws rule: wd_insert.induct) auto

lemma wd_later:
  assumes "k \<noteq> (0 :: u32)" "unat (now :: u64) + 2 ^ 32 \<le> 2 ^ 64"
  shows "now < ucast k + now"
proof -
  have "unat k < 2 ^ 32" using unat_bound [of k] by simp
  then have "unat (ucast k :: u64) + unat now < 2 ^ 64" using assms(2) by (simp add: unat_ucast_up)
  then have "unat (ucast k + now) = unat k + unat now" by (simp add: unat_plus_if' unat_ucast_up)
  moreover have "unat k \<noteq> 0" using assms(1) by (simp add: unat_eq_0)
  ultimately show ?thesis by (simp add: word_less_nat_alt)
qed

text \<open>One round of the tick loop.\<close>

lemma wd_step:
  assumes inv: "wd_inv s" and h: "wd_header s = x # ws" "fst x \<le> wd_ticks s"
  obtains s1 where "wd_routine (snd x) (s\<lparr>wd_header := ws\<rparr>) = Some s1" "wd_inv s1" "cg_frame s s1"
    "Suc (wd_expired s1) = wd_expired s" "\<And>q. cg_wf s q \<Longrightarrow> q \<noteq> wd_group (snd x) \<Longrightarrow> cg_same q s s1"
    "\<And>q. snd x = CPU_RESUME q \<Longrightarrow> quota_only s q \<Longrightarrow>
       refilled s1 q \<and> (\<forall>e. (e, CPU_RESUME q) \<in> set (wd_header s1) \<longrightarrow> wd_ticks s < e)"
    "\<And>q. \<not> Watchdog_Is_scheduled (CPU_SUSPEND q) s \<Longrightarrow> \<not> Watchdog_Is_scheduled (CPU_SUSPEND q) s1"
proof -
  let ?s = "s\<lparr>wd_header := ws\<rparr>"
  have wf_s: "cg_wf ?s q = cg_wf s q" for q by (simp add: cg_wf_def)
  from inv h have i: "sorted (map fst ws)" "distinct (map snd ws)" "snd x \<notin> snd ` set ws" "cg_wf ?s (wd_group (snd x))"
    "\<forall>w \<in> snd ` set ws. cg_wf s (wd_group w)" "unat (wd_ticks s) + 2 ^ 32 \<le> 2 ^ 64"
    by (auto simp: wd_inv_def wf_s)
  have frame: "cg_frame s s'" if "cg_frame ?s s'" for s' using that by (simp add: cg_frame_def)
  have same: "cg_same q s s'" if "cg_same q ?s s'" "q \<noteq> wd_group (snd x)" for q s'
    using that h by (cases x) (auto simp: cg_same_def)
  have quota: "quota_only ?s q = quota_only s q" for q by (simp add: quota_only_def member_state_def)
  have exp: "wd_expired s = Suc (length (filter (\<lambda>x. fst x \<le> wd_ticks s) ws))" using h by (simp add: wd_expired_def)
  show thesis
  proof (cases "snd x")
    case (CPU_SUSPEND p)
    obtain s1 where s1: "cpu_suspend_routine p ?s = Some s1" "cg_local p ?s s1" "wd_header s1 = ws"
      using suspend_routine_ok [of ?s p] i(4) CPU_SUSPEND by auto
    have fr: "cg_frame s s1" using s1(2) frame by (simp add: cg_local_def)
    show thesis
    proof (rule that)
      show "wd_inv s1" using i s1(3) fr cg_frame_wf [OF fr] cg_frameD(2) [OF fr] by (auto simp: wd_inv_def)
      show "Suc (wd_expired s1) = wd_expired s" using exp s1(3) cg_frameD(2) [OF fr] by (simp add: wd_expired_def)
      fix q assume "cg_wf s q" "q \<noteq> wd_group (snd x)"
      then show "cg_same q s s1" using cg_localD [OF s1(2)] wf_s same CPU_SUSPEND by simp
    qed (use s1 fr h CPU_SUSPEND in \<open>auto simp: Watchdog_Is_scheduled_def\<close>)
  next
    case (CPU_RESUME p)
    obtain s1 k where s1: "cpu_resume_routine p ?s = Some s1" "cg_frame ?s s1" "k \<noteq> (0 :: u32)"
      "wd_header s1 = wd_insert (ucast k + wd_ticks s) (CPU_RESUME p) ws" "quota_only s p \<Longrightarrow> refilled s1 p"
      "\<And>q. cg_wf s q \<Longrightarrow> q \<noteq> p \<Longrightarrow> cg_same q ?s s1"
      using resume_routine_ok [of ?s p] i(3,4) CPU_RESUME quota wf_s by auto
    have fr: "cg_frame s s1" using s1(2) by (rule frame)
    have later: "wd_ticks s < ucast k + wd_ticks s" using wd_later [OF s1(3) i(6)] .
    show thesis
    proof (rule that)
      show "wd_inv s1" unfolding wd_inv_def s1(4) cg_frameD(2) [OF fr]
        using i sorted_wd_insert distinct_wd_insert cg_frame_wf [OF fr] CPU_RESUME wf_s by auto
      show "Suc (wd_expired s1) = wd_expired s"
        using exp later cg_frameD(2) [OF fr] by (simp add: wd_expired_def s1(4) filter_wd_insert)
      fix q assume "cg_wf s q" "q \<noteq> wd_group (snd x)"
      then show "cg_same q s s1" using s1(6) same CPU_RESUME by simp
    next
      fix q assume q: "snd x = CPU_RESUME q" "quota_only s q"
      have "(e, CPU_RESUME q) \<notin> set ws" for e using i(3) q(1) by force
      then show "refilled s1 q \<and> (\<forall>e. (e, CPU_RESUME q) \<in> set (wd_header s1) \<longrightarrow> wd_ticks s < e)"
        using q CPU_RESUME s1(4,5) later by auto
    qed (use s1(1) fr h CPU_RESUME in \<open>auto simp: Watchdog_Is_scheduled_def s1(4)\<close>)
  qed
qed

text \<open>The tick loop ends, and what it does to one group.\<close>

lemma tickle_ok:
  assumes "wd_inv s" "cg_wf s p" "quota_only s p" "\<not> Watchdog_Is_scheduled (CPU_SUSPEND p) s"
  shows "\<exists>s'. Watchdog_Do_tickle s = Some s' \<and> wd_inv s' \<and> cg_frame s s' \<and> wd_expired s' = 0 \<and>
     \<not> Watchdog_Is_scheduled (CPU_SUSPEND p) s' \<and>
     ((\<exists>e. (e, CPU_RESUME p) \<in> set (wd_header s) \<and> e \<le> wd_ticks s) \<longrightarrow> refilled s' p) \<and>
     ((\<forall>e. (e, CPU_RESUME p) \<in> set (wd_header s) \<longrightarrow> wd_ticks s < e) \<longrightarrow> cg_same p s s')"
  using assms
proof (induction "wd_expired s" arbitrary: s)
  case 0
  then have later: "\<forall>x \<in> set (wd_header s). wd_ticks s < fst x" by (auto simp: wd_expired_def filter_empty_conv)
  then have "Watchdog_Do_tickle s = Some s"
    by (subst Watchdog_Do_tickle.simps) (auto split: list.split)
  moreover have "\<not> (\<exists>e. (e, CPU_RESUME p) \<in> set (wd_header s) \<and> e \<le> wd_ticks s)" using later by fastforce
  ultimately show ?case using 0(1) [symmetric] 0(2-) cg_frame_refl [of s] cg_same_refl [of p s] by blast
next
  case (Suc k)
  then obtain x ws where h: "wd_header s = x # ws" by (cases "wd_header s") (auto simp: wd_expired_def)
  have now: "fst x \<le> wd_ticks s"
  proof (rule ccontr)
    assume "\<not> fst x \<le> wd_ticks s"
    then have "filter (\<lambda>x. fst x \<le> wd_ticks s) (wd_header s) = []"
      using Suc.prems(1) h by (auto simp: wd_inv_def filter_empty_conv)
    then show False using Suc.hyps(2) by (simp add: wd_expired_def)
  qed
  obtain s1 where s1: "wd_routine (snd x) (s\<lparr>wd_header := ws\<rparr>) = Some s1" "wd_inv s1" "cg_frame s s1"
    "Suc (wd_expired s1) = wd_expired s" "\<And>q. cg_wf s q \<Longrightarrow> q \<noteq> wd_group (snd x) \<Longrightarrow> cg_same q s s1"
    "\<And>q. snd x = CPU_RESUME q \<Longrightarrow> quota_only s q \<Longrightarrow>
       refilled s1 q \<and> (\<forall>e. (e, CPU_RESUME q) \<in> set (wd_header s1) \<longrightarrow> wd_ticks s < e)"
    "\<And>q. \<not> Watchdog_Is_scheduled (CPU_SUSPEND q) s \<Longrightarrow> \<not> Watchdog_Is_scheduled (CPU_SUSPEND q) s1"
    using wd_step [OF Suc.prems(1) h now] by blast
  have run: "Watchdog_Do_tickle s = Watchdog_Do_tickle s1"
    using h now s1(1) by (subst Watchdog_Do_tickle.simps) simp
  have tk: "wd_ticks s1 = wd_ticks s" using cg_frameD(2) [OF s1(3)] .
  have mine: "snd x = CPU_RESUME p" if "wd_group (snd x) = p"
    using that Suc.prems(4) h by (cases "snd x") (auto simp: Watchdog_Is_scheduled_def)
  have quota1: "quota_only s1 p"
  proof (cases "wd_group (snd x) = p")
    case True
    then show ?thesis using s1(6) [OF mine] Suc.prems(3) refilled_quota_only by blast
  next
    case False
    then show ?thesis using s1(5) [OF Suc.prems(2)] Suc.prems(3) cg_same_quota_only by metis
  qed
  obtain s' where s': "Watchdog_Do_tickle s1 = Some s'" "wd_inv s'" "cg_frame s1 s'" "wd_expired s' = 0"
    "\<not> Watchdog_Is_scheduled (CPU_SUSPEND p) s'"
    "(\<exists>e. (e, CPU_RESUME p) \<in> set (wd_header s1) \<and> e \<le> wd_ticks s) \<longrightarrow> refilled s' p"
    "(\<forall>e. (e, CPU_RESUME p) \<in> set (wd_header s1) \<longrightarrow> wd_ticks s < e) \<longrightarrow> cg_same p s1 s'"
    using Suc.hyps(1) [of s1] Suc.hyps(2) s1(2,4) cg_frame_wf [OF s1(3) Suc.prems(2)] quota1 s1(7) [OF Suc.prems(4)] tk
    by auto
  have "refilled s' p" if "(e, CPU_RESUME p) \<in> set (wd_header s)" "e \<le> wd_ticks s" for e
  proof (cases "wd_group (snd x) = p")
    case True
    then show ?thesis using s1(6) [OF mine Suc.prems(3)] s'(7) cg_same_refilled by blast
  next
    case False
    then have "(e, CPU_RESUME p) \<in> set (wd_header s1)"
      using s1(5) [OF Suc.prems(2)] that(1) by (auto simp: cg_same_def)
    then show ?thesis using s'(6) that(2) by blast
  qed
  moreover have "cg_same p s s'" if *: "\<forall>e. (e, CPU_RESUME p) \<in> set (wd_header s) \<longrightarrow> wd_ticks s < e"
  proof -
    have "wd_group (snd x) \<noteq> p"
    proof
      assume "wd_group (snd x) = p"
      then have "(fst x, CPU_RESUME p) \<in> set (wd_header s)" using mine h by (cases x) auto
      then show False using * now by fastforce
    qed
    then have same: "cg_same p s s1" using s1(5) [OF Suc.prems(2)] by metis
    then have "\<forall>e. (e, CPU_RESUME p) \<in> set (wd_header s1) \<longrightarrow> wd_ticks s < e" using * by (auto simp: cg_same_def)
    then show ?thesis using s'(7) same cg_same_trans by blast
  qed
  ultimately show ?case using run s'(1,2,4,5) cg_frame_trans [OF s1(3) s'(3)] by auto
qed

lemma wd_inv_tick:
  assumes "wd_inv s" "unat (wd_ticks s) + 1 + 2 ^ 32 \<le> 2 ^ 64"
  shows "wd_inv (s\<lparr>wd_ticks := wd_ticks s + 1\<rparr>)" "unat (wd_ticks s + 1) = unat (wd_ticks s) + 1"
proof -
  show u: "unat (wd_ticks s + 1) = unat (wd_ticks s) + 1" using assms(2) by (simp add: unat_plus_if')
  show "wd_inv (s\<lparr>wd_ticks := wd_ticks s + 1\<rparr>)" using assms u by (simp add: wd_inv_def cg_wf_def)
qed

lemma tickle_ends:
  assumes "wd_inv s"
  shows "\<exists>s'. Watchdog_Do_tickle s = Some s' \<and> wd_inv s' \<and> cg_frame s s' \<and> wd_expired s' = 0"
  using assms
proof (induction "wd_expired s" arbitrary: s)
  case 0
  then have "\<forall>x \<in> set (wd_header s). wd_ticks s < fst x" by (auto simp: wd_expired_def filter_empty_conv)
  then have "Watchdog_Do_tickle s = Some s" by (subst Watchdog_Do_tickle.simps) (auto split: list.split)
  then show ?case using 0 by (simp add: cg_frame_refl)
next
  case (Suc k)
  then obtain x ws where h: "wd_header s = x # ws" by (cases "wd_header s") (auto simp: wd_expired_def)
  show ?case
  proof (cases "fst x \<le> wd_ticks s")
    case True
    then obtain s1 where s1: "wd_routine (snd x) (s\<lparr>wd_header := ws\<rparr>) = Some s1" "wd_inv s1" "cg_frame s s1"
      "Suc (wd_expired s1) = wd_expired s" using wd_step [OF Suc.prems h] by metis
    have "Watchdog_Do_tickle s = Watchdog_Do_tickle s1"
      using h True s1(1) by (subst Watchdog_Do_tickle.simps) simp
    then show ?thesis using Suc.hyps(1) [of s1] Suc.hyps(2) s1 cg_frame_trans by fastforce
  next
    case False
    then have "filter (\<lambda>x. fst x \<le> wd_ticks s) (wd_header s) = []"
      using Suc.prems(1) h by (auto simp: wd_inv_def filter_empty_conv)
    then show ?thesis using Suc.hyps(2) by (simp add: wd_expired_def)
  qed
qed

text \<open>(C4) The tick handler's loop over the expired group watchdogs ends, although every resume watchdog it
  runs is inserted again: with periods that are not zero as 32-bit intervals, one tick runs each expired
  watchdog once, leaves none expired and keeps the watchdog list well formed.\<close>

theorem cg_tick_terminates:
  assumes "wd_inv s" "unat (wd_ticks s) + 1 + 2 ^ 32 \<le> 2 ^ 64"
  shows "\<exists>s'. Watchdog_Tick s = Some s' \<and> wd_inv s' \<and> wd_ticks s' = wd_ticks s + 1 \<and>
     (\<forall>x \<in> set (wd_header s'). wd_ticks s' < fst x)"
proof -
  obtain s' where s': "Watchdog_Tick s = Some s'" "wd_inv s'" "cg_frame (s\<lparr>wd_ticks := wd_ticks s + 1\<rparr>) s'" "wd_expired s' = 0"
    using tickle_ends [OF wd_inv_tick(1) [OF assms]] by (auto simp: Watchdog_Tick_def)
  then show ?thesis using cg_frameD(2) [OF s'(3)] by (auto simp: wd_expired_def filter_empty_conv)
qed


fun Watchdog_Ticks :: "nat \<Rightarrow> 'a cg_kernel_scheme \<Rightarrow> 'a cg_kernel_scheme option" where
  "Watchdog_Ticks 0 s = Some s"
| "Watchdog_Ticks (Suc k) s = do { s1 \<leftarrow> Watchdog_Tick s; Watchdog_Ticks k s1 }"

lemma period_refills:
  assumes "wd_inv s" "cg_wf s p" "quota_only s p" "\<not> Watchdog_Is_scheduled (CPU_SUSPEND p) s"
    "(e, CPU_RESUME p) \<in> set (wd_header s)" "unat e = unat (wd_ticks s) + n" "0 < n"
    "unat (wd_ticks s) + n + 2 ^ 32 \<le> 2 ^ 64"
  shows "\<exists>s'. Watchdog_Ticks n s = Some s' \<and> refilled s' p"
  using assms
proof (induction n arbitrary: s)
  case (Suc n)
  define s0 where "s0 = s\<lparr>wd_ticks := wd_ticks s + 1\<rparr>"
  have inv: "wd_inv s0" and u: "unat (wd_ticks s0) = unat (wd_ticks s) + 1"
    using wd_inv_tick [OF Suc.prems(1)] Suc.prems(8) by (simp_all add: s0_def)
  have s0: "cg_wf s0 p" "quota_only s0 p" "\<not> Watchdog_Is_scheduled (CPU_SUSPEND p) s0" "wd_header s0 = wd_header s"
    using Suc.prems(2-4) by (simp_all add: s0_def cg_wf_def quota_only_def Watchdog_Is_scheduled_def member_state_def)
  obtain s1 where s1: "Watchdog_Do_tickle s0 = Some s1" "wd_inv s1" "cg_frame s0 s1" "\<not> Watchdog_Is_scheduled (CPU_SUSPEND p) s1"
    "(\<exists>e. (e, CPU_RESUME p) \<in> set (wd_header s) \<and> e \<le> wd_ticks s0) \<longrightarrow> refilled s1 p"
    "(\<forall>e. (e, CPU_RESUME p) \<in> set (wd_header s) \<longrightarrow> wd_ticks s0 < e) \<longrightarrow> cg_same p s0 s1"
    using tickle_ok [OF inv s0(1-3)] s0(4) by auto
  have run: "Watchdog_Ticks (Suc n) s = Watchdog_Ticks n s1" using s1(1) by (simp add: Watchdog_Tick_def s0_def)
  show ?case
  proof (cases n)
    case 0
    then have "e \<le> wd_ticks s0" using Suc.prems(6) u by (simp add: word_le_nat_alt)
    then show ?thesis using s1(5) Suc.prems(5) run 0 by auto
  next
    case (Suc m)
    have only: "e' = e" if "(e', CPU_RESUME p) \<in> set (wd_header s)" for e'
      using that Suc.prems(1,5) inj_onD [of snd "set (wd_header s)" "(e', CPU_RESUME p)" "(e, CPU_RESUME p)"]
      by (simp add: wd_inv_def distinct_map)
    have "wd_ticks s0 < e" using Suc Suc.prems(6) u by (simp add: word_less_nat_alt)
    then have same: "cg_same p s0 s1" using s1(6) only by blast
    have "(e, CPU_RESUME p) \<in> set (wd_header s1)" using same s0(4) Suc.prems(5) by (simp add: cg_same_def)
    moreover have "unat (wd_ticks s1) = unat (wd_ticks s) + 1" using u cg_frameD(2) [OF s1(3)] by simp
    ultimately show ?thesis
      using Suc.IH [OF s1(2) cg_frame_wf [OF s1(3) s0(1)] cg_same_quota_only [OF same s0(2)] s1(4)] Suc Suc.prems(6,8) run by simp
  qed
qed simp

text \<open>(C16) A group that has used up its quota runs again: when its resume watchdog expires in \<open>n\<close> ticks,
  then after \<open>n\<close> ticks the group has its full quota, is not blocked, and none of its tasks waits for
  processor time, whatever the other groups do in between.\<close>

theorem cg_period_refills:
  assumes "wd_inv s" "cg_wf s p" "quota_only s p" "\<not> Watchdog_Is_scheduled (CPU_SUSPEND p) s"
    "(e, CPU_RESUME p) \<in> set (wd_header s)" "unat e = unat (wd_ticks s) + n" "0 < n"
    "unat (wd_ticks s) + n + 2 ^ 32 \<le> 2 ^ 64"
  shows "\<exists>s'. Watchdog_Ticks n s = Some s' \<and> refilled s' p"
  using assms by (rule period_refills)

section \<open>Deleting a group with tasks\<close>

lemma ticks_keep:
  assumes "wd_inv s" "cg_wf s p" "quota_only s p" "\<not> Watchdog_Is_scheduled (CPU_SUSPEND p) s"
    "\<not> Watchdog_Is_scheduled (CPU_RESUME p) s" "unat (wd_ticks s) + k + 2 ^ 32 \<le> 2 ^ 64"
  shows "\<exists>s'. Watchdog_Ticks k s = Some s' \<and> cg_same p s s'"
  using assms
proof (induction k arbitrary: s)
  case (Suc k)
  define s0 where "s0 = s\<lparr>wd_ticks := wd_ticks s + 1\<rparr>"
  have inv: "wd_inv s0" and u: "unat (wd_ticks s0) = unat (wd_ticks s) + 1"
    using wd_inv_tick [OF Suc.prems(1)] Suc.prems(6) by (simp_all add: s0_def)
  have s0: "cg_wf s0 p" "quota_only s0 p" "\<not> Watchdog_Is_scheduled (CPU_SUSPEND p) s0" "wd_header s0 = wd_header s"
    "cg_same p s s0"
    using Suc.prems(2-4) by (simp_all add: s0_def cg_wf_def quota_only_def Watchdog_Is_scheduled_def member_state_def cg_same_def)
  have none: "(e, CPU_RESUME p) \<notin> set (wd_header s)" for e
    using Suc.prems(5) by (force simp: Watchdog_Is_scheduled_def)
  obtain s1 where s1: "Watchdog_Do_tickle s0 = Some s1" "wd_inv s1" "cg_frame s0 s1" "\<not> Watchdog_Is_scheduled (CPU_SUSPEND p) s1"
    "cg_same p s0 s1" using tickle_ok [OF inv s0(1-3)] s0(4) none by auto
  have "\<not> Watchdog_Is_scheduled (CPU_RESUME p) s1"
    using s1(5) none s0(4) by (auto simp: Watchdog_Is_scheduled_def cg_same_def)
  moreover have "unat (wd_ticks s1) + k + 2 ^ 32 \<le> 2 ^ 64" using u cg_frameD(2) [OF s1(3)] Suc.prems(6) by simp
  ultimately obtain s' where s': "Watchdog_Ticks k s1 = Some s'" "cg_same p s1 s'"
    using Suc.IH [OF s1(2) cg_frame_wf [OF s1(3) s0(1)] cg_same_quota_only [OF s1(5) s0(2)] s1(4)] by blast
  have "Watchdog_Ticks (Suc k) s = Some s'" using s1(1) s'(1) by (simp add: Watchdog_Tick_def s0_def)
  then show ?case using cg_same_trans [OF s0(5) cg_same_trans [OF s1(5) s'(2)]] by blast
qed (simp add: cg_same_refl)

lemma wd_inv_remove: "wd_inv s \<Longrightarrow> wd_inv (Watchdog_Remove w s)"
  by (auto simp: wd_inv_def Watchdog_Remove_def cg_wf_def sorted_filter distinct_map_filter)

lemma Destroy_effect:
  "CORE_cgroup_Destroy (Some p) s = s\<lparr>wd_header := filter (\<lambda>(e, w). wd_group w \<noteq> p) (wd_header s)\<rparr>"
proof -
  have g: "wd_group w \<noteq> p \<longleftrightarrow> w \<noteq> CPU_SUSPEND p \<and> w \<noteq> CPU_RESUME p" for w by (cases w) auto
  have keep: "Watchdog_Remove w s = s" if "\<not> Watchdog_Is_scheduled w s" for w and s :: "'a cg_kernel_scheme"
  proof -
    have "filter (\<lambda>(e, w'). w' \<noteq> w) (wd_header s) = wd_header s"
      using that by (intro filter_True) (force simp: Watchdog_Is_scheduled_def)
    then show ?thesis by (simp add: Watchdog_Remove_def)
  qed
  have "CORE_cgroup_Destroy (Some p) s = Watchdog_Remove (CPU_RESUME p) (Watchdog_Remove (CPU_SUSPEND p) s)"
    using keep [of "CPU_SUSPEND p" s] keep [of "CPU_RESUME p" "Watchdog_Remove (CPU_SUSPEND p) s"]
    by (auto simp: CORE_cgroup_Destroy_def cancel_cpu_suspend_watchdog_def cancel_cpu_resume_watchdog_def Let_def)
  then show ?thesis by (simp add: Watchdog_Remove_def g case_prod_unfold conj_commute)
qed

lemma Consume_exhausted:
  assumes "cg_wf s p" "cgs s p = Some cg" "cg_state cg = STATES_READY" "cpu_quota_available cg \<le> delta"
  obtains s1 cg1 where "CORE_cgroup_Consume_cpu_quota p delta s = Some s1" "cg_frame s s1" "wd_header s1 = wd_header s"
    "cgs s1 p = Some cg1" "cg_threads cg1 = cg_threads cg" "quota_only s1 p"
    "\<And>n. n \<in> set (cg_threads cg) \<Longrightarrow> member_state s1 n AND STATES_WAITING_FOR_CGROUP_CPU_QUOTA \<noteq> 0"
proof -
  let ?Q = STATES_WAITING_FOR_CGROUP_CPU_QUOTA and ?s0 = "upd_cg p (cpu_quota_available_update (\<lambda>_. 0)) s"
  let ?s1 = "map_states (\<lambda>x. x OR ?Q) (cg_threads cg) (upd_cg p (cg_state_update (\<lambda>x. x OR ?Q)) ?s0)"
  let ?cg1 = "cg\<lparr>cpu_quota_available := 0, cg_state := ?Q\<rparr>"
  have live: "\<forall>n \<in> set (cg_threads cg). threads s (node_thread n) \<noteq> None" using assms(1,2) by (fastforce simp: cg_wf_def)
  have ready: "cg_state cg = 0" using assms(3) by (simp add: STATES_READY_def)
  have c0: "cgs ?s0 p = Some (cg\<lparr>cpu_quota_available := 0\<rparr>)" using assms(2) by simp
  have c1: "cgs ?s1 p = Some ?cg1" using assms(2) ready by simp
  have run: "CORE_cgroup_Consume_cpu_quota p delta s = Some ?s1"
    using Suspend_effect [OF c0] ready live assms(2,4) by (simp add: CORE_cgroup_Consume_cpu_quota_def)
  have "cg_frame s ?s0" by (rule cg_frame_map_states(2)) simp
  then have fr: "cg_frame s ?s1" by (rule cg_frame_trans) (rule cg_frame_map_states, simp)
  have mem: "member_state ?s1 n AND ?Q \<noteq> 0" if "n \<in> set (cg_threads cg)" for n
    using that live cg_bits(6) by (simp add: member_state_map or_and_self)
  have "quota_only ?s1 p" unfolding quota_only_def using c1 cg_bits(6) by (intro exI [of _ ?cg1]) simp
  then show thesis using that [OF run fr _ c1] mem by simp
qed

text \<open>Deleting a group does not detach its tasks, and it cancels the watchdog that would resume them: a
  task of a deleted group whose time slice uses up the rest of the quota is blocked for processor time
  when it leaves the processor, and no number of clock ticks unblocks it.\<close>

theorem cg_delete_strands_tasks:
  assumes "rtems_cgroup_delete i s = Some (RTEMS_SUCCESSFUL, s1)" "Cgroup_Get i s = Some (Some p)"
    "wd_inv s" "cg_wf s p" "cgs s p = Some cg" "cg_state cg = STATES_READY" "n \<in> set (cg_threads cg)"
    "threads s (node_thread n) = Some th" "is_added_to_cgroup th"
    "cpu_quota_available cg \<le> wd_ticks s - last_cpu_start_timestamp th" "unat (wd_ticks s) + k + 2 ^ 32 \<le> 2 ^ 64"
  shows "\<exists>s2 s3. dispatch_charge (node_thread n) s1 = Some s2 \<and> Watchdog_Ticks k s2 = Some s3 \<and>
     member_state s3 n AND STATES_WAITING_FOR_CGROUP_CPU_QUOTA \<noteq> 0"
proof -
  let ?d = "CORE_cgroup_Destroy (Some p) s"
  obtain info h where s1: "s1 = ?d\<lparr>Cgroup_Information := info, objs := h\<rparr>"
    using assms(1,2) by (auto simp: rtems_cgroup_delete_def Let_def bind_eq_Some_conv)
  have f: "cgs s1 = cgs s" "threads s1 = threads s" "wd_ticks s1 = wd_ticks s" "cgcfgs s1 = cgcfgs s"
    "wd_header s1 = filter (\<lambda>(e, w). wd_group w \<noteq> p) (wd_header s)" by (simp_all add: s1 Destroy_effect)
  have wf1: "cg_wf s1 q = cg_wf s q" for q by (simp add: cg_wf_def f)
  have inv1: "wd_inv s1" using assms(3) by (auto simp: wd_inv_def f wf1 sorted_filter distinct_map_filter)
  have cg: "cgroup th = Some p" using assms(4,5,7,8) by (auto simp: cg_wf_def)
  obtain s2 cg2 where s2: "CORE_cgroup_Consume_cpu_quota p (wd_ticks s - last_cpu_start_timestamp th) s1 = Some s2"
    "cg_frame s1 s2" "wd_header s2 = wd_header s1" "cgs s2 p = Some cg2" "cg_threads cg2 = cg_threads cg" "quota_only s2 p"
    "member_state s2 n AND STATES_WAITING_FOR_CGROUP_CPU_QUOTA \<noteq> 0"
    using Consume_exhausted [of s1 p cg] assms(4-7,10) wf1 f(1) by metis
  let ?s2 = "cancel_cpu_suspend_watchdog p s2"
  have run: "dispatch_charge (node_thread n) s1 = Some ?s2"
    using assms(8,9) cg s2(1) by (simp add: dispatch_charge_def f)
  have h2: "wd_header ?s2 = wd_header s1"
    unfolding cancel_cpu_suspend_watchdog_def Watchdog_Remove_def s2(3) f(5)
    by (auto simp: intro!: filter_cong)
  have frame2: "cgs ?s2 = cgs s2" "threads ?s2 = threads s2" "wd_ticks ?s2 = wd_ticks s" "cgcfgs ?s2 = cgcfgs s2"
    using cg_frameD(2) [OF s2(2)] f(3) by (simp_all add: cancel_cpu_suspend_watchdog_def Watchdog_Remove_def)
  have wf2: "cg_wf ?s2 q" if "cg_wf s q" for q
    using cg_frame_wf [OF s2(2)] wf1 that by (simp add: cg_wf_def frame2)
  have "wd_inv ?s2" using inv1 wf2 wf1 by (simp add: wd_inv_def h2 frame2 f(3))
  moreover have "quota_only ?s2 p" using s2(6) by (simp add: quota_only_def frame2 member_state_def)
  moreover have "\<not> Watchdog_Is_scheduled w ?s2" if "wd_group w = p" for w
    using that by (auto simp: Watchdog_Is_scheduled_def h2 f(5))
  ultimately obtain s3 where s3: "Watchdog_Ticks k ?s2 = Some s3" "cg_same p ?s2 s3"
    using ticks_keep [of ?s2 p k] wf2 [OF assms(4)] assms(11) frame2(3) by auto
  have "threads s3 (node_thread n) = threads s2 (node_thread n)"
    using s3(2) s2(4,5) assms(7) by (auto simp: cg_same_def frame2)
  then have "member_state s3 n = member_state s2 n" by (simp add: member_state_def)
  then show ?thesis using run s3(1) s2(7) by auto
qed

section \<open>Memory\<close>

text \<open>The bytes charged to a group, and the accounting invariant: the quota that is left and the bytes of
  the live blocks add up to the group's limit.\<close>

definition charged :: "'a cg_kernel_scheme \<Rightarrow> cgp \<Rightarrow> int" where
  "charged s p = owned (\<lambda>b. if charged_cgroup b = Some p then int (unat (requested_size b)) else 0) (hblocks s)"

definition mem_inv :: "(cgp \<Rightarrow> u64) \<Rightarrow> 'a cg_kernel_scheme \<Rightarrow> bool" where
  "mem_inv L s \<longleftrightarrow> finite (dom (hblocks s)) \<and>
     (\<forall>b blk p. hblocks s b = Some blk \<longrightarrow> charged_cgroup blk = Some p \<longrightarrow> cgs s p \<noteq> None) \<and>
     (\<forall>p cg. cgs s p = Some cg \<longrightarrow> should_charge_next_free cg \<and>
        int (unat (mem_quota_available cg)) + charged s p = int (unat (L p)))"

lemma mem_invD:
  assumes "mem_inv L s"
  shows "finite (dom (hblocks s))" "hblocks s b = Some blk \<Longrightarrow> charged_cgroup blk = Some p \<Longrightarrow> cgs s p \<noteq> None"
    "cgs s p = Some cg \<Longrightarrow> should_charge_next_free cg"
    "cgs s p = Some cg \<Longrightarrow> int (unat (mem_quota_available cg)) + charged s p = int (unat (L p))"
  using assms unfolding mem_inv_def by blast+

lemma charged_nonneg: "0 \<le> charged s p"
  unfolding charged_def owned_def by (rule sum_nonneg) simp

lemma charged_frame [simp]: "charged (upd_cg p f s) q = charged s q" "charged (s\<lparr>executing := x\<rparr>) q = charged s q"
  by (simp_all add: charged_def)

lemma charged_new:
  "finite (dom (hblocks s)) \<Longrightarrow> hblocks s b = None \<Longrightarrow>
     charged (s\<lparr>hblocks := (hblocks s)(b \<mapsto> blk)\<rparr>) p =
       charged s p + (if charged_cgroup blk = Some p then int (unat (requested_size blk)) else 0)"
  by (simp add: charged_def owned_new)

lemma charged_drop:
  "finite (dom (hblocks s)) \<Longrightarrow> hblocks s b = Some blk \<Longrightarrow>
     charged (s\<lparr>hblocks := (hblocks s)(b := None)\<rparr>) p =
       charged s p - (if charged_cgroup blk = Some p then int (unat (requested_size blk)) else 0)"
  by (simp add: charged_def owned_remove)

lemma int_unat_add:
  assumes "int (unat (x :: u64)) + int (unat y) \<le> int (unat (z :: u64))"
  shows "int (unat (x + y)) = int (unat x) + int (unat y)"
proof -
  have "unat x + unat y < 2 ^ 64" using assms unat_bound [of z] by (simp del: of_nat_unat)
  then have "unat (x + y) = unat x + unat y" by (simp add: unat_plus_if')
  then show ?thesis by simp
qed

lemma int_unat_sub: "(y :: u64) \<le> x \<Longrightarrow> int (unat (x - y)) = int (unat x) - int (unat y)"
  by (simp add: unat_sub_if' word_le_nat_alt)

lemma uncharge_ok:
  assumes inv: "mem_inv L s" and b: "hblocks s b = Some blk"
  shows "\<exists>s'. heap_free_uncharge b s = Some s' \<and> mem_inv L s' \<and> hblocks s' = (hblocks s)(b := None)"
proof (cases "charged_cgroup blk")
  case None
  let ?s = "s\<lparr>hblocks := (hblocks s)(b := None)\<rparr>"
  have "mem_inv L ?s" using mem_invD [OF inv] charged_drop [OF mem_invD(1) [OF inv] b] None
    by (auto simp: mem_inv_def split: if_splits)
  then show ?thesis using b None by (simp add: heap_free_uncharge_def)
next
  case (Some p)
  then obtain cg where cg: "cgs s p = Some cg" using mem_invD(2) [OF inv b] by auto
  note ok = mem_invD(3,4) [OF inv cg]
  let ?cg = "cg\<lparr>mem_quota_available := mem_quota_available cg + requested_size blk\<rparr>"
  let ?s = "s\<lparr>cgs := (cgs s)(p \<mapsto> ?cg), hblocks := (hblocks s)(b := None)\<rparr>"
  have ch: "charged ?s q = charged s q - (if q = p then int (unat (requested_size blk)) else 0)" for q
    using charged_drop [OF mem_invD(1) [OF inv] b, of q] Some by (simp add: charged_def)
  have "0 \<le> charged ?s p" by (rule charged_nonneg)
  then have "int (unat (mem_quota_available cg)) + int (unat (requested_size blk)) \<le> int (unat (L p))"
    using ok(2) ch [of p] by simp
  from int_unat_add [OF this] have q: "int (unat (mem_quota_available ?cg)) + charged ?s p = int (unat (L p))"
    using ok(2) ch [of p] by simp
  have "mem_inv L ?s" unfolding mem_inv_def
  proof (intro conjI allI impI)
    show "finite (dom (hblocks ?s))" using mem_invD(1) [OF inv] by simp
    show "cgs ?s r \<noteq> None" if "hblocks ?s x = Some y" "charged_cgroup y = Some r" for x y r
      using that mem_invD(2) [OF inv] by (auto split: if_splits)
    fix r cr assume r: "cgs ?s r = Some cr"
    show "should_charge_next_free cr" using r ok(1) mem_invD(3) [OF inv] by (auto split: if_splits)
    show "int (unat (mem_quota_available cr)) + charged ?s r = int (unat (L r))"
      using r q ch [of r] mem_invD(4) [OF inv, of r] by (cases "r = p") auto
  qed
  moreover have "heap_free_uncharge b s = Some ?s"
    using b Some cg ok(1) by (simp add: heap_free_uncharge_def upd_cg_def)
  ultimately show ?thesis by auto
qed

text \<open>While the callback runs, the new block is recorded but not yet paid for; a callback is fit when it
  keeps the accounting of all other blocks and leaves the new block alone.\<close>

definition unpaid :: "addr \<Rightarrow> 'a cg_kernel_scheme \<Rightarrow> 'a cg_kernel_scheme" where
  "unpaid b s = s\<lparr>hblocks := (hblocks s)(b := None)\<rparr>"

definition shrink_ok ::
  "(cgp \<Rightarrow> u64) \<Rightarrow> (addr \<Rightarrow> ptr \<Rightarrow> u64 \<Rightarrow> 'a cg_kernel_scheme \<Rightarrow> 'a cg_kernel_scheme option) \<Rightarrow> bool" where
  "shrink_ok L cb \<longleftrightarrow> (\<forall>f arg size' b s. mem_inv L (unpaid b s) \<longrightarrow>
     (\<exists>s'. cb f arg size' s = Some s' \<and> mem_inv L (unpaid b s') \<and> hblocks s' b = hblocks s b \<and>
        dom (cgs s') = dom (cgs s) \<and> threads s' = threads s))"

lemma alloc_charge_ok:
  assumes inv: "mem_inv L s" and b: "hblocks s b = None" and cb: "shrink_ok L cb"
    and th: "executing s = Some t" "threads s t = Some th" "is_added_to_cgroup th" "cgroup th = Some p" "cgs s p = Some cg"
  shows "\<exists>r s'. heap_alloc_charge cb b n s = Some (r, s') \<and> mem_inv L s' \<and>
     (r = None \<and> hblocks s' b = None \<or>
      r = Some b \<and> hblocks s' b = Some \<lparr>requested_size = n, charged_cgroup = Some p\<rparr>) \<and>
     dom (cgs s') = dom (cgs s) \<and> threads s' = threads s"
proof -
  let ?blk = "\<lparr>requested_size = n, charged_cgroup = Some p\<rparr>"
  let ?s1 = "s\<lparr>hblocks := (hblocks s)(b \<mapsto> ?blk)\<rparr>"
  have u1: "unpaid b ?s1 = s" using b by (simp add: unpaid_def fun_upd_idem)
  obtain s2 where s2: "(if n > mem_quota_available cg then (case shrink_callback cg of None \<Rightarrow> Some ?s1
      | Some f \<Rightarrow> cb f (shrink_arg cg) n ?s1) else Some ?s1) = Some s2"
    "mem_inv L (unpaid b s2)" "hblocks s2 b = Some ?blk" "dom (cgs s2) = dom (cgs s)" "threads s2 = threads s"
  proof (cases "n > mem_quota_available cg \<and> shrink_callback cg \<noteq> None")
    case True
    then obtain f where f: "shrink_callback cg = Some f" by auto
    have "mem_inv L (unpaid b ?s1)" using u1 inv by simp
    then obtain s2 where "cb f (shrink_arg cg) n ?s1 = Some s2" "mem_inv L (unpaid b s2)" "hblocks s2 b = hblocks ?s1 b"
      "dom (cgs s2) = dom (cgs ?s1)" "threads s2 = threads ?s1" using cb unfolding shrink_ok_def by blast
    then show thesis using True f by (intro that [of s2]) simp_all
  next
    case False
    then show thesis using u1 inv by (intro that [of ?s1]) auto
  qed
  obtain cg2 where cg2: "cgs s2 p = Some cg2" using s2(4) th(5) by auto
  have u: "cgs (unpaid b s2) = cgs s2" "hblocks (unpaid b s2) = (hblocks s2)(b := None)" by (simp_all add: unpaid_def)
  note I = mem_invD [OF s2(2), unfolded u]
  have fin: "finite (dom (hblocks s2))" using I(1) by (simp add: dom_fun_upd)
  have run: "heap_alloc_charge cb b n s = (if n > mem_quota_available cg2
      then do { s3 \<leftarrow> heap_free_uncharge b (upd_cg p (should_charge_next_free_update (\<lambda>_. False)) s2); Some (None, s3) }
      else Some (Some b, upd_cg p (\<lambda>cg. cg\<lparr>mem_quota_available := mem_quota_available cg - n\<rparr>) s2))"
    using th s2(1) cg2 by (simp add: heap_alloc_charge_def Let_def)
  show ?thesis
  proof (cases "n > mem_quota_available cg2")
    case True
    let ?s3 = "upd_cg p (should_charge_next_free_update (\<lambda>_. False)) s2"
    have "heap_free_uncharge b ?s3 = Some ((unpaid b s2)\<lparr>cgs := (cgs s2)(p \<mapsto> cg2\<lparr>should_charge_next_free := True\<rparr>)\<rparr>)"
      using s2(3) cg2 by (simp add: heap_free_uncharge_def upd_cg_def unpaid_def)
    moreover have "cg2\<lparr>should_charge_next_free := True\<rparr> = cg2" using I(3) [OF cg2] by simp
    ultimately have "heap_free_uncharge b ?s3 = Some (unpaid b s2)" using cg2 by (simp add: fun_upd_idem unpaid_def)
    then show ?thesis using run True s2(2,4,5) by (simp add: u) (simp add: unpaid_def)
  next
    case False
    then have le: "n \<le> mem_quota_available cg2" by simp
    let ?cg = "cg2\<lparr>mem_quota_available := mem_quota_available cg2 - n\<rparr>"
    let ?s3 = "s2\<lparr>cgs := (cgs s2)(p \<mapsto> ?cg)\<rparr>"
    have "(hblocks (unpaid b s2))(b \<mapsto> ?blk) = hblocks s2" using s2(3) by (auto simp: u)
    then have ch: "charged ?s3 q = charged (unpaid b s2) q + (if q = p then int (unat n) else 0)" for q
      using charged_new [of "unpaid b s2" b ?blk q] I(1) by (simp add: charged_def unpaid_def)
    have "mem_inv L ?s3" unfolding mem_inv_def
    proof (intro conjI allI impI)
      show "finite (dom (hblocks ?s3))" using fin by simp
      show "cgs ?s3 r \<noteq> None" if "hblocks ?s3 x = Some y" "charged_cgroup y = Some r" for x y r
        using that I(2) [of x y r] s2(3) by (cases "x = b") auto
      fix r cr assume r: "cgs ?s3 r = Some cr"
      show "should_charge_next_free cr" using r I(3) [OF cg2] I(3) [of r cr] by (auto split: if_splits)
      show "int (unat (mem_quota_available cr)) + charged ?s3 r = int (unat (L r))"
        using r ch [of r] I(4) [of r] cg2 int_unat_sub [OF le] by (cases "r = p") auto
    qed
    moreover have "heap_alloc_charge cb b n s = Some (Some b, ?s3)" using run False cg2 by (simp add: upd_cg_def)
    ultimately show ?thesis using s2(3-5) cg2 by auto
  qed
qed

lemma alloc_uncharged_ok:
  assumes inv: "mem_inv L s" and b: "hblocks s b = None"
    and th: "\<And>t. executing s = Some t \<Longrightarrow> \<exists>th. threads s t = Some th \<and> \<not> is_added_to_cgroup th"
  shows "\<exists>s'. heap_alloc_charge cb b n s = Some (Some b, s') \<and> mem_inv L s' \<and> cgs s' = cgs s \<and> threads s' = threads s"
proof -
  let ?s = "s\<lparr>hblocks := (hblocks s)(b \<mapsto> \<lparr>requested_size = n, charged_cgroup = None\<rparr>)\<rparr>"
  have "heap_alloc_charge cb b n s = Some (Some b, ?s)"
    using th by (cases "executing s") (auto simp: heap_alloc_charge_def Let_def)
  moreover have "mem_inv L ?s"
    using mem_invD [OF inv] charged_new [OF mem_invD(1) [OF inv] b, of "\<lparr>requested_size = n, charged_cgroup = None\<rparr>"]
    by (auto simp: mem_inv_def split: if_splits)
  ultimately show ?thesis by simp
qed

text \<open>Allocations and frees of any tasks in any order. Every task that is in a group is in an existing one.\<close>

definition tasks_ok :: "'a cg_kernel_scheme \<Rightarrow> bool" where
  "tasks_ok s \<longleftrightarrow> (\<forall>t th. threads s t = Some th \<longrightarrow> is_added_to_cgroup th \<longrightarrow> (\<exists>p. cgroup th = Some p \<and> cgs s p \<noteq> None))"

inductive heap_step ::
  "(addr \<Rightarrow> ptr \<Rightarrow> u64 \<Rightarrow> 'a cg_kernel_scheme \<Rightarrow> 'a cg_kernel_scheme option) \<Rightarrow> 'a cg_kernel_scheme \<Rightarrow> 'a cg_kernel_scheme \<Rightarrow> bool"
  for cb where
  run: "threads s t \<noteq> None \<Longrightarrow> heap_step cb s (s\<lparr>executing := Some t\<rparr>)"
| alloc: "hblocks s b = None \<Longrightarrow> heap_alloc_charge cb b n s = Some (r, s') \<Longrightarrow> heap_step cb s s'"
| free: "heap_free_uncharge b s = Some s' \<Longrightarrow> heap_step cb s s'"

lemma tasks_ok_frame: "tasks_ok s \<Longrightarrow> threads s' = threads s \<Longrightarrow> dom (cgs s') = dom (cgs s) \<Longrightarrow> tasks_ok s'"
  unfolding tasks_ok_def by (metis domIff)

lemma uncharge_frame:
  assumes "heap_free_uncharge b s = Some s'"
  shows "hblocks s b \<noteq> None" "dom (cgs s') = dom (cgs s)" "threads s' = threads s" "executing s' = executing s"
proof -
  obtain blk where blk: "hblocks s b = Some blk" using assms by (auto simp: heap_free_uncharge_def bind_eq_Some_conv)
  then show "hblocks s b \<noteq> None" by simp
  have "dom (cgs s') = dom (cgs s) \<and> threads s' = threads s \<and> executing s' = executing s"
  proof (cases "charged_cgroup blk")
    case None
    then show ?thesis using assms blk by (auto simp: heap_free_uncharge_def)
  next
    case (Some p)
    then obtain f where "s' = (upd_cg p f s)\<lparr>hblocks := (hblocks s)(b := None)\<rparr>"
      using assms blk by (auto simp: heap_free_uncharge_def bind_eq_Some_conv)
    then show ?thesis by (auto simp del: fun_upd_apply)
  qed
  then show "dom (cgs s') = dom (cgs s)" "threads s' = threads s" "executing s' = executing s" by simp_all
qed

lemma heap_step_inv:
  assumes "heap_step cb s s'" "shrink_ok L cb" "mem_inv L s" "tasks_ok s"
  shows "mem_inv L s' \<and> tasks_ok s'"
  using assms(1)
proof (cases rule: heap_step.cases)
  case (run t)
  then show ?thesis using assms(3,4) by (simp add: mem_inv_def tasks_ok_def)
next
  case (free b)
  obtain blk where "hblocks s b = Some blk" using uncharge_frame(1) [OF free] by auto
  from uncharge_ok [OF assms(3) this] free have "mem_inv L s'" by simp
  then show ?thesis using uncharge_frame(2,3) [OF free] tasks_ok_frame [OF assms(4)] by simp
next
  case (alloc b n r)
  consider (none) "\<And>t. executing s = Some t \<Longrightarrow> \<exists>th. threads s t = Some th \<and> \<not> is_added_to_cgroup th"
    | (member) t th p cg where "executing s = Some t" "threads s t = Some th" "is_added_to_cgroup th" "cgroup th = Some p"
        "cgs s p = Some cg"
  proof (cases "executing s")
    case None
    then show ?thesis by (intro none) simp
  next
    case (Some t)
    then obtain th where th: "threads s t = Some th"
      using alloc(2) by (cases "threads s t") (auto simp: heap_alloc_charge_def Let_def)
    show ?thesis
    proof (cases "is_added_to_cgroup th")
      case True
      then obtain p cg where "cgroup th = Some p" "cgs s p = Some cg"
        using assms(4) th unfolding tasks_ok_def by blast
      then show ?thesis using member Some th True by blast
    next
      case False
      then show ?thesis using Some th by (intro none) simp
    qed
  qed
  then show ?thesis
  proof cases
    case none
    then show ?thesis using alloc_uncharged_ok [OF assms(3) alloc(1), of cb n] alloc(2) tasks_ok_frame [OF assms(4), of s'] by auto
  next
    case member
    then show ?thesis using alloc_charge_ok [OF assms(3) alloc(1) assms(2) member, of n] alloc(2) tasks_ok_frame [OF assms(4), of s']
      by auto
  qed
qed


section \<open>Leaving a group\<close>

text \<open>Removing a task from a group leaves the task's own link: after \<open>rtems_cgroup_remove_task\<close> the group
  no longer lists the task, but the task still counts as a member, so its processor time and its
  memory are charged to the group, and the group can no longer suspend it.\<close>

theorem cg_remove_keeps_link:
  assumes "Cgroup_Get ci s = Some (Some p)" "Thread_Get ti s = Some t" "cgs s p = Some cg"
    "filter (\<lambda>n. node_thread n = t) (cg_threads cg) = [n]" "threads s t = Some th" "cgroup th = Some p" "is_added_to_cgroup th"
  shows "\<exists>s' cg'. rtems_cgroup_remove_task ci ti s = Some (RTEMS_SUCCESSFUL, s') \<and> cgs s' p = Some cg' \<and>
     thread_count cg' = thread_count cg - 1 \<and> (\<forall>n \<in> set (cg_threads cg'). node_thread n \<noteq> t) \<and>
     threads s' t = Some th \<and>
     dispatch_charge t s' = map_option (cancel_cpu_suspend_watchdog p)
       (CORE_cgroup_Consume_cpu_quota p (wd_ticks s - last_cpu_start_timestamp th) s')"
proof -
  let ?cg = "cg\<lparr>cg_threads := remove1 n (cg_threads cg), thread_count := thread_count cg - 1\<rparr>"
  let ?s = "(upd_cg p (\<lambda>cg. cg\<lparr>cg_threads := remove1 n (cg_threads cg), thread_count := thread_count cg - 1\<rparr>) s)\<lparr>mem := free_block (mem s)\<rparr>"
  have n: "node_thread n = t" using assms(4) by (metis (mono_tags, lifting) filter_eq_Cons_iff)
  have "find (\<lambda>n. node_thread n = t) (cg_threads cg) = Some n"
    using assms(4) by (simp add: find_filter)
  then have "CORE_cgroup_Remove_thread p t s = Some (True, ?s)"
    using assms(3) by (simp add: CORE_cgroup_Remove_thread_def CORE_cgroup_Find_thread_def)
  then have run: "rtems_cgroup_remove_task ci ti s = Some (RTEMS_SUCCESSFUL, ?s)"
    using assms(1,2) by (simp add: rtems_cgroup_remove_task_def)
  have "filter (\<lambda>n. node_thread n = t) (remove1 n (cg_threads cg)) = []"
    using assms(4) by (simp add: filter_remove1)
  then have gone: "\<forall>n \<in> set (cg_threads ?cg). node_thread n \<noteq> t" by (simp add: filter_empty_conv)
  have "dispatch_charge t ?s = map_option (cancel_cpu_suspend_watchdog p)
      (CORE_cgroup_Consume_cpu_quota p (wd_ticks s - last_cpu_start_timestamp th) ?s)"
    using assms(5-7) by (cases "CORE_cgroup_Consume_cpu_quota p (wd_ticks s - last_cpu_start_timestamp th) ?s")
      (simp_all add: dispatch_charge_def)
  then show ?thesis using run gone assms(3,5) by (intro exI [of _ ?s] exI [of _ ?cg]) simp
qed

section \<open>Witnesses\<close>

definition demo_cg_thread :: "u32 \<Rightarrow> Thread_Control" where
  "demo_cg_thread oid = \<lparr>Object_id = oid, container = None, cgroup = Some (30, 0), last_cpu_start_timestamp = 2,
     is_added_to_cgroup = True, current_state = 0\<rparr>"

definition demo_node :: "addr \<Rightarrow> Thread_cgroup_node" where
  "demo_node t = \<lparr>node_thread = t, node_cgroup = (30, 0), node_cpu_usage = 0\<rparr>"

definition demo_cgroup :: CORE_cgroup_Control where
  "demo_cgroup = \<lparr>cg_state = 0, cg_config = Some 60, cg_threads = [demo_node 3, demo_node 4], thread_count = 2,
     max_threads = 10, cpu_usage_total = 0, cpu_quota_available = 5, cpu_period_arrival_time = 0,
     mem_quota_available = 60, shrink_callback = Some 0, shrink_arg = None, should_charge_next_free = True\<rparr>"

definition demo_config :: CORE_cgroup_config where
  "demo_config = \<lparr>cpu_shares = 1, cpu_quota = 5, cpu_period = 10, memory_limit = 100, blkio_limit = 0\<rparr>"

text \<open>Group \<open>(30, 0)\<close> with the tasks 3 and 4, a limit of 100 bytes of which block 70 holds 40, and a
  resume watchdog that expires at tick 10; it is tick 7.\<close>

definition demo_cg :: cg_kernel where
  "demo_cg = mnt_kernel.extend
     (demo_mnt\<lparr>threads := [3 \<mapsto> demo_cg_thread 7, 4 \<mapsto> demo_cg_thread 8], objs := [30 \<mapsto> [\<lparr>obj_id = 0x5a010001, obj_name = 1\<rparr>]]\<rparr>)
     (cg_kernel.fields [(30, 0) \<mapsto> demo_cgroup] [60 \<mapsto> demo_config]
        (Objects_Information_zero\<lparr>maximum_id := 0x5a010001, local_table := Some [Some (30, 0)], allocate := OBJECTS_STATIC,
           deallocate := OBJECTS_STATIC, initial_objects := Some 30\<rparr>)
        7 [(10, CPU_RESUME (30, 0))] [70 \<mapsto> \<lparr>requested_size = 40, charged_cgroup = Some (30, 0)\<rparr>])"

lemma demo_cg_sel [simp]:
  "threads demo_cg = [3 \<mapsto> demo_cg_thread 7, 4 \<mapsto> demo_cg_thread 8]" "cgs demo_cg = [(30, 0) \<mapsto> demo_cgroup]"
  "cgcfgs demo_cg = [60 \<mapsto> demo_config]" "wd_ticks demo_cg = 7" "wd_header demo_cg = [(10, CPU_RESUME (30, 0))]"
  "hblocks demo_cg = [70 \<mapsto> \<lparr>requested_size = 40, charged_cgroup = Some (30, 0)\<rparr>]" "thread_table demo_cg = [3, 4]"
  "objs demo_cg = [30 \<mapsto> [\<lparr>obj_id = 0x5a010001, obj_name = 1\<rparr>]]" "executing demo_cg = Some 3"
  "Cgroup_Information demo_cg = Objects_Information_zero\<lparr>maximum_id := 0x5a010001, local_table := Some [Some (30, 0)],
     allocate := OBJECTS_STATIC, deallocate := OBJECTS_STATIC, initial_objects := Some 30\<rparr>"
  by (simp_all add: demo_cg_def mnt_kernel.defs cg_kernel.defs demo_mnt_def)

lemma demo_cgroup_sel [simp]:
  "cg_state demo_cgroup = STATES_READY" "cg_config demo_cgroup = Some 60" "cg_threads demo_cgroup = [demo_node 3, demo_node 4]"
  "cpu_quota_available demo_cgroup = 5" "should_charge_next_free demo_cgroup" "mem_quota_available demo_cgroup = 60"
  "thread_count demo_cgroup = 2"
  by (simp_all add: demo_cgroup_def STATES_READY_def)

lemma demo_cg_thread_sel [simp]:
  "cgroup (demo_cg_thread oid) = Some (30, 0)" "is_added_to_cgroup (demo_cg_thread oid)" "current_state (demo_cg_thread oid) = 0"
  "last_cpu_start_timestamp (demo_cg_thread oid) = 2" "Object_id (demo_cg_thread oid) = oid"
  "node_thread (demo_node t) = t"
  by (simp_all add: demo_cg_thread_def demo_node_def)

lemma demo_members: "member_state demo_cg (demo_node 3) = 0" "member_state demo_cg (demo_node 4) = 0"
  by (simp_all add: member_state_def)

lemma demo_wf: "cg_wf demo_cg (30, 0)"
  by (simp add: cg_wf_def demo_config_def)

lemma demo_wd_inv: "wd_inv demo_cg"
  using demo_wf by (simp add: wd_inv_def)

lemma demo_quota_only: "quota_only demo_cg (30, 0)"
  by (simp add: quota_only_def STATES_READY_def demo_members)

theorem cg_suspend_resume_witness:
  "\<exists>s1. CORE_cgroup_Suspend (Some (30, 0)) STATES_WAITING_FOR_CGROUP_CPU_QUOTA demo_cg = Some (RTEMS_SUCCESSFUL, s1) \<and>
     CORE_cgroup_Resume (Some (30, 0)) STATES_WAITING_FOR_CGROUP_CPU_QUOTA s1 = Some (RTEMS_SUCCESSFUL, demo_cg)"
  using cg_suspend_resume [of demo_cg "(30, 0)" demo_cgroup STATES_WAITING_FOR_CGROUP_CPU_QUOTA] cg_bits(1)
  by (auto simp: demo_members)

theorem cg_overlapping_suspends_witness:
  "\<exists>s4 :: cg_kernel. cgs s4 (30, 0) = Some demo_cgroup \<and> member_state s4 (demo_node 3) AND STATES_WAITING_FOR_CGROUP_CPU_QUOTA \<noteq> 0"
  using cg_overlapping_suspends [of demo_cg "(30, 0)" demo_cgroup] by auto


theorem cg_tick_terminates_witness:
  "\<exists>s'. Watchdog_Tick demo_cg = Some s' \<and> wd_ticks s' = 8"
  using cg_tick_terminates [OF demo_wd_inv] by auto


theorem cg_period_refills_witness:
  "\<exists>s'. Watchdog_Ticks 3 demo_cg = Some s' \<and> refilled s' (30, 0)"
  using cg_period_refills [OF demo_wd_inv demo_wf demo_quota_only, of 10 3] by (simp add: Watchdog_Is_scheduled_def)

lemma demo_delete: "\<exists>s1. rtems_cgroup_delete 0x5a010001 demo_cg = Some (RTEMS_SUCCESSFUL, s1)"
    "Cgroup_Get 0x5a010001 demo_cg = Some (Some (30, 0))"
  by (simp_all add: rtems_cgroup_delete_def Cgroup_Get_def Objects_Get_def Objects_Get_index_def Destroy_effect
      OBJECTS_INDEX_MINIMUM_def Objects_Close_def obj_read_def obj_write_def Objects_Set_local_object_def Objects_Free_def array_update_def)

theorem cg_delete_strands_tasks_witness:
  "\<exists>s1 s2 s3. rtems_cgroup_delete 0x5a010001 demo_cg = Some (RTEMS_SUCCESSFUL, s1) \<and> dispatch_charge 3 s1 = Some s2 \<and>
     Watchdog_Ticks 1000 s2 = Some s3 \<and> member_state s3 (demo_node 3) AND STATES_WAITING_FOR_CGROUP_CPU_QUOTA \<noteq> 0"
proof -
  obtain s1 where s1: "rtems_cgroup_delete 0x5a010001 demo_cg = Some (RTEMS_SUCCESSFUL, s1)" using demo_delete(1) by blast
  have "\<exists>s2 s3. dispatch_charge (node_thread (demo_node 3)) s1 = Some s2 \<and> Watchdog_Ticks 1000 s2 = Some s3 \<and>
     member_state s3 (demo_node 3) AND STATES_WAITING_FOR_CGROUP_CPU_QUOTA \<noteq> 0"
    by (rule cg_delete_strands_tasks [OF s1 demo_delete(2) demo_wd_inv demo_wf, of demo_cgroup _ "demo_cg_thread 7"]) simp_all
  then show ?thesis using s1 by auto
qed

text \<open>A callback that gives nothing back.\<close>

lemma shrink_ok_none: "shrink_ok L (\<lambda>_ _ _. Some)"
  by (simp add: shrink_ok_def)


theorem cg_remove_keeps_link_witness:
  "\<exists>s' cg'. rtems_cgroup_remove_task 0x5a010001 7 demo_cg = Some (RTEMS_SUCCESSFUL, s') \<and> cgs s' (30, 0) = Some cg' \<and>
     thread_count cg' = 1 \<and> threads s' 3 = Some (demo_cg_thread 7)"
  using cg_remove_keeps_link [OF demo_delete(2), of 7 3 demo_cgroup "demo_node 3" "demo_cg_thread 7"]
  by (auto simp: Thread_Get_def)

end
