(* ===== verification/IoCgroup.thy ===== *)
theory IoCgroup
  imports CoreCgroup
begin

text \<open>
  The block-I/O control groups, \<open>score/src/io_cgroup.c\<close>. One global manager holds the doubly
  linked list of control groups, the sum of their weights and the system bandwidth; every control
  group has bandwidth limits, statistics over a sliding window and a chain of per-thread weights.

  The doubly linked list is the list of its blocks from head to tail. A block that is not on the list
  has null links (the creation and the removal set them), so unlinking such a block makes the list
  head null; \<open>io_unlink\<close> writes that out. All counters are machine words and wrap.
\<close>

section \<open>Data\<close>

record IO_Cgroup_Limit =
  read_bps_limit :: u64
  write_bps_limit :: u64
  window_size_ms :: u32

record IO_Cgroup_Stats =
  read_bytes :: u64
  read_throttled :: u64
  write_bytes :: u64
  write_throttled :: u64
  window_bytes :: u64
  window_start :: u32

datatype IO_Cgroup_Request_Type = IO_CGROUP_READ | IO_CGROUP_WRITE

record IO_Cgroup_Request =
  req_size :: u64
  req_type :: IO_Cgroup_Request_Type

record Thread_Weight_Node =
  node_weight :: u32
  Thread_ID :: u32

record IO_Cgroup_Control =
  io_ID :: u32
  io_limits :: IO_Cgroup_Limit
  io_stats :: IO_Cgroup_Stats
  thread_weights :: "Thread_Weight_Node list"
  io_total_weight :: u32
  io_weight :: u32
  io_bdbuf :: bool

record IO_Cgroup_Manager =
  io_cgroups :: "addr list"
  io_cgroup_count :: u32
  mgr_total_weight :: u32
  system_read_bps :: u64
  system_write_bps :: u64

record io_kernel = cg_kernel +
  iocgs :: "addr \<rightharpoonup> IO_Cgroup_Control"
  io_manager :: "IO_Cgroup_Manager option"
  next_cgroup_id :: u32
  ticks_since_boot :: u32
  ticks_per_second :: u32

section \<open>Manager operations\<close>

definition rtems_io_cgroup_manager_create ::
  "u64 \<Rightarrow> u64 \<Rightarrow> 'a io_kernel_scheme \<Rightarrow> rtems_status_code \<times> 'a io_kernel_scheme" where
  "rtems_io_cgroup_manager_create rbps wbps s =
     (case io_manager s of
        Some _ \<Rightarrow> (RTEMS_SUCCESSFUL, s)
      | None \<Rightarrow>
          (case malloc (mem s) of
             (None, m) \<Rightarrow> (RTEMS_NO_MEMORY, s\<lparr>mem := m\<rparr>)
           | (Some _, m) \<Rightarrow>
               (RTEMS_SUCCESSFUL, s\<lparr>mem := m, io_manager := Some
                  \<lparr>io_cgroups = [], io_cgroup_count = 0, mgr_total_weight = 0,
                   system_read_bps = (if rbps = 0 then 1048576 else rbps),
                   system_write_bps = (if wbps = 0 then 1048576 else wbps)\<rparr>\<rparr>)))"

text \<open>The share of a weight in a bandwidth, in 64-bit arithmetic.\<close>

definition io_share :: "u32 \<Rightarrow> u64 \<Rightarrow> u32 \<Rightarrow> u64" where
  "io_share w bps tw = ucast w * bps div ucast tw"

definition io_apply_share :: "IO_Cgroup_Manager \<Rightarrow> IO_Cgroup_Control \<Rightarrow> IO_Cgroup_Control" where
  "io_apply_share mg g =
     (if io_weight g > 0
      then g\<lparr>io_limits := (io_limits g)
               \<lparr>read_bps_limit := io_share (io_weight g) (system_read_bps mg) (mgr_total_weight mg),
                write_bps_limit := io_share (io_weight g) (system_write_bps mg) (mgr_total_weight mg)\<rparr>\<rparr>
      else g)"

fun io_share_loop ::
  "IO_Cgroup_Manager \<Rightarrow> addr list \<Rightarrow> (addr \<rightharpoonup> IO_Cgroup_Control) \<Rightarrow> (addr \<rightharpoonup> IO_Cgroup_Control) option"
where
  "io_share_loop mg [] h = Some h"
| "io_share_loop mg (c # cs) h = do { g \<leftarrow> h c; io_share_loop mg cs (h(c \<mapsto> io_apply_share mg g)) }"

text \<open>The recomputation of all limits, skipped while the total weight is zero.\<close>

definition io_reweigh :: "'a io_kernel_scheme \<Rightarrow> 'a io_kernel_scheme option" where
  "io_reweigh s = do {
     mg \<leftarrow> io_manager s;
     if mgr_total_weight mg > 0
     then do { h \<leftarrow> io_share_loop mg (io_cgroups mg) (iocgs s); Some (s\<lparr>iocgs := h\<rparr>) }
     else Some s }"

definition rtems_io_cgroup_manager_update_bandwidth ::
  "u64 \<Rightarrow> u64 \<Rightarrow> 'a io_kernel_scheme \<Rightarrow> (rtems_status_code \<times> 'a io_kernel_scheme) option" where
  "rtems_io_cgroup_manager_update_bandwidth rbps wbps s =
     (case io_manager s of
        None \<Rightarrow> Some (RTEMS_NOT_CONFIGURED, s)
      | Some mg \<Rightarrow>
          if rbps = 0 \<or> wbps = 0 then Some (RTEMS_INVALID_NUMBER, s)
          else do {
            s' \<leftarrow> io_reweigh (s\<lparr>io_manager := Some (mg\<lparr>system_read_bps := rbps,
                                                   system_write_bps := wbps\<rparr>)\<rparr>);
            Some (RTEMS_SUCCESSFUL, s') })"

definition rtems_io_cgroup_add_to_manager ::
  "ptr \<Rightarrow> 'a io_kernel_scheme \<Rightarrow> rtems_status_code \<times> 'a io_kernel_scheme" where
  "rtems_io_cgroup_add_to_manager p s =
     (case (p, io_manager s) of
        (None, _) \<Rightarrow> (RTEMS_INVALID_ADDRESS, s)
      | (Some c, None) \<Rightarrow> (RTEMS_NOT_CONFIGURED, s)
      | (Some c, Some mg) \<Rightarrow>
          (RTEMS_SUCCESSFUL, s\<lparr>io_manager := Some (mg\<lparr>io_cgroups := c # io_cgroups mg,
             io_cgroup_count := io_cgroup_count mg + 1\<rparr>)\<rparr>))"

definition io_unlink :: "addr \<Rightarrow> addr list \<Rightarrow> addr list" where
  "io_unlink c l = (if c \<in> set l then remove1 c l else [])"

definition rtems_io_cgroup_remove_from_manager ::
  "ptr \<Rightarrow> 'a io_kernel_scheme \<Rightarrow> rtems_status_code \<times> 'a io_kernel_scheme" where
  "rtems_io_cgroup_remove_from_manager p s =
     (case (p, io_manager s) of
        (None, _) \<Rightarrow> (RTEMS_INVALID_ADDRESS, s)
      | (Some c, None) \<Rightarrow> (RTEMS_NOT_CONFIGURED, s)
      | (Some c, Some mg) \<Rightarrow>
          (RTEMS_SUCCESSFUL, s\<lparr>io_manager := Some (mg\<lparr>io_cgroups := io_unlink c (io_cgroups mg),
             io_cgroup_count := io_cgroup_count mg - 1\<rparr>)\<rparr>))"

definition rtems_io_cgroup_allocate_weight ::
  "ptr \<Rightarrow> u32 \<Rightarrow> 'a io_kernel_scheme \<Rightarrow> (rtems_status_code \<times> 'a io_kernel_scheme) option" where
  "rtems_io_cgroup_allocate_weight p weight s =
     (case p of
        None \<Rightarrow> Some (RTEMS_INVALID_ADDRESS, s)
      | Some c \<Rightarrow>
          if weight = 0 then Some (RTEMS_INVALID_ADDRESS, s)
          else case io_manager s of
            None \<Rightarrow> Some (RTEMS_NOT_CONFIGURED, s)
          | Some mg \<Rightarrow> do {
              g \<leftarrow> iocgs s c;
              s' \<leftarrow> io_reweigh (s\<lparr>iocgs := (iocgs s)(c \<mapsto> g\<lparr>io_weight := weight\<rparr>),
                     io_manager := Some (mg\<lparr>mgr_total_weight :=
                       mgr_total_weight mg - io_weight g + weight\<rparr>)\<rparr>);
              Some (RTEMS_SUCCESSFUL, s') })"

definition rtems_io_cgroup_remove_weight ::
  "ptr \<Rightarrow> 'a io_kernel_scheme \<Rightarrow> (rtems_status_code \<times> 'a io_kernel_scheme) option" where
  "rtems_io_cgroup_remove_weight p s =
     (case (p, io_manager s) of
        (None, _) \<Rightarrow> Some (RTEMS_INVALID_ADDRESS, s)
      | (Some c, None) \<Rightarrow> Some (RTEMS_NOT_CONFIGURED, s)
      | (Some c, Some mg) \<Rightarrow> do {
          g \<leftarrow> iocgs s c;
          s' \<leftarrow> io_reweigh (s\<lparr>iocgs := (iocgs s)(c \<mapsto> g\<lparr>io_weight := 0\<rparr>),
                 io_manager := Some (mg\<lparr>mgr_total_weight := mgr_total_weight mg - io_weight g\<rparr>)\<rparr>);
          Some (RTEMS_SUCCESSFUL, s') })"

section \<open>Creating and deleting control groups\<close>

definition io_stats_zero :: "u32 \<Rightarrow> IO_Cgroup_Stats" where
  "io_stats_zero start = \<lparr>read_bytes = 0, read_throttled = 0, write_bytes = 0,
     write_throttled = 0, window_bytes = 0, window_start = start\<rparr>"

text \<open>\<open>rtems_io_cgroup_create\<close>: the result carries the id stored through \<open>cgroup_id\<close>;
  the first argument says whether that pointer is NULL. Every failure after the allocation of the
  block frees what was allocated.\<close>

definition rtems_io_cgroup_create ::
  "bool \<Rightarrow> u16 \<Rightarrow> IO_Cgroup_Limit option \<Rightarrow> 'a io_kernel_scheme \<Rightarrow>
     (rtems_status_code \<times> u32 option \<times> 'a io_kernel_scheme) option" where
  "rtems_io_cgroup_create id_null w limits s =
     (case limits of
        None \<Rightarrow> Some (RTEMS_INVALID_ADDRESS, None, s)
      | Some lim \<Rightarrow>
          if id_null then Some (RTEMS_INVALID_ADDRESS, None, s)
          else if io_manager s = None then Some (RTEMS_NOT_CONFIGURED, None, s)
          else case malloc (mem s) of
            (None, m) \<Rightarrow> Some (RTEMS_NO_MEMORY, None, s\<lparr>mem := m\<rparr>)
          | (Some c, m) \<Rightarrow> do {
              newid \<leftarrow> Some (next_cgroup_id s);
              s1 \<leftarrow> Some (s\<lparr>mem := m, next_cgroup_id := next_cgroup_id s + 1\<rparr>);
              case malloc (mem s1) of
                (None, m2) \<Rightarrow> Some (RTEMS_NO_MEMORY, None, s1\<lparr>mem := free_block m2\<rparr>)
              | (Some _, m2) \<Rightarrow> do {
                  s2 \<leftarrow> Some (s1\<lparr>mem := m2, iocgs := (iocgs s1)(c \<mapsto>
                          \<lparr>io_ID = newid, io_limits = lim\<lparr>window_size_ms := 1000\<rparr>,
                           io_stats = io_stats_zero (ticks_since_boot s),
                           thread_weights = [], io_total_weight = 0, io_weight = 0,
                           io_bdbuf = True\<rparr>)\<rparr>);
                  case rtems_io_cgroup_add_to_manager (Some c) s2 of
                    (sc, s3) \<Rightarrow>
                      if sc \<noteq> RTEMS_SUCCESSFUL
                      then Some (sc, None, s3\<lparr>mem := free_blocks 2 (mem s3),
                                              iocgs := (iocgs s3)(c := None)\<rparr>)
                      else do {
                        (sc2, s4) \<leftarrow> rtems_io_cgroup_allocate_weight (Some c) (ucast w) s3;
                        if sc2 \<noteq> RTEMS_SUCCESSFUL
                        then (case rtems_io_cgroup_remove_from_manager (Some c) s4 of
                          (_, s5) \<Rightarrow> Some (sc2, None, s5\<lparr>mem := free_blocks 2 (mem s5),
                                              iocgs := (iocgs s5)(c := None)\<rparr>))
                        else Some (RTEMS_SUCCESSFUL, Some newid, s4) } } })"

definition rtems_io_cgroup_finalize ::
  "ptr \<Rightarrow> 'a io_kernel_scheme \<Rightarrow> 'a io_kernel_scheme option" where
  "rtems_io_cgroup_finalize p s =
     (case p of None \<Rightarrow> Some s
      | Some c \<Rightarrow> do {
          g \<leftarrow> iocgs s c;
          m \<leftarrow> Some (free_blocks (length (thread_weights g)) (mem s));
          Some (s\<lparr>mem := (if io_bdbuf g then free_block m else m),
                  iocgs := (iocgs s)(c \<mapsto> g\<lparr>thread_weights := [], io_total_weight := 0,
                                           io_bdbuf := False\<rparr>)\<rparr>) })"

definition rtems_io_cgroup_delete ::
  "ptr \<Rightarrow> 'a io_kernel_scheme \<Rightarrow> 'a io_kernel_scheme option" where
  "rtems_io_cgroup_delete p s =
     (case p of None \<Rightarrow> Some s
      | Some c \<Rightarrow> do {
          s1 \<leftarrow> Some (snd (rtems_io_cgroup_remove_from_manager p s));
          g \<leftarrow> iocgs s1 c;
          s2 \<leftarrow> (if io_weight g > 0 then map_option snd (rtems_io_cgroup_remove_weight p s1)
                 else Some s1);
          s3 \<leftarrow> rtems_io_cgroup_finalize p s2;
          Some (s3\<lparr>mem := free_block (mem s3), iocgs := (iocgs s3)(c := None)\<rparr>) })"

section \<open>Thread weights\<close>

fun tw_find :: "u32 \<Rightarrow> Thread_Weight_Node list \<Rightarrow> u32 option" where
  "tw_find i [] = None"
| "tw_find i (n # ns) = (if Thread_ID n = i then Some (node_weight n) else tw_find i ns)"

fun tw_set :: "u32 \<Rightarrow> u32 \<Rightarrow> Thread_Weight_Node list \<Rightarrow> Thread_Weight_Node list" where
  "tw_set i w [] = []"
| "tw_set i w (n # ns) = (if Thread_ID n = i then n\<lparr>node_weight := w\<rparr> # ns else n # tw_set i w ns)"

fun tw_remove :: "u32 \<Rightarrow> Thread_Weight_Node list \<Rightarrow> Thread_Weight_Node list" where
  "tw_remove i [] = []"
| "tw_remove i (n # ns) = (if Thread_ID n = i then ns else n # tw_remove i ns)"

definition rtems_io_cgroup_allocate_thread_weight ::
  "ptr \<Rightarrow> ptr \<Rightarrow> u32 \<Rightarrow> 'a io_kernel_scheme \<Rightarrow> (rtems_status_code \<times> 'a io_kernel_scheme) option" where
  "rtems_io_cgroup_allocate_thread_weight p thread weight s =
     (case (p, thread) of
        (Some c, Some t) \<Rightarrow>
          if weight = 0 then Some (RTEMS_INVALID_ADDRESS, s)
          else do {
            g \<leftarrow> iocgs s c;
            th \<leftarrow> threads s t;
            case tw_find (Object_id th) (thread_weights g) of
              Some old \<Rightarrow>
                if io_total_weight g - old + weight > io_weight g
                then Some (RTEMS_RESOURCE_IN_USE, s)
                else Some (RTEMS_SUCCESSFUL, s\<lparr>iocgs := (iocgs s)(c \<mapsto>
                       g\<lparr>thread_weights := tw_set (Object_id th) weight (thread_weights g),
                         io_total_weight := io_total_weight g - old + weight\<rparr>)\<rparr>)
            | None \<Rightarrow>
                if io_total_weight g + weight > io_weight g
                then Some (RTEMS_RESOURCE_IN_USE, s)
                else (case malloc (mem s) of
                  (None, m) \<Rightarrow> Some (RTEMS_NO_MEMORY, s\<lparr>mem := m\<rparr>)
                | (Some _, m) \<Rightarrow> Some (RTEMS_SUCCESSFUL, s\<lparr>mem := m, iocgs := (iocgs s)(c \<mapsto>
                    g\<lparr>thread_weights := \<lparr>node_weight = weight, Thread_ID = Object_id th\<rparr>
                                        # thread_weights g,
                      io_total_weight := io_total_weight g + weight\<rparr>)\<rparr>)) }
      | _ \<Rightarrow> Some (RTEMS_INVALID_ADDRESS, s))"

definition rtems_io_cgroup_add_thread ::
  "ptr \<Rightarrow> ptr \<Rightarrow> u32 \<Rightarrow> 'a io_kernel_scheme \<Rightarrow> (rtems_status_code \<times> 'a io_kernel_scheme) option" where
  "rtems_io_cgroup_add_thread p thread weight s =
     rtems_io_cgroup_allocate_thread_weight p thread weight s"

definition rtems_io_cgroup_remove_thread_weight ::
  "ptr \<Rightarrow> ptr \<Rightarrow> 'a io_kernel_scheme \<Rightarrow> (rtems_status_code \<times> 'a io_kernel_scheme) option" where
  "rtems_io_cgroup_remove_thread_weight p thread s =
     (case (p, thread) of
        (Some c, Some t) \<Rightarrow> do {
          g \<leftarrow> iocgs s c;
          th \<leftarrow> threads s t;
          case tw_find (Object_id th) (thread_weights g) of
            Some w \<Rightarrow> Some (RTEMS_SUCCESSFUL, s\<lparr>mem := free_block (mem s), iocgs := (iocgs s)(c \<mapsto>
                g\<lparr>thread_weights := tw_remove (Object_id th) (thread_weights g),
                  io_total_weight := io_total_weight g - w\<rparr>)\<rparr>)
          | None \<Rightarrow> Some (RTEMS_INVALID_ID, s) }
      | _ \<Rightarrow> Some (RTEMS_INVALID_ADDRESS, s))"

definition rtems_io_cgroup_remove_thread ::
  "ptr \<Rightarrow> ptr \<Rightarrow> 'a io_kernel_scheme \<Rightarrow> (rtems_status_code \<times> 'a io_kernel_scheme) option" where
  "rtems_io_cgroup_remove_thread p thread s = rtems_io_cgroup_remove_thread_weight p thread s"

section \<open>Requests\<close>

definition rtems_io_cgroup_update_sliding_window ::
  "u32 \<Rightarrow> u32 \<Rightarrow> IO_Cgroup_Control \<Rightarrow> IO_Cgroup_Control" where
  "rtems_io_cgroup_update_sliding_window tps now g =
     (if now - window_start (io_stats g) > tps * window_size_ms (io_limits g) div 1000
      then g\<lparr>io_stats := (io_stats g)\<lparr>window_bytes := 0, window_start := now\<rparr>\<rparr>
      else g)"

definition rtems_io_cgroup_update_stats :: "IO_Cgroup_Request \<Rightarrow> IO_Cgroup_Control \<Rightarrow> IO_Cgroup_Control"
where
  "rtems_io_cgroup_update_stats r g =
     (let st = (case req_type r of
          IO_CGROUP_READ \<Rightarrow> (io_stats g)\<lparr>read_bytes := read_bytes (io_stats g) + req_size r\<rparr>
        | IO_CGROUP_WRITE \<Rightarrow> (io_stats g)\<lparr>write_bytes := write_bytes (io_stats g) + req_size r\<rparr>)
      in g\<lparr>io_stats := st\<lparr>window_bytes := window_bytes st + req_size r\<rparr>\<rparr>)"

text \<open>\<open>rtems_io_cgroup_check_throttle\<close>: the group with its window brought up to date, and
  whether the request has to wait. A clock of zero ticks per second would divide by zero.\<close>

definition rtems_io_cgroup_check_throttle ::
  "u32 \<Rightarrow> u32 \<Rightarrow> IO_Cgroup_Request \<Rightarrow> IO_Cgroup_Control \<Rightarrow> (bool \<times> IO_Cgroup_Control) option" where
  "rtems_io_cgroup_check_throttle tps now r g =
     (if tps = 0 then None
      else
        let g1 = rtems_io_cgroup_update_sliding_window tps now g;
            e = now - window_start (io_stats g1);
            elapsed = (if e = 0 then 1 else e) :: u32;
            rate = window_bytes (io_stats g1) div ucast elapsed;
            limit = (case req_type r of
                IO_CGROUP_READ \<Rightarrow> read_bps_limit (io_limits g1)
              | IO_CGROUP_WRITE \<Rightarrow> write_bps_limit (io_limits g1)) div ucast tps
        in Some (rate + req_size r div ucast elapsed > limit, g1))"

definition rtems_io_cgroup_handle_request ::
  "ptr \<Rightarrow> IO_Cgroup_Request option \<Rightarrow> 'a io_kernel_scheme \<Rightarrow>
     (rtems_status_code \<times> 'a io_kernel_scheme) option" where
  "rtems_io_cgroup_handle_request p request s =
     (case (p, request) of
        (Some c, Some r) \<Rightarrow> do {
          g \<leftarrow> iocgs s c;
          (throttled, g1) \<leftarrow>
             rtems_io_cgroup_check_throttle (ticks_per_second s) (ticks_since_boot s) r g;
          if throttled
          then Some (RTEMS_TOO_MANY, s\<lparr>iocgs := (iocgs s)(c \<mapsto> g1\<lparr>io_stats :=
                 (case req_type r of
                    IO_CGROUP_READ \<Rightarrow> (io_stats g1)\<lparr>read_throttled := read_throttled (io_stats g1) + 1\<rparr>
                  | IO_CGROUP_WRITE \<Rightarrow> (io_stats g1)\<lparr>write_throttled := write_throttled (io_stats g1) + 1\<rparr>)\<rparr>)\<rparr>)
          else Some (RTEMS_SUCCESSFUL,
                 s\<lparr>iocgs := (iocgs s)(c \<mapsto> rtems_io_cgroup_update_stats r g1)\<rparr>) }
      | _ \<Rightarrow> Some (RTEMS_INVALID_ADDRESS, s))"

definition rtems_io_cgroup_set_limits ::
  "ptr \<Rightarrow> IO_Cgroup_Limit option \<Rightarrow> 'a io_kernel_scheme \<Rightarrow>
     (rtems_status_code \<times> 'a io_kernel_scheme) option" where
  "rtems_io_cgroup_set_limits p limits s =
     (case (p, limits) of
        (Some c, Some l) \<Rightarrow> do {
          g \<leftarrow> iocgs s c;
          Some (RTEMS_SUCCESSFUL, s\<lparr>iocgs := (iocgs s)(c \<mapsto> g\<lparr>io_limits := l\<rparr>)\<rparr>) }
      | _ \<Rightarrow> Some (RTEMS_INVALID_ADDRESS, s))"

definition rtems_io_cgroup_get_limits ::
  "bool \<Rightarrow> ptr \<Rightarrow> 'a io_kernel_scheme \<Rightarrow> (rtems_status_code \<times> IO_Cgroup_Limit option) option" where
  "rtems_io_cgroup_get_limits out_null p s =
     (case p of
        Some c \<Rightarrow>
          if out_null then Some (RTEMS_INVALID_ADDRESS, None)
          else do { g \<leftarrow> iocgs s c; Some (RTEMS_SUCCESSFUL, Some (io_limits g)) }
      | None \<Rightarrow> Some (RTEMS_INVALID_ADDRESS, None))"

text \<open>\<open>rtems_io_cgroup_traverse\<close>: the callback threads its own state.\<close>

definition rtems_io_cgroup_traverse ::
  "(IO_Cgroup_Control \<Rightarrow> 'v \<Rightarrow> 'v) option \<Rightarrow> 'v \<Rightarrow> 'a io_kernel_scheme \<Rightarrow> 'v option" where
  "rtems_io_cgroup_traverse callback x s =
     (case (io_manager s, callback) of
        (Some mg, Some f) \<Rightarrow>
          foldl (\<lambda>acc c. do { v \<leftarrow> acc; g \<leftarrow> iocgs s c; Some (f g v) }) (Some x) (io_cgroups mg)
      | _ \<Rightarrow> Some x)"

fun io_find_id :: "(addr \<rightharpoonup> IO_Cgroup_Control) \<Rightarrow> u32 \<Rightarrow> addr list \<Rightarrow> ptr option" where
  "io_find_id h i [] = Some None"
| "io_find_id h i (c # cs) = do { g \<leftarrow> h c; if io_ID g = i then Some (Some c) else io_find_id h i cs }"

definition rtems_io_cgroup_get_by_id :: "u32 \<Rightarrow> 'a io_kernel_scheme \<Rightarrow> ptr option" where
  "rtems_io_cgroup_get_by_id i s =
     (case io_manager s of None \<Rightarrow> Some None | Some mg \<Rightarrow> io_find_id (iocgs s) i (io_cgroups mg))"

section \<open>Invariant and accounting\<close>

definition io_group_ok :: "IO_Cgroup_Control \<Rightarrow> bool" where
  "io_group_ok g \<longleftrightarrow> io_bdbuf g \<and> distinct (map Thread_ID (thread_weights g)) \<and>
     io_total_weight g = sum_list (map node_weight (thread_weights g))"

text \<open>The list has exactly the live groups, once each; the counters of the manager are the number of
  groups and the sum of their weights, those of a group the sum of its thread weights (all modulo the
  word size, as the code computes them).\<close>

fun io_manager_ok :: "IO_Cgroup_Manager option \<Rightarrow> (addr \<rightharpoonup> IO_Cgroup_Control) \<Rightarrow> bool" where
  "io_manager_ok None h \<longleftrightarrow> h = Map.empty"
| "io_manager_ok (Some mg) h \<longleftrightarrow> distinct (io_cgroups mg) \<and> set (io_cgroups mg) = dom h \<and>
     io_cgroup_count mg = of_nat (length (io_cgroups mg)) \<and> mgr_total_weight mg = owned io_weight h"

definition io_inv :: "'a io_kernel_scheme \<Rightarrow> bool" where
  "io_inv s \<longleftrightarrow> heap_ok (mem s) (iocgs s) \<and> (\<forall>c g. iocgs s c = Some g \<longrightarrow> io_group_ok g) \<and>
     io_manager_ok (io_manager s) (iocgs s)"

definition io_blocks :: "IO_Cgroup_Control \<Rightarrow> int" where
  "io_blocks g = (if io_bdbuf g then 2 else 1) + int (length (thread_weights g))"

definition io_slack :: "'a io_kernel_scheme \<Rightarrow> int" where
  "io_slack s = live (mem s) - owned io_blocks (iocgs s) - (if io_manager s = None then 0 else 1)"

lemma io_invD:
  assumes "io_inv s"
  shows "heap_ok (mem s) (iocgs s)" "iocgs s c = Some g \<Longrightarrow> io_group_ok g"
  using assms by (auto simp: io_inv_def)

lemma io_inv_managerD:
  assumes "io_inv s" "io_manager s = Some mg"
  shows "distinct (io_cgroups mg)" "set (io_cgroups mg) = dom (iocgs s)"
    "io_cgroup_count mg = of_nat (length (io_cgroups mg))" "mgr_total_weight mg = owned io_weight (iocgs s)"
  using assms by (auto simp: io_inv_def)

lemma io_apply_share_sel [simp]:
  "io_weight (io_apply_share mg g) = io_weight g" "io_ID (io_apply_share mg g) = io_ID g"
  "thread_weights (io_apply_share mg g) = thread_weights g" "io_stats (io_apply_share mg g) = io_stats g"
  "io_total_weight (io_apply_share mg g) = io_total_weight g" "io_bdbuf (io_apply_share mg g) = io_bdbuf g"
  by (simp_all add: io_apply_share_def)

lemma io_apply_share_ok [simp]:
  "io_group_ok (io_apply_share mg g) = io_group_ok g" "io_blocks (io_apply_share mg g) = io_blocks g"
  by (simp_all add: io_group_ok_def io_blocks_def)

text \<open>The loop applies the share to every listed group.\<close>

lemma io_share_loop_eq:
  assumes "distinct cs" "set cs \<subseteq> dom h"
  shows "io_share_loop mg cs h =
     Some (\<lambda>c. if c \<in> set cs then map_option (io_apply_share mg) (h c) else h c)"
  using assms
proof (induction cs arbitrary: h)
  case (Cons c cs)
  then obtain g where g: "h c = Some g" by auto
  have "io_share_loop mg cs (h(c \<mapsto> io_apply_share mg g)) = Some (\<lambda>d. if d \<in> set cs
      then map_option (io_apply_share mg) ((h(c \<mapsto> io_apply_share mg g)) d)
      else (h(c \<mapsto> io_apply_share mg g)) d)"
    using Cons by (intro Cons.IH) auto
  also have "(\<lambda>d. if d \<in> set cs then map_option (io_apply_share mg) ((h(c \<mapsto> io_apply_share mg g)) d)
      else (h(c \<mapsto> io_apply_share mg g)) d)
    = (\<lambda>d. if d \<in> set (c # cs) then map_option (io_apply_share mg) (h d) else h d)"
    using Cons.prems(1) g by (auto simp: fun_eq_iff)
  finally show ?case using g by (simp del: fun_upd_apply)
qed simp

definition io_shared :: "IO_Cgroup_Manager \<Rightarrow> (addr \<rightharpoonup> IO_Cgroup_Control) \<Rightarrow> (addr \<rightharpoonup> IO_Cgroup_Control)" where
  "io_shared mg h = (\<lambda>c. if mgr_total_weight mg > 0 \<and> c \<in> set (io_cgroups mg)
     then map_option (io_apply_share mg) (h c) else h c)"

lemma io_reweigh_eq:
  assumes "io_manager s = Some mg" "distinct (io_cgroups mg)" "set (io_cgroups mg) \<subseteq> dom (iocgs s)"
  shows "io_reweigh s = Some (s\<lparr>iocgs := io_shared mg (iocgs s)\<rparr>)"
  using assms io_share_loop_eq [OF assms(2,3), of mg] by (simp add: io_reweigh_def io_shared_def)

lemma io_shared_sums [simp]:
  "owned io_weight (io_shared mg h) = owned io_weight h"
  "owned io_blocks (io_shared mg h) = owned io_blocks h" "dom (io_shared mg h) = dom h"
  unfolding io_shared_def by (simp_all add: owned_map) (auto split: if_splits)

lemma io_shared_None [simp]: "io_shared mg h c = None \<longleftrightarrow> h c = None"
  by (auto simp: io_shared_def)

lemma io_shared_SomeD:
  "io_shared mg h c = Some g' \<Longrightarrow> \<exists>g. h c = Some g \<and> (g' = g \<or> g' = io_apply_share mg g)"
  by (auto simp: io_shared_def split: if_splits)

lemma heap_ok_shared [simp]: "heap_ok m (io_shared mg h) = heap_ok m h"
  unfolding heap_ok_def by (metis domD domI io_shared_sums(3))

text \<open>Recomputing the limits keeps the invariant and the accounting.\<close>

definition io_keeps :: "'a io_kernel_scheme \<Rightarrow> 'a io_kernel_scheme \<Rightarrow> bool" where
  "io_keeps s s' \<longleftrightarrow> io_inv s' \<and> io_slack s' = io_slack s \<and> threads s' = threads s"

lemma io_keeps_refl: "io_inv s \<Longrightarrow> io_keeps s s"
  by (simp add: io_keeps_def)

lemma io_inv_reweigh:
  assumes "io_inv s" "io_manager s = Some mg"
  shows "io_reweigh s = Some (s\<lparr>iocgs := io_shared mg (iocgs s)\<rparr>)"
    "io_keeps s (s\<lparr>iocgs := io_shared mg (iocgs s)\<rparr>)"
proof -
  note m = io_inv_managerD [OF assms]
  show "io_reweigh s = Some (s\<lparr>iocgs := io_shared mg (iocgs s)\<rparr>)"
    using m by (intro io_reweigh_eq assms) auto
  show "io_keeps s (s\<lparr>iocgs := io_shared mg (iocgs s)\<rparr>)"
    using assms m by (auto simp: io_keeps_def io_inv_def io_slack_def dest!: io_shared_SomeD)
qed

lemma io_keeps_update:
  assumes "io_inv s" "iocgs s c = Some g" "io_group_ok g'" "io_weight g' = io_weight g"
    "brk (mem s) \<le> brk m" "live m - io_blocks g' = live (mem s) - io_blocks g"
  shows "io_keeps s (s\<lparr>mem := m, iocgs := (iocgs s)(c \<mapsto> g')\<rparr>)"
proof -
  note fin = heap_ok_finite [OF io_invD(1) [OF assms(1)]]
  have "heap_ok m ((iocgs s)(c \<mapsto> g'))"
    using assms by (meson io_invD(1) heap_ok_mono heap_ok_update)
  moreover have "insert c (dom (iocgs s)) = dom (iocgs s)" using assms(2) by auto
  ultimately show ?thesis
    using assms owned_update [OF fin assms(2), of io_weight] owned_update [OF fin assms(2), of io_blocks]
    by (cases "io_manager s") (auto simp: io_keeps_def io_inv_def io_slack_def)
qed

lemma io_keeps_trans: "io_keeps s s' \<Longrightarrow> io_keeps s' s'' \<Longrightarrow> io_keeps s s''"
  by (simp add: io_keeps_def)

lemma io_keeps_oom:
  assumes "io_inv s" "brk (mem s) \<le> brk m" "live m = live (mem s)"
  shows "io_keeps s (s\<lparr>mem := m\<rparr>)"
  using assms heap_ok_mono [OF io_invD(1) [OF assms(1)] assms(2)]
  by (simp add: io_keeps_def io_inv_def io_slack_def)

section \<open>Every operation keeps the invariant\<close>

lemma io_manager_create_ok:
  assumes "io_inv s"
  shows "io_keeps s (snd (rtems_io_cgroup_manager_create r w s))"
proof (cases "io_manager s")
  case None
  then have "iocgs s = Map.empty" using assms by (simp add: io_inv_def)
  with None assms show ?thesis
    by (auto simp: rtems_io_cgroup_manager_create_def malloc_def io_keeps_def io_inv_def io_slack_def
        heap_ok_def)
qed (use assms in \<open>simp add: rtems_io_cgroup_manager_create_def io_keeps_refl\<close>)

lemma io_update_bandwidth_ok:
  assumes "io_inv s"
  shows "\<exists>sc s'. rtems_io_cgroup_manager_update_bandwidth r w s = Some (sc, s') \<and> io_keeps s s'"
proof (cases "io_manager s = None \<or> r = 0 \<or> w = 0")
  case True
  with io_keeps_refl [OF assms] show ?thesis
    by (auto simp: rtems_io_cgroup_manager_update_bandwidth_def split: option.split)
next
  case False
  then obtain mg where mg: "io_manager s = Some mg" by auto
  let ?mg = "mg\<lparr>system_read_bps := r, system_write_bps := w\<rparr>"
  let ?s = "s\<lparr>io_manager := Some ?mg\<rparr>"
  have k: "io_keeps s ?s" using assms mg by (simp add: io_keeps_def io_inv_def io_slack_def)
  then have inv: "io_inv ?s" by (simp add: io_keeps_def)
  from io_inv_reweigh [OF inv, of ?mg] k False mg show ?thesis
    by (auto simp: rtems_io_cgroup_manager_update_bandwidth_def intro: io_keeps_trans)
qed

text \<open>Giving a listed group a weight: the manager's total follows and all limits are recomputed.\<close>

lemma io_allocate_weight_ok:
  assumes "io_inv s" "iocgs s c = Some g" "io_manager s = Some mg" "w \<noteq> 0"
  defines "mg' \<equiv> mg\<lparr>mgr_total_weight := mgr_total_weight mg - io_weight g + w\<rparr>"
  defines "s' \<equiv> s\<lparr>iocgs := io_shared mg' ((iocgs s)(c \<mapsto> g\<lparr>io_weight := w\<rparr>)), io_manager := Some mg'\<rparr>"
  shows "rtems_io_cgroup_allocate_weight (Some c) w s = Some (RTEMS_SUCCESSFUL, s') \<and> io_keeps s s'"
proof -
  let ?g = "g\<lparr>io_weight := w\<rparr>"
  let ?s = "s\<lparr>iocgs := (iocgs s)(c \<mapsto> ?g), io_manager := Some mg'\<rparr>"
  note fin = heap_ok_finite [OF io_invD(1) [OF assms(1)]] and m = io_inv_managerD [OF assms(1,3)]
  have "insert c (dom (iocgs s)) = dom (iocgs s)" using assms(2) by auto
  moreover have "owned io_weight ((iocgs s)(c \<mapsto> ?g)) = owned io_weight (iocgs s) - io_weight g + w"
    using owned_update [OF fin assms(2), of io_weight ?g] by simp
  moreover have "io_group_ok ?g" using io_invD(2) [OF assms(1,2)] by (simp add: io_group_ok_def)
  ultimately have inv: "io_inv ?s"
    using assms(1-3) m heap_ok_update [OF io_invD(1) [OF assms(1)] assms(2)]
    by (simp add: io_inv_def mg'_def)
  have "io_blocks ?g = io_blocks g" by (simp add: io_blocks_def)
  then have "io_slack ?s = io_slack s"
    using owned_update [OF fin assms(2), of io_blocks ?g] assms(3) by (simp add: io_slack_def)
  with inv have k: "io_keeps s ?s" by (simp add: io_keeps_def)
  have "?s\<lparr>iocgs := io_shared mg' (iocgs ?s)\<rparr> = s'" by (simp add: s'_def)
  with io_inv_reweigh [OF inv, of mg'] k show ?thesis
    using assms(2-4) by (auto simp: rtems_io_cgroup_allocate_weight_def mg'_def intro: io_keeps_trans)
qed

text \<open>Linking a fresh group with weight zero.\<close>

lemma io_link_new:
  assumes "io_inv s" "io_manager s = Some mg" "io_group_ok g" "io_weight g = 0"
    "iocgs s c = None" "c < brk m" "brk (mem s) \<le> brk m" "live m = live (mem s) + io_blocks g"
  shows "io_keeps s (s\<lparr>next_cgroup_id := i, mem := m, iocgs := (iocgs s)(c \<mapsto> g),
     io_manager := Some (mg\<lparr>io_cgroups := c # io_cgroups mg, io_cgroup_count := io_cgroup_count mg + 1\<rparr>)\<rparr>)"
proof -
  note fin = heap_ok_finite [OF io_invD(1) [OF assms(1)]] and mgr = io_inv_managerD [OF assms(1,2)]
  have "heap_ok m ((iocgs s)(c \<mapsto> g))"
    using heap_ok_mono [OF io_invD(1) [OF assms(1)] assms(7)] assms(6) by (auto simp: heap_ok_def)
  moreover have "c \<notin> set (io_cgroups mg)" using mgr(2) assms(5) by auto
  ultimately show ?thesis
    using assms owned_new [OF fin assms(5), of io_weight g] owned_new [OF fin assms(5), of io_blocks g] mgr
    by (simp add: io_keeps_def io_inv_def io_slack_def)
qed

lemma ucast_u16_nonzero: "(w :: u16) \<noteq> 0 \<Longrightarrow> ucast w \<noteq> (0 :: u32)"
proof -
  assume "w \<noteq> 0"
  then obtain n where "n < 16" "bit w n" by (auto simp: bit_eq_iff)
  then have "bit (ucast w :: u32) n" by (simp add: bit_ucast_iff)
  then show ?thesis by (metis bit_0_eq bot_apply bot_bool_def)
qed

lemma io_keeps_next_id:
  assumes "io_inv s" "brk (mem s) \<le> brk m" "live m = live (mem s)"
  shows "io_keeps s (s\<lparr>next_cgroup_id := i, mem := m\<rparr>)"
  using io_keeps_oom [OF assms] by (simp add: io_keeps_def io_inv_def io_slack_def)

lemma io_create_early_fail:
  assumes inv: "io_inv s"
    and fail: "lim = None \<or> b \<or> io_manager s = None \<or> oom (mem s) (brk (mem s)) \<or> oom (mem s) (Suc (brk (mem s)))"
  shows "\<exists>sc s'. rtems_io_cgroup_create b w lim s = Some (sc, None, s') \<and> io_keeps s s' \<and>
     sc \<noteq> RTEMS_SUCCESSFUL \<and> iocgs s' = iocgs s \<and> io_manager s' = io_manager s"
proof (cases "lim = None \<or> b \<or> io_manager s = None")
  case True
  with io_keeps_refl [OF inv] show ?thesis by (cases lim) (auto simp: rtems_io_cgroup_create_def)
next
  case False
  then obtain l mg where l: "lim = Some l" "\<not> b" "io_manager s = Some mg" by auto
  show ?thesis
  proof (cases "oom (mem s) (brk (mem s))")
    case True
    with l io_keeps_oom [OF inv] show ?thesis by (simp add: rtems_io_cgroup_create_def malloc_def)
  next
    case False
    with l fail have "oom (mem s) (Suc (brk (mem s)))" by auto
    with l False io_keeps_next_id [OF inv] show ?thesis
      by (simp add: rtems_io_cgroup_create_def malloc_def)
  qed
qed

lemma io_create_ok:
  assumes inv: "io_inv s"
  obtains sc i s' where "rtems_io_cgroup_create b w lim s = Some (sc, i, s')" "io_keeps s s'"
    "sc \<noteq> RTEMS_SUCCESSFUL \<Longrightarrow> iocgs s' = iocgs s \<and> io_manager s' = io_manager s \<and> i = None"
    "sc = RTEMS_SUCCESSFUL \<Longrightarrow> w \<noteq> 0 \<and> i = Some (next_cgroup_id s) \<and>
       dom (iocgs s') = insert (brk (mem s)) (dom (iocgs s)) \<and> iocgs s (brk (mem s)) = None \<and>
       (\<exists>mg l. io_manager s' = Some mg \<and> io_cgroups mg = brk (mem s) # l) \<and>
       (\<exists>g. iocgs s' (brk (mem s)) = Some g \<and> io_ID g = next_cgroup_id s \<and> io_weight g = ucast w \<and>
          window_size_ms (io_limits g) = 1000)"
proof (cases "lim = None \<or> b \<or> io_manager s = None \<or> oom (mem s) (brk (mem s)) \<or> oom (mem s) (Suc (brk (mem s)))")
  case True
  from io_create_early_fail [OF inv True] that show thesis by blast
next
  case False
  then obtain l mg where l: "lim = Some l" "\<not> b" "io_manager s = Some mg"
    "\<not> oom (mem s) (brk (mem s))" "\<not> oom (mem s) (Suc (brk (mem s)))" by auto
  let ?c = "brk (mem s)"
  let ?m = "(mem s)\<lparr>brk := Suc (Suc (brk (mem s))), live := 2 + live (mem s)\<rparr>"
  let ?g = "\<lparr>io_ID = next_cgroup_id s, io_limits = l\<lparr>window_size_ms := 1000\<rparr>,
     io_stats = io_stats_zero (ticks_since_boot s), thread_weights = [], io_total_weight = 0,
     io_weight = 0, io_bdbuf = True\<rparr>"
  let ?mg = "mg\<lparr>io_cgroups := ?c # io_cgroups mg, io_cgroup_count := io_cgroup_count mg + 1\<rparr>"
  define s3 where "s3 = s\<lparr>next_cgroup_id := next_cgroup_id s + 1, mem := ?m, iocgs := (iocgs s)(?c \<mapsto> ?g),
     io_manager := Some ?mg\<rparr>"
  have fresh: "iocgs s ?c = None" using heap_ok_fresh [OF io_invD(1) [OF inv]] .
  have k3: "io_keeps s s3" unfolding s3_def
    by (rule io_link_new [OF inv l(3)]) (use fresh in \<open>simp_all add: io_group_ok_def io_blocks_def\<close>)
  show thesis
  proof (cases "w = 0")
    case True
    let ?s = "s\<lparr>mem := free_blocks 2 ?m, next_cgroup_id := next_cgroup_id s + 1\<rparr>"
    have "rtems_io_cgroup_create b w lim s = Some (RTEMS_INVALID_ADDRESS, None, ?s)"
      using l True fresh by (simp add: rtems_io_cgroup_create_def malloc_def
          rtems_io_cgroup_add_to_manager_def rtems_io_cgroup_allocate_weight_def
          rtems_io_cgroup_remove_from_manager_def io_unlink_def fun_upd_idem)
    moreover have "io_keeps s ?s"
      using inv heap_ok_mono [OF io_invD(1) [OF inv], of "free_blocks 2 ?m"]
      by (simp add: io_keeps_def io_inv_def io_slack_def)
    ultimately show ?thesis using that by auto
  next
    case w: False
    then have w': "ucast w \<noteq> (0 :: u32)" by (rule ucast_u16_nonzero)
    have g3: "iocgs s3 ?c = Some ?g" "io_manager s3 = Some ?mg" by (simp_all add: s3_def)
    have inv3: "io_inv s3" using k3 by (simp add: io_keeps_def)
    let ?mg4 = "?mg\<lparr>mgr_total_weight := mgr_total_weight ?mg - io_weight ?g + ucast w\<rparr>"
    define s4 where "s4 = s3\<lparr>iocgs := io_shared ?mg4 ((iocgs s3)(?c \<mapsto> ?g\<lparr>io_weight := ucast w\<rparr>)),
       io_manager := Some ?mg4\<rparr>"
    have al: "rtems_io_cgroup_allocate_weight (Some ?c) (ucast w) s3 = Some (RTEMS_SUCCESSFUL, s4)"
      "io_keeps s3 s4"
      using io_allocate_weight_ok [OF inv3 g3 w'] unfolding s4_def by blast+
    have dom4: "dom (iocgs s4) = insert ?c (dom (iocgs s))" by (auto simp: s4_def s3_def)
    have new: "\<exists>g. iocgs s4 ?c = Some g \<and> io_ID g = next_cgroup_id s \<and> io_weight g = ucast w \<and>
        window_size_ms (io_limits g) = 1000"
      by (simp add: s4_def io_shared_def) (simp add: io_apply_share_def)
    have step: "rtems_io_cgroup_create b w lim s = do {
        (sc, s4) \<leftarrow> rtems_io_cgroup_allocate_weight (Some ?c) (ucast w) s3;
        if sc \<noteq> RTEMS_SUCCESSFUL
        then (case rtems_io_cgroup_remove_from_manager (Some ?c) s4 of
          (_, s5) \<Rightarrow> Some (sc, None, s5\<lparr>mem := free_blocks 2 (mem s5), iocgs := (iocgs s5)(?c := None)\<rparr>))
        else Some (RTEMS_SUCCESSFUL, Some (next_cgroup_id s), s4) }"
      using l by
        (simp add: rtems_io_cgroup_create_def malloc_def rtems_io_cgroup_add_to_manager_def s3_def)
    show ?thesis
    proof (rule that)
      show "rtems_io_cgroup_create b w lim s = Some (RTEMS_SUCCESSFUL, Some (next_cgroup_id s), s4)"
        unfolding step al(1) by simp
      show "io_keeps s s4" by (rule io_keeps_trans [OF k3 al(2)])
    qed (use w fresh dom4 new in \<open>auto simp: s4_def\<close>)
  qed
qed

text \<open>Deletion: unlink, give the weight back, free the chain, the buffer and the block.\<close>

lemma io_finish_delete:
  assumes inv: "io_inv s" and g: "iocgs s c = Some g" "io_manager s = Some mg"
    and hz: "dom hz = dom (iocgs s)" "hz c = Some gz" "io_weight gz = 0" "io_blocks gz = io_blocks g"
      "thread_weights gz = thread_weights g" "io_bdbuf gz"
      "\<And>d g'. hz d = Some g' \<Longrightarrow> d \<noteq> c \<Longrightarrow> io_group_ok g'"
      "owned io_weight hz = owned io_weight (iocgs s) - io_weight g"
      "owned io_blocks hz = owned io_blocks (iocgs s)"
    and mz: "io_cgroups mz = remove1 c (io_cgroups mg)" "io_cgroup_count mz = io_cgroup_count mg - 1"
      "mgr_total_weight mz = mgr_total_weight mg - io_weight g"
    and sz: "sz = s\<lparr>iocgs := hz, io_manager := Some mz\<rparr>"
  shows "\<exists>s3. rtems_io_cgroup_finalize (Some c) sz = Some s3 \<and>
     io_keeps s (s3\<lparr>mem := free_block (mem s3), iocgs := (iocgs s3)(c := None)\<rparr>) \<and>
     (iocgs s3)(c := None) = hz(c := None)"
proof -
  let ?m = "free_block (free_blocks (length (thread_weights g)) (mem s))"
  let ?s3 = "sz\<lparr>mem := ?m, iocgs := hz(c \<mapsto> gz\<lparr>thread_weights := [], io_total_weight := 0, io_bdbuf := False\<rparr>)\<rparr>"
  note m = io_inv_managerD [OF inv g(2)]
  have fin: "finite (dom hz)" using hz(1) heap_ok_finite [OF io_invD(1) [OF inv]] by simp
  have final: "rtems_io_cgroup_finalize (Some c) sz = Some ?s3"
    using hz by (simp add: rtems_io_cgroup_finalize_def sz)
  have cin: "c \<in> set (io_cgroups mg)" using m(2) g(1) by auto
  have len: "io_cgroup_count mg - 1 = of_nat (length (remove1 c (io_cgroups mg)))"
  proof -
    obtain k where "length (io_cgroups mg) = Suc k" using cin by (cases "io_cgroups mg") auto
    then show ?thesis using m(3) cin by (simp add: length_remove1)
  qed
  let ?s = "s\<lparr>mem := free_block ?m, iocgs := hz(c := None), io_manager := Some mz\<rparr>"
  have "heap_ok (free_block ?m) (hz(c := None))"
    using io_invD(1) [OF inv] hz(1) fin by (auto simp: heap_ok_def)
  then have "io_inv ?s"
    using hz mz m len owned_remove [OF fin hz(2), of io_weight]
    by (auto simp: io_inv_def split: if_splits)
  moreover have "io_slack ?s = io_slack s"
    using owned_remove [OF fin hz(2), of io_blocks] hz g(2) io_invD(2) [OF inv g(1)]
    by (simp add: io_slack_def io_blocks_def io_group_ok_def)
  ultimately have "io_keeps s ?s" by (simp add: io_keeps_def)
  moreover have "?s3\<lparr>mem := free_block (mem ?s3), iocgs := (iocgs ?s3)(c := None)\<rparr> = ?s"
    by (simp add: sz)
  ultimately show ?thesis using final by (intro exI [of _ ?s3]) simp
qed

lemma io_delete_ok:
  assumes inv: "io_inv s" and g: "iocgs s c = Some g"
  shows "\<exists>s'. rtems_io_cgroup_delete (Some c) s = Some s' \<and> io_keeps s s' \<and>
     dom (iocgs s') = dom (iocgs s) - {c}"
proof -
  obtain mg where mg: "io_manager s = Some mg"
    using inv g by (cases "io_manager s") (auto simp: io_inv_def)
  note m = io_inv_managerD [OF inv mg] and fin = heap_ok_finite [OF io_invD(1) [OF inv]]
  have cin: "c \<in> set (io_cgroups mg)" using m(2) g by auto
  let ?mg1 = "mg\<lparr>io_cgroups := remove1 c (io_cgroups mg), io_cgroup_count := io_cgroup_count mg - 1\<rparr>"
  define s1 where "s1 = s\<lparr>io_manager := Some ?mg1\<rparr>"
  have rem: "snd (rtems_io_cgroup_remove_from_manager (Some c) s) = s1"
    using mg cin by (simp add: rtems_io_cgroup_remove_from_manager_def io_unlink_def s1_def)
  have gok: "io_bdbuf g" using io_invD(2) [OF inv g] by (simp add: io_group_ok_def)
  define mg2 where "mg2 = ?mg1\<lparr>mgr_total_weight := mgr_total_weight mg - io_weight g\<rparr>"
  define h2 where "h2 = (if io_weight g > 0 then io_shared mg2 ((iocgs s)(c \<mapsto> g\<lparr>io_weight := 0\<rparr>)) else iocgs s)"
  define s2 where "s2 = s\<lparr>iocgs := h2, io_manager := Some mg2\<rparr>"
  have stage: "(if io_weight g > 0 then map_option snd (rtems_io_cgroup_remove_weight (Some c) s1) else Some s1) = Some s2"
  proof (cases "io_weight g > 0")
    case True
    let ?t = "s1\<lparr>iocgs := (iocgs s)(c \<mapsto> g\<lparr>io_weight := 0\<rparr>), io_manager := Some mg2\<rparr>"
    have "io_reweigh ?t = Some (?t\<lparr>iocgs := io_shared mg2 (iocgs ?t)\<rparr>)"
      using m set_remove1_subset [of c "io_cgroups mg"] by (intro io_reweigh_eq) (auto simp: mg2_def)
    with True g show ?thesis
      by (simp add: rtems_io_cgroup_remove_weight_def s1_def mg2_def s2_def h2_def)
  next
    case False
    then have w0: "io_weight g = 0" by (simp add: word_gt_0)
    have "mg2 = ?mg1" by (simp add: mg2_def w0)
    then show ?thesis using w0 by (simp add: s1_def s2_def h2_def)
  qed
  have notin: "c \<notin> set (remove1 c (io_cgroups mg))" using m(1) by simp
  let ?g2 = "if io_weight g > 0 then g\<lparr>io_weight := 0\<rparr> else g"
  have "\<exists>s3. rtems_io_cgroup_finalize (Some c) s2 = Some s3 \<and>
     io_keeps s (s3\<lparr>mem := free_block (mem s3), iocgs := (iocgs s3)(c := None)\<rparr>) \<and>
     (iocgs s3)(c := None) = h2(c := None)"
  proof (rule io_finish_delete [OF inv g mg, where gz = ?g2 and mz = mg2])
    show "dom h2 = dom (iocgs s)" using g by (auto simp: h2_def)
    show "h2 c = Some ?g2" using g notin by (simp add: h2_def io_shared_def mg2_def)
    show "io_group_ok g'" if "h2 d = Some g'" "d \<noteq> c" for d g'
      using that io_invD(2) [OF inv] by (auto simp: h2_def dest!: io_shared_SomeD split: if_splits)
    show "owned io_weight h2 = owned io_weight (iocgs s) - io_weight g"
      using owned_update [OF fin g, of io_weight "g\<lparr>io_weight := 0\<rparr>"] by (auto simp: h2_def word_gt_0)
    show "owned io_blocks h2 = owned io_blocks (iocgs s)"
      using owned_update [OF fin g, of io_blocks "g\<lparr>io_weight := 0\<rparr>"] by (simp add: h2_def io_blocks_def)
  qed (use gok in \<open>auto simp: mg2_def s2_def io_blocks_def word_gt_0\<close>)
  then obtain s3 where s3: "rtems_io_cgroup_finalize (Some c) s2 = Some s3"
    "io_keeps s (s3\<lparr>mem := free_block (mem s3), iocgs := (iocgs s3)(c := None)\<rparr>)"
    "(iocgs s3)(c := None) = h2(c := None)" by blast
  have "rtems_io_cgroup_delete (Some c) s = Some (s3\<lparr>mem := free_block (mem s3), iocgs := (iocgs s3)(c := None)\<rparr>)"
    using rem stage s3(1) g by (simp add: rtems_io_cgroup_delete_def) (simp add: s1_def)
  moreover have "dom ((iocgs s3)(c := None)) = dom (iocgs s) - {c}"
    unfolding s3(3) using g by (auto simp: h2_def)
  ultimately show ?thesis using s3(2) by simp
qed

section \<open>Thread weights\<close>

lemma tw_set_ids [simp]: "map Thread_ID (tw_set i w ns) = map Thread_ID ns"
  by (induction ns) auto

lemma tw_find_None: "tw_find i ns = None \<longleftrightarrow> i \<notin> Thread_ID ` set ns"
  by (induction ns) auto

lemma tw_set_sum:
  "tw_find i ns = Some old \<Longrightarrow>
     sum_list (map node_weight (tw_set i w ns)) = sum_list (map node_weight ns) - old + w"
  by (induction ns) (auto split: if_splits)

lemma tw_remove_sum:
  "tw_find i ns = Some old \<Longrightarrow>
     sum_list (map node_weight (tw_remove i ns)) = sum_list (map node_weight ns) - old"
  by (induction ns) (auto split: if_splits)

lemma tw_remove_set: "set (tw_remove i ns) \<subseteq> set ns"
  by (induction ns) auto

lemma tw_remove_distinct:
  "distinct (map Thread_ID ns) \<Longrightarrow> distinct (map Thread_ID (tw_remove i ns)) \<and>
     i \<notin> Thread_ID ` set (tw_remove i ns)"
proof (induction ns)
  case (Cons n ns)
  have "Thread_ID ` set (tw_remove i ns) \<subseteq> Thread_ID ` set ns" using tw_remove_set by (rule image_mono)
  with Cons show ?case by auto
qed simp

lemma tw_remove_length: "tw_find i ns = Some old \<Longrightarrow> Suc (length (tw_remove i ns)) = length ns"
  by (induction ns) (auto split: if_splits)

lemma tw_set_length [simp]: "length (tw_set i w ns) = length ns"
  by (induction ns) auto

lemma io_thread_weight_ok:
  assumes inv: "io_inv s" and c: "iocgs s c = Some g" and t: "threads s t = Some th"
  shows "\<exists>sc s'. rtems_io_cgroup_allocate_thread_weight (Some c) (Some t) w s = Some (sc, s') \<and> io_keeps s s'"
proof -
  note keep = io_keeps_refl [OF inv] and ok = io_invD(2) [OF inv c]
  show ?thesis
  proof (cases "tw_find (Object_id th) (thread_weights g)")
    case (Some old)
    have "io_keeps s (s\<lparr>mem := mem s, iocgs := (iocgs s)(c \<mapsto>
        g\<lparr>thread_weights := tw_set (Object_id th) w (thread_weights g),
          io_total_weight := io_total_weight g - old + w\<rparr>)\<rparr>)"
      by (rule io_keeps_update [OF inv c])
        (use ok tw_set_sum [OF Some] in \<open>auto simp: io_group_ok_def io_blocks_def\<close>)
    with keep Some c t show ?thesis by (auto simp: rtems_io_cgroup_allocate_thread_weight_def)
  next
    case None
    show ?thesis
    proof (cases "oom (mem s) (brk (mem s))")
      case True
      with keep io_keeps_oom [OF inv] None c t show ?thesis
        by (auto simp: rtems_io_cgroup_allocate_thread_weight_def malloc_def)
    next
      case False
      have "io_keeps s (s\<lparr>mem := (mem s)\<lparr>brk := Suc (brk (mem s)), live := live (mem s) + 1\<rparr>,
          iocgs := (iocgs s)(c \<mapsto> g\<lparr>thread_weights :=
            \<lparr>node_weight = w, Thread_ID = Object_id th\<rparr> # thread_weights g,
            io_total_weight := io_total_weight g + w\<rparr>)\<rparr>)"
        by (rule io_keeps_update [OF inv c])
          (use ok None [unfolded tw_find_None] in \<open>auto simp: io_group_ok_def io_blocks_def\<close>)
      with keep None c t False show ?thesis
        by (auto simp: rtems_io_cgroup_allocate_thread_weight_def malloc_def)
    qed
  qed
qed

lemma io_remove_thread_ok:
  assumes inv: "io_inv s" and c: "iocgs s c = Some g" and t: "threads s t = Some th"
  shows "\<exists>sc s'. rtems_io_cgroup_remove_thread_weight (Some c) (Some t) s = Some (sc, s') \<and> io_keeps s s'"
proof (cases "tw_find (Object_id th) (thread_weights g)")
  case None
  with io_keeps_refl [OF inv] c t show ?thesis by (simp add: rtems_io_cgroup_remove_thread_weight_def)
next
  case (Some w)
  have "io_keeps s (s\<lparr>mem := free_block (mem s), iocgs := (iocgs s)(c \<mapsto>
      g\<lparr>thread_weights := tw_remove (Object_id th) (thread_weights g),
        io_total_weight := io_total_weight g - w\<rparr>)\<rparr>)"
    by (rule io_keeps_update [OF inv c])
      (use io_invD(2) [OF inv c] tw_remove_sum [OF Some] tw_remove_length [OF Some]
        tw_remove_distinct [of "thread_weights g" "Object_id th"] in \<open>auto simp: io_group_ok_def io_blocks_def\<close>)
  with Some c t show ?thesis by (simp add: rtems_io_cgroup_remove_thread_weight_def)
qed

section \<open>Requests\<close>

lemma io_window_sel [simp]:
  "thread_weights (rtems_io_cgroup_update_sliding_window tps now g) = thread_weights g"
  "io_total_weight (rtems_io_cgroup_update_sliding_window tps now g) = io_total_weight g"
  "io_weight (rtems_io_cgroup_update_sliding_window tps now g) = io_weight g"
  "io_bdbuf (rtems_io_cgroup_update_sliding_window tps now g) = io_bdbuf g"
  "io_limits (rtems_io_cgroup_update_sliding_window tps now g) = io_limits g"
  by (simp_all add: rtems_io_cgroup_update_sliding_window_def)

lemma io_check_throttle_eq:
  "tps \<noteq> 0 \<Longrightarrow> \<exists>b. rtems_io_cgroup_check_throttle tps now r g =
     Some (b, rtems_io_cgroup_update_sliding_window tps now g)"
  by (simp add: rtems_io_cgroup_check_throttle_def Let_def)

lemma io_handle_request_ok:
  assumes inv: "io_inv s" and c: "iocgs s c = Some g" and tps: "ticks_per_second s \<noteq> 0"
  shows "\<exists>sc s'. rtems_io_cgroup_handle_request (Some c) (Some r) s = Some (sc, s') \<and> io_keeps s s'"
proof -
  let ?g = "rtems_io_cgroup_update_sliding_window (ticks_per_second s) (ticks_since_boot s) g"
  have upd: "io_keeps s (s\<lparr>iocgs := (iocgs s)(c \<mapsto> g')\<rparr>)"
    if "thread_weights g' = thread_weights g" "io_total_weight g' = io_total_weight g"
      "io_weight g' = io_weight g" "io_bdbuf g' = io_bdbuf g" for g'
    using io_keeps_update [OF inv c, of g' "mem s"] io_invD(2) [OF inv c] that
    by (simp add: io_group_ok_def io_blocks_def)
  obtain b where "rtems_io_cgroup_check_throttle (ticks_per_second s) (ticks_since_boot s) r g = Some (b, ?g)"
    using io_check_throttle_eq [OF tps] by blast
  then show ?thesis using c
    by (auto simp: rtems_io_cgroup_handle_request_def rtems_io_cgroup_update_stats_def Let_def intro!: upd)
qed

lemma io_set_limits_ok:
  assumes inv: "io_inv s" and c: "iocgs s c = Some g"
  shows "\<exists>sc s'. rtems_io_cgroup_set_limits (Some c) (Some l) s = Some (sc, s') \<and> io_keeps s s'"
  using io_keeps_update [OF inv c, of "g\<lparr>io_limits := l\<rparr>" "mem s"] io_invD(2) [OF inv c] c
  by (simp add: rtems_io_cgroup_set_limits_def io_group_ok_def io_blocks_def)

section \<open>The component as a transition system\<close>

inductive io_step :: "'a io_kernel_scheme \<Rightarrow> 'a io_kernel_scheme \<Rightarrow> bool" where
  manager: "io_step s (snd (rtems_io_cgroup_manager_create r w s))"
| bandwidth: "rtems_io_cgroup_manager_update_bandwidth r w s = Some (sc, s') \<Longrightarrow> io_step s s'"
| create: "rtems_io_cgroup_create b w16 lim s = Some (sc, i, s') \<Longrightarrow> io_step s s'"
| delete: "c \<in> dom (iocgs s) \<Longrightarrow> rtems_io_cgroup_delete (Some c) s = Some s' \<Longrightarrow> io_step s s'"
| add_thread: "c \<in> dom (iocgs s) \<Longrightarrow> t \<in> dom (threads s) \<Longrightarrow>
     rtems_io_cgroup_add_thread (Some c) (Some t) w32 s = Some (sc, s') \<Longrightarrow> io_step s s'"
| remove_thread: "c \<in> dom (iocgs s) \<Longrightarrow> t \<in> dom (threads s) \<Longrightarrow>
     rtems_io_cgroup_remove_thread (Some c) (Some t) s = Some (sc, s') \<Longrightarrow> io_step s s'"
| weight: "c \<in> dom (iocgs s) \<Longrightarrow> io_manager s \<noteq> None \<Longrightarrow>
     rtems_io_cgroup_allocate_weight (Some c) w32 s = Some (sc, s') \<Longrightarrow> io_step s s'"
| request: "c \<in> dom (iocgs s) \<Longrightarrow> ticks_per_second s \<noteq> 0 \<Longrightarrow>
     rtems_io_cgroup_handle_request (Some c) (Some r) s = Some (sc, s') \<Longrightarrow> io_step s s'"
| limits: "c \<in> dom (iocgs s) \<Longrightarrow>
     rtems_io_cgroup_set_limits (Some c) (Some l) s = Some (sc, s') \<Longrightarrow> io_step s s'"

lemma io_step_keeps:
  assumes "io_step s s'" "io_inv s"
  shows "io_keeps s s'"
  using assms(1)
proof (cases rule: io_step.cases)
  case (manager r w)
  then show ?thesis using io_manager_create_ok [OF assms(2)] by simp
next
  case (bandwidth r w sc)
  then show ?thesis using io_update_bandwidth_ok [OF assms(2), of r w] by auto
next
  case (create b w lim sc i)
  show ?thesis by (rule io_create_ok [OF assms(2), of b w lim]) (use create in simp)
next
  case (delete c)
  then show ?thesis using io_delete_ok [OF assms(2), of c] by auto
next
  case (add_thread c t w sc)
  then obtain g th where "iocgs s c = Some g" "threads s t = Some th" by auto
  with add_thread io_thread_weight_ok [OF assms(2) this, of w] show ?thesis
    by (auto simp: rtems_io_cgroup_add_thread_def)
next
  case (remove_thread c t sc)
  then obtain g th where "iocgs s c = Some g" "threads s t = Some th" by auto
  with remove_thread io_remove_thread_ok [OF assms(2) this] show ?thesis
    by (auto simp: rtems_io_cgroup_remove_thread_def)
next
  case (weight c w sc)
  then obtain g mg where g: "iocgs s c = Some g" "io_manager s = Some mg" by auto
  show ?thesis
  proof (cases "w = 0")
    case True
    then have "s' = s" using weight(3) by (simp add: rtems_io_cgroup_allocate_weight_def)
    then show ?thesis using io_keeps_refl [OF assms(2)] by simp
  next
    case False
    then show ?thesis using io_allocate_weight_ok [OF assms(2) g False] weight(3) by simp
  qed
next
  case (request c r sc)
  then show ?thesis using io_handle_request_ok [OF assms(2), of c _ r] by auto
next
  case (limits c l sc)
  then show ?thesis using io_set_limits_ok [OF assms(2), of c _ l] by auto
qed


text \<open>A failed \<open>rtems_io_cgroup_create\<close> (no manager, no memory, NULL arguments or weight
  zero) leaves the groups, the manager and the number of blocks in use as they were.\<close>

theorem io_create_failure_rolls_back:
  assumes "io_inv s" "rtems_io_cgroup_create b w lim s = Some (sc, i, s')" "sc \<noteq> RTEMS_SUCCESSFUL"
  shows "iocgs s' = iocgs s \<and> io_manager s' = io_manager s \<and> i = None \<and> live (mem s') = live (mem s)"
proof -
  obtain sc1 i1 s1 where c: "rtems_io_cgroup_create b w lim s = Some (sc1, i1, s1)" "io_keeps s s1"
    "sc1 \<noteq> RTEMS_SUCCESSFUL \<Longrightarrow> iocgs s1 = iocgs s \<and> io_manager s1 = io_manager s \<and> i1 = None"
    by (rule io_create_ok [OF assms(1), of b w lim]) blast
  then have "iocgs s' = iocgs s" "io_manager s' = io_manager s" "i = None" "io_slack s' = io_slack s"
    using assms(2,3) by (auto simp: io_keeps_def)
  then show ?thesis by (simp add: io_slack_def)
qed

section \<open>Bandwidth shares\<close>

lemma sum_div_le: "finite A \<Longrightarrow> (\<Sum>x\<in>A. f x div d) \<le> (\<Sum>x\<in>A. f x) div (d :: nat)"
proof (induction A rule: finite_induct)
  case (insert x A)
  have "f x div d + (\<Sum>x\<in>A. f x) div d \<le> (f x + (\<Sum>x\<in>A. f x)) div d"
    using div_add1_eq [of "f x" "\<Sum>x\<in>A. f x" d] by linarith
  with insert show ?case by simp
qed simp

lemma unat_of_sum:
  fixes f :: "'b \<Rightarrow> 'a::len word"
  assumes "finite A" "(\<Sum>x\<in>A. unat (f x)) < 2 ^ LENGTH('a)"
  shows "unat (\<Sum>x\<in>A. f x) = (\<Sum>x\<in>A. unat (f x))"
  using assms
proof (induction A rule: finite_induct)
  case (insert x A)
  then have "unat (\<Sum>x\<in>A. f x) = (\<Sum>x\<in>A. unat (f x))" by simp
  with insert show ?case by (simp add: unat_word_ariths)
qed simp

lemma unat_io_share:
  assumes "unat bps < 2 ^ 32"
  shows "unat (io_share w bps tw) = unat w * unat bps div unat tw"
proof -
  have u: "unat (ucast x :: u64) = unat x" for x :: u32
    by (rule unat_ucast_up) simp
  have "unat w < 2 ^ 32" using unat_bound [of w] by simp
  with assms have "unat w * unat bps < 2 ^ 64"
    using mult_strict_mono [of "unat w" "2 ^ 32" "unat bps" "2 ^ 32"] by simp
  then have "unat (ucast w * bps) = unat w * unat bps" by (simp add: unat_word_ariths u)
  then show ?thesis by (simp add: io_share_def unat_div_distrib u)
qed

text \<open>(C17) Bandwidth is shared out, never created: after a recomputation of the limits, with weights
  whose sum fits a 32-bit word and a system bandwidth below \<open>2 ^ 32\<close> bytes per second (so that the
  64-bit products do not overflow), the read limits of all weighted groups add up to at most the
  system's read bandwidth, and the same for writes.\<close>

theorem io_shares_bounded:
  assumes inv: "io_inv s" and mg: "io_manager s = Some mg" and pos: "mgr_total_weight mg > 0"
    and fits: "(\<Sum>c\<in>dom (iocgs s). unat (io_weight (the (iocgs s c)))) < 2 ^ 32"
    and bps: "unat (system_read_bps mg) < 2 ^ 32" "unat (system_write_bps mg) < 2 ^ 32"
  shows "\<exists>s'. io_reweigh s = Some s' \<and>
     (\<Sum>c\<in>{c \<in> dom (iocgs s). io_weight (the (iocgs s c)) > 0}.
        unat (read_bps_limit (io_limits (the (iocgs s' c))))) \<le> unat (system_read_bps mg) \<and>
     (\<Sum>c\<in>{c \<in> dom (iocgs s). io_weight (the (iocgs s c)) > 0}.
        unat (write_bps_limit (io_limits (the (iocgs s' c))))) \<le> unat (system_write_bps mg)"
proof -
  let ?A = "{c \<in> dom (iocgs s). io_weight (the (iocgs s c)) > 0}"
  let ?w = "\<lambda>c. io_weight (the (iocgs s c))"
  note fin = heap_ok_finite [OF io_invD(1) [OF inv]] and m = io_inv_managerD [OF inv mg]
  let ?h = "io_shared mg (iocgs s)"
  have "unat (mgr_total_weight mg) = (\<Sum>c\<in>dom (iocgs s). unat (?w c))"
    unfolding m(4) owned_def using fin fits by (intro unat_of_sum) simp_all
  moreover have "(\<Sum>c\<in>?A. unat (?w c)) \<le> (\<Sum>c\<in>dom (iocgs s). unat (?w c))"
    using fin by (intro sum_mono2) auto
  ultimately have W: "(\<Sum>c\<in>?A. unat (?w c)) \<le> unat (mgr_total_weight mg)" by simp
  have bound: "(\<Sum>c\<in>?A. unat (io_share (?w c) b (mgr_total_weight mg))) \<le> unat b"
    if b: "unat b < 2 ^ 32" for b
  proof -
    have "(\<Sum>c\<in>?A. unat (io_share (?w c) b (mgr_total_weight mg)))
        \<le> (\<Sum>c\<in>?A. unat (?w c) * unat b) div unat (mgr_total_weight mg)"
      unfolding unat_io_share [OF b] using fin by (intro sum_div_le) simp
    also have "(\<Sum>c\<in>?A. unat (?w c) * unat b) \<le> unat (mgr_total_weight mg) * unat b"
      using W by (simp add: sum_distrib_right [symmetric])
    then have "(\<Sum>c\<in>?A. unat (?w c) * unat b) div unat (mgr_total_weight mg)
        \<le> unat (mgr_total_weight mg) * unat b div unat (mgr_total_weight mg)"
      by (rule div_le_mono)
    also have "\<dots> = unat b" using pos by (simp add: word_gt_0 unat_eq_0)
    finally show ?thesis .
  qed
  have lim: "read_bps_limit (io_limits (the (?h c))) = io_share (?w c) (system_read_bps mg) (mgr_total_weight mg)"
    "write_bps_limit (io_limits (the (?h c))) = io_share (?w c) (system_write_bps mg) (mgr_total_weight mg)"
    if "c \<in> ?A" for c
    using that pos m(2) by (auto simp: io_shared_def io_apply_share_def)
  have "io_reweigh s = Some (s\<lparr>iocgs := ?h\<rparr>)" by (rule io_inv_reweigh [OF inv mg])
  moreover have "(\<Sum>c\<in>?A. unat (read_bps_limit (io_limits (the (?h c))))) \<le> unat (system_read_bps mg)"
    using bound [OF bps(1)] lim(1) by simp
  moreover have "(\<Sum>c\<in>?A. unat (write_bps_limit (io_limits (the (?h c))))) \<le> unat (system_write_bps mg)"
    using bound [OF bps(2)] lim(2) by simp
  ultimately show ?thesis by simp
qed

section \<open>Thread weights stay within the group's weight\<close>

definition tw_total :: "Thread_Weight_Node list \<Rightarrow> nat" where
  "tw_total ns = (\<Sum>n\<leftarrow>ns. unat (node_weight n))"

definition io_bounded :: "IO_Cgroup_Control \<Rightarrow> bool" where
  "io_bounded g \<longleftrightarrow> tw_total (thread_weights g) \<le> unat (io_weight g)"

lemma tw_total_simps [simp]:
  "tw_total [] = 0" "tw_total (n # ns) = unat (node_weight n) + tw_total ns"
  by (simp_all add: tw_total_def)

lemma tw_total_set:
  "tw_find i ns = Some old \<Longrightarrow> tw_total (tw_set i w ns) + unat old = tw_total ns + unat w"
  by (induction ns) (auto split: if_splits)

lemma tw_find_le: "tw_find i ns = Some old \<Longrightarrow> unat old \<le> tw_total ns"
  by (induction ns) (auto split: if_splits)

lemma unat_sum_list:
  "tw_total ns < 2 ^ 32 \<Longrightarrow> unat (sum_list (map node_weight ns)) = tw_total ns"
proof (induction ns)
  case (Cons n ns)
  then have "unat (sum_list (map node_weight ns)) = tw_total ns" by simp
  with Cons.prems show ?case by (simp add: unat_word_ariths)
qed simp

text \<open>Giving a thread a weight keeps the sum of the thread weights within the weight of its group,
  on success and on every error, provided the requested weight and the group's weight do not overflow a
  32-bit word together. (Without that proviso the unsigned comparison of the code wraps around.)\<close>

theorem io_thread_weights_bounded:
  assumes inv: "io_inv s" and c: "iocgs s c = Some g" and bounded: "io_bounded g"
    and small: "unat (io_weight g) + unat w < 2 ^ 32"
    and run: "rtems_io_cgroup_allocate_thread_weight (Some c) (Some t) w s = Some (sc, s')"
  shows "\<exists>g'. iocgs s' c = Some g' \<and> io_bounded g'"
proof -
  have lt: "unat (io_weight g) < 2 ^ 32" using unat_bound [of "io_weight g"] by simp
  have tot: "unat (io_total_weight g) = tw_total (thread_weights g)"
    using io_invD(2) [OF inv c] bounded lt
    by (simp add: io_group_ok_def io_bounded_def unat_sum_list)
  have new: "unat (io_total_weight g + w) = tw_total (thread_weights g) + unat w"
    using small bounded tot by (simp add: unat_word_ariths io_bounded_def)
  have upd: "unat (io_total_weight g - old + w) = tw_total (tw_set i w (thread_weights g))"
    if old: "tw_find i (thread_weights g) = Some old" for i old
  proof -
    note e = tw_total_set [OF old, of w]
    have le: "unat old \<le> tw_total (thread_weights g)" by (rule tw_find_le [OF old])
    then have le': "old \<le> io_total_weight g" using tot by (simp add: word_le_nat_alt)
    have "unat (io_total_weight g - old) = tw_total (thread_weights g) - unat old"
      using le' tot by (simp add: unat_sub)
    moreover have "tw_total (thread_weights g) - unat old + unat w < 2 ^ 32"
      using small bounded by (simp add: io_bounded_def)
    ultimately have "unat (io_total_weight g - old + w) = tw_total (thread_weights g) - unat old + unat w"
      by (simp add: unat_word_ariths)
    with e le show ?thesis by simp
  qed
  from run c obtain th where th: "threads s t = Some th" if "w \<noteq> 0"
    by (cases "w = 0") (auto simp: rtems_io_cgroup_allocate_thread_weight_def bind_eq_Some_conv)
  show ?thesis
  proof (cases "w = 0")
    case True
    with run c bounded show ?thesis by (auto simp: rtems_io_cgroup_allocate_thread_weight_def)
  next
    case False
    note th = th [OF False]
    show ?thesis
    proof (cases "tw_find (Object_id th) (thread_weights g)")
      case None
      with run c th False bounded new show ?thesis
        by (auto simp: rtems_io_cgroup_allocate_thread_weight_def io_bounded_def malloc_def
            word_le_nat_alt not_less split: if_splits)
    next
      case (Some old)
      with run c th False bounded upd [OF Some] show ?thesis
        by (auto simp: rtems_io_cgroup_allocate_thread_weight_def io_bounded_def
            word_le_nat_alt not_less split: if_splits)
    qed
  qed
qed

section \<open>Request accounting and lookup\<close>


text \<open>The id that \<open>rtems_io_cgroup_create\<close> stores finds the new group: for ids not yet in
  use, \<open>rtems_io_cgroup_get_by_id\<close> returns the block that was allocated, with the requested weight.\<close>

theorem io_create_get_by_id:
  assumes "io_inv s" "rtems_io_cgroup_create b w lim s = Some (RTEMS_SUCCESSFUL, i, s')"
  shows "\<exists>g. i = Some (next_cgroup_id s) \<and>
     rtems_io_cgroup_get_by_id (next_cgroup_id s) s' = Some (Some (brk (mem s))) \<and>
     iocgs s' (brk (mem s)) = Some g \<and> io_weight g = ucast w \<and> io_ID g = next_cgroup_id s"
proof -
  obtain sc1 i1 s1 where c: "rtems_io_cgroup_create b w lim s = Some (sc1, i1, s1)" "io_keeps s s1"
    "sc1 = RTEMS_SUCCESSFUL \<Longrightarrow> w \<noteq> 0 \<and> i1 = Some (next_cgroup_id s) \<and>
       dom (iocgs s1) = insert (brk (mem s)) (dom (iocgs s)) \<and> iocgs s (brk (mem s)) = None \<and>
       (\<exists>mg l. io_manager s1 = Some mg \<and> io_cgroups mg = brk (mem s) # l) \<and>
       (\<exists>g. iocgs s1 (brk (mem s)) = Some g \<and> io_ID g = next_cgroup_id s \<and> io_weight g = ucast w \<and>
          window_size_ms (io_limits g) = 1000)"
    by (rule io_create_ok [OF assms(1), of b w lim]) blast
  then obtain g where g: "i = Some (next_cgroup_id s)" "iocgs s' (brk (mem s)) = Some g"
    "io_ID g = next_cgroup_id s" "io_weight g = ucast w" using assms(2) by auto
  moreover obtain mg l where "io_manager s' = Some mg" "io_cgroups mg = brk (mem s) # l"
    using c assms(2) by auto
  ultimately show ?thesis by (auto simp: rtems_io_cgroup_get_by_id_def)
qed

section \<open>A concrete system\<close>

definition demo_io_base :: io_kernel where
  "demo_io_base = cg_kernel.extend
     (demo_cg\<lparr>mem := \<lparr>brk = 10, oom = (\<lambda>_. False), live = 4\<rparr>, rootContainer := None,
        threads := [3 \<mapsto> demo_thread 7 None, 4 \<mapsto> demo_thread 8 None]\<rparr>)
     (io_kernel.fields Map.empty None 1 50 100)"

lemma demo_io_base_sel:
  "iocgs demo_io_base = Map.empty" "io_manager demo_io_base = None" "next_cgroup_id demo_io_base = 1"
  "mem demo_io_base = \<lparr>brk = 10, oom = (\<lambda>_. False), live = 4\<rparr>" "ticks_per_second demo_io_base = 100"
  "ticks_since_boot demo_io_base = 50" "threads demo_io_base = [3 \<mapsto> demo_thread 7 None, 4 \<mapsto> demo_thread 8 None]"
  by (simp_all add: demo_io_base_def cg_kernel.defs io_kernel.defs)

text \<open>One group at address 1 with weight 10, of which thread 7 has 4.\<close>

definition demo_group :: IO_Cgroup_Control where
  "demo_group = \<lparr>io_ID = 1, io_limits = \<lparr>read_bps_limit = 1000, write_bps_limit = 1000, window_size_ms = 1000\<rparr>,
     io_stats = io_stats_zero 0, thread_weights = [\<lparr>node_weight = 4, Thread_ID = 7\<rparr>],
     io_total_weight = 4, io_weight = 10, io_bdbuf = True\<rparr>"

definition demo_manager :: IO_Cgroup_Manager where
  "demo_manager = \<lparr>io_cgroups = [1], io_cgroup_count = 1, mgr_total_weight = 10,
     system_read_bps = 1000, system_write_bps = 2000\<rparr>"

definition demo_io :: io_kernel where
  "demo_io = demo_io_base\<lparr>iocgs := [1 \<mapsto> demo_group], io_manager := Some demo_manager, next_cgroup_id := 2\<rparr>"

lemma demo_io_sel [simp]:
  "iocgs demo_io = [1 \<mapsto> demo_group]" "io_manager demo_io = Some demo_manager" "next_cgroup_id demo_io = 2"
  "mem demo_io = \<lparr>brk = 10, oom = (\<lambda>_. False), live = 4\<rparr>" "ticks_per_second demo_io = 100"
  "ticks_since_boot demo_io = 50"
  "threads demo_io = [3 \<mapsto> demo_thread 7 None, 4 \<mapsto> demo_thread 8 None]"
  by (simp_all add: demo_io_def demo_io_base_sel)

lemma demo_io_inv: "io_inv demo_io"
  by (simp add: io_inv_def heap_ok_def owned_def demo_manager_def)
    (simp add: demo_group_def io_group_ok_def)


theorem io_create_failure_rolls_back_witness:
  "\<exists>s'. rtems_io_cgroup_create False 0 (Some (io_limits demo_group)) demo_io = Some (RTEMS_INVALID_ADDRESS, None, s') \<and>
     iocgs s' = [1 \<mapsto> demo_group] \<and> live (mem s') = 4"
proof -
  obtain s' where r: "rtems_io_cgroup_create False 0 (Some (io_limits demo_group)) demo_io =
      Some (RTEMS_INVALID_ADDRESS, None, s')"
    by (simp add: rtems_io_cgroup_create_def malloc_def rtems_io_cgroup_add_to_manager_def
        rtems_io_cgroup_allocate_weight_def rtems_io_cgroup_remove_from_manager_def)
  with io_create_failure_rolls_back [OF demo_io_inv r] show ?thesis by simp
qed

theorem io_shares_bounded_witness:
  "\<exists>s'. io_reweigh demo_io = Some s' \<and>
     unat (read_bps_limit (io_limits (the (iocgs s' 1)))) \<le> 1000"
proof -
  have "{c \<in> dom (iocgs demo_io). io_weight (the (iocgs demo_io c)) > 0} = {1}"
    by (auto simp: demo_group_def)
  moreover have "(\<Sum>c\<in>dom (iocgs demo_io). unat (io_weight (the (iocgs demo_io c)))) < 2 ^ 32"
    by (simp add: demo_group_def)
  ultimately show ?thesis
    using io_shares_bounded [OF demo_io_inv, of demo_manager] by (simp add: demo_manager_def) auto
qed

theorem io_thread_weights_bounded_witness:
  "\<exists>s' g'. rtems_io_cgroup_allocate_thread_weight (Some 1) (Some 4) 6 demo_io = Some (RTEMS_SUCCESSFUL, s') \<and>
     iocgs s' 1 = Some g' \<and> io_bounded g'"
proof -
  obtain s' where r: "rtems_io_cgroup_allocate_thread_weight (Some 1) (Some 4) 6 demo_io = Some (RTEMS_SUCCESSFUL, s')"
    by (simp add: rtems_io_cgroup_allocate_thread_weight_def malloc_def demo_group_def)
  have "io_bounded demo_group" "unat (io_weight demo_group) + unat (6 :: u32) < 2 ^ 32"
    by (simp_all add: io_bounded_def demo_group_def)
  from io_thread_weights_bounded [OF demo_io_inv _ this r] r show ?thesis by auto
qed

text \<open>The wrap-around of the unsigned check: a thread gets the weight \<open>2 ^ 32 - 4\<close> in a group of
  weight 10, because \<open>4 + (2 ^ 32 - 4)\<close> is zero in 32 bits.\<close>

theorem io_thread_weight_wraps:
  "\<exists>s' g'. rtems_io_cgroup_allocate_thread_weight (Some 1) (Some 4) 0xFFFFFFFC demo_io = Some (RTEMS_SUCCESSFUL, s') \<and>
     iocgs s' 1 = Some g' \<and> \<not> io_bounded g'"
  by (simp add: rtems_io_cgroup_allocate_thread_weight_def malloc_def demo_group_def io_bounded_def)


theorem io_create_get_by_id_witness:
  "\<exists>s'. rtems_io_cgroup_create False 5 (Some (io_limits demo_group)) demo_io = Some (RTEMS_SUCCESSFUL, Some 2, s') \<and>
     rtems_io_cgroup_get_by_id 2 s' = Some (Some 10)"
proof -
  obtain i s' where r: "rtems_io_cgroup_create False 5 (Some (io_limits demo_group)) demo_io = Some (RTEMS_SUCCESSFUL, i, s')"
    by (simp add: rtems_io_cgroup_create_def malloc_def rtems_io_cgroup_add_to_manager_def
        rtems_io_cgroup_allocate_weight_def io_reweigh_def demo_manager_def)
  with io_create_get_by_id [OF demo_io_inv r] show ?thesis by auto
qed

end
