(* ===== verification/NetContainer.thy ===== *)
theory NetContainer
  imports IoCgroup
begin

text \<open>
  The network namespace, \<open>score/src/netContainer.c\<close>, in a build without the Carousel packet
  scheduler (its sources are not part of the repository).

  A network container has a group of interface, address, routing and protocol tables. The group's
  blocks are allocated here, so they are modelled one by one; what is in the tables belongs to the BSD
  stack under \<open>libnetworking\<close>, whose entry points are the fields of the parameter record
  \<open>bsdnet\<close>: making and reclaiming a loopback interface, \<open>ifconfig\<close>, adding and deleting a route, and
  the probe that looks a route up in the routing table of the executing task. The networking semaphore
  is not modelled.
\<close>

section \<open>Data\<close>

record inpcbinfo =
  pcb_addr :: addr
  hashbase :: ptr
  hashmask :: u64

record net_group =
  ifnet_p :: ptr
  ifnet_addrs :: ptr
  if_index_counter :: int
  if_indexlim :: int
  in_ifaddr :: "addr list"
  rt_tables :: "ptr list"
  udp_pcblist :: ptr
  udp_pcbinfo :: "inpcbinfo option"
  tcp_pcblist :: ptr
  tcp_pcbinfo :: "inpcbinfo option"
  veth_sc :: ptr

record NetContainer =
  net_rc :: int
  net_grp :: ptr
  net_ID :: int

record in_ifaddr_entry =
  ia_lo :: bool
  ia_route :: bool
  ifa_refcnt :: int

record net_kernel = io_kernel +
  nets :: "addr \<rightharpoonup> NetContainer"
  groups :: "addr \<rightharpoonup> net_group"
  ias :: "addr \<rightharpoonup> in_ifaddr_entry"
  g_netContainerId :: int
  g_currentNetContainerNum :: int
  global_ifnet :: ptr
  global_ifnet_addrs :: ptr
  global_udbinfo :: inpcbinfo
  global_udb :: ptr
  addr_tabs :: "addr \<rightharpoonup> ptr list"
  pcb_lists :: "addr \<rightharpoonup> addr list"

datatype ifconfig_request = SIOCSIFFLAGS | SIOCSIFNETMASK | SIOCSIFADDR

record 's bsdnet =
  init_loop :: "addr \<Rightarrow> 's \<Rightarrow> (int \<times> 's) option"
  destroy_loop :: "addr \<Rightarrow> 's \<Rightarrow> 's option"
  ifconfig_lo :: "ifconfig_request \<Rightarrow> 's \<Rightarrow> int \<times> 's"
  rtinit_add :: "addr \<Rightarrow> 's \<Rightarrow> int \<times> 's"
  rtinit_delete :: "addr \<Rightarrow> 's \<Rightarrow> 's"
  route_probe :: "addr \<Rightarrow> 's \<Rightarrow> bool \<times> 's"

section \<open>Groups\<close>

text \<open>The number of buckets of a hash table: the loop that doubles until \<open>count\<close> is reached.\<close>

function hash_size :: "int \<Rightarrow> int \<Rightarrow> int" where
  "hash_size n count' = (if 0 < n \<and> n < count' then hash_size (2 * n) count' else n)"
  by auto
termination by (relation "measure (\<lambda>(n, c). nat (c - n))") auto

declare hash_size.simps [simp del]

definition net_hashinit_local :: "int \<Rightarrow> Memory \<Rightarrow> ptr \<times> u64 \<times> Memory" where
  "net_hashinit_local count' m =
     (case malloc m of (p, m') \<Rightarrow> (p, of_int (hash_size 1 count' - 1), m'))"

definition UDBHASHSIZE :: int where "UDBHASHSIZE = 64"
definition TCBHASHSIZE :: int where "TCBHASHSIZE = 128"

definition net_group_new :: "'a net_kernel_scheme \<Rightarrow> ptr \<times> 'a net_kernel_scheme" where
  "net_group_new s =
     (case malloc (mem s) of
        (None, m) \<Rightarrow> (None, s\<lparr>mem := m\<rparr>)
      | (Some g, m1) \<Rightarrow>
     (case malloc m1 of
        (None, m) \<Rightarrow> (None, s\<lparr>mem := free_blocks 1 m\<rparr>)
      | (Some ul, m2) \<Rightarrow>
     (case malloc m2 of
        (None, m) \<Rightarrow> (None, s\<lparr>mem := free_blocks 2 m\<rparr>)
      | (Some ui, m3) \<Rightarrow>
     (case net_hashinit_local UDBHASHSIZE m3 of
        (None, _, m) \<Rightarrow> (None, s\<lparr>mem := free_blocks 3 m\<rparr>)
      | (Some uh, um, m4) \<Rightarrow>
     (case malloc m4 of
        (None, m) \<Rightarrow> (None, s\<lparr>mem := free_blocks 4 m\<rparr>)
      | (Some tl', m5) \<Rightarrow>
     (case malloc m5 of
        (None, m) \<Rightarrow> (None, s\<lparr>mem := free_blocks 5 m\<rparr>)
      | (Some ti, m6) \<Rightarrow>
     (case net_hashinit_local TCBHASHSIZE m6 of
        (None, _, m) \<Rightarrow> (None, s\<lparr>mem := free_blocks 6 m\<rparr>)
      | (Some th, tm, m7) \<Rightarrow>
     (case malloc m7 of
        (None, m) \<Rightarrow> (None, s\<lparr>mem := free_blocks 7 m\<rparr>)
      | (Some ia, m8) \<Rightarrow>
          (Some g, s\<lparr>mem := m8, addr_tabs := (addr_tabs s)(ia \<mapsto> replicate 8 None),
             pcb_lists := (pcb_lists s)(ul \<mapsto> [], tl' \<mapsto> []), groups := (groups s)(g \<mapsto>
             \<lparr>ifnet_p = None, ifnet_addrs = Some ia, if_index_counter = 0, if_indexlim = 8, in_ifaddr = [],
              rt_tables = replicate 32 None, udp_pcblist = Some ul,
              udp_pcbinfo = Some \<lparr>pcb_addr = ui, hashbase = Some uh, hashmask = um\<rparr>, tcp_pcblist = Some tl',
              tcp_pcbinfo = Some \<lparr>pcb_addr = ti, hashbase = Some th, hashmask = tm\<rparr>, veth_sc = None\<rparr>)\<rparr>)))))))))"

text \<open>The number of blocks that \<open>net_group_free\<close> hands back for a table with its hash.\<close>

definition pcbinfo_blocks :: "inpcbinfo option \<Rightarrow> nat" where
  "pcbinfo_blocks i = (case i of None \<Rightarrow> 0 | Some x \<Rightarrow> (if hashbase x = None then 1 else 2))"

definition heap_clear :: "ptr \<Rightarrow> (addr \<rightharpoonup> 'v) \<Rightarrow> addr \<rightharpoonup> 'v" where
  "heap_clear p h = (case p of None \<Rightarrow> h | Some a \<Rightarrow> h(a := None))"

definition net_group_free :: "'a net_kernel_scheme bsdnet \<Rightarrow> ptr \<Rightarrow> 'a net_kernel_scheme \<Rightarrow> 'a net_kernel_scheme option" where
  "net_group_free B p s =
     (case p of
        None \<Rightarrow> Some s
      | Some g \<Rightarrow> do {
          _ \<leftarrow> groups s g;
          s1 \<leftarrow> destroy_loop B g s;
          ng \<leftarrow> groups s1 g;
          let n = pcbinfo_blocks (tcp_pcbinfo ng) + (if tcp_pcblist ng = None then 0 else 1)
                + pcbinfo_blocks (udp_pcbinfo ng) + (if udp_pcblist ng = None then 0 else 1)
                + (if ifnet_addrs ng = None then 0 else 1) + 1;
          Some (s1\<lparr>mem := free_blocks n (mem s1), groups := (groups s1)(g := None),
                   addr_tabs := heap_clear (ifnet_addrs ng) (addr_tabs s1),
                   pcb_lists := heap_clear (udp_pcblist ng) (heap_clear (tcp_pcblist ng) (pcb_lists s1))\<rparr>) })"

section \<open>Containers\<close>

definition rtems_net_container_initialize_root ::
  "bool \<Rightarrow> 'a net_kernel_scheme \<Rightarrow> int \<times> ptr \<times> 'a net_kernel_scheme" where
  "rtems_net_container_initialize_root arg_null s =
     (if arg_null then (-1, None, s)
      else case malloc (mem s) of
        (None, m) \<Rightarrow> (-1, None, s\<lparr>mem := m\<rparr>)
      | (Some a, m) \<Rightarrow>
          (case net_group_new (s\<lparr>mem := m\<rparr>) of
             (None, s1) \<Rightarrow> (-1, None, s1\<lparr>mem := free_block (mem s1)\<rparr>)
           | (Some g, s1) \<Rightarrow>
               (0, Some a, s1\<lparr>nets := (nets s1)(a \<mapsto> \<lparr>net_rc = 3, net_grp = Some g, net_ID = 1\<rparr>),
                  g_currentNetContainerNum := g_currentNetContainerNum s1 + 1\<rparr>)))"

definition net_add_rc :: "addr \<Rightarrow> int \<Rightarrow> 'a net_kernel_scheme \<Rightarrow> 'a net_kernel_scheme option" where
  "net_add_rc c d s = do {
     u \<leftarrow> nets s c;
     Some (s\<lparr>nets := (nets s)(c \<mapsto> u\<lparr>net_rc := net_rc u + d\<rparr>)\<rparr>) }"

definition set_net :: "addr \<Rightarrow> ptr \<Rightarrow> 'a net_kernel_scheme \<Rightarrow> 'a net_kernel_scheme" where
  "set_net t p = upd_thread t (upd_container (netContainer_update (\<lambda>_. p)))"

definition net_rehome :: "addr \<Rightarrow> addr \<Rightarrow> addr \<Rightarrow> 'a net_kernel_scheme \<Rightarrow> 'a net_kernel_scheme option" where
  "net_rehome c r t s = do {
     _ \<leftarrow> threads s t;
     if thread_ns netContainer s t = Some c
     then do { s1 \<leftarrow> net_add_rc r 1 (set_net t (Some r) s); net_add_rc c (-1) s1 }
     else Some s }"

text \<open>The visitor reads the root's container through the root pointer and stops the iteration at the
  first task.\<close>

definition switch_to_root_net ::
  "addr \<Rightarrow> addr \<Rightarrow> 'a net_kernel_scheme \<Rightarrow> (bool \<times> 'a net_kernel_scheme) option" where
  "switch_to_root_net c t s = do {
     r \<leftarrow> rtems_container_get_root s;
     _ \<leftarrow> threads s t;
     if thread_ns netContainer s t = Some c
     then do { r \<leftarrow> netContainer r; s1 \<leftarrow> net_rehome c r t s; Some (True, s1) }
     else Some (True, s) }"

definition rtems_net_container_add_to_list :: "ptr \<Rightarrow> 'a net_kernel_scheme \<Rightarrow> 'a net_kernel_scheme" where
  "rtems_net_container_add_to_list p s =
     (case (p, rtems_container_get_root s) of
        (Some c, Some r) \<Rightarrow>
          (case list_push c (netContainerList r) (mem s) of
             (l, m) \<Rightarrow> s\<lparr>mem := m, rootContainer := Some (r\<lparr>netContainerList := l\<rparr>)\<rparr>)
      | _ \<Rightarrow> s)"

definition rtems_net_container_remove_from_list :: "ptr \<Rightarrow> 'a net_kernel_scheme \<Rightarrow> 'a net_kernel_scheme" where
  "rtems_net_container_remove_from_list p s =
     (case (p, rtems_container_get_root s) of
        (Some c, Some r) \<Rightarrow>
          (case list_unlink c (netContainerList r) (mem s) of
             (l, m) \<Rightarrow> s\<lparr>mem := m, rootContainer := Some (r\<lparr>netContainerList := l\<rparr>)\<rparr>)
      | _ \<Rightarrow> s)"

definition add_refcnt :: "addr \<Rightarrow> int \<Rightarrow> 'a net_kernel_scheme \<Rightarrow> 'a net_kernel_scheme option" where
  "add_refcnt a d s = do { x \<leftarrow> ias s a; Some (s\<lparr>ias := (ias s)(a \<mapsto> x\<lparr>ifa_refcnt := ifa_refcnt x + d\<rparr>)\<rparr>) }"

text \<open>Removing the routes of one address. \<open>self\<close> is the executing task together with its own
  network container when that is not the one being deleted; its pointer is switched to choose the
  routing table.\<close>

definition in_net :: "(addr \<times> addr) option \<Rightarrow> (addr \<Rightarrow> addr) \<Rightarrow> 'a net_kernel_scheme \<Rightarrow> 'a net_kernel_scheme" where
  "in_net self pick s = (case self of None \<Rightarrow> s | Some (t, saved) \<Rightarrow> set_net t (Some (pick saved)) s)"

definition remove_address_routes ::
  "'a net_kernel_scheme bsdnet \<Rightarrow> (addr \<times> addr) option \<Rightarrow> addr \<Rightarrow> addr \<Rightarrow> 'a net_kernel_scheme \<Rightarrow> 'a net_kernel_scheme option" where
  "remove_address_routes B self c a s = do {
     s1 \<leftarrow> add_refcnt a 1 s;
     (child, s2) \<leftarrow> Some (route_probe B a (in_net self (\<lambda>_. c) s1));
     (root, s3) \<leftarrow> Some (if self = None then (False, s2)
        else (case route_probe B a (in_net self (\<lambda>saved. saved) s2) of (r, s') \<Rightarrow> (r, in_net self (\<lambda>_. c) s')));
     s4 \<leftarrow> Some (if root then in_net self (\<lambda>_. c) (rtinit_delete B a (in_net self (\<lambda>saved. saved) s3)) else s3);
     s5 \<leftarrow> Some (if child then rtinit_delete B a (in_net self (\<lambda>_. c) s4) else s4);
     x \<leftarrow> ias s5 a;
     if 0 < ifa_refcnt x then add_refcnt a (-1) s5 else Some s5 }"

fun remove_routes ::
  "'a net_kernel_scheme bsdnet \<Rightarrow> (addr \<times> addr) option \<Rightarrow> addr \<Rightarrow> addr list \<Rightarrow> 'a net_kernel_scheme \<Rightarrow> 'a net_kernel_scheme option" where
  "remove_routes B self c [] s = Some s"
| "remove_routes B self c (a # as) s = do { s1 \<leftarrow> remove_address_routes B self c a s; remove_routes B self c as s1 }"

definition net_release_group ::
  "'a net_kernel_scheme bsdnet \<Rightarrow> addr \<Rightarrow> 'a net_kernel_scheme \<Rightarrow> 'a net_kernel_scheme option" where
  "net_release_group B c s = do {
     nc \<leftarrow> nets s c;
     case net_grp nc of
       None \<Rightarrow> Some s
     | Some g \<Rightarrow> do {
         ng \<leftarrow> groups s g;
         self \<leftarrow> Some (do { t \<leftarrow> executing s; n \<leftarrow> thread_ns netContainer s t; if n \<noteq> c then Some (t, n) else None });
         s1 \<leftarrow> remove_routes B self c (in_ifaddr ng) s;
         s2 \<leftarrow> net_group_free B (Some g) (in_net self (\<lambda>saved. saved) s1);
         nc2 \<leftarrow> nets s2 c;
         Some (s2\<lparr>nets := (nets s2)(c \<mapsto> nc2\<lparr>net_grp := None\<rparr>)\<rparr>) } }"

definition rtems_net_container_delete ::
  "'a net_kernel_scheme bsdnet \<Rightarrow> ptr \<Rightarrow> 'a net_kernel_scheme \<Rightarrow> 'a net_kernel_scheme option" where
  "rtems_net_container_delete B p s = do {
     _ \<leftarrow> log_deref s (nets s) [p];
     case (p, do { r \<leftarrow> rtems_container_get_root s; netContainer r }) of
       (Some c, Some r) \<Rightarrow>
         if c = r then Some s
         else do {
           s1 \<leftarrow> Thread_Iterate (switch_to_root_net c) s;
           s2 \<leftarrow> (case executing s1 of None \<Rightarrow> Some s1 | Some t \<Rightarrow> net_rehome c r t s1);
           s3 \<leftarrow> Some (rtems_net_container_remove_from_list (Some c) s2);
           s4 \<leftarrow> net_release_group B c s3;
           Some (s4\<lparr>g_currentNetContainerNum := g_currentNetContainerNum s4 - 1, mem := free_block (mem s4),
                    nets := (nets s4)(c := None)\<rparr>) }
     | _ \<Rightarrow> Some s }"

definition rtems_net_container_move_task ::
  "'a net_kernel_scheme bsdnet \<Rightarrow> ptr \<Rightarrow> ptr \<Rightarrow> ptr \<Rightarrow> 'a net_kernel_scheme \<Rightarrow> 'a net_kernel_scheme option" where
  "rtems_net_container_move_task B srcContainer destContainer thread s =
     (case (srcContainer, destContainer, thread) of
        (Some a, Some b, Some t) \<Rightarrow> do {
          _ \<leftarrow> threads s t;
          if thread_ns netContainer s t = Some a
          then do {
            s1 \<leftarrow> net_add_rc b 1 (set_net t (Some b) s);
            s2 \<leftarrow> net_add_rc a (-1) s1;
            u \<leftarrow> nets s2 a;
            s3 \<leftarrow> (if net_rc u \<le> 0 \<and> net_ID u \<noteq> 1 then rtems_net_container_delete B (Some a) s2 else Some s2);
            _ \<leftarrow> log_deref s3 (nets s3) [Some b];
            Some s3 }
          else do { _ \<leftarrow> log_deref s (nets s) [Some a]; Some s } }
      | _ \<Rightarrow> Some s)"

definition install_container_loopback_route ::
  "'a net_kernel_scheme bsdnet \<Rightarrow> ptr \<Rightarrow> 'a net_kernel_scheme \<Rightarrow> (int \<times> 'a net_kernel_scheme) option" where
  "install_container_loopback_route B p s =
     (case p of
        None \<Rightarrow> Some (-1, s)
      | Some c \<Rightarrow> do {
          nc \<leftarrow> nets s c;
          case net_grp nc of
            None \<Rightarrow> Some (-1, s)
          | Some g \<Rightarrow> do {
              ng \<leftarrow> groups s g;
              case find (\<lambda>a. \<exists>x. ias s a = Some x \<and> ia_lo x) (in_ifaddr ng) of
                None \<Rightarrow> Some (-1, s)
              | Some a \<Rightarrow> do {
                  x \<leftarrow> ias s a;
                  s1 \<leftarrow> (if ia_route x then do {
                            let s' = rtinit_delete B a s;
                            x' \<leftarrow> ias s' a;
                            Some (s'\<lparr>ias := (ias s')(a \<mapsto> x'\<lparr>ia_route := False\<rparr>)\<rparr>) }
                          else Some s);
                  (rc, s2) \<leftarrow> Some (rtinit_add B a s1);
                  if rc \<noteq> 0 then Some (-1, s2)
                  else do { x2 \<leftarrow> ias s2 a; Some (0, s2\<lparr>ias := (ias s2)(a \<mapsto> x2\<lparr>ia_route := True\<rparr>)\<rparr>) } } } })"

fun ifconfig_all ::
  "'a net_kernel_scheme bsdnet \<Rightarrow> ifconfig_request list \<Rightarrow> 'a net_kernel_scheme \<Rightarrow> bool \<times> 'a net_kernel_scheme" where
  "ifconfig_all B [] s = (True, s)"
| "ifconfig_all B (r # rs) s = (case ifconfig_lo B r s of (x, s1) \<Rightarrow> if x < 0 then (False, s1) else ifconfig_all B rs s1)"

definition configure_loopback_ipv4_in_container ::
  "'a net_kernel_scheme bsdnet \<Rightarrow> ptr \<Rightarrow> 'a net_kernel_scheme \<Rightarrow> (int \<times> 'a net_kernel_scheme) option" where
  "configure_loopback_ipv4_in_container B p s =
     (case p of
        None \<Rightarrow> Some (-1, s)
      | Some c \<Rightarrow>
          (case do { t \<leftarrow> executing s; n \<leftarrow> thread_ns netContainer s t; Some (t, n) } of
             None \<Rightarrow> Some (0, s)
           | Some (t, src) \<Rightarrow> do {
               s1 \<leftarrow> (if src \<noteq> c then rtems_net_container_move_task B (Some src) (Some c) (Some t) s else Some s);
               (rc, s2) \<leftarrow> (case ifconfig_all B [SIOCSIFFLAGS, SIOCSIFNETMASK, SIOCSIFADDR] s1 of
                    (False, s') \<Rightarrow> Some (-1, s')
                  | (True, s') \<Rightarrow> install_container_loopback_route B (Some c) s');
               s3 \<leftarrow> (if src \<noteq> c then rtems_net_container_move_task B (Some c) (Some src) (Some t) s2 else Some s2);
               Some (rc, s3) }))"

definition create_loopback_for_container ::
  "'a net_kernel_scheme bsdnet \<Rightarrow> ptr \<Rightarrow> 'a net_kernel_scheme \<Rightarrow> (int \<times> 'a net_kernel_scheme) option" where
  "create_loopback_for_container B p s =
     (case p of
        None \<Rightarrow> Some (-1, s)
      | Some c \<Rightarrow> do {
          nc \<leftarrow> nets s c;
          case net_grp nc of
            None \<Rightarrow> Some (-1, s)
          | Some g \<Rightarrow> do {
              (rc, s1) \<leftarrow> init_loop B g s;
              if rc \<noteq> 0 then Some (-1, s1)
              else do {
                ng \<leftarrow> groups s1 g;
                if ifnet_p ng = None \<or> in_ifaddr ng = [] then Some (-1, s1)
                else do {
                  (_, s2) \<leftarrow> configure_loopback_ipv4_in_container B (Some c) s1;
                  Some (0, s2) } } } })"

definition rtems_net_container_create ::
  "'a net_kernel_scheme bsdnet \<Rightarrow> 'a net_kernel_scheme \<Rightarrow> (ptr \<times> 'a net_kernel_scheme) option" where
  "rtems_net_container_create B s =
     (case malloc (mem s) of
        (None, m) \<Rightarrow> Some (None, s\<lparr>mem := m\<rparr>)
      | (Some a, m) \<Rightarrow>
          (case net_group_new (s\<lparr>mem := m, g_netContainerId := g_netContainerId s + 1\<rparr>) of
             (None, s1) \<Rightarrow> Some (None, s1\<lparr>mem := free_block (mem s1)\<rparr>)
           | (Some g, s1) \<Rightarrow> do {
               (rc, s2) \<leftarrow> create_loopback_for_container B (Some a)
                             (s1\<lparr>nets := (nets s1)(a \<mapsto> \<lparr>net_rc = 1, net_grp = Some g, net_ID = g_netContainerId s + 1\<rparr>)\<rparr>);
               if rc \<noteq> 0
               then do {
                 nc \<leftarrow> nets s2 a;
                 s3 \<leftarrow> net_group_free B (net_grp nc) s2;
                 Some (None, s3\<lparr>mem := free_block (mem s3), nets := (nets s3)(a := None)\<rparr>) }
               else Some (Some a, rtems_net_container_add_to_list (Some a)
                      (s2\<lparr>g_currentNetContainerNum := g_currentNetContainerNum s2 + 1\<rparr>)) }))"

definition rtems_net_container_get_id :: "ptr \<Rightarrow> 'a net_kernel_scheme \<Rightarrow> int option" where
  "rtems_net_container_get_id p s = (case p of None \<Rightarrow> Some (-1) | Some c \<Rightarrow> map_option net_ID (nets s c))"

definition rtems_net_container_get_rc :: "ptr \<Rightarrow> 'a net_kernel_scheme \<Rightarrow> int option" where
  "rtems_net_container_get_rc p s = (case p of None \<Rightarrow> Some 0 | Some c \<Rightarrow> map_option net_rc (nets s c))"

definition rtems_net_container_get_NetContainerNum :: "'a net_kernel_scheme \<Rightarrow> int" where
  "rtems_net_container_get_NetContainerNum s = g_currentNetContainerNum s"

text \<open>The getters choose between the tables of the executing task's container and the global ones.\<close>

definition current_group :: "'a net_kernel_scheme \<Rightarrow> net_group option option" where
  "current_group s =
     (case do { t \<leftarrow> executing s; thread_ns netContainer s t } of
        None \<Rightarrow> Some None
      | Some c \<Rightarrow> do {
          nc \<leftarrow> nets s c;
          case net_grp nc of None \<Rightarrow> Some None | Some g \<Rightarrow> map_option Some (groups s g) })"

definition rtems_net_container_get_ifnet :: "'a net_kernel_scheme \<Rightarrow> ptr option" where
  "rtems_net_container_get_ifnet s =
     map_option (\<lambda>g. case g of None \<Rightarrow> global_ifnet s | Some ng \<Rightarrow> ifnet_p ng) (current_group s)"

definition rtems_net_container_get_ifnet_addrs :: "'a net_kernel_scheme \<Rightarrow> ptr option" where
  "rtems_net_container_get_ifnet_addrs s =
     map_option (\<lambda>g. case g of None \<Rightarrow> global_ifnet_addrs s | Some ng \<Rightarrow> ifnet_addrs ng) (current_group s)"

definition rtems_net_container_get_udp_pcblist :: "'a net_kernel_scheme \<Rightarrow> ptr option" where
  "rtems_net_container_get_udp_pcblist s =
     map_option (\<lambda>g. case g of None \<Rightarrow> global_udb s | Some ng \<Rightarrow> udp_pcblist ng) (current_group s)"

definition rtems_net_container_get_udp_pcbinfo :: "'a net_kernel_scheme \<Rightarrow> inpcbinfo option option" where
  "rtems_net_container_get_udp_pcbinfo s =
     map_option (\<lambda>g. case g of None \<Rightarrow> Some (global_udbinfo s) | Some ng \<Rightarrow> udp_pcbinfo ng) (current_group s)"

text \<open>The two getters that hand out a variable: the list of IPv4 addresses, and the table of routing
  trees, which is filled on first use. \<open>domains\<close> are the address families whose domain has an attach routine;
  \<open>inithead\<close> stands for that routine, which stores a new tree in the given slot or leaves it empty.\<close>

definition rtems_net_container_get_in_ifaddr :: "addr list \<Rightarrow> 'a net_kernel_scheme \<Rightarrow> addr list option" where
  "rtems_net_container_get_in_ifaddr global_list s =
     map_option (\<lambda>g. case g of None \<Rightarrow> global_list | Some ng \<Rightarrow> in_ifaddr ng) (current_group s)"

fun attach_domains ::
  "('s \<Rightarrow> ptr \<times> 's) \<Rightarrow> nat list \<Rightarrow> ptr list \<Rightarrow> 's \<Rightarrow> (ptr list \<times> 's) option" where
  "attach_domains inithead [] ts s = Some (ts, s)"
| "attach_domains inithead (f # fs) ts s =
     (if length ts \<le> f then None
      else if ts ! f = None then (case inithead s of (p, s1) \<Rightarrow> attach_domains inithead fs (ts[f := p]) s1)
      else attach_domains inithead fs ts s)"

definition current_group_addr :: "'a net_kernel_scheme \<Rightarrow> ptr" where
  "current_group_addr s = do { t \<leftarrow> executing s; c \<leftarrow> thread_ns netContainer s t; nc \<leftarrow> nets s c; net_grp nc }"

definition rtems_net_container_get_rt_tables ::
  "('a net_kernel_scheme \<Rightarrow> ptr \<times> 'a net_kernel_scheme) \<Rightarrow> nat list \<Rightarrow> ptr list \<Rightarrow> 'a net_kernel_scheme \<Rightarrow>
     (ptr list \<times> 'a net_kernel_scheme) option" where
  "rtems_net_container_get_rt_tables inithead domains global_tables s = do {
     cur \<leftarrow> current_group s;
     case (cur, current_group_addr s) of
       (Some ng, Some g) \<Rightarrow>
         if length (rt_tables ng) \<le> 2 then None
         else if rt_tables ng ! 2 = None then do {
           (ts, s1) \<leftarrow> attach_domains inithead domains (rt_tables ng) s;
           ng1 \<leftarrow> groups s1 g;
           Some (ts, s1\<lparr>groups := (groups s1)(g \<mapsto> ng1\<lparr>rt_tables := ts\<rparr>)\<rparr>) }
         else Some (rt_tables ng, s)
     | _ \<Rightarrow> Some (global_tables, s) }"

section \<open>Registry and reference counts\<close>

definition net_registry :: "'a net_kernel_scheme \<Rightarrow> addr list" where
  "net_registry s = (case rootContainer s of None \<Rightarrow> [] | Some r \<Rightarrow> netContainerList r)"

definition net_count :: "'a net_kernel_scheme \<Rightarrow> addr \<Rightarrow> int option" where
  "net_count s c = map_option net_rc (nets s c)"

interpretation net_reg: ns_registry rtems_net_container_add_to_list
  rtems_net_container_remove_from_list net_registry mem "\<lambda>s. rootContainer s \<noteq> None"
  by unfold_locales
    (auto simp: rtems_net_container_add_to_list_def rtems_net_container_remove_from_list_def
      rtems_container_get_root_def net_registry_def split: option.splits prod.splits)

lemma set_net_sel [simp]:
  "nets (set_net t p s) = nets s" "mem (set_net t p s) = mem s" "cfg (set_net t p s) = cfg s"
  "rootContainer (set_net t p s) = rootContainer s" "groups (set_net t p s) = groups s" "ias (set_net t p s) = ias s"
  "executing (set_net t p s) = executing s"
  by (simp_all add: set_net_def upd_thread_def)

lemma thread_ns_set_net:
  "thread_ns netContainer s t = Some a \<Longrightarrow>
     thread_ns netContainer (set_net t p s) = (thread_ns netContainer s)(t := p)"
  unfolding set_net_def by (rule thread_ns_set) simp_all

lemma thread_ns_nets [simp]: "thread_ns sel (s\<lparr>nets := h\<rparr>) = thread_ns sel s"
  by (simp add: thread_ns_def fun_eq_iff)

lemma net_add_rc_Some:
  "nets s c = Some u \<Longrightarrow> net_add_rc c d s = Some (s\<lparr>nets := (nets s)(c \<mapsto> u\<lparr>net_rc := net_rc u + d\<rparr>)\<rparr>)"
  by (simp add: net_add_rc_def)

text \<open>A move between two containers when the source keeps other users.\<close>

lemma net_move_eq:
  assumes "thread_ns netContainer s t = Some a" "nets s a = Some ua" "nets s b = Some ub" "a \<noteq> b" "1 < net_rc ua"
  shows "rtems_net_container_move_task B (Some a) (Some b) (Some t) s =
     Some ((set_net t (Some b) s)\<lparr>nets := (nets s)(b \<mapsto> ub\<lparr>net_rc := net_rc ub + 1\<rparr>, a \<mapsto> ua\<lparr>net_rc := net_rc ua - 1\<rparr>)\<rparr>)"
proof -
  have "threads s t \<noteq> None" using assms(1) by (auto simp: thread_ns_def bind_eq_Some_conv)
  then show ?thesis using assms by (auto simp: rtems_net_container_move_task_def net_add_rc_Some)
qed

lemma net_move_member:
  assumes "thread_ns netContainer s t = Some a" "net_count s a = Some n" "net_count s b = Some k" "a \<noteq> b" "1 < n"
  shows "\<exists>s'. rtems_net_container_move_task B (Some a) (Some b) (Some t) s = Some s' \<and>
     thread_ns netContainer s' = (thread_ns netContainer s)(t := Some b) \<and>
     net_count s' = (net_count s)(a \<mapsto> n - 1, b \<mapsto> k + 1)"
proof -
  from assms obtain ua ub where u: "nets s a = Some ua" "net_rc ua = n" "nets s b = Some ub" "net_rc ub = k"
    by (auto simp: net_count_def)
  show ?thesis
    using net_move_eq [OF assms(1) u(1,3) assms(4)] thread_ns_set_net [OF assms(1)] u assms(4,5)
    by (auto simp: net_count_def fun_eq_iff)
qed

interpretation net_ns: ns_refcount "thread_ns netContainer" net_count "rtems_net_container_move_task B" for B
  by unfold_locales (rule net_move_member)

text \<open>Moving a task between network containers keeps the reference counts in step with the tasks: no
  container's count drifts from the number of its tasks, and only the moved task changes container.\<close>

theorem net_move_keeps_counts:
  assumes "finite T" "t \<in> T" "thread_ns netContainer s t = Some a" "net_count s a = Some n" "net_count s b = Some k"
    "a \<noteq> b" "1 < n"
  shows "\<exists>s'. rtems_net_container_move_task B (Some a) (Some b) (Some t) s = Some s' \<and>
     thread_ns netContainer s' t = Some b \<and> (\<forall>u. u \<noteq> t \<longrightarrow> thread_ns netContainer s' u = thread_ns netContainer s u) \<and>
     (\<forall>c. the (net_count s' c) - int (card {u \<in> T. thread_ns netContainer s' u = Some c}) =
          the (net_count s c) - int (card {u \<in> T. thread_ns netContainer s u = Some c}))"
  by (rule net_ns.move_keeps_excess [OF assms, of B]) (auto simp: net_ns.excess_def)

section \<open>Groups are allocated all or nothing\<close>

lemma hash_size_64: "hash_size 1 64 = 64" "hash_size 1 128 = 128"
  by (simp_all add: hash_size.simps)

lemma hash_size_ge: "0 < n \<Longrightarrow> count' \<le> hash_size n count' \<and> (\<exists>k. hash_size n count' = n * 2 ^ k)"
proof (induction n count' rule: hash_size.induct)
  case (1 n c)
  show ?case
  proof (cases "n < c")
    case True
    then obtain k where "c \<le> hash_size (2 * n) c" "hash_size (2 * n) c = 2 * n * 2 ^ k" using 1 by auto
    then show ?thesis using True 1(2) by (subst hash_size.simps, subst hash_size.simps) (auto intro!: exI [of _ "Suc k"])
  next
    case False
    then show ?thesis by (subst hash_size.simps, subst hash_size.simps) (auto intro!: exI [of _ 0])
  qed
qed

text \<open>Building a group is all or nothing: whichever of its eight allocations fails, everything allocated
  before is handed back and no group appears; when none fails, the group's eight blocks are taken and
  its two hash tables have 64 and 128 buckets, so that a masked hash value is always a bucket index.\<close>

theorem net_group_new_atomic:
  "case net_group_new s of
     (None, s') \<Rightarrow> live (mem s') = live (mem s) \<and> groups s' = groups s \<and>
       (\<exists>k < 8. oom (mem s) (brk (mem s) + k))
   | (Some g, s') \<Rightarrow> live (mem s') = live (mem s) + 8 \<and> (\<forall>k < 8. \<not> oom (mem s) (brk (mem s) + k)) \<and>
       (\<exists>ng ui ti. groups s' = (groups s)(g \<mapsto> ng) \<and> udp_pcbinfo ng = Some ui \<and> tcp_pcbinfo ng = Some ti \<and>
          unat (hashmask ui) + 1 = 64 \<and> unat (hashmask ti) + 1 = 128)"
proof -
  define m where "m = mem s"
  let ?b = "brk m"
  have less: "(\<forall>k < 8. \<not> oom m (?b + k)) \<longleftrightarrow> \<not> oom m (?b) \<and> \<not> oom m (Suc (?b)) \<and> \<not> oom m (Suc (Suc (?b))) \<and> \<not> oom m (Suc (Suc (Suc (?b)))) \<and> \<not> oom m (Suc (Suc (Suc (Suc (?b))))) \<and> \<not> oom m (Suc (Suc (Suc (Suc (Suc (?b)))))) \<and> \<not> oom m (Suc (Suc (Suc (Suc (Suc (Suc (?b))))))) \<and> \<not> oom m (Suc (Suc (Suc (Suc (Suc (Suc (Suc (?b))))))))"
    by (simp add: eval_nat_numeral All_less_Suc) blast
  have ex: "(\<exists>k < 8. oom m (?b + k)) \<longleftrightarrow> \<not> (\<forall>k < 8. \<not> oom m (?b + k))" by auto
  have alloc: "malloc (m\<lparr>brk := x, live := y\<rparr>) =
      (if oom m x then (None, m\<lparr>brk := Suc x, live := y\<rparr>) else (Some x, m\<lparr>brk := Suc x, live := y + 1\<rparr>))" for x y
    by (simp add: malloc_def)
  have first: "malloc m = (if oom m ?b then (None, m\<lparr>brk := Suc ?b, live := live m\<rparr>) else (Some ?b, m\<lparr>brk := Suc ?b, live := live m + 1\<rparr>))"
    using alloc [where x = ?b and y = "live m"] by simp
  consider "oom m (?b)"
    | "\<not> oom m (?b)" "oom m (Suc (?b))"
    | "\<not> oom m (?b)" "\<not> oom m (Suc (?b))" "oom m (Suc (Suc (?b)))"
    | "\<not> oom m (?b)" "\<not> oom m (Suc (?b))" "\<not> oom m (Suc (Suc (?b)))" "oom m (Suc (Suc (Suc (?b))))"
    | "\<not> oom m (?b)" "\<not> oom m (Suc (?b))" "\<not> oom m (Suc (Suc (?b)))" "\<not> oom m (Suc (Suc (Suc (?b))))" "oom m (Suc (Suc (Suc (Suc (?b)))))"
    | "\<not> oom m (?b)" "\<not> oom m (Suc (?b))" "\<not> oom m (Suc (Suc (?b)))" "\<not> oom m (Suc (Suc (Suc (?b))))" "\<not> oom m (Suc (Suc (Suc (Suc (?b)))))" "oom m (Suc (Suc (Suc (Suc (Suc (?b))))))"
    | "\<not> oom m (?b)" "\<not> oom m (Suc (?b))" "\<not> oom m (Suc (Suc (?b)))" "\<not> oom m (Suc (Suc (Suc (?b))))" "\<not> oom m (Suc (Suc (Suc (Suc (?b)))))" "\<not> oom m (Suc (Suc (Suc (Suc (Suc (?b))))))" "oom m (Suc (Suc (Suc (Suc (Suc (Suc (?b)))))))"
    | "\<not> oom m (?b)" "\<not> oom m (Suc (?b))" "\<not> oom m (Suc (Suc (?b)))" "\<not> oom m (Suc (Suc (Suc (?b))))" "\<not> oom m (Suc (Suc (Suc (Suc (?b)))))" "\<not> oom m (Suc (Suc (Suc (Suc (Suc (?b))))))" "\<not> oom m (Suc (Suc (Suc (Suc (Suc (Suc (?b)))))))" "oom m (Suc (Suc (Suc (Suc (Suc (Suc (Suc (?b))))))))"
    | "\<not> oom m (?b)" "\<not> oom m (Suc (?b))" "\<not> oom m (Suc (Suc (?b)))" "\<not> oom m (Suc (Suc (Suc (?b))))" "\<not> oom m (Suc (Suc (Suc (Suc (?b)))))" "\<not> oom m (Suc (Suc (Suc (Suc (Suc (?b))))))" "\<not> oom m (Suc (Suc (Suc (Suc (Suc (Suc (?b)))))))" "\<not> oom m (Suc (Suc (Suc (Suc (Suc (Suc (Suc (?b))))))))" by blast
  then show ?thesis unfolding net_group_new_def net_hashinit_local_def m_def [symmetric] ex less
    by cases (simp_all add: first alloc UDBHASHSIZE_def TCBHASHSIZE_def hash_size_64, intro exI conjI, rule refl, simp, simp, simp, simp)
qed

section \<open>Deleting a container\<close>

text \<open>What the deletion relies on: the BSD entry points it calls do not touch the kernel's threads and
  containers, a route operation does not free an address that is pinned by a reference, and reclaiming
  a loopback leaves the group itself in place.\<close>

definition net_core :: "'a net_kernel_scheme \<Rightarrow> (addr \<rightharpoonup> Thread_Control) \<times> (addr \<rightharpoonup> NetContainer) \<times> Container option \<times> ptr \<times> int" where
  "net_core s = (threads s, nets s, rootContainer s, executing s, g_currentNetContainerNum s)"

definition bsd_quiet :: "'a net_kernel_scheme bsdnet \<Rightarrow> ('a net_kernel_scheme \<Rightarrow> bool) \<Rightarrow> bool" where
  "bsd_quiet B J \<longleftrightarrow>
     (\<forall>a s. net_core (rtinit_delete B a s) = net_core s \<and> net_core (snd (route_probe B a s)) = net_core s \<and>
        dom (ias (rtinit_delete B a s)) = dom (ias s) \<and> dom (ias (snd (route_probe B a s))) = dom (ias s) \<and>
        dom (groups (rtinit_delete B a s)) = dom (groups s) \<and> dom (groups (snd (route_probe B a s))) = dom (groups s)) \<and>
     (\<forall>a s. J s \<longrightarrow> J (rtinit_delete B a s) \<and> J (snd (route_probe B a s)) \<and> (\<forall>q. J (set_net a q s)) \<and>
        (\<forall>d s'. add_refcnt a d s = Some s' \<longrightarrow> J s') \<and> (\<forall>q. J (rtems_net_container_remove_from_list q s)) \<and>
        (groups s a \<noteq> None \<longrightarrow> (\<exists>s'. destroy_loop B a s = Some s' \<and> net_core s' = net_core s \<and> groups s' a \<noteq> None)))"

lemma bsd_quietD:
  assumes "bsd_quiet B J"
  shows "net_core (rtinit_delete B a s) = net_core s" "net_core (snd (route_probe B a s)) = net_core s"
    "dom (ias (rtinit_delete B a s)) = dom (ias s)" "dom (ias (snd (route_probe B a s))) = dom (ias s)"
    "dom (groups (rtinit_delete B a s)) = dom (groups s)" "dom (groups (snd (route_probe B a s))) = dom (groups s)"
    "J s \<Longrightarrow> J (rtinit_delete B a s)" "J s \<Longrightarrow> J (snd (route_probe B a s))" "J s \<Longrightarrow> J (set_net a q s)"
    "J s \<Longrightarrow> add_refcnt a d s = Some s' \<Longrightarrow> J s'" "J s \<Longrightarrow> J (rtems_net_container_remove_from_list q s)"
    "J s \<Longrightarrow> groups s a \<noteq> None \<Longrightarrow> \<exists>s'. destroy_loop B a s = Some s' \<and> net_core s' = net_core s \<and> groups s' a \<noteq> None"
proof -
  note p = assms [unfolded bsd_quiet_def, THEN conjunct1, THEN spec [where x = a], THEN spec [where x = s]]
  note q = assms [unfolded bsd_quiet_def, THEN conjunct2, THEN spec [where x = a], THEN spec [where x = s]]
  from p show "net_core (rtinit_delete B a s) = net_core s" "net_core (snd (route_probe B a s)) = net_core s"
    "dom (ias (rtinit_delete B a s)) = dom (ias s)" "dom (ias (snd (route_probe B a s))) = dom (ias s)"
    "dom (groups (rtinit_delete B a s)) = dom (groups s)" "dom (groups (snd (route_probe B a s))) = dom (groups s)" by simp_all
  from q show "J s \<Longrightarrow> J (rtinit_delete B a s)" "J s \<Longrightarrow> J (snd (route_probe B a s))" "J s \<Longrightarrow> J (set_net a q s)"
    "J s \<Longrightarrow> J (rtems_net_container_remove_from_list q s)" "J s \<Longrightarrow> add_refcnt a d s = Some s' \<Longrightarrow> J s'"
    "J s \<Longrightarrow> groups s a \<noteq> None \<Longrightarrow> \<exists>s'. destroy_loop B a s = Some s' \<and> net_core s' = net_core s \<and> groups s' a \<noteq> None"
    by simp_all
qed

text \<open>States that differ at most in which container the executing task points to, and in the BSD tables.\<close>

definition net_similar :: "('a net_kernel_scheme \<Rightarrow> bool) \<Rightarrow> (addr \<times> addr) option \<Rightarrow> 'a net_kernel_scheme \<Rightarrow> 'a net_kernel_scheme \<Rightarrow> bool" where
  "net_similar J self s s' \<longleftrightarrow> net_core (in_net self (\<lambda>n. n) s') = net_core (in_net self (\<lambda>n. n) s) \<and>
     dom (ias s') = dom (ias s) \<and> dom (groups s') = dom (groups s) \<and> (J s \<longrightarrow> J s')"

lemma in_net_sel [simp]:
  "ias (in_net self f s) = ias s" "groups (in_net self f s) = groups s" "nets (in_net self f s) = nets s"
  "rootContainer (in_net self f s) = rootContainer s" "executing (in_net self f s) = executing s"
  "g_currentNetContainerNum (in_net self f s) = g_currentNetContainerNum s"
  by (auto simp: in_net_def set_net_def upd_thread_def split: option.split)

lemma threads_in_net: "threads (in_net self f s) = (case self of None \<Rightarrow> threads s
    | Some (t, n) \<Rightarrow> (threads s)(t := map_option (upd_container (netContainer_update (\<lambda>_. Some (f n)))) (threads s t)))"
  by (auto simp: in_net_def set_net_def upd_thread_def split: option.split)

lemma upd_container_twice [simp]:
  "upd_container (netContainer_update (\<lambda>_. p)) (upd_container (netContainer_update (\<lambda>_. q)) th) =
     upd_container (netContainer_update (\<lambda>_. p)) th"
  by (simp add: upd_container_def option.map_comp comp_def)

lemma in_net_twice: "threads (in_net self f (in_net self g s)) = threads (in_net self f s)"
  by (auto simp: threads_in_net option.map_comp comp_def split: option.split)

lemma net_similar_refl: "net_similar J self s s"
  by (simp add: net_similar_def)

lemma net_similar_trans: "net_similar J self s s' \<Longrightarrow> net_similar J self s' s'' \<Longrightarrow> net_similar J self s s''"
  by (simp add: net_similar_def)

lemma net_similar_in_net:
  assumes "bsd_quiet B J"
  shows "net_similar J self s (in_net self f s)"
proof -
  have "J s \<longrightarrow> J (in_net self f s)" using bsd_quietD(9) [OF assms] by (auto simp: in_net_def split: option.split)
  then show ?thesis by (simp add: net_similar_def net_core_def in_net_twice)
qed

lemma net_core_in_net: "net_core s' = net_core s \<Longrightarrow> net_core (in_net self f s') = net_core (in_net self f s)"
  by (simp add: net_core_def threads_in_net split: option.split)

lemma net_similar_bsd:
  assumes "bsd_quiet B J"
  shows "net_similar J self s (rtinit_delete B a s)" "net_similar J self s (snd (route_probe B a s))"
  unfolding net_similar_def using bsd_quietD(3,5,7) [OF assms] net_core_in_net [OF bsd_quietD(1) [OF assms]]
    bsd_quietD(4,6,8) [OF assms] net_core_in_net [OF bsd_quietD(2) [OF assms]] by simp_all

lemma net_similar_refcnt:
  assumes "bsd_quiet B J" "add_refcnt a d s = Some s'"
  shows "net_similar J self s s'"
  using assms(2) bsd_quietD(10) [OF assms(1) _ assms(2)]
  by (auto simp: add_refcnt_def net_similar_def net_core_def threads_in_net bind_eq_Some_conv split: option.splits if_splits)

lemma add_refcnt_ok:
  assumes "bsd_quiet B J" "ias s a \<noteq> None"
  obtains s' where "add_refcnt a d s = Some s'" "net_similar J self s s'"
proof -
  obtain s' where s': "add_refcnt a d s = Some s'" using assms(2) by (cases "ias s a") (auto simp: add_refcnt_def)
  then show thesis using that net_similar_refcnt [OF assms(1)] by blast
qed

lemma remove_address_routes_ok:
  assumes B: "bsd_quiet B J" and a: "ias s a \<noteq> None"
  shows "\<exists>s'. remove_address_routes B self c a s = Some s' \<and> net_similar J self s s'"
proof -
  note sim = net_similar_bsd [OF B, of self] net_similar_in_net [OF B, of self]
  obtain s1 where s1: "add_refcnt a 1 s = Some s1" "net_similar J self s s1" using add_refcnt_ok [OF B a] .
  obtain child s2 where s2: "route_probe B a (in_net self (\<lambda>_. c) s1) = (child, s2)" by fastforce
  have n2: "net_similar J self s s2"
    using net_similar_trans [OF s1(2) net_similar_trans [OF sim(3) sim(2)]] s2 by (metis snd_conv)
  define r where "r = (if self = None then (False, s2)
        else (fst (route_probe B a (in_net self (\<lambda>saved. saved) s2)),
              in_net self (\<lambda>_. c) (snd (route_probe B a (in_net self (\<lambda>saved. saved) s2)))))"
  have "net_similar J self s2 (snd r)"
    using net_similar_trans [OF sim(3) net_similar_trans [OF sim(2) sim(3)]] net_similar_refl
    by (auto simp: r_def split_beta)
  then have n3: "net_similar J self s (snd r)" by (rule net_similar_trans [OF n2])
  define s4 where "s4 = (if fst r then in_net self (\<lambda>_. c) (rtinit_delete B a (in_net self (\<lambda>saved. saved) (snd r))) else snd r)"
  have n4: "net_similar J self s s4"
    using n3 net_similar_trans [OF n3 net_similar_trans [OF sim(3) net_similar_trans [OF sim(1) sim(3)]]] by (simp add: s4_def)
  define s5 where "s5 = (if child then rtinit_delete B a (in_net self (\<lambda>_. c) s4) else s4)"
  have n5: "net_similar J self s s5"
    using n4 net_similar_trans [OF n4 net_similar_trans [OF sim(3) sim(1)]] by (simp add: s5_def)
  have "ias s5 a \<noteq> None" using n5 a by (metis domIff net_similar_def)
  then obtain x where x: "ias s5 a = Some x" by auto
  obtain s6 where s6: "add_refcnt a (-1) s5 = Some s6" "net_similar J self s5 s6" using add_refcnt_ok [OF B, of s5 a "-1" self] x by auto
  have "remove_address_routes B self c a s = do { x \<leftarrow> ias s5 a; if 0 < ifa_refcnt x then add_refcnt a (-1) s5 else Some s5 }"
    unfolding remove_address_routes_def s1(1)
    by (simp only: Option.bind_lunit s2 prod.case split_beta r_def [symmetric] s4_def [symmetric] s5_def [symmetric] fst_conv snd_conv)
  then have "remove_address_routes B self c a s = (if 0 < ifa_refcnt x then add_refcnt a (-1) s5 else Some s5)"
    using x by simp
  then show ?thesis using s6 n5 net_similar_trans [OF n5 s6(2)] by auto
qed

lemma remove_routes_ok:
  assumes "bsd_quiet B J" "\<forall>a \<in> set as. ias s a \<noteq> None"
  shows "\<exists>s'. remove_routes B self c as s = Some s' \<and> net_similar J self s s'"
  using assms(2)
proof (induction as arbitrary: s)
  case (Cons a as)
  then obtain s1 where s1: "remove_address_routes B self c a s = Some s1" "net_similar J self s s1"
    using remove_address_routes_ok [OF assms(1), of s a self c] by auto
  have "\<forall>x \<in> set as. ias s1 x \<noteq> None" using Cons.prems s1(2) unfolding net_similar_def by (metis domIff list.set_intros(2))
  then obtain s' where "remove_routes B self c as s1 = Some s'" "net_similar J self s1 s'" using Cons.IH [of s1] by blast
  then show ?case using s1(1) net_similar_trans [OF s1(2)] by auto
qed (simp add: net_similar_refl)

lemma in_net_same:
  assumes "\<And>t n. self = Some (t, n) \<Longrightarrow> thread_ns netContainer s t = Some n"
  shows "threads (in_net self (\<lambda>n. n) s) = threads s"
proof (cases self)
  case (Some x)
  then obtain t n where x: "self = Some (t, n)" by (cases x) auto
  then obtain th cb where "threads s t = Some th" "container th = Some cb" "netContainer cb = Some n"
    using assms by (auto simp: thread_ns_def bind_eq_Some_conv)
  then show ?thesis by (auto simp: threads_in_net x upd_container_def fun_eq_iff)
qed (simp add: threads_in_net)

lemma net_list_sel [simp]:
  "nets (rtems_net_container_remove_from_list p s) = nets s" "threads (rtems_net_container_remove_from_list p s) = threads s"
  "groups (rtems_net_container_remove_from_list p s) = groups s" "ias (rtems_net_container_remove_from_list p s) = ias s"
  "executing (rtems_net_container_remove_from_list p s) = executing s"
  "g_currentNetContainerNum (rtems_net_container_remove_from_list p s) = g_currentNetContainerNum s"
  "thread_ns sel (rtems_net_container_remove_from_list p s) = thread_ns sel s"
  by (simp_all add: rtems_net_container_remove_from_list_def thread_ns_def fun_eq_iff split: option.splits prod.splits)

lemma release_group_ok:
  assumes B: "bsd_quiet B J" and J: "J s" and c: "nets s c = Some nc" "net_grp nc = Some g" "groups s g = Some ng"
    "\<forall>a \<in> set (in_ifaddr ng). ias s a \<noteq> None"
  shows "\<exists>s'. net_release_group B c s = Some s' \<and> threads s' = threads s \<and>
     nets s' = (nets s)(c \<mapsto> nc\<lparr>net_grp := None\<rparr>) \<and> rootContainer s' = rootContainer s \<and> groups s' g = None \<and>
     g_currentNetContainerNum s' = g_currentNetContainerNum s"
proof -
  define self where "self = do { t \<leftarrow> executing s; n \<leftarrow> thread_ns netContainer s t; if n \<noteq> c then Some (t, n) else None }"
  have own: "thread_ns netContainer s t = Some n" if "self = Some (t, n)" for t n
    using that by (auto simp: self_def bind_eq_Some_conv split: if_splits)
  obtain s1 where s1: "remove_routes B self c (in_ifaddr ng) s = Some s1" "net_similar J self s s1"
    using remove_routes_ok [OF B c(4)] by blast
  define s2 where "s2 = in_net self (\<lambda>n. n) s1"
  have core2: "net_core s2 = net_core s"
    using s1(2) in_net_same [of self s, OF own] unfolding net_similar_def s2_def by (simp add: net_core_def)
  have g2: "groups s2 g \<noteq> None" using s1(2) c(3) unfolding net_similar_def s2_def by (auto simp: dom_def)
  have "J s2" using s1(2) J net_similar_in_net [OF B] unfolding net_similar_def s2_def by blast
  from bsd_quietD(12) [OF B this g2] core2 obtain s3 ng3 where d3: "destroy_loop B g s2 = Some s3"
    and core3: "net_core s3 = net_core s" and g3: "groups s3 g = Some ng3" by auto
  obtain k tabs pcbs where free: "net_group_free B (Some g) s2 =
      Some (s3\<lparr>mem := free_blocks k (mem s3), groups := (groups s3)(g := None), addr_tabs := tabs, pcb_lists := pcbs\<rparr>)" (is "_ = Some ?s4")
    using g2 g3 d3 by (auto simp: net_group_free_def Let_def)
  have n3: "nets s3 c = Some nc" using core3 c(1) by (simp add: net_core_def)
  have "net_release_group B c s = Some (?s4\<lparr>nets := (nets ?s4)(c \<mapsto> nc\<lparr>net_grp := None\<rparr>)\<rparr>)"
    unfolding net_release_group_def self_def [symmetric] using c s1(1) free n3 by (simp add: s2_def [symmetric])
  then show ?thesis using core3 by (simp add: net_core_def)
qed

text \<open>Deleting a network container without tasks removes the routes of its addresses in the child's and in
  the caller's routing table by switching the executing task's container back and forth, and leaves the
  task where it was: afterwards no task's container has changed, the container and its group are gone,
  its registry entry is removed and the number of containers is one less.\<close>

theorem net_delete_restores_caller:
  assumes "bsd_quiet B J" "J s" "threads_ok s" "\<forall>t. thread_ns netContainer s t \<noteq> Some c" "rootContainer s = Some root"
    "netContainer root = Some r" "c \<noteq> r" "nets s c = Some nc" "net_grp nc = Some g" "groups s g = Some ng"
    "\<forall>a \<in> set (in_ifaddr ng). ias s a \<noteq> None"
  shows "\<exists>s'. rtems_net_container_delete B (Some c) s = Some s' \<and> threads s' = threads s \<and>
     nets s' = (nets s)(c := None) \<and> groups s' g = None \<and> net_registry s' = remove1 c (net_registry s) \<and>
     g_currentNetContainerNum s' = g_currentNetContainerNum s - 1"
proof -
  have same: "switch_to_root_net c t s = Some (True, s)" "net_rehome c r t s = Some s" if "t \<in> dom (threads s)" for t
    using that assms(4-6) by (auto simp: switch_to_root_net_def net_rehome_def rtems_container_get_root_def)
  have it: "Thread_Iterate (switch_to_root_net c) s = Some s"
    using assms(3) same(1) by (cases "thread_table s") (auto simp: Thread_Iterate_def threads_ok_def)
  have ex: "(case executing s of None \<Rightarrow> Some s | Some t \<Rightarrow> net_rehome c r t s) = Some s"
    using assms(3) same(2) by (auto simp: threads_ok_def split: option.splits)
  let ?s3 = "rtems_net_container_remove_from_list (Some c) s"
  obtain s4 where s4: "net_release_group B c ?s3 = Some s4" "threads s4 = threads s"
    "nets s4 = (nets s)(c \<mapsto> nc\<lparr>net_grp := None\<rparr>)" "rootContainer s4 = rootContainer ?s3" "groups s4 g = None"
    "g_currentNetContainerNum s4 = g_currentNetContainerNum s"
    using release_group_ok [OF assms(1) bsd_quietD(11) [OF assms(1,2)], of "Some c" c nc g ng] assms(8-11) by auto
  have "rtems_net_container_delete B (Some c) s = Some (s4\<lparr>g_currentNetContainerNum := g_currentNetContainerNum s4 - 1,
      mem := free_block (mem s4), nets := (nets s4)(c := None)\<rparr>)"
    using assms(5-8) it ex s4(1) by (simp add: rtems_net_container_delete_def rtems_container_get_root_def)
  moreover have "net_registry ?s3 = remove1 c (net_registry s)" using net_reg.registry_remove assms(5) by blast
  ultimately show ?thesis using s4 by (simp add: net_registry_def)
qed

section \<open>Witnesses\<close>

definition demo_net_thread :: "u32 \<Rightarrow> ptr \<Rightarrow> Thread_Control" where
  "demo_net_thread oid p = \<lparr>Object_id = oid, container = Some (Container_zero\<lparr>netContainer := p\<rparr>),
     cgroup = None, last_cpu_start_timestamp = 0, is_added_to_cgroup = False, current_state = 0\<rparr>"

definition demo_ng :: net_group where
  "demo_ng = \<lparr>ifnet_p = Some 90, ifnet_addrs = Some 91, if_index_counter = 1, if_indexlim = 8, in_ifaddr = [92],
     rt_tables = replicate 32 None, udp_pcblist = None, udp_pcbinfo = None, tcp_pcblist = None, tcp_pcbinfo = None,
     veth_sc = None\<rparr>"

text \<open>The root container 0 with the executing task 3, container 1 with task 4, and container 2 with the
  group 82 and the address 92.\<close>

definition demo_net :: net_kernel where
  "demo_net = io_kernel.extend
     (demo_io\<lparr>rootContainer := Some (Container_zero\<lparr>netContainer := Some 0, netContainerList := [2, 1]\<rparr>),
        threads := [3 \<mapsto> demo_net_thread 7 (Some 0), 4 \<mapsto> demo_net_thread 8 (Some 1)], thread_table := [3, 4],
        executing := Some 3\<rparr>)
     (net_kernel.fields
        [0 \<mapsto> \<lparr>net_rc = 3, net_grp = Some 80, net_ID = 1\<rparr>, 1 \<mapsto> \<lparr>net_rc = 2, net_grp = Some 81, net_ID = 2\<rparr>,
         2 \<mapsto> \<lparr>net_rc = 1, net_grp = Some 82, net_ID = 3\<rparr>]
        [80 \<mapsto> demo_ng, 81 \<mapsto> demo_ng, 82 \<mapsto> demo_ng] [92 \<mapsto> \<lparr>ia_lo = True, ia_route = True, ifa_refcnt = 1\<rparr>] 3 3 None None
        \<lparr>pcb_addr = 0, hashbase = None, hashmask = 0\<rparr> None [91 \<mapsto> replicate 8 None] Map.empty)"

lemma demo_net_sel [simp]:
  "nets demo_net = [0 \<mapsto> \<lparr>net_rc = 3, net_grp = Some 80, net_ID = 1\<rparr>, 1 \<mapsto> \<lparr>net_rc = 2, net_grp = Some 81, net_ID = 2\<rparr>,
     2 \<mapsto> \<lparr>net_rc = 1, net_grp = Some 82, net_ID = 3\<rparr>]"
  "groups demo_net = [80 \<mapsto> demo_ng, 81 \<mapsto> demo_ng, 82 \<mapsto> demo_ng]" "thread_table demo_net = [3, 4]"
  "threads demo_net = [3 \<mapsto> demo_net_thread 7 (Some 0), 4 \<mapsto> demo_net_thread 8 (Some 1)]" "executing demo_net = Some 3"
  "ias demo_net = [92 \<mapsto> \<lparr>ia_lo = True, ia_route = True, ifa_refcnt = 1\<rparr>]" "g_currentNetContainerNum demo_net = 3"
  "rootContainer demo_net = Some (Container_zero\<lparr>netContainer := Some 0, netContainerList := [2, 1]\<rparr>)"
  by (simp_all add: demo_net_def io_kernel.defs net_kernel.defs)

lemma demo_net_ns: "thread_ns netContainer demo_net = [3 \<mapsto> 0, 4 \<mapsto> 1]"
  by (auto simp: thread_ns_def demo_net_thread_def fun_eq_iff)

text \<open>A network stack whose routes are all found and whose operations succeed.\<close>

definition demo_bsd :: "'a net_kernel_scheme bsdnet" where
  "demo_bsd = \<lparr>init_loop = (\<lambda>g s. Some (0, s)), destroy_loop = (\<lambda>g s. Some s), ifconfig_lo = (\<lambda>r s. (0, s)),
     rtinit_add = (\<lambda>a s. (0, s)), rtinit_delete = (\<lambda>a s. s), route_probe = (\<lambda>a s. (True, s))\<rparr>"

lemma demo_bsd_quiet: "bsd_quiet demo_bsd (\<lambda>_. True)"
  by (simp add: bsd_quiet_def demo_bsd_def)

theorem net_move_keeps_counts_witness:
  "\<exists>s'. rtems_net_container_move_task demo_bsd (Some 1) (Some 0) (Some 4) demo_net = Some s' \<and>
     thread_ns netContainer s' 4 = Some 0"
  using net_move_keeps_counts [of "{3, 4}" 4 demo_net 1 2 0 3 demo_bsd] by (auto simp: demo_net_ns net_count_def)

theorem net_delete_restores_caller_witness:
  "\<exists>s'. rtems_net_container_delete demo_bsd (Some 2) demo_net = Some s' \<and> threads s' = threads demo_net \<and>
     net_registry s' = [1] \<and> g_currentNetContainerNum s' = 2"
proof -
  have "threads_ok demo_net" "\<forall>t. thread_ns netContainer demo_net t \<noteq> Some 2"
    by (auto simp: threads_ok_def demo_net_ns)
  then show ?thesis
    using net_delete_restores_caller [OF demo_bsd_quiet, of demo_net 2 "Container_zero\<lparr>netContainer := Some 0, netContainerList := [2, 1]\<rparr>" 0
        "\<lparr>net_rc = 1, net_grp = Some 82, net_ID = 3\<rparr>" 82 demo_ng]
    by (auto simp: net_registry_def demo_ng_def)
qed

theorem net_group_new_atomic_witness:
  "\<exists>s'. net_group_new demo_net = (Some 10, s') \<and> live (mem s') = 12"
proof -
  have m: "mem demo_net = \<lparr>brk = 10, oom = (\<lambda>_. False), live = 4\<rparr>"
    by (simp add: demo_net_def io_kernel.defs net_kernel.defs)
  obtain s' where s': "net_group_new demo_net = (Some 10, s')"
    by (simp add: net_group_new_def net_hashinit_local_def malloc_def m)
  have "live (mem s') = live (mem demo_net) + 8" using net_group_new_atomic [of demo_net] s' by simp
  then show ?thesis using s' m by simp
qed

end
