(* ===== verification/UnifiedContainer.thy ===== *)
theory UnifiedContainer
  imports NetContainer
begin

text \<open>
  The unified container layer, \<open>score/src/container.c\<close>: one object that owns a container of each
  of the five namespaces, a core control group and an I/O control group, and that one thread at a time
  enters and leaves. The kernel state is that of all components together, extended by the heap
  \<open>ucs\<close> of unified containers. The embedded \<open>cgroup_config\<close> of a unified container is the entry of
  \<open>cgcfgs\<close> at the container's own address, so freeing the container ends the lifetime of that
  configuration too. The build options guard every step as the preprocessor does.

  Two parameters are passed on to the components: \<open>dr\<close>, the deferred release of file system
  locations (mount namespace), and \<open>B\<close>, the BSD network stack.
\<close>

section \<open>Data\<close>

definition RTEMS_UNIFIED_CONTAINER_PID :: u32 where "RTEMS_UNIFIED_CONTAINER_PID = 0x01"
definition RTEMS_UNIFIED_CONTAINER_IPC :: u32 where "RTEMS_UNIFIED_CONTAINER_IPC = 0x02"
definition RTEMS_UNIFIED_CONTAINER_MNT :: u32 where "RTEMS_UNIFIED_CONTAINER_MNT = 0x04"
definition RTEMS_UNIFIED_CONTAINER_NET :: u32 where "RTEMS_UNIFIED_CONTAINER_NET = 0x08"
definition RTEMS_UNIFIED_CONTAINER_UTS :: u32 where "RTEMS_UNIFIED_CONTAINER_UTS = 0x10"
definition RTEMS_UNIFIED_CONTAINER_CPU :: u32 where "RTEMS_UNIFIED_CONTAINER_CPU = 0x20"
definition RTEMS_UNIFIED_CONTAINER_MEM :: u32 where "RTEMS_UNIFIED_CONTAINER_MEM = 0x40"
definition RTEMS_UNIFIED_CONTAINER_IO :: u32 where "RTEMS_UNIFIED_CONTAINER_IO = 0x80"
definition RTEMS_UNIFIED_CONTAINER_ALL :: u32 where
  "RTEMS_UNIFIED_CONTAINER_ALL = RTEMS_UNIFIED_CONTAINER_PID OR RTEMS_UNIFIED_CONTAINER_IPC
     OR RTEMS_UNIFIED_CONTAINER_MNT OR RTEMS_UNIFIED_CONTAINER_NET OR RTEMS_UNIFIED_CONTAINER_UTS
     OR RTEMS_UNIFIED_CONTAINER_CPU OR RTEMS_UNIFIED_CONTAINER_MEM OR RTEMS_UNIFIED_CONTAINER_IO"

lemmas unified_flags =
  RTEMS_UNIFIED_CONTAINER_PID_def RTEMS_UNIFIED_CONTAINER_IPC_def RTEMS_UNIFIED_CONTAINER_MNT_def
  RTEMS_UNIFIED_CONTAINER_NET_def RTEMS_UNIFIED_CONTAINER_UTS_def RTEMS_UNIFIED_CONTAINER_CPU_def
  RTEMS_UNIFIED_CONTAINER_MEM_def RTEMS_UNIFIED_CONTAINER_IO_def

record RtemsContainerConfig =
  conf_flags :: u32
  conf_uts_name :: "string option"
  conf_cgroup_config :: CORE_cgroup_config
  io_system_read_bps :: u64
  io_system_write_bps :: u64
  io_read_bps_limit :: u64
  io_write_bps_limit :: u64
  io_window_size_ms :: u32
  io_weight :: u16
  conf_io_thread_weight :: u32

record RtemsContainer =
  uc_flags :: u32
  attached :: bool
  attached_thread :: ptr
  namespaces :: Container
  cgroup_id :: u32
  core_cgroup :: "cgp option"
  io_cgroup_id :: u32
  io_cgroup :: ptr
  uc_io_thread_weight :: u32

record unified_kernel = net_kernel +
  ucs :: "addr \<rightharpoonup> RtemsContainer"

definition RtemsContainer_zero :: RtemsContainer where
  "RtemsContainer_zero = \<lparr>uc_flags = 0, attached = False, attached_thread = None, namespaces = Container_zero,
     cgroup_id = 0, core_cgroup = None, io_cgroup_id = 0, io_cgroup = None, uc_io_thread_weight = 0\<rparr>"

text \<open>The preprocessor guard and the flag test that open each section of the code.\<close>

definition uses :: "u32 \<Rightarrow> (rtemscfg \<Rightarrow> bool) \<Rightarrow> RtemsContainer \<Rightarrow> 'a unified_kernel_scheme \<Rightarrow> bool" where
  "uses bits opt u s \<longleftrightarrow> opt (cfg s) \<and> uc_flags u AND bits \<noteq> 0"

definition CPU_MEM :: u32 where
  "CPU_MEM = RTEMS_UNIFIED_CONTAINER_CPU OR RTEMS_UNIFIED_CONTAINER_MEM"

text \<open>Stores through a container pointer, and a run of steps that the first error ends
  (\<open>return sc\<close> or \<open>goto fail\<close>).\<close>

definition upd_uc :: "addr \<Rightarrow> (RtemsContainer \<Rightarrow> RtemsContainer) \<Rightarrow> 'a unified_kernel_scheme \<Rightarrow> 'a unified_kernel_scheme" where
  "upd_uc c f s = s\<lparr>ucs := (ucs s)(c := map_option f (ucs s c))\<rparr>"

definition upd_ns :: "addr \<Rightarrow> (Container \<Rightarrow> Container) \<Rightarrow> 'a unified_kernel_scheme \<Rightarrow> 'a unified_kernel_scheme" where
  "upd_ns c f = upd_uc c (\<lambda>u. u\<lparr>namespaces := f (namespaces u)\<rparr>)"

fun sc_seq :: "('s \<Rightarrow> (rtems_status_code \<times> 's) option) list \<Rightarrow> 's \<Rightarrow> (rtems_status_code \<times> 's) option" where
  "sc_seq [] s = Some (RTEMS_SUCCESSFUL, s)"
| "sc_seq (f # fs) s = do {
     (sc, s1) \<leftarrow> f s;
     if sc \<noteq> RTEMS_SUCCESSFUL then Some (sc, s1) else sc_seq fs s1 }"

section \<open>Boot and task construction\<close>

definition rtems_container_initialize_root :: "'a unified_kernel_scheme \<Rightarrow> 'a unified_kernel_scheme option" where
  "rtems_container_initialize_root s =
     (if rootContainer s \<noteq> None then Some s
      else do {
        let s = s\<lparr>rootContainer := Some (Container_zero\<lparr>c_rc := 1\<rparr>)\<rparr>;
        let s = (if RTEMSCFG_PID_CONTAINER (cfg s)
                 then (case rtems_pid_container_initialize_root False s of
                         (_, p, s') \<Rightarrow> upd_root (pidContainer_update (\<lambda>_. p)) s') else s);
        let s = (if RTEMSCFG_UTS_CONTAINER (cfg s)
                 then (case rtems_uts_container_initialize_root False s of
                         (_, p, s') \<Rightarrow> upd_root (utsContainer_update (\<lambda>_. p)) s') else s);
        let s = (if RTEMSCFG_MNT_CONTAINER (cfg s)
                 then (case rtems_mnt_container_initialize_root False s of
                         (_, p, s') \<Rightarrow> upd_root (mntContainer_update (\<lambda>_. p)) s') else s);
        let s = (if RTEMSCFG_NET_CONTAINER (cfg s)
                 then (case rtems_net_container_initialize_root False s of
                         (_, p, s') \<Rightarrow> upd_root (netContainer_update (\<lambda>_. p)) s') else s);
        if RTEMSCFG_IPC_CONTAINER (cfg s)
        then do {
          (_, p, s') \<leftarrow> rtems_ipc_container_initialize_root False s;
          Some (upd_root (ipcContainer_update (\<lambda>_. p)) s') }
        else Some s })"

text \<open>A fresh \<open>Container\<close> block is filled with the root's namespaces, and each of them counts one more
  user. Task construction and \<open>ensure_thread_container\<close> register the thread in the root PID container;
  the idle thread only counts.\<close>

definition join_ns :: "ptr \<Rightarrow> (addr \<Rightarrow> 's \<Rightarrow> 's option) \<Rightarrow> 's \<Rightarrow> 's option" where
  "join_ns p join s = (case p of None \<Rightarrow> Some s | Some c \<Rightarrow> join c s)"

definition join_root ::
  "(addr \<Rightarrow> 'a unified_kernel_scheme \<Rightarrow> 'a unified_kernel_scheme option) \<Rightarrow> Container \<Rightarrow> Container \<Rightarrow>
     'a unified_kernel_scheme \<Rightarrow> (Container \<times> 'a unified_kernel_scheme) option" where
  "join_root join_pid root tc s = do {
     let opts = cfg s;
     s1 \<leftarrow> (if RTEMSCFG_PID_CONTAINER opts then join_ns (pidContainer root) join_pid s else Some s);
     s2 \<leftarrow> (if RTEMSCFG_UTS_CONTAINER opts then join_ns (utsContainer root) (\<lambda>c. uts_add_rc c 1) s1 else Some s1);
     s3 \<leftarrow> (if RTEMSCFG_MNT_CONTAINER opts then join_ns (mntContainer root) (\<lambda>c. mnt_add_rc c 1) s2 else Some s2);
     s4 \<leftarrow> (if RTEMSCFG_NET_CONTAINER opts then join_ns (netContainer root) (\<lambda>c. net_add_rc c 1) s3 else Some s3);
     s5 \<leftarrow> (if RTEMSCFG_IPC_CONTAINER opts then join_ns (ipcContainer root) (\<lambda>c. ipc_add_rc c 1) s4 else Some s4);
     Some (tc\<lparr>pidContainer := if RTEMSCFG_PID_CONTAINER opts then pidContainer root else pidContainer tc,
              utsContainer := if RTEMSCFG_UTS_CONTAINER opts then utsContainer root else utsContainer tc,
              mntContainer := if RTEMSCFG_MNT_CONTAINER opts then mntContainer root else mntContainer tc,
              netContainer := if RTEMSCFG_NET_CONTAINER opts then netContainer root else netContainer tc,
              ipcContainer := if RTEMSCFG_IPC_CONTAINER opts then ipcContainer root else ipcContainer tc\<rparr>, s5) }"

definition has_namespaces :: "rtemscfg \<Rightarrow> bool" where
  "has_namespaces opts \<longleftrightarrow> RTEMSCFG_PID_CONTAINER opts \<or> RTEMSCFG_UTS_CONTAINER opts \<or> RTEMSCFG_MNT_CONTAINER opts \<or>
     RTEMSCFG_NET_CONTAINER opts \<or> RTEMSCFG_IPC_CONTAINER opts"

text \<open>The container part of \<open>_RTEMS_tasks_Create\<close>, after the thread has been initialised.\<close>

definition tasks_create_container ::
  "addr \<Rightarrow> 'a unified_kernel_scheme \<Rightarrow> (rtems_status_code \<times> 'a unified_kernel_scheme) option" where
  "tasks_create_container t s =
     (if \<not> has_namespaces (cfg s) then Some (RTEMS_SUCCESSFUL, s)
      else case malloc (mem s) of
        (None, m) \<Rightarrow> Some (RTEMS_NO_MEMORY, s\<lparr>mem := m\<rparr>)
      | (Some _, m) \<Rightarrow> do {
          root \<leftarrow> rtems_container_get_root s;
          (tc, s1) \<leftarrow> join_root (\<lambda>c. rtems_pid_container_add_task (Some c) (Some t)) root Container_zero (s\<lparr>mem := m\<rparr>);
          Some (RTEMS_SUCCESSFUL, upd_thread t (container_update (\<lambda>_. Some tc)) s1) })"

text \<open>The container part of \<open>_Thread_Create_idle_for_CPU\<close>, in a build with \<open>RTEMSCFG_CONTAINER\<close>.\<close>

definition idle_create_container :: "addr \<Rightarrow> 'a unified_kernel_scheme \<Rightarrow> 'a unified_kernel_scheme option" where
  "idle_create_container t s =
     (case malloc (mem s) of
        (None, m) \<Rightarrow> Some (s\<lparr>mem := m\<rparr>)
      | (Some _, m) \<Rightarrow>
          if has_namespaces (cfg s)
          then do {
            root \<leftarrow> rtems_container_get_root s;
            (tc, s1) \<leftarrow> join_root (\<lambda>c. rtems_pid_container_inc_rc (Some c)) root Container_zero (s\<lparr>mem := m\<rparr>);
            Some (upd_thread t (container_update (\<lambda>_. Some tc)) s1) }
          else Some (upd_thread t (container_update (\<lambda>_. Some Container_zero)) (s\<lparr>mem := m\<rparr>)))"

definition rtems_unified_container_ensure_thread_container ::
  "ptr \<Rightarrow> 'a unified_kernel_scheme \<Rightarrow> (rtems_status_code \<times> 'a unified_kernel_scheme) option" where
  "rtems_unified_container_ensure_thread_container thread s =
     (case thread of
        None \<Rightarrow> Some (RTEMS_INVALID_ADDRESS, s)
      | Some t \<Rightarrow> do {
          th \<leftarrow> threads s t;
          if container th \<noteq> None then Some (RTEMS_SUCCESSFUL, s)
          else case rtems_container_get_root s of
            None \<Rightarrow> Some (RTEMS_NOT_CONFIGURED, s)
          | Some root \<Rightarrow>
              (case malloc (mem s) of
                 (None, m) \<Rightarrow> Some (RTEMS_NO_MEMORY, s\<lparr>mem := m\<rparr>)
               | (Some _, m) \<Rightarrow> do {
                   (tc, s1) \<leftarrow> join_root (\<lambda>c. rtems_pid_container_add_task (Some c) (Some t)) root
                                  (Container_zero\<lparr>c_rc := 1\<rparr>) (s\<lparr>mem := m\<rparr>);
                   Some (RTEMS_SUCCESSFUL, upd_thread t (container_update (\<lambda>_. Some tc)) s1) }) })"

section \<open>Configuration\<close>

definition rtems_unified_container_check_flags :: "rtemscfg \<Rightarrow> u32 \<Rightarrow> rtems_status_code" where
  "rtems_unified_container_check_flags opts flags =
     (if \<not> RTEMSCFG_PID_CONTAINER opts \<and> flags AND RTEMS_UNIFIED_CONTAINER_PID \<noteq> 0 then RTEMS_NOT_CONFIGURED
      else if \<not> RTEMSCFG_IPC_CONTAINER opts \<and> flags AND RTEMS_UNIFIED_CONTAINER_IPC \<noteq> 0 then RTEMS_NOT_CONFIGURED
      else if \<not> RTEMSCFG_MNT_CONTAINER opts \<and> flags AND RTEMS_UNIFIED_CONTAINER_MNT \<noteq> 0 then RTEMS_NOT_CONFIGURED
      else if \<not> RTEMSCFG_NET_CONTAINER opts \<and> flags AND RTEMS_UNIFIED_CONTAINER_NET \<noteq> 0 then RTEMS_NOT_CONFIGURED
      else if \<not> RTEMSCFG_UTS_CONTAINER opts \<and> flags AND RTEMS_UNIFIED_CONTAINER_UTS \<noteq> 0 then RTEMS_NOT_CONFIGURED
      else if \<not> RTEMS_CGROUP opts \<and> flags AND CPU_MEM \<noteq> 0 then RTEMS_NOT_CONFIGURED
      else if \<not> RTEMSCFG_IO_CGROUP opts \<and> flags AND RTEMS_UNIFIED_CONTAINER_IO \<noteq> 0 then RTEMS_NOT_CONFIGURED
      else RTEMS_SUCCESSFUL)"

definition CORE_cgroup_config_zero :: CORE_cgroup_config where
  "CORE_cgroup_config_zero = \<lparr>cpu_shares = 0, cpu_quota = 0, cpu_period = 0, memory_limit = 0, blkio_limit = 0\<rparr>"

definition rtems_unified_container_config_initialize :: "rtemscfg \<Rightarrow> RtemsContainerConfig" where
  "rtems_unified_container_config_initialize opts =
     \<lparr>conf_flags = RTEMS_UNIFIED_CONTAINER_ALL, conf_uts_name = Some ''container'',
      conf_cgroup_config = (if RTEMS_CGROUP opts
        then \<lparr>cpu_shares = 1, cpu_quota = 100, cpu_period = 1000, memory_limit = 1024 * 1024, blkio_limit = 1024 * 1024\<rparr>
        else CORE_cgroup_config_zero),
      io_system_read_bps = (if RTEMSCFG_IO_CGROUP opts then 1024 * 1024 else 0),
      io_system_write_bps = (if RTEMSCFG_IO_CGROUP opts then 1024 * 1024 else 0),
      io_read_bps_limit = (if RTEMSCFG_IO_CGROUP opts then 1024 * 1024 else 0),
      io_write_bps_limit = (if RTEMSCFG_IO_CGROUP opts then 1024 * 1024 else 0),
      io_window_size_ms = (if RTEMSCFG_IO_CGROUP opts then 1000 else 0),
      io_weight = (if RTEMSCFG_IO_CGROUP opts then 100 else 0),
      conf_io_thread_weight = (if RTEMSCFG_IO_CGROUP opts then 100 else 0)\<rparr>"

section \<open>Entering\<close>

definition thread_container :: "addr \<Rightarrow> 'a kernel_scheme \<Rightarrow> Container option" where
  "thread_container t s = do { th \<leftarrow> threads s t; container th }"

definition set_pid :: "addr \<Rightarrow> ptr \<Rightarrow> 'a kernel_scheme \<Rightarrow> 'a kernel_scheme" where
  "set_pid t p = upd_thread t (upd_container (pidContainer_update (\<lambda>_. p)))"

text \<open>The section of one namespace: the thread is moved unless it is there already, and it is an error
  when that did not switch its pointer.\<close>

definition enter_ns ::
  "(Container \<Rightarrow> ptr) \<Rightarrow> (ptr \<Rightarrow> ptr \<Rightarrow> ptr \<Rightarrow> 'a unified_kernel_scheme \<Rightarrow> 'a unified_kernel_scheme option) \<Rightarrow>
     addr \<Rightarrow> addr \<Rightarrow> 'a unified_kernel_scheme \<Rightarrow> (rtems_status_code \<times> 'a unified_kernel_scheme) option" where
  "enter_ns sel move c t s = do {
     u \<leftarrow> ucs s c;
     tc \<leftarrow> thread_container t s;
     let dst = sel (namespaces u);
     s1 \<leftarrow> (if sel tc \<noteq> dst then move (sel tc) dst (Some t) s else Some s);
     tc1 \<leftarrow> thread_container t s1;
     Some (if sel tc1 \<noteq> dst then RTEMS_UNSATISFIED else RTEMS_SUCCESSFUL, s1) }"

text \<open>The PID section stores the destination into the thread whatever the move did.\<close>

definition enter_pid ::
  "addr \<Rightarrow> addr \<Rightarrow> 'a unified_kernel_scheme \<Rightarrow> (rtems_status_code \<times> 'a unified_kernel_scheme) option" where
  "enter_pid c t s = do {
     u \<leftarrow> ucs s c;
     tc \<leftarrow> thread_container t s;
     let dst = pidContainer (namespaces u);
     s1 \<leftarrow> (if pidContainer tc \<noteq> dst then rtems_pid_container_move_task (pidContainer tc) dst (Some t) s else Some s);
     let s2 = set_pid t dst s1;
     tc2 \<leftarrow> thread_container t s2;
     Some (if pidContainer tc2 \<noteq> dst then RTEMS_UNSATISFIED else RTEMS_SUCCESSFUL, s2) }"

definition enter_cgroup ::
  "addr \<Rightarrow> addr \<Rightarrow> 'a unified_kernel_scheme \<Rightarrow> (rtems_status_code \<times> 'a unified_kernel_scheme) option" where
  "enter_cgroup c t s = do {
     u \<leftarrow> ucs s c;
     th \<leftarrow> threads s t;
     if is_added_to_cgroup th \<and> cgroup th \<noteq> core_cgroup u then Some (RTEMS_RESOURCE_IN_USE, s)
     else if cgroup th \<noteq> core_cgroup u then rtems_cgroup_add_task (cgroup_id u) (Object_id th) s
     else Some (RTEMS_SUCCESSFUL, s) }"

definition enter_io ::
  "addr \<Rightarrow> addr \<Rightarrow> 'a unified_kernel_scheme \<Rightarrow> (rtems_status_code \<times> 'a unified_kernel_scheme) option" where
  "enter_io c t s = do {
     u \<leftarrow> ucs s c;
     rtems_io_cgroup_add_thread (io_cgroup u) (Some t) (uc_io_thread_weight u) s }"

text \<open>A section that its build option and flag switch on.\<close>

definition section_if ::
  "u32 \<Rightarrow> (rtemscfg \<Rightarrow> bool) \<Rightarrow> addr \<Rightarrow> ('a unified_kernel_scheme \<Rightarrow> (rtems_status_code \<times> 'a unified_kernel_scheme) option) \<Rightarrow>
     'a unified_kernel_scheme \<Rightarrow> (rtems_status_code \<times> 'a unified_kernel_scheme) option" where
  "section_if bits opt c f s = do {
     u \<leftarrow> ucs s c;
     if uses bits opt u s then f s else Some (RTEMS_SUCCESSFUL, s) }"

definition enter_steps ::
  "'a unified_kernel_scheme bsdnet \<Rightarrow> addr \<Rightarrow> addr \<Rightarrow>
     ('a unified_kernel_scheme \<Rightarrow> (rtems_status_code \<times> 'a unified_kernel_scheme) option) list" where
  "enter_steps B c t = [
     section_if RTEMS_UNIFIED_CONTAINER_PID RTEMSCFG_PID_CONTAINER c (enter_pid c t),
     section_if RTEMS_UNIFIED_CONTAINER_UTS RTEMSCFG_UTS_CONTAINER c (enter_ns utsContainer rtems_uts_container_move_task c t),
     section_if RTEMS_UNIFIED_CONTAINER_MNT RTEMSCFG_MNT_CONTAINER c (enter_ns mntContainer rtems_mnt_container_move_task c t),
     section_if RTEMS_UNIFIED_CONTAINER_NET RTEMSCFG_NET_CONTAINER c (enter_ns netContainer (rtems_net_container_move_task B) c t),
     section_if RTEMS_UNIFIED_CONTAINER_IPC RTEMSCFG_IPC_CONTAINER c (enter_ns ipcContainer rtems_ipc_container_move_task c t),
     section_if CPU_MEM RTEMS_CGROUP c (enter_cgroup c t),
     section_if RTEMS_UNIFIED_CONTAINER_IO RTEMSCFG_IO_CGROUP c (enter_io c t)]"

definition rtems_unified_container_enter ::
  "'a unified_kernel_scheme bsdnet \<Rightarrow> ptr \<Rightarrow> ptr \<Rightarrow> 'a unified_kernel_scheme \<Rightarrow>
     (rtems_status_code \<times> 'a unified_kernel_scheme) option" where
  "rtems_unified_container_enter B p thread s =
     (case p of
        None \<Rightarrow> Some (RTEMS_INVALID_ADDRESS, s)
      | Some c \<Rightarrow> do {
          let thread = (if thread = None then executing s else thread);
          (sc, s1) \<leftarrow> rtems_unified_container_ensure_thread_container thread s;
          if sc \<noteq> RTEMS_SUCCESSFUL then Some (sc, s1)
          else do {
            u \<leftarrow> ucs s1 c;
            if attached u \<and> attached_thread u \<noteq> thread then Some (RTEMS_RESOURCE_IN_USE, s1)
            else do {
              t \<leftarrow> thread;
              sc_seq (enter_steps B c t @ [\<lambda>s. Some (RTEMS_SUCCESSFUL,
                upd_uc c (\<lambda>u. u\<lparr>attached := True, attached_thread := thread\<rparr>) s)]) s1 } } })"

section \<open>Leaving\<close>

definition leave_ns ::
  "(Container \<Rightarrow> ptr) \<Rightarrow> (ptr \<Rightarrow> ptr \<Rightarrow> ptr \<Rightarrow> 'a unified_kernel_scheme \<Rightarrow> 'a unified_kernel_scheme option) \<Rightarrow>
     u32 \<Rightarrow> (rtemscfg \<Rightarrow> bool) \<Rightarrow> addr \<Rightarrow> addr \<Rightarrow> 'a unified_kernel_scheme \<Rightarrow> 'a unified_kernel_scheme option" where
  "leave_ns sel move bits opt c t s = do {
     u \<leftarrow> ucs s c;
     root \<leftarrow> rtems_container_get_root s;
     if \<not> uses bits opt u s then Some s
     else do {
       tc \<leftarrow> thread_container t s;
       if sel tc = sel (namespaces u) then move (sel (namespaces u)) (sel root) (Some t) s else Some s } }"

text \<open>As on entry, the PID section also stores the root's container into the thread.\<close>

definition leave_pid :: "addr \<Rightarrow> addr \<Rightarrow> 'a unified_kernel_scheme \<Rightarrow> 'a unified_kernel_scheme option" where
  "leave_pid c t s = leave_ns pidContainer (\<lambda>src dst th s. do {
       s1 \<leftarrow> rtems_pid_container_move_task src dst th s;
       _ \<leftarrow> thread_container t s1;
       Some (set_pid t dst s1) }) RTEMS_UNIFIED_CONTAINER_PID RTEMSCFG_PID_CONTAINER c t s"

definition leave_cgroup ::
  "addr \<Rightarrow> addr \<Rightarrow> 'a unified_kernel_scheme \<Rightarrow> (rtems_status_code \<times> 'a unified_kernel_scheme) option" where
  "leave_cgroup c t s = do {
     u \<leftarrow> ucs s c;
     th \<leftarrow> threads s t;
     if uses CPU_MEM RTEMS_CGROUP u s \<and> cgroup th = core_cgroup u
     then do {
       (sc, s1) \<leftarrow> rtems_cgroup_remove_task (cgroup_id u) (Object_id th) s;
       Some (sc, upd_thread t (\<lambda>th. th\<lparr>cgroup := None, is_added_to_cgroup := False\<rparr>) s1) }
     else Some (RTEMS_SUCCESSFUL, s) }"

definition leave_io ::
  "addr \<Rightarrow> addr \<Rightarrow> 'a unified_kernel_scheme \<Rightarrow> (rtems_status_code \<times> 'a unified_kernel_scheme) option" where
  "leave_io c t s = do {
     u \<leftarrow> ucs s c;
     if uses RTEMS_UNIFIED_CONTAINER_IO RTEMSCFG_IO_CGROUP u s
     then do {
       (sc, s1) \<leftarrow> rtems_io_cgroup_remove_thread (io_cgroup u) (Some t) s;
       Some (if sc = RTEMS_INVALID_ID then RTEMS_SUCCESSFUL else sc, s1) }
     else Some (RTEMS_SUCCESSFUL, s) }"

definition first_error :: "rtems_status_code \<Rightarrow> rtems_status_code \<Rightarrow> rtems_status_code" where
  "first_error e sc = (if e = RTEMS_SUCCESSFUL then sc else e)"

definition rtems_unified_container_leave ::
  "'a unified_kernel_scheme bsdnet \<Rightarrow> ptr \<Rightarrow> ptr \<Rightarrow> 'a unified_kernel_scheme \<Rightarrow>
     (rtems_status_code \<times> 'a unified_kernel_scheme) option" where
  "rtems_unified_container_leave B p thread s =
     (case p of
        None \<Rightarrow> Some (RTEMS_INVALID_ADDRESS, s)
      | Some c \<Rightarrow> do {
          u \<leftarrow> (if thread = None then ucs s c else Some RtemsContainer_zero);
          case (if thread \<noteq> None then thread else if attached_thread u \<noteq> None then attached_thread u else executing s) of
            None \<Rightarrow> Some (RTEMS_INVALID_ADDRESS, s)
          | Some t \<Rightarrow> do {
              th \<leftarrow> threads s t;
              if container th = None then Some (RTEMS_INVALID_ADDRESS, s)
              else if rtems_container_get_root s = None then Some (RTEMS_NOT_CONFIGURED, s)
              else do {
                s1 \<leftarrow> leave_pid c t s;
                s2 \<leftarrow> leave_ns utsContainer rtems_uts_container_move_task RTEMS_UNIFIED_CONTAINER_UTS RTEMSCFG_UTS_CONTAINER c t s1;
                s3 \<leftarrow> leave_ns mntContainer rtems_mnt_container_move_task RTEMS_UNIFIED_CONTAINER_MNT RTEMSCFG_MNT_CONTAINER c t s2;
                s4 \<leftarrow> leave_ns netContainer (rtems_net_container_move_task B) RTEMS_UNIFIED_CONTAINER_NET RTEMSCFG_NET_CONTAINER c t s3;
                s5 \<leftarrow> leave_ns ipcContainer rtems_ipc_container_move_task RTEMS_UNIFIED_CONTAINER_IPC RTEMSCFG_IPC_CONTAINER c t s4;
                (e1, s6) \<leftarrow> leave_cgroup c t s5;
                (e2, s7) \<leftarrow> leave_io c t s6;
                u \<leftarrow> ucs s7 c;
                Some (first_error e1 e2,
                  if attached_thread u = Some t then upd_uc c (\<lambda>u. u\<lparr>attached := False, attached_thread := None\<rparr>) s7 else s7) } } })"

section \<open>Pausing and resuming\<close>

definition rtems_unified_container_pause ::
  "ptr \<Rightarrow> 'a unified_kernel_scheme \<Rightarrow> (rtems_status_code \<times> 'a unified_kernel_scheme) option" where
  "rtems_unified_container_pause p s =
     (if \<not> RTEMS_CGROUP (cfg s) then Some (RTEMS_NOT_CONFIGURED, s)
      else case p of
        None \<Rightarrow> Some (RTEMS_INVALID_ADDRESS, s)
      | Some c \<Rightarrow> do {
          u \<leftarrow> ucs s c;
          if uc_flags u AND CPU_MEM = 0 \<or> core_cgroup u = None then Some (RTEMS_NOT_CONFIGURED, s)
          else CORE_cgroup_Suspend (core_cgroup u) STATES_WAITING_FOR_CGROUP_CPU_QUOTA s })"

definition rtems_unified_container_resume ::
  "ptr \<Rightarrow> 'a unified_kernel_scheme \<Rightarrow> (rtems_status_code \<times> 'a unified_kernel_scheme) option" where
  "rtems_unified_container_resume p s =
     (if \<not> RTEMS_CGROUP (cfg s) then Some (RTEMS_NOT_CONFIGURED, s)
      else case p of
        None \<Rightarrow> Some (RTEMS_INVALID_ADDRESS, s)
      | Some c \<Rightarrow> do {
          u \<leftarrow> ucs s c;
          if uc_flags u AND CPU_MEM = 0 \<or> core_cgroup u = None then Some (RTEMS_NOT_CONFIGURED, s)
          else CORE_cgroup_Resume (core_cgroup u) STATES_WAITING_FOR_CGROUP_CPU_QUOTA s })"

section \<open>Deleting and creating\<close>

definition delete_cgroup ::
  "addr \<Rightarrow> 'a unified_kernel_scheme \<Rightarrow> (rtems_status_code \<times> 'a unified_kernel_scheme) option" where
  "delete_cgroup c s = do {
     u \<leftarrow> ucs s c;
     if RTEMS_CGROUP (cfg s) \<and> cgroup_id u \<noteq> 0
     then do {
       (sc, s1) \<leftarrow> rtems_cgroup_delete (cgroup_id u) s;
       Some (sc, upd_uc c (\<lambda>u. u\<lparr>cgroup_id := 0, core_cgroup := None\<rparr>) s1) }
     else Some (RTEMS_SUCCESSFUL, s) }"

definition delete_io :: "addr \<Rightarrow> 'a unified_kernel_scheme \<Rightarrow> 'a unified_kernel_scheme option" where
  "delete_io c s =
     (if \<not> RTEMSCFG_IO_CGROUP (cfg s) then Some s
      else do {
        u \<leftarrow> ucs s c;
        s1 \<leftarrow> (if io_cgroup u = None \<and> io_cgroup_id u \<noteq> 0
               then do { p \<leftarrow> rtems_io_cgroup_get_by_id (io_cgroup_id u) s; Some (upd_uc c (\<lambda>u. u\<lparr>io_cgroup := p\<rparr>) s) }
               else Some s);
        u \<leftarrow> ucs s1 c;
        if io_cgroup u \<noteq> None
        then do {
          s2 \<leftarrow> rtems_io_cgroup_delete (io_cgroup u) s1;
          Some (upd_uc c (\<lambda>u. u\<lparr>io_cgroup := None, io_cgroup_id := 0\<rparr>) s2) }
        else Some s1 })"

definition delete_ns ::
  "(Container \<Rightarrow> ptr) \<Rightarrow> (Container \<Rightarrow> Container) \<Rightarrow> (rtemscfg \<Rightarrow> bool) \<Rightarrow>
     (ptr \<Rightarrow> 'a unified_kernel_scheme \<Rightarrow> 'a unified_kernel_scheme option) \<Rightarrow> addr \<Rightarrow>
     'a unified_kernel_scheme \<Rightarrow> 'a unified_kernel_scheme option" where
  "delete_ns sel clear opt del c s = do {
     u \<leftarrow> ucs s c;
     if opt (cfg s) \<and> sel (namespaces u) \<noteq> None
     then do { s1 \<leftarrow> del (sel (namespaces u)) s; Some (upd_ns c clear s1) }
     else Some s }"

definition rtems_unified_container_delete ::
  "'a unified_kernel_scheme bsdnet \<Rightarrow> ptr \<Rightarrow> 'a unified_kernel_scheme \<Rightarrow>
     (rtems_status_code \<times> 'a unified_kernel_scheme) option" where
  "rtems_unified_container_delete B p s =
     (case p of
        None \<Rightarrow> Some (RTEMS_INVALID_ADDRESS, s)
      | Some c \<Rightarrow> do {
          u \<leftarrow> ucs s c;
          (e1, s1) \<leftarrow> (if attached u \<and> attached_thread u \<noteq> None
                        then rtems_unified_container_leave B (Some c) (attached_thread u) s
                        else Some (RTEMS_SUCCESSFUL, s));
          (e2, s2) \<leftarrow> delete_cgroup c s1;
          s3 \<leftarrow> delete_io c s2;
          s4 \<leftarrow> delete_ns pidContainer (pidContainer_update (\<lambda>_. None)) RTEMSCFG_PID_CONTAINER rtems_pid_container_delete c s3;
          s5 \<leftarrow> delete_ns utsContainer (utsContainer_update (\<lambda>_. None)) RTEMSCFG_UTS_CONTAINER rtems_uts_container_delete c s4;
          s6 \<leftarrow> delete_ns mntContainer (mntContainer_update (\<lambda>_. None)) RTEMSCFG_MNT_CONTAINER rtems_mnt_container_delete c s5;
          s7 \<leftarrow> delete_ns netContainer (netContainer_update (\<lambda>_. None)) RTEMSCFG_NET_CONTAINER (rtems_net_container_delete B) c s6;
          s8 \<leftarrow> delete_ns ipcContainer (ipcContainer_update (\<lambda>_. None)) RTEMSCFG_IPC_CONTAINER rtems_ipc_container_delete c s7;
          Some (first_error e1 e2,
            s8\<lparr>mem := free_block (mem s8), ucs := (ucs s8)(c := None), cgcfgs := (cgcfgs s8)(c := None)\<rparr>) })"

text \<open>The sections of creation, each storing what it made into the new container.\<close>

definition create_pid :: "addr \<Rightarrow> 'a unified_kernel_scheme \<Rightarrow> (rtems_status_code \<times> 'a unified_kernel_scheme) option" where
  "create_pid c s =
     (case rtems_pid_container_create s of
        (None, s1) \<Rightarrow> Some (RTEMS_NO_MEMORY, upd_ns c (pidContainer_update (\<lambda>_. None)) s1)
      | (Some a, s1) \<Rightarrow> do {
          s2 \<leftarrow> rtems_pid_container_inc_rc (Some a) (upd_ns c (pidContainer_update (\<lambda>_. Some a)) s1);
          Some (RTEMS_SUCCESSFUL, s2) })"

definition create_uts ::
  "string option \<Rightarrow> addr \<Rightarrow> 'a unified_kernel_scheme \<Rightarrow> (rtems_status_code \<times> 'a unified_kernel_scheme) option" where
  "create_uts name c s =
     (case rtems_uts_container_create name s of
        (None, s1) \<Rightarrow> Some (RTEMS_NO_MEMORY, upd_ns c (utsContainer_update (\<lambda>_. None)) s1)
      | (Some a, s1) \<Rightarrow> do {
          s2 \<leftarrow> uts_add_rc a 1 (upd_ns c (utsContainer_update (\<lambda>_. Some a)) s1);
          Some (RTEMS_SUCCESSFUL, s2) })"

definition create_mnt ::
  "'a unified_kernel_ext net_kernel_ext io_kernel_ext cg_kernel_ext deferred_release \<Rightarrow> addr \<Rightarrow> 'a unified_kernel_scheme \<Rightarrow>
     (rtems_status_code \<times> 'a unified_kernel_scheme) option" where
  "create_mnt dr c s = do {
     root \<leftarrow> rtems_container_get_root s;
     (p, s1) \<leftarrow> rtems_mnt_container_create_with_inheritance dr (mntContainer root) s;
     let s2 = upd_ns c (mntContainer_update (\<lambda>_. p)) s1;
     Some (if p = None then (RTEMS_NO_MEMORY, s2) else (RTEMS_SUCCESSFUL, rtems_mnt_container_add_to_list p s2)) }"

definition create_net ::
  "'a unified_kernel_scheme bsdnet \<Rightarrow> addr \<Rightarrow> 'a unified_kernel_scheme \<Rightarrow> (rtems_status_code \<times> 'a unified_kernel_scheme) option" where
  "create_net B c s = do {
     (p, s1) \<leftarrow> rtems_net_container_create B s;
     Some (if p = None then RTEMS_NO_MEMORY else RTEMS_SUCCESSFUL, upd_ns c (netContainer_update (\<lambda>_. p)) s1) }"

definition create_ipc :: "addr \<Rightarrow> 'a unified_kernel_scheme \<Rightarrow> (rtems_status_code \<times> 'a unified_kernel_scheme) option" where
  "create_ipc c s = do {
     (p, s1) \<leftarrow> rtems_ipc_container_create s;
     Some (if p = None then RTEMS_NO_MEMORY else RTEMS_SUCCESSFUL, upd_ns c (ipcContainer_update (\<lambda>_. p)) s1) }"

definition CTNR :: u32 where "CTNR = 0x43544E52"

definition create_cgroup ::
  "CORE_cgroup_config \<Rightarrow> addr \<Rightarrow> 'a unified_kernel_scheme \<Rightarrow> (rtems_status_code \<times> 'a unified_kernel_scheme) option" where
  "create_cgroup conf c s = do {
     (sc, i, s1) \<leftarrow> rtems_cgroup_create CTNR False (Some c) (s\<lparr>cgcfgs := (cgcfgs s)(c \<mapsto> conf)\<rparr>);
     case i of
       None \<Rightarrow> Some (sc, s1)
     | Some i \<Rightarrow> do {
         let s2 = upd_uc c (\<lambda>u. u\<lparr>cgroup_id := i\<rparr>) s1;
         p \<leftarrow> Cgroup_Get i s2;
         Some (if p = None then (RTEMS_UNSATISFIED, s2)
               else (RTEMS_SUCCESSFUL, upd_uc c (\<lambda>u. u\<lparr>core_cgroup := p\<rparr>) s2)) } }"

definition create_io ::
  "RtemsContainerConfig \<Rightarrow> addr \<Rightarrow> 'a unified_kernel_scheme \<Rightarrow> (rtems_status_code \<times> 'a unified_kernel_scheme) option" where
  "create_io conf c s =
     (case rtems_io_cgroup_manager_create (io_system_read_bps conf) (io_system_write_bps conf) s of
        (sc, s1) \<Rightarrow>
          if sc \<noteq> RTEMS_SUCCESSFUL then Some (sc, s1)
          else do {
            (sc, i, s2) \<leftarrow> rtems_io_cgroup_create False (io_weight conf)
               (Some \<lparr>read_bps_limit = io_read_bps_limit conf, write_bps_limit = io_write_bps_limit conf,
                      window_size_ms = io_window_size_ms conf\<rparr>) s1;
            let s3 = (case i of None \<Rightarrow> s2 | Some i \<Rightarrow> upd_uc c (\<lambda>u. u\<lparr>io_cgroup_id := i\<rparr>) s2);
            if sc \<noteq> RTEMS_SUCCESSFUL then Some (sc, s3)
            else do {
              u \<leftarrow> ucs s3 c;
              p \<leftarrow> rtems_io_cgroup_get_by_id (io_cgroup_id u) s3;
              let s4 = upd_uc c (\<lambda>u. u\<lparr>io_cgroup := p\<rparr>) s3;
              Some (if p = None then (RTEMS_UNSATISFIED, s4)
                    else (RTEMS_SUCCESSFUL, upd_uc c (\<lambda>u. u\<lparr>uc_io_thread_weight := conf_io_thread_weight conf\<rparr>) s4)) } })"

definition create_steps ::
  "'a unified_kernel_ext net_kernel_ext io_kernel_ext cg_kernel_ext deferred_release \<Rightarrow> 'a unified_kernel_scheme bsdnet \<Rightarrow>
     RtemsContainerConfig \<Rightarrow> addr \<Rightarrow> ('a unified_kernel_scheme \<Rightarrow> (rtems_status_code \<times> 'a unified_kernel_scheme) option) list" where
  "create_steps dr B conf c = [
     section_if RTEMS_UNIFIED_CONTAINER_PID RTEMSCFG_PID_CONTAINER c (create_pid c),
     section_if RTEMS_UNIFIED_CONTAINER_UTS RTEMSCFG_UTS_CONTAINER c (create_uts (conf_uts_name conf) c),
     section_if RTEMS_UNIFIED_CONTAINER_MNT RTEMSCFG_MNT_CONTAINER c (create_mnt dr c),
     section_if RTEMS_UNIFIED_CONTAINER_NET RTEMSCFG_NET_CONTAINER c (create_net B c),
     section_if RTEMS_UNIFIED_CONTAINER_IPC RTEMSCFG_IPC_CONTAINER c (create_ipc c),
     section_if CPU_MEM RTEMS_CGROUP c (create_cgroup (conf_cgroup_config conf) c),
     section_if RTEMS_UNIFIED_CONTAINER_IO RTEMSCFG_IO_CGROUP c (create_io conf c)]"

text \<open>The result is the status, the value stored through the \<open>container\<close> argument, and the state.
  A failure deletes what was created so far.\<close>

definition rtems_unified_container_create ::
  "'a unified_kernel_ext net_kernel_ext io_kernel_ext cg_kernel_ext deferred_release \<Rightarrow> 'a unified_kernel_scheme bsdnet \<Rightarrow>
     RtemsContainerConfig option \<Rightarrow> bool \<Rightarrow> 'a unified_kernel_scheme \<Rightarrow>
     (rtems_status_code \<times> ptr \<times> 'a unified_kernel_scheme) option" where
  "rtems_unified_container_create dr B config container_null s =
     (if container_null then Some (RTEMS_INVALID_ADDRESS, None, s)
      else do {
        s0 \<leftarrow> (if rtems_container_get_root s = None then rtems_container_initialize_root s else Some s);
        if rtems_container_get_root s0 = None then Some (RTEMS_NOT_CONFIGURED, None, s0)
        else do {
          let conf = (case config of None \<Rightarrow> rtems_unified_container_config_initialize (cfg s0) | Some x \<Rightarrow> x);
          let sc = rtems_unified_container_check_flags (cfg s0) (conf_flags conf);
          if sc \<noteq> RTEMS_SUCCESSFUL then Some (sc, None, s0)
          else case malloc (mem s0) of
            (None, m) \<Rightarrow> Some (RTEMS_NO_MEMORY, None, s0\<lparr>mem := m\<rparr>)
          | (Some c, m) \<Rightarrow> do {
              (sc, s1) \<leftarrow> sc_seq (create_steps dr B conf c)
                 (s0\<lparr>mem := m, ucs := (ucs s0)(c \<mapsto> RtemsContainer_zero\<lparr>uc_flags := conf_flags conf,
                                                   namespaces := Container_zero\<lparr>c_rc := 1\<rparr>\<rparr>)\<rparr>);
              if sc = RTEMS_SUCCESSFUL then Some (RTEMS_SUCCESSFUL, Some c, s1)
              else do { (_, s2) \<leftarrow> rtems_unified_container_delete B (Some c) s1; Some (sc, None, s2) } } } })"

section \<open>Queries\<close>

text \<open>\<open>&container->namespaces\<close> is the address of a field; the model yields the field's value.\<close>

definition rtems_unified_container_get_namespaces :: "ptr \<Rightarrow> 'a unified_kernel_scheme \<Rightarrow> Container option option" where
  "rtems_unified_container_get_namespaces p s =
     (case p of None \<Rightarrow> Some None | Some c \<Rightarrow> map_option (\<lambda>u. Some (namespaces u)) (ucs s c))"

definition rtems_unified_container_get_core_cgroup :: "ptr \<Rightarrow> 'a unified_kernel_scheme \<Rightarrow> cgp option option" where
  "rtems_unified_container_get_core_cgroup p s = (case p of None \<Rightarrow> Some None | Some c \<Rightarrow> map_option core_cgroup (ucs s c))"

definition rtems_unified_container_get_io_cgroup :: "ptr \<Rightarrow> 'a unified_kernel_scheme \<Rightarrow> ptr option" where
  "rtems_unified_container_get_io_cgroup p s = (case p of None \<Rightarrow> Some None | Some c \<Rightarrow> map_option io_cgroup (ucs s c))"

section \<open>Flags\<close>

text \<open>The flags of the subsystems that are not built in.\<close>

definition unconfigured :: "rtemscfg \<Rightarrow> u32" where
  "unconfigured opts =
     (if RTEMSCFG_PID_CONTAINER opts then 0 else RTEMS_UNIFIED_CONTAINER_PID)
     OR (if RTEMSCFG_IPC_CONTAINER opts then 0 else RTEMS_UNIFIED_CONTAINER_IPC)
     OR (if RTEMSCFG_MNT_CONTAINER opts then 0 else RTEMS_UNIFIED_CONTAINER_MNT)
     OR (if RTEMSCFG_NET_CONTAINER opts then 0 else RTEMS_UNIFIED_CONTAINER_NET)
     OR (if RTEMSCFG_UTS_CONTAINER opts then 0 else RTEMS_UNIFIED_CONTAINER_UTS)
     OR (if RTEMS_CGROUP opts then 0 else CPU_MEM)
     OR (if RTEMSCFG_IO_CGROUP opts then 0 else RTEMS_UNIFIED_CONTAINER_IO)"

lemma and_or_zero: "(f :: u32) AND (x OR y) = 0 \<longleftrightarrow> f AND x = 0 \<and> f AND y = 0"
  by (simp add: bit.conj_disj_distrib or_eq_0_iff)

lemma check_flags_mask:
  "rtems_unified_container_check_flags opts flags =
     (if flags AND unconfigured opts = 0 then RTEMS_SUCCESSFUL else RTEMS_NOT_CONFIGURED)"
  unfolding rtems_unified_container_check_flags_def unconfigured_def and_or_zero by auto

text \<open>(C38) The cascade of preprocessor tests is one mask test: a set of flags is accepted exactly when it
  names no subsystem that is not built in, and the creation of a container with any other flags fails
  with \<open>RTEMS_NOT_CONFIGURED\<close>, stores NULL and changes nothing.\<close>

theorem unified_check_flags:
  "rtems_unified_container_check_flags opts flags =
     (if flags AND unconfigured opts = 0 then RTEMS_SUCCESSFUL else RTEMS_NOT_CONFIGURED) \<and>
   (rootContainer s \<noteq> None \<and> conf_flags conf AND unconfigured (cfg s) \<noteq> 0 \<longrightarrow>
     rtems_unified_container_create dr B (Some conf) False s = Some (RTEMS_NOT_CONFIGURED, None, s))"
  by (auto simp: check_flags_mask rtems_unified_container_create_def rtems_container_get_root_def)

section \<open>Entering and leaving\<close>

text \<open>The net effect of moving one thread in one counted namespace: its pointer and that namespace's heap
  are replaced. A section that is switched off changes nothing.\<close>

definition uts_put :: "bool \<Rightarrow> addr \<Rightarrow> ptr \<Rightarrow> (addr \<rightharpoonup> UtsContainer) \<Rightarrow> 'a uts_kernel_scheme \<Rightarrow> 'a uts_kernel_scheme" where
  "uts_put on t p h s = (if on then (set_uts t p s)\<lparr>utss := h\<rparr> else s)"

definition mnt_put :: "bool \<Rightarrow> addr \<Rightarrow> ptr \<Rightarrow> (addr \<rightharpoonup> MntContainer) \<Rightarrow> 'a mnt_kernel_scheme \<Rightarrow> 'a mnt_kernel_scheme" where
  "mnt_put on t p h s = (if on then (set_mnt t p s)\<lparr>mnts := h\<rparr> else s)"

definition net_put :: "bool \<Rightarrow> addr \<Rightarrow> ptr \<Rightarrow> (addr \<rightharpoonup> NetContainer) \<Rightarrow> 'a net_kernel_scheme \<Rightarrow> 'a net_kernel_scheme" where
  "net_put on t p h s = (if on then (set_net t p s)\<lparr>nets := h\<rparr> else s)"

definition ipc_put :: "bool \<Rightarrow> addr \<Rightarrow> ptr \<Rightarrow> (addr \<rightharpoonup> IpcContainer) \<Rightarrow> 'a ipc_kernel_scheme \<Rightarrow> 'a ipc_kernel_scheme" where
  "ipc_put on t p h s = (if on then (set_ipc t p s)\<lparr>ipcs := h\<rparr> else s)"

lemmas put_defs = uts_put_def mnt_put_def net_put_def ipc_put_def set_uts_def set_mnt_def set_net_def set_ipc_def
  upd_thread_def

lemma put_sel [simp]:
  "ucs (uts_put on t p h s) = ucs s" "ucs (mnt_put on t p h2 s) = ucs s"
  "ucs (net_put on t p h3 s) = ucs s" "ucs (ipc_put on t p h4 s) = ucs s"
  "cfg (uts_put on t p h s) = cfg s" "cfg (mnt_put on t p h2 s) = cfg s"
  "cfg (net_put on t p h3 s) = cfg s" "cfg (ipc_put on t p h4 s) = cfg s"
  "rootContainer (uts_put on t p h s) = rootContainer s" "rootContainer (mnt_put on t p h2 s) = rootContainer s"
  "rootContainer (net_put on t p h3 s) = rootContainer s" "rootContainer (ipc_put on t p h4 s) = rootContainer s"
  by (simp_all add: put_defs)

lemma put_heaps [simp]:
  "utss (uts_put on t p h s) = (if on then h else utss s)" "mnts (mnt_put on t p h2 s) = (if on then h2 else mnts s)"
  "nets (net_put on t p h3 s) = (if on then h3 else nets s)" "ipcs (ipc_put on t p h4 s) = (if on then h4 else ipcs s)"
  "utss (mnt_put on t p h2 s) = utss s" "utss (net_put on t p h3 s) = utss s" "utss (ipc_put on t p h4 s) = utss s"
  "mnts (uts_put on t p h s) = mnts s" "mnts (net_put on t p h3 s) = mnts s" "mnts (ipc_put on t p h4 s) = mnts s"
  "nets (uts_put on t p h s) = nets s" "nets (mnt_put on t p h2 s) = nets s" "nets (ipc_put on t p h4 s) = nets s"
  "ipcs (uts_put on t p h s) = ipcs s" "ipcs (mnt_put on t p h2 s) = ipcs s" "ipcs (net_put on t p h3 s) = ipcs s"
  by (simp_all add: put_defs)

lemma thread_container_upd:
  "thread_container u (upd_thread t (upd_container f) s) =
     (if u = t then map_option f (thread_container u s) else thread_container u s)"
  by (cases "threads s u") (auto simp: thread_container_def upd_thread_def upd_container_def)

lemma thread_container_live: "thread_container t s \<noteq> None \<Longrightarrow> \<exists>th. threads s t = Some th \<and> container th \<noteq> None"
  by (auto simp: thread_container_def bind_eq_Some_conv)

lemma thread_container_frame [simp]:
  "thread_container u (s1\<lparr>utss := h\<rparr>) = thread_container u s1"
  "thread_container u (s2\<lparr>mnts := h2\<rparr>) = thread_container u s2"
  "thread_container u (s3\<lparr>nets := h3\<rparr>) = thread_container u s3"
  "thread_container u (s4\<lparr>ipcs := h4\<rparr>) = thread_container u s4"
  by (simp_all add: thread_container_def)

lemma put_container:
  "thread_container u (uts_put on t p h su) =
     (if on \<and> u = t then map_option (utsContainer_update (\<lambda>_. p)) (thread_container u su) else thread_container u su)"
  "thread_container u (mnt_put on t p h2 sm) =
     (if on \<and> u = t then map_option (mntContainer_update (\<lambda>_. p)) (thread_container u sm) else thread_container u sm)"
  "thread_container u (net_put on t p h3 sn) =
     (if on \<and> u = t then map_option (netContainer_update (\<lambda>_. p)) (thread_container u sn) else thread_container u sn)"
  "thread_container u (ipc_put on t p h4 si) =
     (if on \<and> u = t then map_option (ipcContainer_update (\<lambda>_. p)) (thread_container u si) else thread_container u si)"
  by (simp_all add: uts_put_def mnt_put_def net_put_def ipc_put_def set_uts_def set_mnt_def set_net_def set_ipc_def
      thread_container_upd)

lemma thread_ns_container: "thread_ns sel s t = do { tc \<leftarrow> thread_container t s; sel tc }"
  by (cases "threads s t") (auto simp: thread_ns_def thread_container_def)

lemma put_ns [simp]:
  "on \<Longrightarrow> thread_container t su \<noteq> None \<Longrightarrow> thread_ns utsContainer (uts_put on t p hu su) t = p"
  "on \<Longrightarrow> thread_container t sm \<noteq> None \<Longrightarrow> thread_ns mntContainer (mnt_put on t p hm sm) t = p"
  "on \<Longrightarrow> thread_container t sn \<noteq> None \<Longrightarrow> thread_ns netContainer (net_put on t p hn sn) t = p"
  "on \<Longrightarrow> thread_container t si \<noteq> None \<Longrightarrow> thread_ns ipcContainer (ipc_put on t p hi si) t = p"
  by (auto simp: thread_ns_container put_container)

lemma put_ns_frame [simp]:
  "thread_ns mntContainer (uts_put on t p hu su) = thread_ns mntContainer su"
  "thread_ns netContainer (uts_put on t p hu su) = thread_ns netContainer su"
  "thread_ns ipcContainer (uts_put on t p hu su) = thread_ns ipcContainer su"
  "thread_ns utsContainer (mnt_put on t p hm sm) = thread_ns utsContainer sm"
  "thread_ns netContainer (mnt_put on t p hm sm) = thread_ns netContainer sm"
  "thread_ns ipcContainer (mnt_put on t p hm sm) = thread_ns ipcContainer sm"
  "thread_ns utsContainer (net_put on t p hn sn) = thread_ns utsContainer sn"
  "thread_ns mntContainer (net_put on t p hn sn) = thread_ns mntContainer sn"
  "thread_ns ipcContainer (net_put on t p hn sn) = thread_ns ipcContainer sn"
  "thread_ns utsContainer (ipc_put on t p hi si) = thread_ns utsContainer si"
  "thread_ns mntContainer (ipc_put on t p hi si) = thread_ns mntContainer si"
  "thread_ns netContainer (ipc_put on t p hi si) = thread_ns netContainer si"
  by (auto simp: thread_ns_container put_container fun_eq_iff option.map_comp o_def split: Option.bind_split)

lemma put_container_None [simp]:
  "thread_container t' (uts_put on t p hu su) = None \<longleftrightarrow> thread_container t' su = None"
  "thread_container t' (mnt_put on t p hm sm) = None \<longleftrightarrow> thread_container t' sm = None"
  "thread_container t' (net_put on t p hn sn) = None \<longleftrightarrow> thread_container t' sn = None"
  "thread_container t' (ipc_put on t p hi si) = None \<longleftrightarrow> thread_container t' si = None"
  by (simp_all add: put_container)

text \<open>Stores of different namespaces commute, a second store of one namespace wins, and storing what is
  there changes nothing.\<close>

lemma upd_thread_comm:
  assumes "\<And>c. f (g c) = g (f c)"
  shows "upd_thread t (upd_container f) (upd_thread t (upd_container g) s) =
     upd_thread t (upd_container g) (upd_thread t (upd_container f) s)"
  using assms by (auto simp: upd_thread_def upd_container_def [abs_def] option.map_comp o_def)

lemma set_commute:
  "set_uts t p (set_mnt t q s0) = set_mnt t q (set_uts t p s0)"
  "set_uts t p (set_net t q s1) = set_net t q (set_uts t p s1)"
  "set_uts t p (set_ipc t q s2) = set_ipc t q (set_uts t p s2)"
  "set_mnt t p (set_net t q s3) = set_net t q (set_mnt t p s3)"
  "set_mnt t p (set_ipc t q s4) = set_ipc t q (set_mnt t p s4)"
  "set_net t p (set_ipc t q s5) = set_ipc t q (set_net t p s5)"
  unfolding set_uts_def set_mnt_def set_net_def set_ipc_def by (rule upd_thread_comm; simp)+

lemma set_heap:
  "set_uts t p (s0\<lparr>utss := hu\<rparr>) = (set_uts t p s0)\<lparr>utss := hu\<rparr>"
  "set_uts t p (s1\<lparr>mnts := hm\<rparr>) = (set_uts t p s1)\<lparr>mnts := hm\<rparr>"
  "set_uts t p (s2\<lparr>nets := hn\<rparr>) = (set_uts t p s2)\<lparr>nets := hn\<rparr>"
  "set_uts t p (s3\<lparr>ipcs := hi\<rparr>) = (set_uts t p s3)\<lparr>ipcs := hi\<rparr>"
  "set_mnt t p (s4\<lparr>utss := hu\<rparr>) = (set_mnt t p s4)\<lparr>utss := hu\<rparr>"
  "set_mnt t p (s5\<lparr>mnts := hm\<rparr>) = (set_mnt t p s5)\<lparr>mnts := hm\<rparr>"
  "set_mnt t p (s6\<lparr>nets := hn\<rparr>) = (set_mnt t p s6)\<lparr>nets := hn\<rparr>"
  "set_mnt t p (s7\<lparr>ipcs := hi\<rparr>) = (set_mnt t p s7)\<lparr>ipcs := hi\<rparr>"
  "set_net t p (s8\<lparr>utss := hu\<rparr>) = (set_net t p s8)\<lparr>utss := hu\<rparr>"
  "set_net t p (s9\<lparr>mnts := hm\<rparr>) = (set_net t p s9)\<lparr>mnts := hm\<rparr>"
  "set_net t p (s10\<lparr>nets := hn\<rparr>) = (set_net t p s10)\<lparr>nets := hn\<rparr>"
  "set_net t p (s11\<lparr>ipcs := hi\<rparr>) = (set_net t p s11)\<lparr>ipcs := hi\<rparr>"
  "set_ipc t p (s12\<lparr>utss := hu\<rparr>) = (set_ipc t p s12)\<lparr>utss := hu\<rparr>"
  "set_ipc t p (s13\<lparr>mnts := hm\<rparr>) = (set_ipc t p s13)\<lparr>mnts := hm\<rparr>"
  "set_ipc t p (s14\<lparr>nets := hn\<rparr>) = (set_ipc t p s14)\<lparr>nets := hn\<rparr>"
  "set_ipc t p (s15\<lparr>ipcs := hi\<rparr>) = (set_ipc t p s15)\<lparr>ipcs := hi\<rparr>"
  by (simp_all add: set_uts_def set_mnt_def set_net_def set_ipc_def upd_thread_def)

lemma set_set:
  "set_uts t p (set_uts t q s0) = set_uts t p s0"
  "set_mnt t p (set_mnt t q s1) = set_mnt t p s1"
  "set_net t p (set_net t q s2) = set_net t p s2"
  "set_ipc t p (set_ipc t q s3) = set_ipc t p s3"
  by (simp_all add: set_uts_def set_mnt_def set_net_def set_ipc_def upd_thread_def upd_container_def [abs_def]
      option.map_comp o_def)

lemma put_commute:
  "uts_put on t p hu (mnt_put on' t q hm s0) = mnt_put on' t q hm (uts_put on t p hu s0)"
  "uts_put on t p hu (net_put on' t q hn s1) = net_put on' t q hn (uts_put on t p hu s1)"
  "uts_put on t p hu (ipc_put on' t q hi s2) = ipc_put on' t q hi (uts_put on t p hu s2)"
  "mnt_put on t p hm (net_put on' t q hn s3) = net_put on' t q hn (mnt_put on t p hm s3)"
  "mnt_put on t p hm (ipc_put on' t q hi s4) = ipc_put on' t q hi (mnt_put on t p hm s4)"
  "net_put on t p hn (ipc_put on' t q hi s5) = ipc_put on' t q hi (net_put on t p hn s5)"
  by (simp_all add: uts_put_def mnt_put_def net_put_def ipc_put_def set_commute set_heap)

lemma put_put:
  "uts_put on t p hu (uts_put on t q gu s0) = uts_put on t p hu s0"
  "mnt_put on t p hm (mnt_put on t q gm s1) = mnt_put on t p hm s1"
  "net_put on t p hn (net_put on t q gn s2) = net_put on t p hn s2"
  "ipc_put on t p hi (ipc_put on t q gi s3) = ipc_put on t p hi s3"
  by (simp_all add: uts_put_def mnt_put_def net_put_def ipc_put_def set_heap set_set)

lemma thread_eta:
  assumes "thread_container t s = Some tc" "f tc = tc"
  shows "(threads s)(t := map_option (upd_container f) (threads s t)) = threads s"
  using assms by (cases "threads s t") (auto simp: thread_container_def upd_container_def fun_eq_iff)

lemma put_same:
  "thread_container t s0 = Some tc \<Longrightarrow> utsContainer tc = p \<Longrightarrow> uts_put on t p (utss s0) s0 = s0"
  "thread_container t s1 = Some tc \<Longrightarrow> mntContainer tc = p \<Longrightarrow> mnt_put on t p (mnts s1) s1 = s1"
  "thread_container t s2 = Some tc \<Longrightarrow> netContainer tc = p \<Longrightarrow> net_put on t p (nets s2) s2 = s2"
  "thread_container t s3 = Some tc \<Longrightarrow> ipcContainer tc = p \<Longrightarrow> ipc_put on t p (ipcs s3) s3 = s3"
  by (auto simp: put_defs thread_eta)

lemma put_upd_uc:
  "uts_put on t p h0 (upd_uc c f s) = upd_uc c f (uts_put on t p h0 s)"
  "mnt_put on t p h1 (upd_uc c f s) = upd_uc c f (mnt_put on t p h1 s)"
  "net_put on t p h2 (upd_uc c f s) = upd_uc c f (net_put on t p h2 s)"
  "ipc_put on t p h3 (upd_uc c f s) = upd_uc c f (ipc_put on t p h3 s)"
  by (auto simp: put_defs upd_uc_def)

lemma upd_uc_upd_uc: "upd_uc c f (upd_uc c g s) = upd_uc c (\<lambda>u. f (g u)) s"
  by (simp add: upd_uc_def option.map_comp o_def)

lemma upd_uc_same: "ucs s c = Some u \<Longrightarrow> f u = u \<Longrightarrow> upd_uc c f s = s"
  by (simp add: upd_uc_def fun_upd_idem)

lemma upd_uc_sel [simp]:
  "ucs (upd_uc c f s) = (ucs s)(c := map_option f (ucs s c))" "cfg (upd_uc c f s) = cfg s"
  "rootContainer (upd_uc c f s) = rootContainer s" "thread_container t (upd_uc c f s) = thread_container t s"
  "threads (upd_uc c f s) = threads s" "thread_ns sel (upd_uc c f s) = thread_ns sel s"
  "utss (upd_uc c f s) = utss s" "mnts (upd_uc c f s) = mnts s" "nets (upd_uc c f s) = nets s" "ipcs (upd_uc c f s) = ipcs s"
  by (simp_all add: upd_uc_def thread_container_def thread_ns_def fun_eq_iff)

text \<open>When a thread of the root container can change into a container's namespace and back: both
  containers exist and differ, and each keeps another user while the thread is away.\<close>

definition ns_ready ::
  "(Container \<Rightarrow> ptr) \<Rightarrow> ('b \<Rightarrow> int) \<Rightarrow> (addr \<rightharpoonup> 'b) \<Rightarrow> Container \<Rightarrow> Container \<Rightarrow> Container \<Rightarrow> bool" where
  "ns_ready sel rc h tc ns root \<longleftrightarrow> (\<exists>a b ua ub. sel tc = Some a \<and> sel root = Some a \<and> sel ns = Some b \<and> a \<noteq> b \<and>
     h a = Some ua \<and> h b = Some ub \<and> 1 < rc ua \<and> 0 < rc ub)"

text \<open>Leaving is the store \<open>back\<close> in every state that kept the container, the root and this namespace as
  they were after entering from \<open>s\<close>.\<close>

definition ns_returns ::
  "('a unified_kernel_scheme \<Rightarrow> 'a unified_kernel_scheme option) \<Rightarrow> ('a unified_kernel_scheme \<Rightarrow> 'a unified_kernel_scheme) \<Rightarrow>
     ('a unified_kernel_scheme \<Rightarrow> addr \<Rightarrow> 'b option) \<Rightarrow> (Container \<Rightarrow> ptr) \<Rightarrow> bool \<Rightarrow> (addr \<Rightarrow> 'b option) \<Rightarrow>
     addr \<Rightarrow> addr \<Rightarrow> RtemsContainer \<Rightarrow> Container \<Rightarrow> 'a unified_kernel_scheme \<Rightarrow> bool" where
  "ns_returns leave back heap sel on h c t u root s \<longleftrightarrow>
     (\<forall>s' u'. ucs s' c = Some u' \<longrightarrow> uc_flags u' = uc_flags u \<longrightarrow> namespaces u' = namespaces u \<longrightarrow> cfg s' = cfg s \<longrightarrow>
        rootContainer s' = Some root \<longrightarrow> thread_container t s' \<noteq> None \<longrightarrow>
        (on \<longrightarrow> heap s' = h \<and> thread_ns sel s' t = sel (namespaces u)) \<longrightarrow> leave s' = Some (back s'))"

lemma ns_returnsD:
  assumes "ns_returns leave back heap sel on h c t u root s" "ucs s' c = Some u'" "uc_flags u' = uc_flags u"
    "namespaces u' = namespaces u" "cfg s' = cfg s" "rootContainer s' = Some root" "thread_container t s' \<noteq> None"
    "on \<Longrightarrow> heap s' = h" "on \<Longrightarrow> thread_ns sel s' t = sel (namespaces u)"
  shows "leave s' = Some (back s')"
  using assms(1) [unfolded ns_returns_def, rule_format, OF assms(2-7)] assms(8,9) by blast

lemma ns_returns_frame: "ns_returns leave back heap sel on h c t u root s \<Longrightarrow> cfg s' = cfg s \<Longrightarrow>
     ns_returns leave back heap sel on h c t u root s'"
  by (simp add: ns_returns_def)

text \<open>The contract that the unified layer needs of a counted namespace: a move between containers that
  keep other users replaces the thread's pointer and shifts one reference.\<close>

locale ns_section =
  fixes sel :: "Container \<Rightarrow> ptr" and bits :: u32 and opt :: "rtemscfg \<Rightarrow> bool"
    and move :: "ptr \<Rightarrow> ptr \<Rightarrow> ptr \<Rightarrow> 'a unified_kernel_scheme \<Rightarrow> 'a unified_kernel_scheme option"
    and heap :: "'a unified_kernel_scheme \<Rightarrow> addr \<Rightarrow> 'b option"
    and put :: "bool \<Rightarrow> addr \<Rightarrow> ptr \<Rightarrow> (addr \<Rightarrow> 'b option) \<Rightarrow> 'a unified_kernel_scheme \<Rightarrow> 'a unified_kernel_scheme"
    and rc :: "'b \<Rightarrow> int" and add :: "int \<Rightarrow> 'b \<Rightarrow> 'b"
  assumes move_eq: "thread_ns sel s t = Some a \<Longrightarrow> heap s a = Some ua \<Longrightarrow> heap s b = Some ub \<Longrightarrow> a \<noteq> b \<Longrightarrow> 1 < rc ua \<Longrightarrow>
      move (Some a) (Some b) (Some t) s = Some (put True t (Some b) ((heap s)(a \<mapsto> add (-1) ua, b \<mapsto> add 1 ub)) s)"
    and put_off: "put False t p h s = s"
    and put_ptr: "thread_container t s = Some tc \<Longrightarrow> \<exists>tc1. thread_container t (put True t p h s) = Some tc1 \<and> sel tc1 = p"
    and rc_add: "rc (add d x) = rc x + d"
    and add_back: "add 1 (add (-1) x) = x" "add (-1) (add 1 x) = x"
begin

lemma enter_section:
  assumes "ucs s c = Some u" "thread_container t s = Some tc" "uses bits opt u s"
    "sel tc = Some a" "sel (namespaces u) = Some b" "a \<noteq> b" "heap s a = Some ua" "heap s b = Some ub" "1 < rc ua"
  shows "section_if bits opt c (enter_ns sel move c t) s =
     Some (RTEMS_SUCCESSFUL, put True t (Some b) ((heap s)(a \<mapsto> add (-1) ua, b \<mapsto> add 1 ub)) s)"
proof -
  let ?h = "(heap s)(a \<mapsto> add (-1) ua, b \<mapsto> add 1 ub)"
  have "thread_ns sel s t = Some a" using assms(2,4) by (simp add: thread_ns_container)
  from move_eq [OF this assms(7,8,6,9)]
  have mv: "move (sel tc) (sel (namespaces u)) (Some t) s = Some (put True t (Some b) ?h s)" using assms(4,5) by simp
  obtain tc1 where "thread_container t (put True t (Some b) ?h s) = Some tc1" "sel tc1 = Some b"
    using put_ptr [OF assms(2)] by blast
  then have "enter_ns sel move c t s = Some (RTEMS_SUCCESSFUL, put True t (Some b) ?h s)"
    using assms(1,2,4-6) mv by (simp add: enter_ns_def)
  then show ?thesis using assms(1,3) by (simp add: section_if_def)
qed

lemma leave_section:
  assumes "ucs s c = Some u" "thread_container t s = Some tc" "uses bits opt u s" "rootContainer s = Some root"
    "sel tc = Some b" "sel (namespaces u) = Some b" "sel root = Some a" "a \<noteq> b"
    "heap s = h(a \<mapsto> add (-1) ua, b \<mapsto> add 1 ub)" "h a = Some ua" "h b = Some ub" "0 < rc ub"
  shows "leave_ns sel move bits opt c t s = Some (put True t (Some a) h s)"
proof -
  have "thread_ns sel s t = Some b" using assms(2,5) by (simp add: thread_ns_container)
  from move_eq [OF this, of "add 1 ub" a "add (-1) ua"]
  have "move (Some b) (Some a) (Some t) s = Some (put True t (Some a) ((heap s)(b \<mapsto> ub, a \<mapsto> ua)) s)"
    using assms(8-12) by (simp add: rc_add add_back)
  moreover have "(heap s)(b \<mapsto> ub, a \<mapsto> ua) = h" using assms(8-11) by (auto simp: fun_eq_iff)
  ultimately show ?thesis using assms by (simp add: leave_ns_def rtems_container_get_root_def)
qed

text \<open>Entering is one store, and leaving from any later state that kept the namespace undoes it.\<close>

lemma sections:
  assumes "ucs s c = Some u" "thread_container t s = Some tc" "rootContainer s = Some root" "on = uses bits opt u s"
    "on \<Longrightarrow> ns_ready sel rc (heap s) tc (namespaces u) root"
  shows "\<exists>h. section_if bits opt c (enter_ns sel move c t) s = Some (RTEMS_SUCCESSFUL, put on t (sel (namespaces u)) h s) \<and>
     ns_returns (leave_ns sel move bits opt c t) (put on t (sel tc) (heap s)) heap sel on h c t u root s"
proof (cases on)
  case False
  then show ?thesis using assms
    by (auto simp: section_if_def leave_ns_def put_off rtems_container_get_root_def uses_def ns_returns_def)
next
  case True
  then obtain a b ua ub where r: "sel tc = Some a" "sel root = Some a" "sel (namespaces u) = Some b" "a \<noteq> b"
    "heap s a = Some ua" "heap s b = Some ub" "1 < rc ua" "0 < rc ub"
    using assms(5) by (auto simp: ns_ready_def)
  let ?h = "(heap s)(a \<mapsto> add (-1) ua, b \<mapsto> add 1 ub)"
  have "leave_ns sel move bits opt c t s' = Some (put on t (sel tc) (heap s) s')"
    if "ucs s' c = Some u'" "uc_flags u' = uc_flags u" "namespaces u' = namespaces u" "cfg s' = cfg s"
      "rootContainer s' = Some root" "thread_container t s' \<noteq> None" "heap s' = ?h" "thread_ns sel s' t = sel (namespaces u)" for s' u'
  proof -
    from that(6,8) obtain tc' where "thread_container t s' = Some tc'" "sel tc' = sel (namespaces u)"
      by (auto simp: thread_ns_container)
    then show ?thesis
      using leave_section [OF that(1) _ _ that(5), of t tc' b a "heap s" ua ub] that r True assms(4) by (simp add: uses_def)
  qed
  then have "ns_returns (leave_ns sel move bits opt c t) (put on t (sel tc) (heap s)) heap sel on ?h c t u root s"
    using True unfolding ns_returns_def by blast
  then show ?thesis using enter_section [OF assms(1,2) _ r(1,3-7)] assms(4) True r(3) by (intro exI [of _ ?h]) simp
qed

end

interpretation uts_sec: ns_section utsContainer RTEMS_UNIFIED_CONTAINER_UTS RTEMSCFG_UTS_CONTAINER
  rtems_uts_container_move_task utss uts_put uts_rc "\<lambda>d x. x\<lparr>uts_rc := uts_rc x + d\<rparr>"
  by unfold_locales
    (auto simp: uts_move_eq uts_put_def set_uts_def thread_container_upd)

interpretation mnt_sec: ns_section mntContainer RTEMS_UNIFIED_CONTAINER_MNT RTEMSCFG_MNT_CONTAINER
  rtems_mnt_container_move_task mnts mnt_put mnt_rc "\<lambda>d x. x\<lparr>mnt_rc := mnt_rc x + d\<rparr>"
  by unfold_locales
    (auto simp: mnt_move_eq mnt_put_def set_mnt_def thread_container_upd)

interpretation net_sec: ns_section netContainer RTEMS_UNIFIED_CONTAINER_NET RTEMSCFG_NET_CONTAINER
  "rtems_net_container_move_task B" nets net_put net_rc "\<lambda>d x. x\<lparr>net_rc := net_rc x + d\<rparr>" for B
  by unfold_locales
    (auto simp: net_move_eq net_put_def set_net_def thread_container_upd fun_upd_twist)

interpretation ipc_sec: ns_section ipcContainer RTEMS_UNIFIED_CONTAINER_IPC RTEMSCFG_IPC_CONTAINER
  rtems_ipc_container_move_task ipcs ipc_put ipc_rc "\<lambda>d x. x\<lparr>ipc_rc := ipc_rc x + d\<rparr>"
  by unfold_locales
    (auto simp: ipc_move_eq ipc_put_def set_ipc_def thread_container_upd)

text \<open>The flags of the four counted namespaces.\<close>

definition COUNTED :: u32 where
  "COUNTED = RTEMS_UNIFIED_CONTAINER_UTS OR RTEMS_UNIFIED_CONTAINER_MNT OR RTEMS_UNIFIED_CONTAINER_NET OR RTEMS_UNIFIED_CONTAINER_IPC"

lemma counted_only:
  assumes "(f :: u32) AND NOT COUNTED = 0"
  shows "f AND RTEMS_UNIFIED_CONTAINER_PID = 0" "f AND CPU_MEM = 0" "f AND RTEMS_UNIFIED_CONTAINER_IO = 0"
proof -
  have sub: "f AND x = 0" if "x AND COUNTED = 0" for x
  proof (rule bit_word_eqI)
    fix n assume "n < LENGTH(32)"
    moreover have "bit (f AND NOT COUNTED) n = bit (0 :: u32) n" "bit (x AND COUNTED) n = bit (0 :: u32) n"
      using assms that by simp_all
    ultimately show "bit (f AND x) n = bit (0 :: u32) n" by (auto simp: bit_simps)
  qed
  show "f AND RTEMS_UNIFIED_CONTAINER_PID = 0" "f AND CPU_MEM = 0" "f AND RTEMS_UNIFIED_CONTAINER_IO = 0"
    by (rule sub, simp add: COUNTED_def CPU_MEM_def unified_flags)+
qed

text \<open>The four sections of an entry one after the other, with the way back of each.\<close>

lemma enter_counted:
  fixes s :: "'a unified_kernel_scheme"
  assumes "ucs s c = Some u" "thread_container t s = Some tc" "rootContainer s = Some root" "uc_flags u AND NOT COUNTED = 0"
    "ou \<Longrightarrow> ns_ready utsContainer uts_rc (utss s) tc (namespaces u) root"
    "om \<Longrightarrow> ns_ready mntContainer mnt_rc (mnts s) tc (namespaces u) root"
    "oe \<Longrightarrow> ns_ready netContainer net_rc (nets s) tc (namespaces u) root"
    "oi \<Longrightarrow> ns_ready ipcContainer ipc_rc (ipcs s) tc (namespaces u) root"
    and on: "ou = uses RTEMS_UNIFIED_CONTAINER_UTS RTEMSCFG_UTS_CONTAINER u s"
    "om = uses RTEMS_UNIFIED_CONTAINER_MNT RTEMSCFG_MNT_CONTAINER u s"
    "oe = uses RTEMS_UNIFIED_CONTAINER_NET RTEMSCFG_NET_CONTAINER u s"
    "oi = uses RTEMS_UNIFIED_CONTAINER_IPC RTEMSCFG_IPC_CONTAINER u s"
  shows "\<exists>hu hm he hi s4. s4 = ipc_put oi t (ipcContainer (namespaces u)) hi (net_put oe t (netContainer (namespaces u)) he
       (mnt_put om t (mntContainer (namespaces u)) hm (uts_put ou t (utsContainer (namespaces u)) hu s))) \<and>
     sc_seq (enter_steps B c t @ fs) s = sc_seq fs s4 \<and>
     ns_returns (leave_ns utsContainer rtems_uts_container_move_task RTEMS_UNIFIED_CONTAINER_UTS RTEMSCFG_UTS_CONTAINER c t)
      (uts_put ou t (utsContainer tc) (utss s)) utss utsContainer ou hu c t u root s \<and>
     ns_returns (leave_ns mntContainer rtems_mnt_container_move_task RTEMS_UNIFIED_CONTAINER_MNT RTEMSCFG_MNT_CONTAINER c t)
      (mnt_put om t (mntContainer tc) (mnts s)) mnts mntContainer om hm c t u root s \<and>
     ns_returns (leave_ns netContainer (rtems_net_container_move_task B) RTEMS_UNIFIED_CONTAINER_NET RTEMSCFG_NET_CONTAINER c t)
      (net_put oe t (netContainer tc) (nets s)) nets netContainer oe he c t u root s \<and>
     ns_returns (leave_ns ipcContainer rtems_ipc_container_move_task RTEMS_UNIFIED_CONTAINER_IPC RTEMSCFG_IPC_CONTAINER c t)
      (ipc_put oi t (ipcContainer tc) (ipcs s)) ipcs ipcContainer oi hi c t u root s"
proof -
  let ?n = "namespaces u"
  obtain hu where U: "section_if RTEMS_UNIFIED_CONTAINER_UTS RTEMSCFG_UTS_CONTAINER c
      (enter_ns utsContainer rtems_uts_container_move_task c t) s = Some (RTEMS_SUCCESSFUL, uts_put ou t (utsContainer ?n) hu s)"
    and U': "ns_returns (leave_ns utsContainer rtems_uts_container_move_task RTEMS_UNIFIED_CONTAINER_UTS RTEMSCFG_UTS_CONTAINER c t)
      (uts_put ou t (utsContainer tc) (utss s)) utss utsContainer ou hu c t u root s"
    using uts_sec.sections [OF assms(1-3) on(1)] assms(5) on(1) by blast
  define s1 where "s1 = uts_put ou t (utsContainer ?n) hu s"
  define tc1 where "tc1 = (if ou then tc\<lparr>utsContainer := utsContainer ?n\<rparr> else tc)"
  have s1: "ucs s1 c = Some u" "thread_container t s1 = Some tc1" "rootContainer s1 = Some root" "cfg s1 = cfg s"
    "mntContainer tc1 = mntContainer tc" "mnts s1 = mnts s"
    using assms(1-3) by (simp_all add: s1_def tc1_def put_container)
  have om: "om = uses RTEMS_UNIFIED_CONTAINER_MNT RTEMSCFG_MNT_CONTAINER u s1" using s1(4) on(2) by (simp add: uses_def)
  obtain hm where M: "section_if RTEMS_UNIFIED_CONTAINER_MNT RTEMSCFG_MNT_CONTAINER c
      (enter_ns mntContainer rtems_mnt_container_move_task c t) s1 = Some (RTEMS_SUCCESSFUL, mnt_put om t (mntContainer ?n) hm s1)"
    and M': "ns_returns (leave_ns mntContainer rtems_mnt_container_move_task RTEMS_UNIFIED_CONTAINER_MNT RTEMSCFG_MNT_CONTAINER c t)
      (mnt_put om t (mntContainer tc) (mnts s)) mnts mntContainer om hm c t u root s1"
    using mnt_sec.sections [OF s1(1-3) om] assms(6) on(2) s1(5,6) by (auto simp: ns_ready_def)
  define s2 where "s2 = mnt_put om t (mntContainer ?n) hm s1"
  define tc2 where "tc2 = (if om then tc1\<lparr>mntContainer := mntContainer ?n\<rparr> else tc1)"
  have s2: "ucs s2 c = Some u" "thread_container t s2 = Some tc2" "rootContainer s2 = Some root" "cfg s2 = cfg s"
    "netContainer tc2 = netContainer tc" "nets s2 = nets s"
    using s1 by (simp_all add: s2_def tc2_def tc1_def put_container s1_def)
  have oe: "oe = uses RTEMS_UNIFIED_CONTAINER_NET RTEMSCFG_NET_CONTAINER u s2" using s2(4) on(3) by (simp add: uses_def)
  obtain he where N: "section_if RTEMS_UNIFIED_CONTAINER_NET RTEMSCFG_NET_CONTAINER c
      (enter_ns netContainer (rtems_net_container_move_task B) c t) s2 = Some (RTEMS_SUCCESSFUL, net_put oe t (netContainer ?n) he s2)"
    and N': "ns_returns (leave_ns netContainer (rtems_net_container_move_task B) RTEMS_UNIFIED_CONTAINER_NET RTEMSCFG_NET_CONTAINER c t)
      (net_put oe t (netContainer tc) (nets s)) nets netContainer oe he c t u root s2"
    using net_sec.sections [OF s2(1-3) oe, of B] assms(7) on(3) s2(5,6) by (auto simp: ns_ready_def)
  define s3 where "s3 = net_put oe t (netContainer ?n) he s2"
  define tc3 where "tc3 = (if oe then tc2\<lparr>netContainer := netContainer ?n\<rparr> else tc2)"
  have s3: "ucs s3 c = Some u" "thread_container t s3 = Some tc3" "rootContainer s3 = Some root" "cfg s3 = cfg s"
    "ipcContainer tc3 = ipcContainer tc" "ipcs s3 = ipcs s"
    using s2 by (simp_all add: s3_def tc3_def tc2_def tc1_def put_container s2_def s1_def)
  have oi: "oi = uses RTEMS_UNIFIED_CONTAINER_IPC RTEMSCFG_IPC_CONTAINER u s3" using s3(4) on(4) by (simp add: uses_def)
  obtain hi where I: "section_if RTEMS_UNIFIED_CONTAINER_IPC RTEMSCFG_IPC_CONTAINER c
      (enter_ns ipcContainer rtems_ipc_container_move_task c t) s3 = Some (RTEMS_SUCCESSFUL, ipc_put oi t (ipcContainer ?n) hi s3)"
    and I': "ns_returns (leave_ns ipcContainer rtems_ipc_container_move_task RTEMS_UNIFIED_CONTAINER_IPC RTEMSCFG_IPC_CONTAINER c t)
      (ipc_put oi t (ipcContainer tc) (ipcs s)) ipcs ipcContainer oi hi c t u root s3"
    using ipc_sec.sections [OF s3(1-3) oi] assms(8) on(4) s3(5,6) by (auto simp: ns_ready_def)
  define s4 where "s4 = ipc_put oi t (ipcContainer ?n) hi s3"
  have s4: "ucs s4 c = Some u" using s3 by (simp add: s4_def)
  have off: "section_if bits opt c f r = Some (RTEMS_SUCCESSFUL, r)"
    if "ucs r c = Some u" "uc_flags u AND bits = 0" for bits opt f and r :: "'a unified_kernel_scheme"
    using that by (simp add: section_if_def uses_def)
  have "sc_seq (enter_steps B c t @ fs) s = sc_seq fs s4"
    using U M N I off assms(1) s4 counted_only [OF assms(4)]
    by (simp add: enter_steps_def s1_def s2_def s3_def s4_def)
  moreover note U' ns_returns_frame [OF M', of s] ns_returns_frame [OF N', of s] ns_returns_frame [OF I', of s] s1(4) s2(4) s3(4)
  ultimately show ?thesis unfolding s4_def s3_def s2_def s1_def by metis
qed

text \<open>(C1) Entering a unified container and leaving it again is the identity. For a container of any
  subset of the UTS, mount, network and IPC namespaces that no thread is in, and a thread of the root
  containers: entering succeeds and puts the thread into every namespace of the container, and leaving then succeeds and
  restores the whole kernel state, provided that each namespace keeps another user throughout.\<close>

theorem unified_enter_leave:
  fixes s :: "'a unified_kernel_scheme"
  assumes "ucs s c = Some u" "\<not> attached u" "attached_thread u = None" "uc_flags u AND NOT COUNTED = 0"
    "thread_container t s = Some tc" "rootContainer s = Some root"
    "uses RTEMS_UNIFIED_CONTAINER_UTS RTEMSCFG_UTS_CONTAINER u s \<Longrightarrow> ns_ready utsContainer uts_rc (utss s) tc (namespaces u) root"
    "uses RTEMS_UNIFIED_CONTAINER_MNT RTEMSCFG_MNT_CONTAINER u s \<Longrightarrow> ns_ready mntContainer mnt_rc (mnts s) tc (namespaces u) root"
    "uses RTEMS_UNIFIED_CONTAINER_NET RTEMSCFG_NET_CONTAINER u s \<Longrightarrow> ns_ready netContainer net_rc (nets s) tc (namespaces u) root"
    "uses RTEMS_UNIFIED_CONTAINER_IPC RTEMSCFG_IPC_CONTAINER u s \<Longrightarrow> ns_ready ipcContainer ipc_rc (ipcs s) tc (namespaces u) root"
  shows "\<exists>s1. rtems_unified_container_enter B (Some c) (Some t) s = Some (RTEMS_SUCCESSFUL, s1) \<and>
     (uses RTEMS_UNIFIED_CONTAINER_UTS RTEMSCFG_UTS_CONTAINER u s \<longrightarrow> thread_ns utsContainer s1 t = utsContainer (namespaces u)) \<and>
     (uses RTEMS_UNIFIED_CONTAINER_MNT RTEMSCFG_MNT_CONTAINER u s \<longrightarrow> thread_ns mntContainer s1 t = mntContainer (namespaces u)) \<and>
     (uses RTEMS_UNIFIED_CONTAINER_NET RTEMSCFG_NET_CONTAINER u s \<longrightarrow> thread_ns netContainer s1 t = netContainer (namespaces u)) \<and>
     (uses RTEMS_UNIFIED_CONTAINER_IPC RTEMSCFG_IPC_CONTAINER u s \<longrightarrow> thread_ns ipcContainer s1 t = ipcContainer (namespaces u)) \<and>
     map_option attached_thread (ucs s1 c) = Some (Some t) \<and>
     rtems_unified_container_leave B (Some c) (Some t) s1 = Some (RTEMS_SUCCESSFUL, s)"
proof -
  define ou om oe oi where on: "ou = uses RTEMS_UNIFIED_CONTAINER_UTS RTEMSCFG_UTS_CONTAINER u s"
    "om = uses RTEMS_UNIFIED_CONTAINER_MNT RTEMSCFG_MNT_CONTAINER u s"
    "oe = uses RTEMS_UNIFIED_CONTAINER_NET RTEMSCFG_NET_CONTAINER u s"
    "oi = uses RTEMS_UNIFIED_CONTAINER_IPC RTEMSCFG_IPC_CONTAINER u s"
  let ?n = "namespaces u"
  obtain hu hm he hi s4 where s4: "s4 = ipc_put oi t (ipcContainer ?n) hi (net_put oe t (netContainer ?n) he
       (mnt_put om t (mntContainer ?n) hm (uts_put ou t (utsContainer ?n) hu s)))"
    and run: "sc_seq (enter_steps B c t @ [\<lambda>s. Some (RTEMS_SUCCESSFUL, upd_uc c (\<lambda>u. u\<lparr>attached := True, attached_thread := Some t\<rparr>) s)]) s =
       sc_seq [\<lambda>s. Some (RTEMS_SUCCESSFUL, upd_uc c (\<lambda>u. u\<lparr>attached := True, attached_thread := Some t\<rparr>) s)] s4"
    and U: "ns_returns (leave_ns utsContainer rtems_uts_container_move_task RTEMS_UNIFIED_CONTAINER_UTS RTEMSCFG_UTS_CONTAINER c t)
      (uts_put ou t (utsContainer tc) (utss s)) utss utsContainer ou hu c t u root s"
    and M: "ns_returns (leave_ns mntContainer rtems_mnt_container_move_task RTEMS_UNIFIED_CONTAINER_MNT RTEMSCFG_MNT_CONTAINER c t)
      (mnt_put om t (mntContainer tc) (mnts s)) mnts mntContainer om hm c t u root s"
    and N: "ns_returns (leave_ns netContainer (rtems_net_container_move_task B) RTEMS_UNIFIED_CONTAINER_NET RTEMSCFG_NET_CONTAINER c t)
      (net_put oe t (netContainer tc) (nets s)) nets netContainer oe he c t u root s"
    and I: "ns_returns (leave_ns ipcContainer rtems_ipc_container_move_task RTEMS_UNIFIED_CONTAINER_IPC RTEMSCFG_IPC_CONTAINER c t)
      (ipc_put oi t (ipcContainer tc) (ipcs s)) ipcs ipcContainer oi hi c t u root s"
    using enter_counted [OF assms(1,5,6,4) _ _ _ _ on, of B] assms(7-10) unfolding on by blast
  let ?u = "u\<lparr>attached := True, attached_thread := Some t\<rparr>"
  define s5 where "s5 = upd_uc c (\<lambda>u. u\<lparr>attached := True, attached_thread := Some t\<rparr>) s4"
  define r1 where "r1 = uts_put ou t (utsContainer tc) (utss s) s5"
  define r2 where "r2 = mnt_put om t (mntContainer tc) (mnts s) r1"
  define r3 where "r3 = net_put oe t (netContainer tc) (nets s) r2"
  define r4 where "r4 = ipc_put oi t (ipcContainer tc) (ipcs s) r3"
  note st = r4_def r3_def r2_def r1_def s5_def s4
  have live5: "ucs s5 c = Some ?u" "rootContainer s5 = Some root" "cfg s5 = cfg s" using assms(1,6) by (simp_all add: s5_def s4)
  have live: "ucs r c = Some ?u" "rootContainer r = Some root" "cfg r = cfg s" if "r = s5 \<or> r = r1 \<or> r = r2 \<or> r = r3 \<or> r = r4" for r
    using that live5 unfolding r4_def r3_def r2_def r1_def by (elim disjE; simp)+
  obtain th where th: "threads s t = Some th" "container th = Some tc"
    using assms(5) by (auto simp: thread_container_def bind_eq_Some_conv)
  have enter: "rtems_unified_container_enter B (Some c) (Some t) s = Some (RTEMS_SUCCESSFUL, s5)"
    using assms(1,2) th run
    by (simp add: rtems_unified_container_enter_def rtems_unified_container_ensure_thread_container_def s5_def)
  have tcn: "thread_container t s \<noteq> None" using assms(5) by simp
  have l1: "leave_ns utsContainer rtems_uts_container_move_task RTEMS_UNIFIED_CONTAINER_UTS RTEMSCFG_UTS_CONTAINER c t s5 = Some r1"
    unfolding r1_def by (rule ns_returnsD [OF U live(1) _ _ live(3,2)]) (simp_all add: st tcn)
  have l2: "leave_ns mntContainer rtems_mnt_container_move_task RTEMS_UNIFIED_CONTAINER_MNT RTEMSCFG_MNT_CONTAINER c t r1 = Some r2"
    unfolding r2_def by (rule ns_returnsD [OF M live(1) _ _ live(3,2)]) (simp_all add: st tcn)
  have l3: "leave_ns netContainer (rtems_net_container_move_task B) RTEMS_UNIFIED_CONTAINER_NET RTEMSCFG_NET_CONTAINER c t r2 = Some r3"
    unfolding r3_def by (rule ns_returnsD [OF N live(1) _ _ live(3,2)]) (simp_all add: st tcn)
  have l4: "leave_ns ipcContainer rtems_ipc_container_move_task RTEMS_UNIFIED_CONTAINER_IPC RTEMSCFG_IPC_CONTAINER c t r3 = Some r4"
    unfolding r4_def by (rule ns_returnsD [OF I live(1) _ _ live(3,2)]) (simp_all add: st tcn)
  have off: "\<not> uses RTEMS_UNIFIED_CONTAINER_PID RTEMSCFG_PID_CONTAINER ?u r" "\<not> uses CPU_MEM RTEMS_CGROUP ?u r"
    "\<not> uses RTEMS_UNIFIED_CONTAINER_IO RTEMSCFG_IO_CGROUP ?u r" for r :: "'a unified_kernel_scheme"
    using counted_only [OF assms(4)] by (simp_all add: uses_def)
  have "thread_container t s5 \<noteq> None" "thread_container t r4 \<noteq> None" using tcn by (simp_all add: st)
  then have th5: "\<exists>th. threads s5 t = Some th \<and> container th \<noteq> None" "threads r4 t \<noteq> None"
    using thread_container_live by blast+
  have home: "upd_uc c (\<lambda>u. u\<lparr>attached := False, attached_thread := None\<rparr>) r4 = s"
    using assms(1-3,5)
    by (simp add: st put_upd_uc upd_uc_upd_uc put_commute put_put put_same [of t s tc] upd_uc_same)
  have "leave_pid c t s5 = Some s5" using live(1,2) [of s5] off(1)
    by (simp add: leave_pid_def leave_ns_def rtems_container_get_root_def)
  moreover have "leave_cgroup c t r4 = Some (RTEMS_SUCCESSFUL, r4)" "leave_io c t r4 = Some (RTEMS_SUCCESSFUL, r4)"
    using live(1) [of r4] th5(2) off(2,3) by (auto simp: leave_cgroup_def leave_io_def)
  ultimately have "rtems_unified_container_leave B (Some c) (Some t) s5 = Some (RTEMS_SUCCESSFUL, s)"
    using th5(1) live(1,2) [of s5] live(1) [of r4] l1 l2 l3 l4 home
    by (auto simp: rtems_unified_container_leave_def rtems_container_get_root_def first_error_def)
  moreover have "thread_ns utsContainer s5 t = utsContainer ?n" if ou using that tcn by (simp add: s5_def s4)
  moreover have "thread_ns mntContainer s5 t = mntContainer ?n" if om using that tcn by (simp add: s5_def s4)
  moreover have "thread_ns netContainer s5 t = netContainer ?n" if oe using that tcn by (simp add: s5_def s4)
  moreover have "thread_ns ipcContainer s5 t = ipcContainer ?n" if oi using that tcn by (simp add: s5_def s4)
  ultimately show ?thesis using enter live(1) [of s5] unfolding on by auto
qed

end
