(* ===== verification/UnifiedLifecycle.thy ===== *)
theory UnifiedLifecycle
  imports UnifiedContainer
begin

text \<open>
  Behaviour of the unified layer that spans components: what becomes of a pause when the quota period
  of the control group ends, and of an entry whose PID namespace is full. The theory also holds the
  concrete kernel on which the properties of the unified layer are exercised.
\<close>

section \<open>A pause and the quota period\<close>

lemma suspend_for_quota:
  assumes "wd_inv s" "cg_wf s p" "cgs s p = Some cg" "cg_state cg AND STATES_BLOCKED = 0"
  obtains s1 where "CORE_cgroup_Suspend (Some p) STATES_WAITING_FOR_CGROUP_CPU_QUOTA s = Some (RTEMS_SUCCESSFUL, s1)"
    "wd_inv s1" "cg_wf s1 p" "quota_only s1 p" "wd_header s1 = wd_header s" "wd_ticks s1 = wd_ticks s"
    "\<forall>n \<in> set (cg_threads cg). member_state s1 n AND STATES_WAITING_FOR_CGROUP_CPU_QUOTA \<noteq> 0"
proof -
  let ?Q = STATES_WAITING_FOR_CGROUP_CPU_QUOTA
  obtain cg' where "cgs s p = Some cg'" "\<forall>n \<in> set (cg_threads cg'). threads s (node_thread n) \<noteq> None"
    using assms(2) by (rule cg_wf_obtain)
  then have live: "\<forall>n \<in> set (cg_threads cg). threads s (node_thread n) \<noteq> None" using assms(3) by simp
  have idle: "cg_state cg AND ?Q = 0" using not_blocked [OF assms(4)] by simp
  define s1 where "s1 = map_states (\<lambda>x. x OR ?Q) (cg_threads cg) (upd_cg p (cg_state_update (\<lambda>x. x OR ?Q)) s)"
  have sus: "CORE_cgroup_Suspend (Some p) ?Q s = Some (RTEMS_SUCCESSFUL, s1)"
    unfolding s1_def by (rule Suspend_effect [OF assms(3) idle live])
  have frame: "cg_frame s s1" unfolding s1_def by (rule cg_frame_map_states) simp
  have hd: "wd_header s1 = wd_header s" "wd_ticks s1 = wd_ticks s" by (simp_all add: s1_def)
  have inv: "wd_inv s1" using assms(1) hd cg_frame_wf [OF frame] by (auto simp: wd_inv_def)
  have "(cg_state cg OR ?Q) AND NOT ?Q AND STATES_BLOCKED = NOT ?Q AND cg_state cg AND STATES_BLOCKED"
    by (rule bit_word_eqI) (auto simp: bit_simps)
  then have only: "quota_only s1 p" using assms(3,4) by (simp add: quota_only_def s1_def or_and_self cg_states)
  have "member_state s1 n AND ?Q \<noteq> 0" if "n \<in> set (cg_threads cg)" for n
    using that live by (auto simp: s1_def member_state_def map_states_def or_and_self cg_states)
  then show thesis using that [OF sus inv cg_frame_wf [OF frame assms(2)] only hd] by blast
qed

text \<open>(C28) A pause does not last. \<open>rtems_unified_container_pause\<close> suspends the container's control group
  with the same state bit that marks an exhausted quota, so when the quota period ends the group's resume
  watchdog wakes it: the pause succeeds and every task of the group is suspended, but after the ticks
  that remain of the period all of them are ready again although the container was never resumed.\<close>

theorem unified_pause_expires:
  assumes "RTEMS_CGROUP (cfg s)" "ucs s c = Some u" "uc_flags u AND CPU_MEM \<noteq> 0" "core_cgroup u = Some p"
    "wd_inv s" "cg_wf s p" "cgs s p = Some cg" "cg_state cg AND STATES_BLOCKED = 0"
    "\<not> Watchdog_Is_scheduled (CPU_SUSPEND p) s" "(e, CPU_RESUME p) \<in> set (wd_header s)"
    "unat e = unat (wd_ticks s) + n" "0 < n" "unat (wd_ticks s) + n + 2 ^ 32 \<le> 2 ^ 64"
  shows "\<exists>s1 s2. rtems_unified_container_pause (Some c) s = Some (RTEMS_SUCCESSFUL, s1) \<and>
     (\<forall>x \<in> set (cg_threads cg). member_state s1 x AND STATES_WAITING_FOR_CGROUP_CPU_QUOTA \<noteq> 0) \<and>
     Watchdog_Ticks n s1 = Some s2 \<and> refilled s2 p"
proof -
  obtain s1 where s1: "CORE_cgroup_Suspend (Some p) STATES_WAITING_FOR_CGROUP_CPU_QUOTA s = Some (RTEMS_SUCCESSFUL, s1)"
    "wd_inv s1" "cg_wf s1 p" "quota_only s1 p" "wd_header s1 = wd_header s" "wd_ticks s1 = wd_ticks s"
    "\<forall>x \<in> set (cg_threads cg). member_state s1 x AND STATES_WAITING_FOR_CGROUP_CPU_QUOTA \<noteq> 0"
    using suspend_for_quota [OF assms(5-8)] by blast
  have "\<exists>s2. Watchdog_Ticks n s1 = Some s2 \<and> refilled s2 p"
    using s1 assms(9-13) by (intro period_refills [of s1 p e n]) (simp_all add: Watchdog_Is_scheduled_def)
  moreover have "rtems_unified_container_pause (Some c) s = Some (RTEMS_SUCCESSFUL, s1)"
    using assms(1-4) s1(1) by (simp add: rtems_unified_container_pause_def)
  ultimately show ?thesis using s1(7) by blast
qed

section \<open>Entering a full PID container\<close>

text \<open>A failed PID move goes unnoticed. When the container's PID namespace can take no further task, the
  move is refused and leaves both PID containers as they are, but entering still reports success and
  stores the new PID container into the thread: the thread then points to a namespace that does not
  list it, while the old one still does.\<close>

theorem unified_enter_full_pid:
  assumes "pid_inv s" "RTEMSCFG_PID_CONTAINER (cfg s)" "ucs s c = Some u" "\<not> attached u" "uc_flags u = RTEMS_UNIFIED_CONTAINER_PID"
    "thread_container t s = Some tc" "pidContainer tc = Some a" "pidContainer (namespaces u) = Some b" "a \<noteq> b"
    "pids s a = Some pa" "pids s b = Some pb" "\<not> pid_has_room pb (mem s)"
  shows "\<exists>s1. rtems_unified_container_enter B (Some c) (Some t) s = Some (RTEMS_SUCCESSFUL, s1) \<and>
     pids s1 = pids s \<and> thread_ns pidContainer s1 t = Some b"
proof -
  obtain th where th: "threads s t = Some th" "container th = Some tc"
    using assms(6) by (auto simp: thread_container_def bind_eq_Some_conv)
  obtain m where m: "rtems_pid_container_move_task (Some a) (Some b) (Some t) s = Some (s\<lparr>mem := m\<rparr>)"
    using pid_move_refused [OF assms(1,10,11) th(1) assms(12)] by blast
  define s1 where "s1 = set_pid t (Some b) (s\<lparr>mem := m\<rparr>)"
  have s1: "thread_container t s1 = Some (tc\<lparr>pidContainer := Some b\<rparr>)" "ucs s1 = ucs s" "cfg s1 = cfg s" "pids s1 = pids s"
    using th by (auto simp: s1_def set_pid_def upd_thread_def upd_container_def thread_container_def)
  have "enter_pid c t s = Some (RTEMS_SUCCESSFUL, s1)"
    using assms(3,6-9) m s1(1) by (simp add: enter_pid_def s1_def Let_def)
  moreover have "RTEMS_UNIFIED_CONTAINER_PID AND x = 0" if "x \<in> {RTEMS_UNIFIED_CONTAINER_UTS, RTEMS_UNIFIED_CONTAINER_MNT,
      RTEMS_UNIFIED_CONTAINER_NET, RTEMS_UNIFIED_CONTAINER_IPC, CPU_MEM, RTEMS_UNIFIED_CONTAINER_IO}" for x
    using that by (auto simp: unified_flags CPU_MEM_def)
  ultimately have "sc_seq (enter_steps B c t @ fs) s = sc_seq fs s1" for fs
    using assms(2,3,5) s1(2) by (simp add: enter_steps_def section_if_def uses_def unified_flags(1))
  then show ?thesis using assms(3,4) th s1
    by (simp add: rtems_unified_container_enter_def rtems_unified_container_ensure_thread_container_def
        thread_ns_container) (simp add: upd_uc_def)
qed

section \<open>Witnesses\<close>

text \<open>The root containers have address 0 in every namespace, container 1 is a second one in each. Thread 3
  executes in the root containers. Unified container 50 owns the second UTS, mount, network and IPC
  containers, container 51 the second PID container, and container 52 the control group of two tasks.\<close>

definition demo_second :: Container where
  "demo_second = Container_zero\<lparr>c_rc := 1, pidContainer := Some 1, utsContainer := Some 1, mntContainer := Some 1,
     netContainer := Some 1, ipcContainer := Some 1\<rparr>"

definition demo_first :: Container where
  "demo_first = Container_zero\<lparr>c_rc := 1, pidContainer := Some 0, utsContainer := Some 0, mntContainer := Some 0,
     netContainer := Some 0, ipcContainer := Some 0\<rparr>"

definition demo_uc_thread :: "u32 \<Rightarrow> Thread_Control" where
  "demo_uc_thread oid = (demo_cg_thread oid)\<lparr>container := Some demo_first\<rparr>"

definition demo_uc50 :: RtemsContainer where
  "demo_uc50 = RtemsContainer_zero\<lparr>uc_flags := COUNTED, namespaces := demo_second\<rparr>"

definition demo_uc51 :: RtemsContainer where
  "demo_uc51 = RtemsContainer_zero\<lparr>uc_flags := RTEMS_UNIFIED_CONTAINER_PID, namespaces := demo_second\<rparr>"

definition demo_uc52 :: RtemsContainer where
  "demo_uc52 = RtemsContainer_zero\<lparr>uc_flags := RTEMS_UNIFIED_CONTAINER_CPU, core_cgroup := Some (30, 0)\<rparr>"

definition demo_uc :: unified_kernel where
  "demo_uc = net_kernel.extend
     (demo_net\<lparr>cfg := demo_cfg, mem := \<lparr>brk = 10, oom = (\<lambda>_. True), live = 4\<rparr>, rootContainer := Some demo_first,
        threads := [3 \<mapsto> demo_uc_thread 7, 4 \<mapsto> demo_uc_thread 8], pids := [0 \<mapsto> demo_pc 1 7 3, 1 \<mapsto> demo_pc 2 8 4],
        utss := [0 \<mapsto> \<lparr>uts_rc = 3, uts_ID = 1, uts_name = uts_buffer ''root''\<rparr>, 1 \<mapsto> \<lparr>uts_rc = 1, uts_ID = 2, uts_name = uts_buffer ''web''\<rparr>],
        mnts := [0 \<mapsto> \<lparr>mnt_rc = 3, mnt_ID = 1, mountList = []\<rparr>, 1 \<mapsto> \<lparr>mnt_rc = 1, mnt_ID = 2, mountList = []\<rparr>],
        ipcs := [0 \<mapsto> IpcContainer_new 3 1, 1 \<mapsto> IpcContainer_new 1 2],
        cgs := [(30, 0) \<mapsto> demo_cgroup], cgcfgs := [60 \<mapsto> demo_config], wd_ticks := 7, wd_header := [(10, CPU_RESUME (30, 0))]\<rparr>)
     (unified_kernel.fields [50 \<mapsto> demo_uc50, 51 \<mapsto> demo_uc51, 52 \<mapsto> demo_uc52])"

lemma demo_uc_sel [simp]:
  "ucs demo_uc = [50 \<mapsto> demo_uc50, 51 \<mapsto> demo_uc51, 52 \<mapsto> demo_uc52]" "cfg demo_uc = demo_cfg"
  "mem demo_uc = \<lparr>brk = 10, oom = (\<lambda>_. True), live = 4\<rparr>" "rootContainer demo_uc = Some demo_first"
  "threads demo_uc = [3 \<mapsto> demo_uc_thread 7, 4 \<mapsto> demo_uc_thread 8]" "pids demo_uc = [0 \<mapsto> demo_pc 1 7 3, 1 \<mapsto> demo_pc 2 8 4]"
  "utss demo_uc = [0 \<mapsto> \<lparr>uts_rc = 3, uts_ID = 1, uts_name = uts_buffer ''root''\<rparr>, 1 \<mapsto> \<lparr>uts_rc = 1, uts_ID = 2, uts_name = uts_buffer ''web''\<rparr>]"
  "mnts demo_uc = [0 \<mapsto> \<lparr>mnt_rc = 3, mnt_ID = 1, mountList = []\<rparr>, 1 \<mapsto> \<lparr>mnt_rc = 1, mnt_ID = 2, mountList = []\<rparr>]"
  "ipcs demo_uc = [0 \<mapsto> IpcContainer_new 3 1, 1 \<mapsto> IpcContainer_new 1 2]" "nets demo_uc = nets demo_net"
  "cgs demo_uc = [(30, 0) \<mapsto> demo_cgroup]" "cgcfgs demo_uc = [60 \<mapsto> demo_config]" "wd_ticks demo_uc = 7"
  "wd_header demo_uc = [(10, CPU_RESUME (30, 0))]"
  by (simp_all add: demo_uc_def net_kernel.defs unified_kernel.defs)

lemma demo_uc50_sel [simp]:
  "\<not> attached demo_uc50" "attached_thread demo_uc50 = None" "uc_flags demo_uc50 = COUNTED" "namespaces demo_uc50 = demo_second"
  "\<not> attached demo_uc51" "uc_flags demo_uc51 = RTEMS_UNIFIED_CONTAINER_PID" "namespaces demo_uc51 = demo_second"
  "uc_flags demo_uc52 = RTEMS_UNIFIED_CONTAINER_CPU" "core_cgroup demo_uc52 = Some (30, 0)"
  by (simp_all add: demo_uc50_def demo_uc51_def demo_uc52_def RtemsContainer_zero_def)

lemma demo_uc_container: "thread_container 3 demo_uc = Some demo_first"
  by (simp add: thread_container_def demo_uc_thread_def)

lemma demo_uc_ready:
  "ns_ready utsContainer uts_rc (utss demo_uc) demo_first demo_second demo_first"
  "ns_ready mntContainer mnt_rc (mnts demo_uc) demo_first demo_second demo_first"
  "ns_ready netContainer net_rc (nets demo_uc) demo_first demo_second demo_first"
  "ns_ready ipcContainer ipc_rc (ipcs demo_uc) demo_first demo_second demo_first"
  by (simp_all add: ns_ready_def demo_first_def demo_second_def IpcContainer_new_def)

theorem unified_enter_leave_witness:
  "\<exists>s1. rtems_unified_container_enter demo_bsd (Some 50) (Some 3) demo_uc = Some (RTEMS_SUCCESSFUL, s1) \<and>
     rtems_unified_container_leave demo_bsd (Some 50) (Some 3) s1 = Some (RTEMS_SUCCESSFUL, demo_uc)"
  using unified_enter_leave [of demo_uc 50 demo_uc50 3 demo_first demo_first demo_bsd] demo_uc_container demo_uc_ready
  by auto

theorem unified_check_flags_witness:
  "rtems_unified_container_create (\<lambda>_. None) demo_bsd (Some (rtems_unified_container_config_initialize demo_cfg)) False
     (demo_uc\<lparr>cfg := demo_cfg\<lparr>RTEMSCFG_IO_CGROUP := False\<rparr>\<rparr>) =
   Some (RTEMS_NOT_CONFIGURED, None, demo_uc\<lparr>cfg := demo_cfg\<lparr>RTEMSCFG_IO_CGROUP := False\<rparr>\<rparr>)"
  using unified_check_flags [of "demo_cfg\<lparr>RTEMSCFG_IO_CGROUP := False\<rparr>" 0 "demo_uc\<lparr>cfg := demo_cfg\<lparr>RTEMSCFG_IO_CGROUP := False\<rparr>\<rparr>"
      "rtems_unified_container_config_initialize demo_cfg" "\<lambda>_. None" demo_bsd]
  by (simp add: rtems_unified_container_config_initialize_def RTEMS_UNIFIED_CONTAINER_ALL_def unconfigured_def demo_cfg_def unified_flags)

theorem unified_pause_expires_witness:
  "\<exists>s1 s2. rtems_unified_container_pause (Some 52) demo_uc = Some (RTEMS_SUCCESSFUL, s1) \<and>
     member_state s1 (demo_node 3) AND STATES_WAITING_FOR_CGROUP_CPU_QUOTA \<noteq> 0 \<and>
     Watchdog_Ticks 3 s1 = Some s2 \<and> refilled s2 (30, 0)"
proof -
  have wf: "cg_wf demo_uc (30, 0)" by (simp add: cg_wf_def demo_config_def demo_uc_thread_def)
  then have "wd_inv demo_uc" by (simp add: wd_inv_def)
  then show ?thesis
    using unified_pause_expires [of demo_uc 52 demo_uc52 "(30, 0)" demo_cgroup 10 3] wf
    by (auto simp: demo_cfg_def CPU_MEM_def unified_flags STATES_READY_def Watchdog_Is_scheduled_def)
qed

theorem unified_enter_full_pid_witness:
  "\<exists>s1. rtems_unified_container_enter demo_bsd (Some 51) (Some 3) demo_uc = Some (RTEMS_SUCCESSFUL, s1) \<and>
     thread_ns pidContainer s1 3 = Some 1 \<and> 3 \<notin> set (threadList (the (pids s1 1)))"
proof -
  have "pid_inv demo_uc"
    by (auto simp: pid_inv_def heap_ok_def demo_pc_wf demo_uc_thread_def pid_root_def pid_registry_def demo_first_def
        Container_zero_def split: if_splits)
  then show ?thesis
    using unified_enter_full_pid [of demo_uc 51 demo_uc51 3 demo_first 0 1 "demo_pc 1 7 3" "demo_pc 2 8 4" demo_bsd]
    by (auto simp: demo_uc_container demo_cfg_def demo_first_def demo_second_def pid_has_room_def)
qed

end
