(* ===== verification/Text.thy ===== *)
theory Text
  imports Prelude
begin

text \<open>
  Numbers as text: the decimal and hexadecimal conversions of \<open>printf\<close>, \<open>snprintf\<close> into the rest of
  a buffer, and the integer conversions of \<open>sscanf\<close>. Scanning a printed number gives it back.
\<close>

section \<open>Printing\<close>

text \<open>Digits of a number in a base, and the zero padding of \<open>%0kd\<close> and \<open>%08x\<close>.\<close>

definition digit :: "nat \<Rightarrow> char" where
  "digit d = char_of (if d < 10 then 48 + d else 87 + d)"

fun digits :: "nat \<Rightarrow> nat \<Rightarrow> nat \<Rightarrow> string" where
  "digits b 0 n = []"
| "digits b (Suc k) n =
     (if n < b \<or> b < 2 then [digit n] else digits b k (n div b) @ [digit (n mod b)])"

definition pad0 :: "nat \<Rightarrow> string \<Rightarrow> string" where
  "pad0 k ds = replicate (k - length ds) (CHR ''0'') @ ds"

definition fmt_d :: "nat \<Rightarrow> int \<Rightarrow> string" where
  "fmt_d k i =
     (if i < 0 then CHR ''-'' # pad0 (k - 1) (digits 10 20 (nat (- i)))
      else pad0 k (digits 10 20 (nat i)))"

definition fmt_x :: "u32 \<Rightarrow> string" where
  "fmt_x w = pad0 8 (digits 16 20 (unat w))"

text \<open>
  \<open>snprintf\<close> into the rest of a buffer: it writes at most the space left minus one
  characters and returns the full length of the piece. The size \<open>buffer_size - len\<close> is unsigned; when \<open>len\<close> has passed the size it wraps and the write
  overruns the buffer (\<open>None\<close>).
\<close>

fun snprintf_at :: "nat \<Rightarrow> string \<times> nat \<Rightarrow> string \<Rightarrow> (string \<times> nat) option" where
  "snprintf_at bs (buf, len) piece =
     (if len > bs then None
      else Some (if len < bs then take len buf @ take (bs - len - 1) piece else buf,
                 len + length piece))"

fun snprintf_all :: "nat \<Rightarrow> string \<times> nat \<Rightarrow> string list \<Rightarrow> string option" where
  "snprintf_all bs (buf, len) [] = Some buf"
| "snprintf_all bs (buf, len) (p # ps) = do {
     r \<leftarrow> snprintf_at bs (buf, len) p; snprintf_all bs r ps }"

lemma length_digits: "length (digits b k n) \<le> k"
  by (induction b k n rule: digits.induct) auto

lemma length_pad0: "length (pad0 k ds) = max k (length ds)"
  by (simp add: pad0_def)

lemma length_fmt_d: "k \<le> 20 \<Longrightarrow> length (fmt_d k i) \<le> 21"
  using length_digits [of 10 20 "nat (- i)"] length_digits [of 10 20 "nat i"]
  by (auto simp: fmt_d_def length_pad0)

lemma length_fmt_x: "length (fmt_x w) \<le> 20"
  using length_digits [of 16 20 "unat w"] by (auto simp: fmt_x_def length_pad0)

lemma snprintf_all_fits:
  assumes "length buf + length (concat ps) < n"
  shows "snprintf_all n (buf, length buf) ps = Some (buf @ concat ps)"
  using assms
proof (induction ps arbitrary: buf)
  case (Cons p ps)
  have "snprintf_all n (buf @ p, length (buf @ p)) ps = Some ((buf @ p) @ concat ps)"
    using Cons.prems by (intro Cons.IH) simp
  with Cons.prems show ?case by simp
qed simp

section \<open>Scanning\<close>

text \<open>\<open>isspace\<close>, and the text of an integer: blanks, a sign, digits.\<close>

definition is_space :: "char \<Rightarrow> bool" where
  "is_space ch \<longleftrightarrow> ch = CHR '' '' \<or> (9 \<le> (of_char ch :: nat) \<and> (of_char ch :: nat) \<le> 13)"

definition is_digit :: "char \<Rightarrow> bool" where
  "is_digit ch \<longleftrightarrow> 48 \<le> (of_char ch :: nat) \<and> (of_char ch :: nat) \<le> 57"

definition dec_value :: "string \<Rightarrow> nat" where
  "dec_value ds = foldl (\<lambda>n ch. 10 * n + (of_char ch - 48)) 0 ds"

definition scan_digits :: "bool \<Rightarrow> string \<Rightarrow> (int \<times> string) option" where
  "scan_digits neg str =
     (case takeWhile is_digit str of
        [] \<Rightarrow> None
      | ds \<Rightarrow> Some (if neg then - int (dec_value ds) else int (dec_value ds), dropWhile is_digit str))"

definition scan_int :: "string \<Rightarrow> (int \<times> string) option" where
  "scan_int str =
     (case dropWhile is_space str of
        [] \<Rightarrow> None
      | ch # cs \<Rightarrow>
          if ch = CHR ''-'' then scan_digits True cs
          else if ch = CHR ''+'' then scan_digits False cs
          else scan_digits False (ch # cs))"

text \<open>\<open>sscanf(str, "%d", &v)\<close>: the converted value when there is one. A number that does not fit an
  \<open>int\<close> is undefined.\<close>

definition sscanf_d :: "string \<Rightarrow> int option option" where
  "sscanf_d str =
     (case scan_int str of
        None \<Rightarrow> Some None
      | Some (v, _) \<Rightarrow> if - (2 ^ 31) \<le> v \<and> v < 2 ^ 31 then Some (Some v) else None)"

text \<open>Unsigned conversions of the given widths, in order, until one fails: the values that were stored.
  A negative number wraps, a number that is too big is undefined.\<close>

fun sscanf_u :: "nat list \<Rightarrow> string \<Rightarrow> nat list option" where
  "sscanf_u [] str = Some []"
| "sscanf_u (w # ws) str =
     (case scan_int str of
        None \<Rightarrow> Some []
      | Some (v, rest) \<Rightarrow>
          if - (2 ^ w) < v \<and> v < 2 ^ w
          then do { vs \<leftarrow> sscanf_u ws rest; Some (nat (v mod 2 ^ w) # vs) }
          else None)"

lemma is_digit_digit: "d < 10 \<Longrightarrow> is_digit (digit d)"
  by (simp add: is_digit_def digit_def)

lemma digits_is_digit: "b \<le> 10 \<Longrightarrow> 2 \<le> b \<Longrightarrow> ch \<in> set (digits b k n) \<Longrightarrow> is_digit ch"
proof (induction b k n rule: digits.induct)
  case (2 b k n)
  show ?case
  proof (cases "n < b")
    case True
    with 2 show ?thesis by (auto intro: is_digit_digit)
  next
    case False
    have "n mod b < b" using 2 by simp
    then have "n mod b < 10" using 2 by linarith
    then have "is_digit (digit (n mod b))" by (rule is_digit_digit)
    with False 2 show ?thesis by auto
  qed
qed simp

lemma dec_value_digits: "n < 10 ^ k \<Longrightarrow> dec_value (digits 10 k n) = n"
proof (induction k arbitrary: n)
  case 0
  then show ?case by (simp add: dec_value_def)
next
  case (Suc k)
  show ?case
  proof (cases "n < 10")
    case True
    then show ?thesis by (simp add: dec_value_def digit_def)
  next
    case False
    have "dec_value (digits 10 k (n div 10)) = n div 10" using Suc by (intro Suc.IH) simp
    with False show ?thesis by (simp add: dec_value_def digit_def)
  qed
qed

lemma digits_not_Nil: "k \<noteq> 0 \<Longrightarrow> digits b k n \<noteq> []"
  by (cases k) auto

text \<open>What was printed is scanned back, up to the first character that is no digit.\<close>

lemma scan_digits_print:
  assumes "n < 10 ^ 20" "rest = [] \<or> \<not> is_digit (hd rest)"
  shows "scan_digits neg (digits 10 20 n @ rest) = Some (if neg then - int n else int n, rest)"
proof -
  have d: "\<And>ch. ch \<in> set (digits 10 20 n) \<Longrightarrow> is_digit ch" using digits_is_digit [of 10] by auto
  have "takeWhile is_digit (digits 10 20 n @ rest) = digits 10 20 n"
    "dropWhile is_digit (digits 10 20 n @ rest) = rest"
    using assms(2) d by (cases rest; simp add: takeWhile_append dropWhile_append)+
  moreover obtain ch cs where "digits 10 20 n = ch # cs" using digits_not_Nil [of 20 10 n] by (cases "digits 10 20 n") auto
  moreover have "dec_value (digits 10 20 n) = n" using assms(1) by (rule dec_value_digits)
  ultimately show ?thesis by (simp add: scan_digits_def del: digits.simps)
qed

lemma scan_int_print:
  assumes "\<forall>ch \<in> set blanks. is_space ch" "n < 10 ^ 20" "rest = [] \<or> \<not> is_digit (hd rest)"
  shows "scan_int (blanks @ digits 10 20 n @ rest) = Some (int n, rest)"
proof -
  obtain ch cs where d: "digits 10 20 n = ch # cs" using digits_not_Nil [of 20 10 n] by (cases "digits 10 20 n") auto
  with digits_is_digit [of 10 ch 20 n] have "is_digit ch" by simp
  then have "\<not> is_space ch" "ch \<noteq> CHR ''-''" "ch \<noteq> CHR ''+''" by (auto simp: is_digit_def is_space_def)
  with assms(1) d have "dropWhile is_space (blanks @ digits 10 20 n @ rest) = digits 10 20 n @ rest"
    by (simp add: dropWhile_append del: digits.simps)
  with d \<open>ch \<noteq> CHR ''-''\<close> \<open>ch \<noteq> CHR ''+''\<close> scan_digits_print [OF assms(2,3), of False]
  show ?thesis by (simp add: scan_int_def del: digits.simps)
qed

lemma sscanf_d_print:
  assumes "n < 2 ^ 31" "rest = [] \<or> \<not> is_digit (hd rest)"
  shows "sscanf_d (CHR '' '' # digits 10 20 n @ rest) = Some (Some (int n))"
proof -
  have "n < 10 ^ 20" using assms(1) by simp
  with scan_int_print [of "'' ''" n rest] assms show ?thesis
    by (simp add: sscanf_d_def is_space_def del: digits.simps)
qed

end
