(* ===== verification/ContainerLog.thy ===== *)
theory ContainerLog
  imports Text
begin

text \<open>
  The container log, \<open>score/src/containerlog.c\<close>: configuration, the formatter, the three
  targets (console, file, memory ring) and the calls of the interface.

  What the file takes from elsewhere is an argument: the results of the semaphore directives and of
  \<open>fopen\<close>, the clock, the calling task and the text that \<open>vsnprintf\<close> produces from the
  format arguments are fields of an environment record that each call receives. The console and the
  log file are the lists of lines written to them. \<open>log_sems\<close> and \<open>log_files\<close> count
  semaphores and streams that are open.
\<close>

section \<open>Levels\<close>

datatype container_log_level = CONTAINER_LOG_ERROR | CONTAINER_LOG_WARN | CONTAINER_LOG_INFO
  | CONTAINER_LOG_DEBUG | CONTAINER_LOG_TRACE

text \<open>The enumeration is ordered by its values.\<close>

fun level_val :: "container_log_level \<Rightarrow> nat" where
  "level_val CONTAINER_LOG_ERROR = 0" | "level_val CONTAINER_LOG_WARN = 1"
| "level_val CONTAINER_LOG_INFO = 2" | "level_val CONTAINER_LOG_DEBUG = 3"
| "level_val CONTAINER_LOG_TRACE = 4"

lemma level_val_inject: "level_val a = level_val b \<longleftrightarrow> a = b"
  by (cases a; cases b) simp_all

instantiation container_log_level :: linorder
begin

definition less_eq_container_log_level :: "container_log_level \<Rightarrow> container_log_level \<Rightarrow> bool" where
  "a \<le> b \<longleftrightarrow> level_val a \<le> level_val b"

definition less_container_log_level :: "container_log_level \<Rightarrow> container_log_level \<Rightarrow> bool" where
  "a < b \<longleftrightarrow> level_val a < level_val b"

instance
  by standard (auto simp: less_eq_container_log_level_def less_container_log_level_def level_val_inject)

end

section \<open>State\<close>

record container_log_config =
  min_level :: container_log_level
  targets :: u32
  log_file_path :: string
  max_file_size :: nat
  max_memory_entries :: u32
  enable_timestamp :: bool
  enable_thread_id :: bool
  enable_function_name :: bool

record container_log_entry =
  level :: container_log_level
  timestamp_sec :: u32
  timestamp_usec :: u32
  thread_id :: u32
  function_name :: string
  message :: string

record container_log_buffer =
  entries :: "container_log_entry list option"
  max_entries :: u32
  current_count :: u32
  write_index :: u32
  mutex_id :: u32

record container_log_state =
  log_build :: bool
  config :: container_log_config
  buffer :: container_log_buffer
  log_file :: bool
  initialized :: bool
  file_mutex_id :: u32
  log_mem :: Memory
  log_sems :: int
  log_files :: int
  console_out :: "string list"
  file_out :: "string list"

record tm =
  tm_year :: int
  tm_mon :: int
  tm_mday :: int
  tm_hour :: int
  tm_min :: int
  tm_sec :: int

record log_env =
  env_sem_mem :: "rtems_status_code \<times> u32"
  env_sem_file :: "rtems_status_code \<times> u32"
  env_fopen :: bool
  env_obtain_mem :: bool
  env_obtain_file :: bool
  env_sec :: u32
  env_usec :: u32
  env_self :: u32
  env_localtime :: "u32 \<Rightarrow> tm"

definition CONTAINER_LOG_TARGET_CONSOLE :: u32 where "CONTAINER_LOG_TARGET_CONSOLE = 1"
definition CONTAINER_LOG_TARGET_FILE :: u32 where "CONTAINER_LOG_TARGET_FILE = 2"
definition CONTAINER_LOG_TARGET_MEMORY :: u32 where "CONTAINER_LOG_TARGET_MEMORY = 4"

definition has_target :: "u32 \<Rightarrow> container_log_config \<Rightarrow> bool" where
  "has_target t c \<longleftrightarrow> targets c AND t \<noteq> 0"

definition entry_zero :: container_log_entry where
  "entry_zero = \<lparr>level = CONTAINER_LOG_ERROR, timestamp_sec = 0, timestamp_usec = 0, thread_id = 0,
     function_name = [], message = []\<rparr>"

definition config_zero :: container_log_config where
  "config_zero = \<lparr>min_level = CONTAINER_LOG_ERROR, targets = 0, log_file_path = [], max_file_size = 0,
     max_memory_entries = 0, enable_timestamp = False, enable_thread_id = False,
     enable_function_name = False\<rparr>"

definition buffer_zero :: container_log_buffer where
  "buffer_zero = \<lparr>entries = None, max_entries = 0, current_count = 0, write_index = 0, mutex_id = 0\<rparr>"

text \<open>\<open>memset(&g_log_state, 0, ...)\<close>: the program's state, not its environment.\<close>

definition log_reset :: "container_log_state \<Rightarrow> container_log_state" where
  "log_reset s = s\<lparr>config := config_zero, buffer := buffer_zero, log_file := False,
     initialized := False, file_mutex_id := 0\<rparr>"

section \<open>Formatting\<close>

definition container_log_level_to_string :: "bool \<Rightarrow> container_log_level \<Rightarrow> string" where
  "container_log_level_to_string build lv =
     (if build then
        (case lv of CONTAINER_LOG_ERROR \<Rightarrow> ''ERROR'' | CONTAINER_LOG_WARN \<Rightarrow> ''WARN ''
         | CONTAINER_LOG_INFO \<Rightarrow> ''INFO '' | CONTAINER_LOG_DEBUG \<Rightarrow> ''DEBUG''
         | CONTAINER_LOG_TRACE \<Rightarrow> ''TRACE'')
      else ''UNKNOWN'')"

text \<open>The pieces the formatter prints, in order.\<close>

definition format_pieces :: "bool \<Rightarrow> container_log_config \<Rightarrow> (u32 \<Rightarrow> tm) \<Rightarrow> container_log_entry \<Rightarrow> string list"
where
  "format_pieces build c lt e =
     (if enable_timestamp c then
        (let t = lt (timestamp_sec e) in
         [''['' @ fmt_d 4 (tm_year t + 1900) @ ''-'' @ fmt_d 2 (tm_mon t + 1) @ ''-'' @ fmt_d 2 (tm_mday t)
          @ '' '' @ fmt_d 2 (tm_hour t) @ '':'' @ fmt_d 2 (tm_min t) @ '':'' @ fmt_d 2 (tm_sec t)
          @ ''.'' @ fmt_d 6 (int (unat (timestamp_usec e))) @ ''] ''])
      else []) @
     [''['' @ container_log_level_to_string build (level e) @ ''] ''] @
     (if enable_thread_id c then [''[TID:0x'' @ fmt_x (thread_id e) @ ''] ''] else []) @
     (if enable_function_name c \<and> function_name e \<noteq> [] then [''['' @ function_name e @ ''] ''] else []) @
     [message e]"

definition container_log_format_message ::
  "nat \<Rightarrow> bool \<Rightarrow> container_log_config \<Rightarrow> (u32 \<Rightarrow> tm) \<Rightarrow> container_log_entry \<Rightarrow> string option" where
  "container_log_format_message bs build c lt e = snprintf_all bs ([], 0) (format_pieces build c lt e)"

section \<open>Targets\<close>

definition container_log_to_console ::
  "log_env \<Rightarrow> container_log_entry \<Rightarrow> container_log_state \<Rightarrow> container_log_state option" where
  "container_log_to_console env e s = do {
     line \<leftarrow> container_log_format_message 1024 (log_build s) (config s) (env_localtime env) e;
     Some (s\<lparr>console_out := console_out s @ [line]\<rparr>) }"

definition container_log_to_file ::
  "log_env \<Rightarrow> container_log_entry \<Rightarrow> container_log_state \<Rightarrow> container_log_state option" where
  "container_log_to_file env e s =
     (if \<not> log_file s \<or> file_mutex_id s = 0 then Some s
      else if \<not> env_obtain_file env then Some s
      else do {
        line \<leftarrow> container_log_format_message 1024 (log_build s) (config s) (env_localtime env) e;
        Some (s\<lparr>file_out := file_out s @ [line]\<rparr>) })"

text \<open>The ring buffer: a store at the write index, which then advances modulo the size. A size of
  zero divides by zero.\<close>

definition ring_put :: "container_log_entry \<Rightarrow> container_log_buffer \<Rightarrow> container_log_buffer option" where
  "ring_put e b = do {
     es \<leftarrow> entries b;
     es' \<leftarrow> array_update es (int (unat (write_index b))) e;
     if max_entries b = 0 then None
     else Some (b\<lparr>entries := Some es', write_index := (write_index b + 1) mod max_entries b,
                  current_count := (if current_count b < max_entries b then current_count b + 1
                                    else current_count b)\<rparr>) }"

definition container_log_to_memory ::
  "log_env \<Rightarrow> container_log_entry \<Rightarrow> container_log_state \<Rightarrow> container_log_state option" where
  "container_log_to_memory env e s =
     (if entries (buffer s) = None \<or> mutex_id (buffer s) = 0 then Some s
      else if \<not> env_obtain_mem env then Some s
      else do { b \<leftarrow> ring_put e (buffer s); Some (s\<lparr>buffer := b\<rparr>) })"

definition container_log_open_file ::
  "log_env \<Rightarrow> container_log_state \<Rightarrow> rtems_status_code \<times> container_log_state" where
  "container_log_open_file env s =
     (if env_fopen env then (RTEMS_SUCCESSFUL, s\<lparr>log_file := True, log_files := log_files s + 1\<rparr>)
      else (RTEMS_IO_ERROR, s\<lparr>log_file := False\<rparr>))"

definition container_log_close_file :: "container_log_state \<Rightarrow> container_log_state" where
  "container_log_close_file s =
     (if log_file s then s\<lparr>log_file := False, log_files := log_files s - 1\<rparr> else s)"

section \<open>The interface\<close>

definition container_log_get_default_config :: "bool \<Rightarrow> container_log_config" where
  "container_log_get_default_config build =
     (if build then
        config_zero\<lparr>min_level := CONTAINER_LOG_INFO,
          targets := CONTAINER_LOG_TARGET_CONSOLE OR CONTAINER_LOG_TARGET_MEMORY,
          log_file_path := ''/tmp/container.log'', max_file_size := 1024 * 1024,
          max_memory_entries := 256, enable_timestamp := True, enable_thread_id := True,
          enable_function_name := True\<rparr>
      else config_zero)"

text \<open>\<open>container_log_insert_va\<close>: \<open>text\<close> is what the format and its arguments expand to.\<close>

definition container_log_insert ::
  "log_env \<Rightarrow> container_log_level \<Rightarrow> string option \<Rightarrow> string \<Rightarrow> container_log_state \<Rightarrow>
     container_log_state option" where
  "container_log_insert env lv fname msg s =
     (if \<not> log_build s \<or> \<not> initialized s \<or> lv > min_level (config s) then Some s
      else do {
        e \<leftarrow> Some \<lparr>level = lv,
               timestamp_sec = (if enable_timestamp (config s) then env_sec env else 0),
               timestamp_usec = (if enable_timestamp (config s) then env_usec env else 0),
               thread_id = (if enable_thread_id (config s) then env_self env else 0),
               function_name = (case fname of
                   Some f \<Rightarrow> if enable_function_name (config s) then take 63 f else []
                 | None \<Rightarrow> []),
               message = take 511 msg\<rparr>;
        s1 \<leftarrow> (if has_target CONTAINER_LOG_TARGET_CONSOLE (config s)
               then container_log_to_console env e s else Some s);
        s2 \<leftarrow> (if has_target CONTAINER_LOG_TARGET_FILE (config s)
               then container_log_to_file env e s1 else Some s1);
        (if has_target CONTAINER_LOG_TARGET_MEMORY (config s)
         then container_log_to_memory env e s2 else Some s2) })"

definition container_log_flush :: "container_log_state \<Rightarrow> container_log_state" where
  "container_log_flush s = s"

text \<open>The part of \<open>container_log_destroy\<close> after the last message: the two semaphores, the file,
  the ring and the state.\<close>

definition log_release :: "container_log_state \<Rightarrow> container_log_state" where
  "log_release s =
     (let s1 = (if file_mutex_id s \<noteq> 0 then s\<lparr>log_sems := log_sems s - 1, file_mutex_id := 0\<rparr> else s);
          s2 = (if mutex_id (buffer s1) \<noteq> 0
                then s1\<lparr>log_sems := log_sems s1 - 1, buffer := (buffer s1)\<lparr>mutex_id := 0\<rparr>\<rparr> else s1);
          s3 = container_log_close_file s2;
          s4 = s3\<lparr>log_mem := (if entries (buffer s3) = None then log_mem s3 else free_block (log_mem s3))\<rparr>
      in log_reset s4)"

definition container_log_destroy :: "log_env \<Rightarrow> container_log_state \<Rightarrow> container_log_state option" where
  "container_log_destroy env s =
     (if \<not> log_build s \<or> \<not> initialized s then Some s
      else do {
        s1 \<leftarrow> container_log_insert env CONTAINER_LOG_INFO (Some ''container_log_destroy'')
               ''Container log subsystem destroying'' s;
        Some (log_release (container_log_flush s1)) })"

text \<open>The memory part of the initialisation; \<open>Inl\<close> is an early return.\<close>

definition log_init_memory ::
  "log_env \<Rightarrow> container_log_state \<Rightarrow> (rtems_status_code \<times> container_log_state) + container_log_state" where
  "log_init_memory env s =
     (if has_target CONTAINER_LOG_TARGET_MEMORY (config s) then
        (case malloc (log_mem s) of
           (None, m) \<Rightarrow> Inl (RTEMS_NO_MEMORY, s\<lparr>log_mem := m\<rparr>)
         | (Some _, m) \<Rightarrow>
             (let n = max_memory_entries (config s);
                  s1 = s\<lparr>log_mem := m, buffer := (buffer s)
                          \<lparr>entries := Some (replicate (unat n) entry_zero), max_entries := n\<rparr>\<rparr>
              in case env_sem_mem env of
                (sc, i) \<Rightarrow>
                  if sc \<noteq> RTEMS_SUCCESSFUL
                  then Inl (sc, log_reset (s1\<lparr>log_mem := free_block (log_mem s1)\<rparr>))
                  else Inr (s1\<lparr>buffer := (buffer s1)\<lparr>mutex_id := i\<rparr>, log_sems := log_sems s1 + 1\<rparr>)))
      else Inr s)"

definition log_init_file ::
  "log_env \<Rightarrow> container_log_state \<Rightarrow>
     ((rtems_status_code \<times> container_log_state) + container_log_state) option" where
  "log_init_file env s =
     (if has_target CONTAINER_LOG_TARGET_FILE (config s) then
        (case container_log_open_file env s of
           (sc, s1) \<Rightarrow>
             if sc \<noteq> RTEMS_SUCCESSFUL
             then do { s2 \<leftarrow> container_log_destroy env s1; Some (Inl (sc, s2)) }
             else (case env_sem_file env of
               (sc2, i) \<Rightarrow>
                 if sc2 \<noteq> RTEMS_SUCCESSFUL
                 then do { s2 \<leftarrow> container_log_destroy env s1; Some (Inl (sc2, s2)) }
                 else Some (Inr (s1\<lparr>file_mutex_id := i, log_sems := log_sems s1 + 1\<rparr>))))
      else Some (Inr s))"

definition container_log_initialize ::
  "log_env \<Rightarrow> container_log_config option \<Rightarrow> container_log_state \<Rightarrow>
     (rtems_status_code \<times> container_log_state) option" where
  "container_log_initialize env cf s =
     (if \<not> log_build s then Some (RTEMS_NOT_CONFIGURED, s)
      else if initialized s then Some (RTEMS_RESOURCE_IN_USE, s)
      else case cf of
        None \<Rightarrow> Some (RTEMS_INVALID_ADDRESS, s)
      | Some c \<Rightarrow>
          (case log_init_memory env ((log_reset s)\<lparr>config := c\<rparr>) of
             Inl r \<Rightarrow> Some r
           | Inr s1 \<Rightarrow> do {
               r \<leftarrow> log_init_file env s1;
               case r of
                 Inl r' \<Rightarrow> Some r'
               | Inr s2 \<Rightarrow> do {
                   s3 \<leftarrow> container_log_insert env CONTAINER_LOG_INFO (Some ''container_log_initialize'')
                          ''Container log subsystem initialized'' (s2\<lparr>initialized := True\<rparr>);
                   Some (RTEMS_SUCCESSFUL, s3) } }))"

definition container_log_set_level ::
  "container_log_level \<Rightarrow> container_log_state \<Rightarrow> container_log_state" where
  "container_log_set_level lv s =
     (if log_build s \<and> initialized s then s\<lparr>config := (config s)\<lparr>min_level := lv\<rparr>\<rparr> else s)"

definition container_log_get_level :: "container_log_state \<Rightarrow> container_log_level" where
  "container_log_get_level s =
     (if log_build s \<and> initialized s then min_level (config s) else CONTAINER_LOG_ERROR)"

text \<open>Reading \<open>count\<close> entries of the ring from a start index.\<close>

fun ring_read :: "container_log_entry list \<Rightarrow> u32 \<Rightarrow> u32 \<Rightarrow> nat \<Rightarrow> u32 \<Rightarrow> container_log_entry list option"
where
  "ring_read es mx start 0 i = Some []"
| "ring_read es mx start (Suc k) i = do {
     e \<leftarrow> (let j = unat ((start + i) mod mx) in if j < length es then Some (es ! j) else None);
     rest \<leftarrow> ring_read es mx start k (i + 1);
     Some (e # rest) }"

definition ring_get :: "u32 \<Rightarrow> container_log_buffer \<Rightarrow> container_log_entry list option" where
  "ring_get n b = do {
     es \<leftarrow> entries b;
     if max_entries b = 0 then None
     else
       let count = (if current_count b > n then n else current_count b);
           start = (write_index b + max_entries b - count) mod max_entries b
       in ring_read es (max_entries b) start (unat count) 0 }"

text \<open>\<open>container_log_get_entries\<close>: the entries copied to the caller's array.\<close>

definition container_log_get_entries ::
  "log_env \<Rightarrow> bool \<Rightarrow> u32 \<Rightarrow> container_log_state \<Rightarrow> container_log_entry list option" where
  "container_log_get_entries env out_null n s =
     (if \<not> log_build s \<or> \<not> initialized s \<or> out_null \<or> n = 0 \<or> entries (buffer s) = None \<or>
         mutex_id (buffer s) = 0 then Some []
      else if \<not> env_obtain_mem env then Some []
      else ring_get n (buffer s))"

definition ring_clear :: "container_log_buffer \<Rightarrow> container_log_buffer" where
  "ring_clear b = b\<lparr>entries := map_option (\<lambda>es. replicate (length es) entry_zero) (entries b),
     current_count := 0, write_index := 0\<rparr>"

definition container_log_clear_buffer :: "log_env \<Rightarrow> container_log_state \<Rightarrow> container_log_state" where
  "container_log_clear_buffer env s =
     (if \<not> log_build s \<or> \<not> initialized s \<or> entries (buffer s) = None \<or> mutex_id (buffer s) = 0 then s
      else if \<not> env_obtain_mem env then s
      else s\<lparr>buffer := ring_clear (buffer s)\<rparr>)"

section \<open>A log that keeps the most recent entries\<close>

text \<open>The contract of a bounded log: it holds at most \<open>cap\<close> entries, a new entry displaces the
  oldest, and a reader gets the newest entries in the order they were written.\<close>

definition last_n :: "nat \<Rightarrow> 'e list \<Rightarrow> 'e list" where
  "last_n n xs = drop (length xs - n) xs"

lemma last_n_append_last_n:
  "last_n n (last_n n xs @ ys) = last_n n (xs @ ys)"
  by (cases "length xs \<le> n") (simp_all add: last_n_def drop_append drop_drop add.commute)

lemma length_last_n [simp]: "length (last_n n xs) = min n (length xs)"
  by (auto simp: last_n_def min_def)

lemma last_n_all [simp]: "length xs \<le> n \<Longrightarrow> last_n n xs = xs"
  by (simp add: last_n_def)

lemma last_n_last_n: "last_n k (last_n n xs) = last_n (min k n) xs"
  by (cases "length xs \<le> n"; cases "k \<le> n") (simp_all add: last_n_def drop_drop min_def)

locale recent_log =
  fixes contents :: "'s \<Rightarrow> 'e list"
    and cap :: "'s \<Rightarrow> nat"
    and ok :: "'s \<Rightarrow> bool"
    and put :: "'e \<Rightarrow> 's \<Rightarrow> 's option"
    and recent :: "nat \<Rightarrow> 's \<Rightarrow> 'e list option"
  assumes put_ok: "ok s \<Longrightarrow> \<exists>s'. put e s = Some s' \<and> ok s' \<and> cap s' = cap s \<and>
      contents s' = last_n (cap s) (contents s @ [e])"
    and recent_ok: "ok s \<Longrightarrow> n < 2 ^ 32 \<Longrightarrow> recent n s = Some (last_n n (contents s))"
    and within: "ok s \<Longrightarrow> length (contents s) \<le> cap s"
begin

fun put_all :: "'e list \<Rightarrow> 's \<Rightarrow> 's option" where
  "put_all [] s = Some s"
| "put_all (e # es) s = (case put e s of None \<Rightarrow> None | Some s' \<Rightarrow> put_all es s')"

text \<open>Writing any number of entries never fails and leaves the last \<open>cap\<close> of everything.\<close>

lemma put_all_contents:
  assumes "ok s"
  shows "\<exists>s'. put_all es s = Some s' \<and> ok s' \<and> cap s' = cap s \<and>
     contents s' = last_n (cap s) (contents s @ es)"
  using assms
proof (induction es arbitrary: s)
  case Nil
  then show ?case using within by simp
next
  case (Cons e es)
  obtain s1 where s1: "put e s = Some s1" "ok s1" "cap s1 = cap s"
    "contents s1 = last_n (cap s) (contents s @ [e])" using put_ok [OF Cons.prems] by blast
  from Cons.IH [OF s1(2)] s1 show ?case by (auto simp: last_n_append_last_n)
qed

text \<open>What a reader sees after a sequence of writes.\<close>

lemma recent_after_puts:
  assumes "ok s" "n < 2 ^ 32"
  obtains s' where "put_all es s = Some s'"
    "recent n s' = Some (last_n (min n (cap s)) (contents s @ es))"
proof -
  obtain s' where s': "put_all es s = Some s'" "ok s'"
    "contents s' = last_n (cap s) (contents s @ es)" using put_all_contents [OF assms(1)] by blast
  with recent_ok [OF s'(2) assms(2)] that show thesis by (simp add: last_n_last_n)
qed

end

section \<open>The ring buffer implements it\<close>

text \<open>The entries from the oldest to the newest, in natural-number arithmetic.\<close>

definition ring_list :: "'e list \<Rightarrow> nat \<Rightarrow> nat \<Rightarrow> nat \<Rightarrow> 'e list" where
  "ring_list es w m c = map (\<lambda>i. es ! ((w + m - c + i) mod m)) [0..<c]"

lemma ring_list_grow:
  assumes "c < m" "length es = m"
  shows "ring_list (es[c := e]) (Suc c mod m) m (Suc c) = ring_list es c m c @ [e]"
proof -
  have idx: "(Suc c mod m + m - Suc c + i) mod m = i" if "i \<le> c" for i
    using assms that by (cases "Suc c = m") (auto simp: mod_if)
  show ?thesis
  proof (rule nth_equalityI)
    fix i assume "i < length (ring_list (es[c := e]) (Suc c mod m) m (Suc c))"
    then have i: "i \<le> c" by (simp add: ring_list_def)
    then have "ring_list (es[c := e]) (Suc c mod m) m (Suc c) ! i
        = es[c := e] ! ((Suc c mod m + m - Suc c + i) mod m)"
      by (simp add: ring_list_def del: upt_Suc)
    then have new: "ring_list (es[c := e]) (Suc c mod m) m (Suc c) ! i = es[c := e] ! i"
      unfolding idx [OF i] .
    have "ring_list es c m c ! i = es ! i" if "i < c" using that assms by (simp add: ring_list_def)
    with new i assms show "ring_list (es[c := e]) (Suc c mod m) m (Suc c) ! i = (ring_list es c m c @ [e]) ! i"
      by (cases "i = c") (simp_all add: nth_append, simp_all add: ring_list_def)
  qed (simp add: ring_list_def)
qed

lemma ring_list_shift:
  assumes "w < m" "length es = m"
  shows "ring_list (es[w := e]) (Suc w mod m) m m = tl (ring_list es w m m) @ [e]"
proof (rule nth_equalityI)
  show "length (ring_list (es[w := e]) (Suc w mod m) m m) = length (tl (ring_list es w m m) @ [e])"
    using assms by (simp add: ring_list_def)
next
  fix i assume "i < length (ring_list (es[w := e]) (Suc w mod m) m m)"
  then have i: "i < m" by (simp add: ring_list_def)
  have new: "(Suc w mod m + m - m + i) mod m = (Suc w + i) mod m" by (simp add: mod_simps)
  show "ring_list (es[w := e]) (Suc w mod m) m m ! i = (tl (ring_list es w m m) @ [e]) ! i"
  proof (cases "i = m - 1")
    case True
    then have "(Suc w + i) mod m = w" using assms by (simp add: mod_if)
    with True i assms new show ?thesis by (simp add: ring_list_def nth_append)
  next
    case False
    with i have i': "Suc i < m" "i < m - Suc 0" by simp_all
    have "(Suc w + i) mod m \<noteq> w"
    proof (cases "Suc w + i < m")
      case False
      then have "(Suc w + i) mod m = Suc w + i - m" using assms i' by (simp add: mod_if)
      with False i' show ?thesis by simp
    qed simp
    with False i i' assms new show ?thesis by (simp add: ring_list_def nth_append nth_tl)
  qed
qed

definition ring_ok :: "container_log_buffer \<Rightarrow> bool" where
  "ring_ok b \<longleftrightarrow> (\<exists>es. entries b = Some es \<and> length es = unat (max_entries b)) \<and>
     0 < unat (max_entries b) \<and> unat (max_entries b) < 2 ^ 31 \<and>
     unat (write_index b) < unat (max_entries b) \<and> unat (current_count b) \<le> unat (max_entries b) \<and>
     (current_count b = max_entries b \<or> write_index b = current_count b)"

definition ring_contents :: "container_log_buffer \<Rightarrow> container_log_entry list" where
  "ring_contents b = ring_list (the (entries b)) (unat (write_index b)) (unat (max_entries b))
     (unat (current_count b))"

definition ring_cap :: "container_log_buffer \<Rightarrow> nat" where
  "ring_cap b = unat (max_entries b)"

lemma length_ring_contents [simp]: "length (ring_contents b) = unat (current_count b)"
  by (simp add: ring_contents_def ring_list_def)

lemma unat_add1_mod:
  assumes "unat (w :: u32) < unat m" "unat m < 2 ^ 31"
  shows "unat ((w + 1) mod m) = Suc (unat w) mod unat m" "unat (w + 1) = Suc (unat w)"
proof -
  show u: "unat (w + 1) = Suc (unat w)" using assms by (simp add: unat_word_ariths)
  show "unat ((w + 1) mod m) = Suc (unat w) mod unat m" by (simp add: unat_mod_distrib u)
qed

lemma ring_put_ok:
  assumes "ring_ok b"
  shows "\<exists>b'. ring_put e b = Some b' \<and> ring_ok b' \<and> ring_cap b' = ring_cap b \<and>
     ring_contents b' = last_n (ring_cap b) (ring_contents b @ [e]) \<and> mutex_id b' = mutex_id b"
proof -
  let ?w = "unat (write_index b)" and ?m = "unat (max_entries b)" and ?c = "unat (current_count b)"
  obtain es where es: "entries b = Some es" "length es = ?m" using assms by (auto simp: ring_ok_def)
  have b: "0 < ?m" "?m < 2 ^ 31" "?w < ?m" "?c \<le> ?m" using assms by (simp_all add: ring_ok_def)
  have m0: "max_entries b \<noteq> 0" using b(1) by auto
  note w' = unat_add1_mod(1) [OF b(3,2)]
  define b' where "b' = b\<lparr>entries := Some (es[?w := e]), write_index := (write_index b + 1) mod max_entries b,
     current_count := (if current_count b < max_entries b then current_count b + 1 else current_count b)\<rparr>"
  have "write_index b < max_entries b" using b(3) by (simp add: word_less_nat_alt)
  then have "uint (write_index b) < uint (max_entries b)" by (simp add: word_less_def)
  then have put: "ring_put e b = Some b'" using es b m0 by (simp add: ring_put_def array_update_def b'_def)
  show ?thesis
  proof (cases "?c < ?m")
    case True
    then have lt: "current_count b < max_entries b" by (simp add: word_less_nat_alt)
    then have wc: "write_index b = current_count b" using assms by (auto simp: ring_ok_def)
    have c': "unat (current_count b + 1) = Suc ?c" by (rule unat_add1_mod(2) [OF True b(2)])
    have wn: "Suc ?c mod ?m < ?m" using b(1) by simp
    have full: "current_count b + 1 = max_entries b \<or> (write_index b + 1) mod max_entries b = current_count b + 1"
    proof (cases "Suc ?c = ?m")
      case True
      then show ?thesis using c' by (simp add: word_unat_eq_iff)
    next
      case False
      with True have "Suc ?c mod ?m = Suc ?c" by simp
      then have "unat ((current_count b + 1) mod max_entries b) = unat (current_count b + 1)"
        using w' c' wc by simp
      then have "(current_count b + 1) mod max_entries b = current_count b + 1"
        by (simp only: word_unat_eq_iff)
      then show ?thesis using wc by simp
    qed
    have "ring_ok b'" using es b lt c' w' wn True full wc by (auto simp: ring_ok_def b'_def)
    moreover have "ring_contents b' = ring_contents b @ [e]"
      using ring_list_grow [OF True es(2), of e] es lt c' w' wc by (simp add: ring_contents_def b'_def)
    moreover have "last_n (ring_cap b) (ring_contents b @ [e]) = ring_contents b @ [e]"
      using True by (simp add: ring_cap_def)
    ultimately show ?thesis using put by (auto simp: ring_cap_def b'_def)
  next
    case False
    with b have cm: "?c = ?m" by simp
    then have lt: "\<not> current_count b < max_entries b" by (simp add: word_less_nat_alt)
    have wn: "Suc ?w mod ?m < ?m" using b(1) by simp
    have ceq: "current_count b = max_entries b" using cm by (simp add: word_unat_eq_iff)
    have "ring_ok b'" using es b lt w' wn ceq by (auto simp: ring_ok_def b'_def)
    moreover have "ring_contents b' = tl (ring_contents b) @ [e]"
      using ring_list_shift [OF b(3) es(2), of e] es lt w' cm by (simp add: ring_contents_def b'_def)
    moreover have "last_n (ring_cap b) (ring_contents b @ [e]) = tl (ring_contents b) @ [e]"
      using length_ring_contents [of b] cm b(1)
      by (cases "ring_contents b") (simp_all add: last_n_def ring_cap_def)
    ultimately show ?thesis using put by (auto simp: ring_cap_def b'_def)
  qed
qed

lemma ring_read_eq:
  assumes "length es = unat mx" "0 < unat mx" "unat start + unat i + k < 2 ^ 32"
  shows "ring_read es mx start k i = Some (map (\<lambda>j. es ! ((unat start + unat i + j) mod unat mx)) [0..<k])"
  using assms(3)
proof (induction k arbitrary: i)
  case (Suc k)
  have si: "unat (start + i) = unat start + unat i" using Suc.prems by (simp add: unat_word_ariths)
  have i1: "unat (i + 1) = Suc (unat i)" using Suc.prems by (simp add: unat_word_ariths)
  have lt: "unat ((start + i) mod mx) < length es"
    using assms by (simp add: unat_mod_distrib si)
  have "ring_read es mx start k (i + 1) =
      Some (map (\<lambda>j. es ! ((unat start + Suc (unat i) + j) mod unat mx)) [0..<k])"
    using Suc.IH [of "i + 1"] Suc.prems i1 by simp
  moreover have "map (\<lambda>j. es ! ((unat start + unat i + j) mod unat mx)) [0..<Suc k] =
      es ! ((unat start + unat i) mod unat mx) #
      map (\<lambda>j. es ! ((unat start + Suc (unat i) + j) mod unat mx)) [0..<k]"
    by (simp add: upt_conv_Cons map_Suc_upt [symmetric] del: upt_Suc)
  ultimately show ?case using lt by (simp add: unat_mod_distrib si del: upt_Suc)
qed simp

lemma ring_get_ok:
  assumes "ring_ok b" "n < 2 ^ 32"
  shows "ring_get (of_nat n) b = Some (last_n n (ring_contents b))"
proof -
  let ?w = "unat (write_index b)" and ?m = "unat (max_entries b)" and ?c = "unat (current_count b)"
  obtain es where es: "entries b = Some es" "length es = ?m" using assms by (auto simp: ring_ok_def)
  have b: "0 < ?m" "?m < 2 ^ 31" "?w < ?m" "?c \<le> ?m" using assms by (simp_all add: ring_ok_def)
  have un: "unat (of_nat n :: u32) = n" using assms(2) by (simp add: unat_of_nat)
  define count where "count = (if current_count b > of_nat n then of_nat n else current_count b)"
  have cnt: "unat count = min n ?c" using un by (simp add: count_def word_less_nat_alt)
  let ?start = "(write_index b + max_entries b - count) mod max_entries b"
  have wm: "unat (write_index b + max_entries b) = ?w + ?m" using b by (simp add: unat_word_ariths)
  have le: "count \<le> write_index b + max_entries b" using wm cnt b by (simp add: word_le_nat_alt)
  have st: "unat ?start = (?w + ?m - min n ?c) mod ?m"
    using le cnt wm by (simp add: unat_mod_distrib unat_sub)
  have lt: "unat ?start < ?m" using b(1) by (simp add: st)
  have "ring_get (of_nat n) b = ring_read es (max_entries b) ?start (unat count) 0"
    using es b(1) by (auto simp: ring_get_def Let_def count_def)
  also have "\<dots> = Some (map (\<lambda>j. es ! ((unat ?start + j) mod ?m)) [0..<unat count])"
    using ring_read_eq [OF es(2) b(1), of ?start 0 "unat count"] lt b cnt by simp
  also have "map (\<lambda>j. es ! ((unat ?start + j) mod ?m)) [0..<unat count] = last_n n (ring_contents b)"
  proof (rule nth_equalityI)
    show "length (map (\<lambda>j. es ! ((unat ?start + j) mod ?m)) [0..<unat count]) = length (last_n n (ring_contents b))"
      using cnt by simp
  next
    fix j assume "j < length (map (\<lambda>j. es ! ((unat ?start + j) mod ?m)) [0..<unat count])"
    then have j: "j < min n ?c" using cnt by simp
    have "(unat ?start + j) mod ?m = (?w + ?m - min n ?c + j) mod ?m" by (simp add: st mod_simps)
    also have "?w + ?m - min n ?c + j = ?w + ?m - ?c + (?c - min n ?c + j)" using b j by simp
    finally have e: "(unat ?start + j) mod ?m = (?w + ?m - ?c + (?c - min n ?c + j)) mod ?m" .
    have nth: "ring_contents b ! k = es ! ((?w + ?m - ?c + k) mod ?m)" if "k < ?c" for k
      using that es by (simp add: ring_contents_def ring_list_def)
    have "last_n n (ring_contents b) ! j = ring_contents b ! (?c - n + j)"
      using j by (simp add: last_n_def)
    also have "?c - n + j = ?c - min n ?c + j" by simp
    also have "ring_contents b ! (?c - min n ?c + j) = es ! ((?w + ?m - ?c + (?c - min n ?c + j)) mod ?m)"
      by (rule nth) (use j in auto)
    finally show "map (\<lambda>j. es ! ((unat ?start + j) mod ?m)) [0..<unat count] ! j = last_n n (ring_contents b) ! j"
      using j cnt e by simp
  qed
  finally show ?thesis .
qed

interpretation ring: recent_log ring_contents ring_cap ring_ok ring_put "\<lambda>n. ring_get (of_nat n)"
proof
  show "\<exists>s'. ring_put e s = Some s' \<and> ring_ok s' \<and> ring_cap s' = ring_cap s \<and>
     ring_contents s' = last_n (ring_cap s) (ring_contents s @ [e])" if "ring_ok s" for s e
    using ring_put_ok [OF that] by blast
  show "ring_get (of_nat n) s = Some (last_n n (ring_contents s))" if "ring_ok s" "n < 2 ^ 32" for s n
    using ring_get_ok [OF that] .
  show "length (ring_contents s) \<le> ring_cap s" if "ring_ok s" for s
    using that by (simp add: ring_ok_def ring_cap_def)
qed

lemma ring_clear_ok: "ring_ok b \<Longrightarrow> ring_ok (ring_clear b) \<and> ring_contents (ring_clear b) = []"
  by (auto simp: ring_ok_def ring_clear_def ring_contents_def ring_list_def)

section \<open>The formatter stays within its buffer\<close>

lemma format_pieces_length:
  assumes "length (function_name e) \<le> 63" "length (message e) \<le> 511"
  shows "length (concat (format_pieces build c lt e)) < 1024"
proof -
  have lv: "length (container_log_level_to_string build l) \<le> 7" for l
    by (cases l) (simp_all add: container_log_level_to_string_def)
  show ?thesis
    using assms lv [of "level e"] length_fmt_x [of "thread_id e"]
      length_fmt_d [of 4 "tm_year (lt (timestamp_sec e)) + 1900"]
      length_fmt_d [of 2 "tm_mon (lt (timestamp_sec e)) + 1"]
      length_fmt_d [of 2 "tm_mday (lt (timestamp_sec e))"]
      length_fmt_d [of 2 "tm_hour (lt (timestamp_sec e))"]
      length_fmt_d [of 2 "tm_min (lt (timestamp_sec e))"]
      length_fmt_d [of 2 "tm_sec (lt (timestamp_sec e))"]
      length_fmt_d [of 6 "int (unat (timestamp_usec e))"]
    by (simp add: format_pieces_def Let_def)
qed

text \<open>(C35) The 1024-character line buffer is always large enough: for any entry the log builds (function
  name of at most 63 and message of at most 511 characters), any time stamp and any configuration, the
  chain of \<open>snprintf\<close> calls neither truncates nor passes the end of the buffer and yields exactly
  the concatenation of the pieces.\<close>

theorem container_log_format_fits:
  assumes "length (function_name e) \<le> 63" "length (message e) \<le> 511"
  shows "container_log_format_message 1024 build c lt e = Some (concat (format_pieces build c lt e))"
  using snprintf_all_fits [of "[]" "format_pieces build c lt e" 1024] format_pieces_length [OF assms]
  by (simp add: container_log_format_message_def)

theorem container_log_format_fits_witness:
  "container_log_format_message 1024 True (config_zero\<lparr>enable_function_name := True\<rparr>)
     (\<lambda>_. \<lparr>tm_year = 125, tm_mon = 0, tm_mday = 1, tm_hour = 0, tm_min = 0, tm_sec = 0\<rparr>)
     (entry_zero\<lparr>level := CONTAINER_LOG_INFO, function_name := ''f'', message := ''hi''\<rparr>)
   = Some ''[INFO ] [f] hi''"
  by (subst container_log_format_fits)
    (simp_all add: entry_zero_def config_zero_def format_pieces_def container_log_level_to_string_def)

section \<open>Inserting and reading back\<close>

definition log_entry :: "log_env \<Rightarrow> container_log_config \<Rightarrow> container_log_level \<Rightarrow> string option \<Rightarrow> string \<Rightarrow> container_log_entry"
where
  "log_entry env c lv fname msg = \<lparr>level = lv,
     timestamp_sec = (if enable_timestamp c then env_sec env else 0),
     timestamp_usec = (if enable_timestamp c then env_usec env else 0),
     thread_id = (if enable_thread_id c then env_self env else 0),
     function_name = (case fname of Some f \<Rightarrow> if enable_function_name c then take 63 f else [] | None \<Rightarrow> []),
     message = take 511 msg\<rparr>"

lemma log_entry_fits [simp]:
  "length (function_name (log_entry env c lv fname msg)) \<le> 63"
  "length (message (log_entry env c lv fname msg)) \<le> 511"
  by (simp_all add: log_entry_def split: option.split)

text \<open>The log is running and its memory target is usable.\<close>

definition log_ready :: "container_log_state \<Rightarrow> bool" where
  "log_ready s \<longleftrightarrow> log_build s \<and> initialized s \<and> has_target CONTAINER_LOG_TARGET_MEMORY (config s) \<and>
     mutex_id (buffer s) \<noteq> 0 \<and> ring_ok (buffer s)"

lemma log_console_eq:
  "container_log_to_console env (log_entry env' c lv f t) s =
     Some (s\<lparr>console_out := console_out s @ [concat (format_pieces (log_build s) (config s) (env_localtime env) (log_entry env' c lv f t))]\<rparr>)"
  by (simp add: container_log_to_console_def container_log_format_fits)

lemma log_file_ok:
  "\<exists>out. container_log_to_file env (log_entry env' c lv f t) s = Some (s\<lparr>file_out := out\<rparr>)"
  by (simp add: container_log_to_file_def container_log_format_fits) (metis container_log_state.surjective
      container_log_state.update_convs(11))

lemma log_insert_eq:
  assumes "log_build s" "initialized s" "lv \<le> min_level (config s)"
  shows "\<exists>co fo. container_log_insert env lv fname msg s =
     (let s' = s\<lparr>console_out := co, file_out := fo\<rparr> in
      if has_target CONTAINER_LOG_TARGET_MEMORY (config s)
      then container_log_to_memory env (log_entry env (config s) lv fname msg) s' else Some s')"
proof -
  let ?e = "log_entry env (config s) lv fname msg"
  obtain co where c: "(if has_target CONTAINER_LOG_TARGET_CONSOLE (config s)
      then container_log_to_console env ?e s else Some s) = Some (s\<lparr>console_out := co\<rparr>)"
    by (cases "has_target CONTAINER_LOG_TARGET_CONSOLE (config s)")
      (auto simp: log_console_eq intro: that [of "console_out s"])
  obtain fo where f: "(if has_target CONTAINER_LOG_TARGET_FILE (config s)
      then container_log_to_file env ?e (s\<lparr>console_out := co\<rparr>) else Some (s\<lparr>console_out := co\<rparr>))
      = Some (s\<lparr>console_out := co, file_out := fo\<rparr>)"
    using log_file_ok [of env env "config s" lv fname msg "s\<lparr>console_out := co\<rparr>"]
    by (cases "has_target CONTAINER_LOG_TARGET_FILE (config s)") (auto intro: that [of "file_out s"])
  have "container_log_insert env lv fname msg s =
     (let s' = s\<lparr>console_out := co, file_out := fo\<rparr> in
      if has_target CONTAINER_LOG_TARGET_MEMORY (config s)
      then container_log_to_memory env ?e s' else Some s')"
    using assms c f unfolding container_log_insert_def log_entry_def [symmetric]
    by (simp add: Let_def not_less [symmetric])
  then show ?thesis by blast
qed

lemma log_insert_ready:
  assumes r: "log_ready s" and lv: "lv \<le> min_level (config s)" and env: "env_obtain_mem env"
  shows "\<exists>s'. container_log_insert env lv fname msg s = Some s' \<and> log_ready s' \<and> config s' = config s \<and>
     ring_put (log_entry env (config s) lv fname msg) (buffer s) = Some (buffer s')"
proof -
  let ?e = "log_entry env (config s) lv fname msg"
  obtain b' where b': "ring_put ?e (buffer s) = Some b'" "ring_ok b'" "mutex_id b' = mutex_id (buffer s)"
    using ring_put_ok r by (metis log_ready_def)
  have "entries (buffer s) \<noteq> None" using r by (auto simp: log_ready_def ring_ok_def)
  with log_insert_eq [of s lv env fname msg] r lv env b' show ?thesis
    by (auto simp: log_ready_def container_log_to_memory_def Let_def)
qed

fun log_insert_all ::
  "log_env \<Rightarrow> (container_log_level \<times> string option \<times> string) list \<Rightarrow> container_log_state \<Rightarrow> container_log_state option"
where
  "log_insert_all env [] s = Some s"
| "log_insert_all env ((lv, f, t) # xs) s = do { s' \<leftarrow> container_log_insert env lv f t s; log_insert_all env xs s' }"

lemma log_insert_all_ring:
  assumes "log_ready s" "\<forall>(lv, f, t) \<in> set xs. lv \<le> min_level (config s)" "env_obtain_mem env"
  shows "\<exists>s'. log_insert_all env xs s = Some s' \<and> log_ready s' \<and>
     ring.put_all (map (\<lambda>(lv, f, t). log_entry env (config s) lv f t) xs) (buffer s) = Some (buffer s')"
  using assms(1,2)
proof (induction xs arbitrary: s)
  case (Cons x xs)
  obtain lv f t where x: "x = (lv, f, t)" by (cases x)
  obtain s1 where s1: "container_log_insert env lv f t s = Some s1" "log_ready s1" "config s1 = config s"
    "ring_put (log_entry env (config s) lv f t) (buffer s) = Some (buffer s1)"
    using log_insert_ready [OF Cons.prems(1), of lv env f t] Cons.prems(2) assms(3) x by auto
  from Cons.IH [OF s1(2)] Cons.prems(2) s1 x show ?case by auto
qed simp

text \<open>A log with a ring of three entries.\<close>

definition demo_log_env :: log_env where
  "demo_log_env = \<lparr>env_sem_mem = (RTEMS_SUCCESSFUL, 1), env_sem_file = (RTEMS_SUCCESSFUL, 2),
     env_fopen = True, env_obtain_mem = True, env_obtain_file = True, env_sec = 0, env_usec = 0,
     env_self = 1, env_localtime = (\<lambda>_. \<lparr>tm_year = 125, tm_mon = 0, tm_mday = 1, tm_hour = 0,
       tm_min = 0, tm_sec = 0\<rparr>)\<rparr>"

definition demo_log :: container_log_state where
  "demo_log = \<lparr>log_build = True, config = config_zero, buffer = buffer_zero, log_file = False,
     initialized = False, file_mutex_id = 0, log_mem = \<lparr>brk = 0, oom = (\<lambda>_. False), live = 0\<rparr>,
     log_sems = 0, log_files = 0, console_out = [], file_out = []\<rparr>"

definition demo_log_config :: container_log_config where
  "demo_log_config = config_zero\<lparr>targets := 6, max_memory_entries := 3\<rparr>"

lemmas demo_log_simps = demo_log_env_def demo_log_def demo_log_config_def config_zero_def buffer_zero_def

text \<open>(C26) The memory log refines a list of messages: after any sequence of calls at enabled levels on a
  running log, \<open>container_log_get_entries\<close> with room for \<open>n\<close> entries returns the messages (cut
  to 511 characters) of the most recent calls, oldest first, at most \<open>n\<close> and at most the capacity
  of the ring, continuing what the log held before.\<close>

theorem container_log_recent:
  assumes "log_ready s" "\<forall>(lv, f, t) \<in> set xs. lv \<le> min_level (config s)" "env_obtain_mem env"
    "0 < n" "n < 2 ^ 32"
  shows "\<exists>s' es. log_insert_all env xs s = Some s' \<and>
     container_log_get_entries env False (of_nat n) s' = Some es \<and>
     map message es = last_n (min n (ring_cap (buffer s)))
       (map message (ring_contents (buffer s)) @ map (\<lambda>(lv, f, t). take 511 t) xs)"
proof -
  let ?new = "map (\<lambda>(lv, f, t). log_entry env (config s) lv f t) xs"
  obtain s' where s': "log_insert_all env xs s = Some s'" "log_ready s'"
    "ring.put_all ?new (buffer s) = Some (buffer s')"
    using log_insert_all_ring [OF assms(1-3)] by blast
  have "ring_ok (buffer s)" using assms(1) by (simp add: log_ready_def)
  then have get: "ring_get (of_nat n) (buffer s') =
      Some (last_n (min n (ring_cap (buffer s))) (ring_contents (buffer s) @ ?new))"
    by (rule ring.recent_after_puts [OF _ assms(5), of "buffer s" ?new]) (use s'(3) in simp)
  have nz: "(of_nat n :: u32) \<noteq> 0"
  proof
    assume "(of_nat n :: u32) = 0"
    then have "unat (of_nat n :: u32) = 0" by simp
    then show False using assms(4,5) by (simp add: unat_of_nat)
  qed
  have "entries (buffer s') \<noteq> None" using s'(2) by (auto simp: log_ready_def ring_ok_def)
  then have "container_log_get_entries env False (of_nat n) s' =
      Some (last_n (min n (ring_cap (buffer s))) (ring_contents (buffer s) @ ?new))"
    using s'(2) assms(3) nz get by (auto simp: container_log_get_entries_def log_ready_def)
  moreover have "map message (last_n (min n (ring_cap (buffer s))) (ring_contents (buffer s) @ ?new)) =
     last_n (min n (ring_cap (buffer s)))
       (map message (ring_contents (buffer s)) @ map (\<lambda>(lv, f, t). take 511 t) xs)"
    by (simp add: last_n_def drop_map [symmetric] comp_def case_prod_unfold log_entry_def)
  ultimately show ?thesis using s'(1) by blast
qed

theorem container_log_recent_witness:
  "\<exists>s' es. log_insert_all demo_log_env
      [(CONTAINER_LOG_ERROR, None, ''a''), (CONTAINER_LOG_ERROR, None, ''b''),
       (CONTAINER_LOG_ERROR, None, ''c''), (CONTAINER_LOG_ERROR, None, ''d'')]
      (demo_log\<lparr>initialized := True, config := demo_log_config,
         buffer := buffer_zero\<lparr>entries := Some (replicate 3 entry_zero), max_entries := 3, mutex_id := 1\<rparr>\<rparr>)
      = Some s' \<and>
     container_log_get_entries demo_log_env False 10 s' = Some es \<and> map message es = [''b'', ''c'', ''d'']"
  using container_log_recent [of "demo_log\<lparr>initialized := True, config := demo_log_config,
         buffer := buffer_zero\<lparr>entries := Some (replicate 3 entry_zero), max_entries := 3, mutex_id := 1\<rparr>\<rparr>"
      "[(CONTAINER_LOG_ERROR, None, ''a''), (CONTAINER_LOG_ERROR, None, ''b''),
       (CONTAINER_LOG_ERROR, None, ''c''), (CONTAINER_LOG_ERROR, None, ''d'')]" demo_log_env 10]
  by (simp add: demo_log_simps log_ready_def ring_ok_def has_target_def CONTAINER_LOG_TARGET_MEMORY_def
      ring_contents_def ring_list_def ring_cap_def last_n_def)

section \<open>Starting and stopping\<close>

text \<open>What a call of the logger leaves alone.\<close>

lemma ring_put_frame:
  "ring_put e b = Some b' \<Longrightarrow> mutex_id b' = mutex_id b \<and> (entries b' = None \<longleftrightarrow> entries b = None)"
  by (auto simp: ring_put_def bind_eq_Some_conv split: if_splits)

text \<open>Everything but the two outputs and the contents of the ring.\<close>

definition log_frame :: "container_log_state \<Rightarrow> container_log_state \<Rightarrow> bool" where
  "log_frame s s' \<longleftrightarrow> config s' = config s \<and> initialized s' = initialized s \<and> log_file s' = log_file s \<and>
     file_mutex_id s' = file_mutex_id s \<and> log_sems s' = log_sems s \<and> log_files s' = log_files s \<and>
     log_mem s' = log_mem s \<and> log_build s' = log_build s \<and> mutex_id (buffer s') = mutex_id (buffer s) \<and>
     (entries (buffer s') = None \<longleftrightarrow> entries (buffer s) = None)"

lemma log_frame_refl [simp]: "log_frame s s"
  by (simp add: log_frame_def)

lemma log_frame_trans: "log_frame s s1 \<Longrightarrow> log_frame s1 s2 \<Longrightarrow> log_frame s s2"
  by (simp add: log_frame_def)

lemma log_to_console_frame: "container_log_to_console env e s = Some s' \<Longrightarrow> log_frame s s'"
  by (auto simp: container_log_to_console_def bind_eq_Some_conv log_frame_def)

lemma log_to_file_frame: "container_log_to_file env e s = Some s' \<Longrightarrow> log_frame s s'"
  by (auto simp: container_log_to_file_def bind_eq_Some_conv log_frame_def split: if_splits)

lemma log_to_memory_frame:
  assumes "container_log_to_memory env e s = Some s'"
  shows "log_frame s s'"
proof (cases "entries (buffer s) = None \<or> mutex_id (buffer s) = 0 \<or> \<not> env_obtain_mem env")
  case True
  with assms show ?thesis by (auto simp: container_log_to_memory_def split: if_splits)
next
  case False
  then obtain b where b: "ring_put e (buffer s) = Some b" "s' = s\<lparr>buffer := b\<rparr>"
    using assms by (auto simp: container_log_to_memory_def bind_eq_Some_conv)
  from ring_put_frame [OF b(1)] b(2) show ?thesis by (simp add: log_frame_def)
qed

lemma log_insert_frame:
  assumes "container_log_insert env lv f t s = Some s'"
  shows "log_frame s s'"
proof (cases "\<not> log_build s \<or> \<not> initialized s \<or> lv > min_level (config s)")
  case True
  with assms have "s' = s" by (simp add: container_log_insert_def)
  then show ?thesis by simp
next
  case False
  then obtain e s1 s2 where "if has_target CONTAINER_LOG_TARGET_CONSOLE (config s)
      then container_log_to_console env e s = Some s1 else s1 = s"
    "if has_target CONTAINER_LOG_TARGET_FILE (config s)
      then container_log_to_file env e s1 = Some s2 else s2 = s1"
    "if has_target CONTAINER_LOG_TARGET_MEMORY (config s)
      then container_log_to_memory env e s2 = Some s' else s' = s2"
    using assms by (fastforce simp: container_log_insert_def bind_eq_Some_conv simp del: not_less
        split: if_split_asm)
  then have "log_frame s s1" "log_frame s1 s2" "log_frame s2 s'"
    by (auto intro: log_to_console_frame log_to_file_frame log_to_memory_frame split: if_splits)
  then show ?thesis by (blast intro: log_frame_trans)
qed

text \<open>Blocks, semaphores and streams the log holds.\<close>

definition log_holds :: "container_log_state \<Rightarrow> int \<times> int \<times> int" where
  "log_holds s = (live (log_mem s), log_sems s, log_files s)"

lemma log_release_holds:
  "\<not> initialized (log_release s) \<and> buffer (log_release s) = buffer_zero \<and> \<not> log_file (log_release s) \<and>
   log_holds (log_release s) =
     (live (log_mem s) - (if entries (buffer s) = None then 0 else 1),
      log_sems s - (if file_mutex_id s = 0 then 0 else 1) - (if mutex_id (buffer s) = 0 then 0 else 1),
      log_files s - (if log_file s then 1 else 0))"
  by (cases "file_mutex_id s = 0"; cases "mutex_id (buffer s) = 0"; cases "log_file s";
      cases "entries (buffer s) = None")
    (simp_all add: log_release_def container_log_close_file_def log_reset_def log_holds_def
      free_block_def Let_def)

lemma log_destroy_releases:
  assumes "container_log_destroy env s = Some s'" "log_build s" "initialized s"
  obtains s1 where "log_frame s s1" "s' = log_release s1"
proof -
  obtain s1 where "container_log_insert env CONTAINER_LOG_INFO (Some ''container_log_destroy'')
      ''Container log subsystem destroying'' s = Some s1" "s' = log_release s1"
    using assms by (auto simp: container_log_destroy_def container_log_flush_def bind_eq_Some_conv)
  with log_insert_frame that show thesis by blast
qed

text \<open>The early returns of the initialisation are errors.\<close>

lemma log_init_memory_error: "log_init_memory env s = Inl (sc, s') \<Longrightarrow> sc \<noteq> RTEMS_SUCCESSFUL"
  by (auto simp: log_init_memory_def Let_def split: if_splits prod.splits option.splits)

lemma log_init_file_error: "log_init_file env s = Some (Inl (sc, s')) \<Longrightarrow> sc \<noteq> RTEMS_SUCCESSFUL"
  by (auto simp: log_init_file_def container_log_open_file_def bind_eq_Some_conv
      split: if_splits prod.splits)

lemma log_initialize_success:
  assumes "container_log_initialize env (Some c) s = Some (RTEMS_SUCCESSFUL, s1)" "log_build s"
    "\<not> initialized s"
  obtains sa sb where "log_init_memory env ((log_reset s)\<lparr>config := c\<rparr>) = Inr sa"
    "log_init_file env sa = Some (Inr sb)"
    "container_log_insert env CONTAINER_LOG_INFO (Some ''container_log_initialize'')
        ''Container log subsystem initialized'' (sb\<lparr>initialized := True\<rparr>) = Some s1"
proof (cases "log_init_memory env ((log_reset s)\<lparr>config := c\<rparr>)")
  case (Inl r)
  with assms have "log_init_memory env ((log_reset s)\<lparr>config := c\<rparr>) = Inl (RTEMS_SUCCESSFUL, s1)"
    by (simp add: container_log_initialize_def)
  then show ?thesis using log_init_memory_error by blast
next
  case (Inr sa)
  with assms obtain r where r: "log_init_file env sa = Some r"
    by (auto simp: container_log_initialize_def bind_eq_Some_conv)
  show ?thesis
  proof (cases r)
    case (Inl x)
    with assms Inr r have "log_init_file env sa = Some (Inl (RTEMS_SUCCESSFUL, s1))"
      by (simp add: container_log_initialize_def)
    then show ?thesis using log_init_file_error by blast
  next
    case (Inr sb)
    with \<open>log_init_memory env _ = Inr sa\<close> assms r that show ?thesis
      by (simp add: container_log_initialize_def bind_eq_Some_conv)
  qed
qed

text \<open>Starting the log and stopping it again gives back everything: for any configuration and
  environment in which the start succeeds with non-zero semaphore ids, stopping frees the ring, deletes
  both semaphores and closes the file, so that the blocks, semaphores and streams in use are those from
  before, and the log is not initialised.\<close>

theorem container_log_start_stop:
  assumes "container_log_initialize env (Some c) s = Some (RTEMS_SUCCESSFUL, s1)" "log_build s"
    "\<not> initialized s" "snd (env_sem_mem env) \<noteq> 0" "snd (env_sem_file env) \<noteq> 0"
    "container_log_destroy env' s1 = Some s2"
  shows "\<not> initialized s2 \<and> log_holds s2 = log_holds s"
proof -
  let ?s0 = "(log_reset s)\<lparr>config := c\<rparr>"
  obtain sa sb where a: "log_init_memory env ?s0 = Inr sa"
    and b: "log_init_file env sa = Some (Inr sb)"
    and i: "container_log_insert env CONTAINER_LOG_INFO (Some ''container_log_initialize'')
        ''Container log subsystem initialized'' (sb\<lparr>initialized := True\<rparr>) = Some s1"
    by (rule log_initialize_success [OF assms(1-3)])
  have sa: "log_build sa" "\<not> log_file sa" "file_mutex_id sa = 0" "log_files sa = log_files s"
    "live (log_mem sa) - (if entries (buffer sa) = None then 0 else 1) = live (log_mem s)"
    "log_sems sa - (if mutex_id (buffer sa) = 0 then 0 else 1) = log_sems s"
    using a assms(2,4)
    by (auto simp: log_init_memory_def log_reset_def malloc_def buffer_zero_def Let_def
        split: if_splits prod.splits)
  have sb: "log_build sb" "buffer sb = buffer sa" "log_mem sb = log_mem sa"
    "log_files sb - (if log_file sb then 1 else 0) = log_files s"
    "log_sems sb - (if file_mutex_id sb = 0 then 0 else 1) = log_sems sa"
    using b sa assms(5)
    by (auto simp: log_init_file_def container_log_open_file_def bind_eq_Some_conv
        split: if_splits prod.splits)
  have f: "log_frame (sb\<lparr>initialized := True\<rparr>) s1" by (rule log_insert_frame [OF i])
  then have "log_build s1" "initialized s1" using sb by (simp_all add: log_frame_def)
  then obtain s3 where s3: "log_frame s1 s3" "s2 = log_release s3"
    by (rule log_destroy_releases [OF assms(6)])
  have "log_frame (sb\<lparr>initialized := True\<rparr>) s3" by (rule log_frame_trans [OF f s3(1)])
  then show ?thesis using sa sb log_release_holds [of s3] s3(2)
    by (simp add: log_holds_def log_frame_def)
qed

theorem container_log_start_stop_witness:
  "\<exists>s1 s2. container_log_initialize demo_log_env (Some demo_log_config) demo_log = Some (RTEMS_SUCCESSFUL, s1) \<and>
     log_holds s1 = (1, 2, 1) \<and> container_log_destroy demo_log_env s1 = Some s2 \<and> log_holds s2 = log_holds demo_log"
proof -
  obtain s1 s2 where s: "container_log_initialize demo_log_env (Some demo_log_config) demo_log =
      Some (RTEMS_SUCCESSFUL, s1)" "log_holds s1 = (1, 2, 1)" "container_log_destroy demo_log_env s1 = Some s2"
    by (simp add: demo_log_simps container_log_initialize_def log_init_memory_def log_init_file_def
        log_reset_def malloc_def has_target_def CONTAINER_LOG_TARGET_MEMORY_def Let_def
        CONTAINER_LOG_TARGET_FILE_def container_log_open_file_def container_log_insert_def
        container_log_destroy_def log_holds_def less_container_log_level_def)
  have "\<not> initialized s2 \<and> log_holds s2 = log_holds demo_log"
    by (rule container_log_start_stop [OF s(1) _ _ _ _ s(3)]) (simp_all add: demo_log_simps)
  with s show ?thesis by blast
qed

text \<open>A start that fails to open the log file does not clean up: it calls
  \<open>container_log_destroy\<close>, which returns at once because the log is not yet initialised, so the
  ring buffer and its semaphore stay allocated while the log counts as not initialised.\<close>

theorem container_log_failed_start_leaks:
  assumes "log_build s" "\<not> initialized s" "has_target CONTAINER_LOG_TARGET_MEMORY c"
    "has_target CONTAINER_LOG_TARGET_FILE c" "\<not> oom (log_mem s) (brk (log_mem s))"
    "fst (env_sem_mem env) = RTEMS_SUCCESSFUL" "\<not> env_fopen env"
  shows "\<exists>s'. container_log_initialize env (Some c) s = Some (RTEMS_IO_ERROR, s') \<and> \<not> initialized s' \<and>
     live (log_mem s') = live (log_mem s) + 1 \<and> log_sems s' = log_sems s + 1"
  using assms
  by (cases "env_sem_mem env")
    (simp add: container_log_initialize_def log_init_memory_def log_reset_def malloc_def Let_def
      log_init_file_def container_log_open_file_def container_log_destroy_def)

theorem container_log_failed_start_leaks_witness:
  "\<exists>s'. container_log_initialize (demo_log_env\<lparr>env_fopen := False\<rparr>) (Some demo_log_config) demo_log =
       Some (RTEMS_IO_ERROR, s') \<and> \<not> initialized s' \<and> live (log_mem s') = 1 \<and> log_sems s' = 1"
  using container_log_failed_start_leaks [of demo_log demo_log_config "demo_log_env\<lparr>env_fopen := False\<rparr>"]
  by (simp add: demo_log_simps has_target_def CONTAINER_LOG_TARGET_MEMORY_def CONTAINER_LOG_TARGET_FILE_def)

end
