(* ===== verification/Veth.thy ===== *)
theory Veth
  imports NetContainer
begin

text \<open>
  The virtual Ethernet driver, \<open>libnetworking/net/if_veth.c\<close>: the bounded packet queue, the
  interface operations (transmit, receive, bring up, ioctl), and creating, pairing and destroying
  interfaces.

  A \<open>veth_softc\<close> begins with its \<open>struct arpcom\<close>, which begins with its \<open>struct ifnet\<close>, so one
  address names all three and one record holds the fields of all three that the driver uses. A packet
  is the address of its first mbuf. The calls into the BSD stack and the task manager are the fields of
  the parameter record \<open>veth_env\<close>. The queue's interrupt lock makes one queue operation atomic, so an
  operation is one function. The library theorems are: the queue is a bounded FIFO, no reachable
  sequence of driver operations dereferences or frees a dead block, and the two ends of a pair agree on
  the number of packets.
\<close>

section \<open>Data\<close>

record mbuf =
  m_data :: int
  m_len :: int
  pkthdr_len :: int
  rcvif :: ptr

type_synonym mheap = "addr \<rightharpoonup> mbuf"

text \<open>A queue entry is an allocated block and the packet it refers to.\<close>

record mbuf_queue =
  mq_head :: "(addr \<times> addr) list"
  mq_count :: int
  mq_max_size :: int

record veth_softc =
  if_unit :: int
  if_next :: ptr
  if_flags :: u32
  if_mtu :: u64
  if_snd :: "addr list"
  ifq_maxlen :: int
  if_ipackets :: u64
  if_ibytes :: u64
  if_opackets :: u64
  if_obytes :: u64
  if_oerrors :: u64
  ac_enaddr :: "u8 list"
  peer :: ptr
  rx_queue :: mbuf_queue
  rx_task_id :: u32
  sc_container :: ptr
  tx_packets :: u64
  tx_bytes :: u64
  rx_packets :: u64
  rx_bytes :: u64
  tx_dropped :: u64
  rx_dropped :: u64
  running :: bool

record veth_kernel = net_kernel +
  mbufs :: mheap
  softcs :: "addr \<rightharpoonup> veth_softc"
  mac_counter :: u32

datatype ioctl_command =
  SIOCSIFADDR | SIOCGIFADDR | SIOCSIFFLAGS | SIOCSIFMTU | SIOCADDMULTI | SIOCDELMULTI | SIOC_other

record 's veth_env =
  ether_input :: "addr \<Rightarrow> int \<Rightarrow> addr \<Rightarrow> 's \<Rightarrow> 's"
  ether_ioctl :: "addr \<Rightarrow> ioctl_command \<Rightarrow> 's \<Rightarrow> int \<times> 's"
  if_attach :: "addr \<Rightarrow> 's \<Rightarrow> 's"
  ether_ifattach :: "addr \<Rightarrow> 's \<Rightarrow> 's"
  task_create :: "'s \<Rightarrow> rtems_status_code \<times> u32 \<times> 's"
  task_start :: "u32 \<Rightarrow> addr \<Rightarrow> 's \<Rightarrow> rtems_status_code \<times> 's"
  wake_after :: "nat \<Rightarrow> 's \<Rightarrow> 's"
  task_delete_self :: "'s \<Rightarrow> 's"

definition VETH_QUEUE_SIZE :: int where "VETH_QUEUE_SIZE = 64"
definition IFF_UP :: u32 where "IFF_UP = 0x0001"
definition IFF_BROADCAST :: u32 where "IFF_BROADCAST = 0x0002"
definition IFF_RUNNING :: u32 where "IFF_RUNNING = 0x0040"
definition IFF_OACTIVE :: u32 where "IFF_OACTIVE = 0x0400"
definition IFF_SIMPLEX :: u32 where "IFF_SIMPLEX = 0x0800"
definition IFF_MULTICAST :: u32 where "IFF_MULTICAST = 0x8000"
definition ether_header_size :: int where "ether_header_size = 14"

section \<open>The packet queue\<close>

text \<open>Freeing a packet: freeing one that is not live is undefined.\<close>

definition m_freem :: "addr \<Rightarrow> mheap \<Rightarrow> mheap option" where
  "m_freem m h = do { _ \<leftarrow> h m; Some (h(m := None)) }"

definition mbuf_queue_init :: "mbuf_queue option \<Rightarrow> int \<Rightarrow> int \<times> mbuf_queue option" where
  "mbuf_queue_init queue maxsz =
     (if queue = None \<or> maxsz \<le> 0 then (-1, queue)
      else (0, Some \<lparr>mq_head = [], mq_count = 0, mq_max_size = maxsz\<rparr>))"

definition mbuf_queue_enqueue ::
  "mbuf_queue option \<Rightarrow> ptr \<Rightarrow> Memory \<Rightarrow> mheap \<Rightarrow> (int \<times> mbuf_queue option \<times> Memory \<times> mheap) option" where
  "mbuf_queue_enqueue queue m mm h =
     (case (queue, m) of
        (Some q, Some a) \<Rightarrow>
          if mq_max_size q \<le> mq_count q then do { h' \<leftarrow> m_freem a h; Some (-1, queue, mm, h') }
          else (case malloc mm of
             (None, m1) \<Rightarrow> do { h' \<leftarrow> m_freem a h; Some (-1, queue, m1, h') }
           | (Some e, m1) \<Rightarrow>
               Some (0, Some (q\<lparr>mq_head := mq_head q @ [(e, a)], mq_count := mq_count q + 1\<rparr>), m1, h))
      | _ \<Rightarrow> Some (-1, queue, mm, h))"

definition mbuf_queue_dequeue :: "mbuf_queue option \<Rightarrow> Memory \<Rightarrow> ptr \<times> mbuf_queue option \<times> Memory" where
  "mbuf_queue_dequeue queue mm =
     (case queue of
        None \<Rightarrow> (None, None, mm)
      | Some q \<Rightarrow>
          (case mq_head q of
             [] \<Rightarrow> (None, queue, mm)
           | (e, m) # rest \<Rightarrow>
               (Some m, Some (q\<lparr>mq_head := rest, mq_count := mq_count q - 1\<rparr>), free_block mm)))"

text \<open>The loop of \<open>mbuf_queue_destroy\<close>: dequeue and free until the queue is empty.\<close>

function mbuf_queue_destroy_loop ::
  "mbuf_queue \<Rightarrow> Memory \<Rightarrow> mheap \<Rightarrow> (mbuf_queue \<times> Memory \<times> mheap) option" where
  "mbuf_queue_destroy_loop q mm h =
     (case mbuf_queue_dequeue (Some q) mm of
        (Some m, Some q', mm') \<Rightarrow>
          (case m_freem m h of None \<Rightarrow> None | Some h' \<Rightarrow> mbuf_queue_destroy_loop q' mm' h')
      | (_, _, _) \<Rightarrow> Some (q, mm, h))"
  by auto
termination
  by (relation "measure (\<lambda>(q, _, _). length (mq_head q))")
     (auto simp: mbuf_queue_dequeue_def split: list.splits)

declare mbuf_queue_destroy_loop.simps [simp del]

definition mbuf_queue_destroy ::
  "mbuf_queue option \<Rightarrow> Memory \<Rightarrow> mheap \<Rightarrow> (mbuf_queue option \<times> Memory \<times> mheap) option" where
  "mbuf_queue_destroy queue mm h =
     (case queue of
        None \<Rightarrow> Some (None, mm, h)
      | Some q \<Rightarrow> do { (q', mm', h') \<leftarrow> mbuf_queue_destroy_loop q mm h; Some (Some q', mm', h') })"

section \<open>Interface operations\<close>

definition upd_sc :: "addr \<Rightarrow> (veth_softc \<Rightarrow> veth_softc) \<Rightarrow> 'a veth_kernel_scheme \<Rightarrow> 'a veth_kernel_scheme" where
  "upd_sc a f s = s\<lparr>softcs := (softcs s)(a := map_option f (softcs s a))\<rparr>"

definition veth_generate_mac :: "'a veth_kernel_scheme \<Rightarrow> u8 list \<times> 'a veth_kernel_scheme" where
  "veth_generate_mac s =
     (let ticks = ticks_since_boot s in
      ([0x02, 0x00, 0x00, ucast (drop_bit 16 ticks AND 0xFF), ucast (drop_bit 8 ticks AND 0xFF),
        ucast ((ticks XOR mac_counter s) AND 0xFF)],
       s\<lparr>mac_counter := mac_counter s + 1\<rparr>))"

text \<open>The receiver works in the network container of the interface: the executing task gets a
  temporary \<open>Container\<close> with only that pointer set, and its own one back afterwards. The second
  test reads \<open>sc->container\<close> again.\<close>

definition veth_enter_net ::
  "veth_softc \<Rightarrow> 'a veth_kernel_scheme \<Rightarrow> (Container option \<times> 'a veth_kernel_scheme) option" where
  "veth_enter_net c s =
     (if RTEMSCFG_NET_CONTAINER (cfg s) \<and> sc_container c \<noteq> None then do {
        t \<leftarrow> executing s;
        th \<leftarrow> threads s t;
        Some (container th,
          upd_thread t (container_update (\<lambda>_. Some (Container_zero\<lparr>netContainer := sc_container c\<rparr>))) s) }
      else Some (None, s))"

definition veth_leave_net ::
  "addr \<Rightarrow> Container option \<Rightarrow> 'a veth_kernel_scheme \<Rightarrow> 'a veth_kernel_scheme option" where
  "veth_leave_net a saved s =
     (if RTEMSCFG_NET_CONTAINER (cfg s) then do {
        c \<leftarrow> softcs s a;
        if sc_container c \<noteq> None then do {
          t \<leftarrow> executing s;
          _ \<leftarrow> threads s t;
          Some (upd_thread t (container_update (\<lambda>_. saved)) s) }
        else Some s }
      else Some s)"

definition rx_statistics :: "int \<Rightarrow> veth_softc \<Rightarrow> veth_softc" where
  "rx_statistics len c = c\<lparr>rx_packets := rx_packets c + 1, rx_bytes := rx_bytes c + of_int len,
     if_ipackets := if_ipackets c + 1, if_ibytes := if_ibytes c + of_int len\<rparr>"

text \<open>The body of the receiver's loop.\<close>

definition veth_rx_once ::
  "'a veth_kernel_scheme veth_env \<Rightarrow> addr \<Rightarrow> 'a veth_kernel_scheme \<Rightarrow> 'a veth_kernel_scheme option" where
  "veth_rx_once E a s = do {
     c \<leftarrow> softcs s a;
     case mbuf_queue_dequeue (Some (rx_queue c)) (mem s) of
       (Some m, Some q, mm) \<Rightarrow> do {
         (saved, s1) \<leftarrow> veth_enter_net c (upd_sc a (rx_queue_update (\<lambda>_. q)) (s\<lparr>mem := mm\<rparr>));
         p \<leftarrow> mbufs s1 m;
         let s2 = upd_sc a (rx_statistics (pkthdr_len p)) s1;
         let s3 = s2\<lparr>mbufs := (mbufs s2)(m \<mapsto>
           p\<lparr>rcvif := Some a, m_data := m_data p + ether_header_size, m_len := m_len p - ether_header_size,
             pkthdr_len := pkthdr_len p - ether_header_size\<rparr>)\<rparr>;
         veth_leave_net a saved (ether_input E a (m_data p) m s3) }
     | (_, _, _) \<Rightarrow> Some (wake_after E 1 s) }"

text \<open>The receiver task runs until the interface is brought down, which may be never.\<close>

partial_function (option) veth_rx_task ::
  "'a veth_kernel_scheme veth_env \<Rightarrow> addr \<Rightarrow> 'a veth_kernel_scheme \<Rightarrow> 'a veth_kernel_scheme option" where
  "veth_rx_task E a s = do {
     c \<leftarrow> softcs s a;
     if running c then do { s1 \<leftarrow> veth_rx_once E a s; veth_rx_task E a s1 }
     else Some (task_delete_self E s) }"

definition tx_statistics :: "int \<Rightarrow> int \<Rightarrow> veth_softc \<Rightarrow> veth_softc" where
  "tx_statistics r len c =
     (if r = 0 then c\<lparr>tx_packets := tx_packets c + 1, tx_bytes := tx_bytes c + of_int len,
        if_opackets := if_opackets c + 1, if_obytes := if_obytes c + of_int len\<rparr>
      else c\<lparr>tx_dropped := tx_dropped c + 1, if_oerrors := if_oerrors c + 1\<rparr>)"

text \<open>One round of the transmit loop for packet \<open>m\<close>, the head of the send queue, with \<open>ms\<close> behind it.\<close>

definition veth_xmit ::
  "addr \<Rightarrow> addr \<Rightarrow> addr list \<Rightarrow> 'a veth_kernel_scheme \<Rightarrow> 'a veth_kernel_scheme option" where
  "veth_xmit a m ms s = do {
     let s1 = upd_sc a (if_snd_update (\<lambda>_. ms)) s;
     p \<leftarrow> mbufs s1 m;
     c \<leftarrow> softcs s1 a;
     b \<leftarrow> peer c;
     pc \<leftarrow> softcs s1 b;
     (r, q, mm, h) \<leftarrow> mbuf_queue_enqueue (Some (rx_queue pc)) (Some m) (mem s1) (mbufs s1);
     q \<leftarrow> q;
     Some (upd_sc a (tx_statistics r (pkthdr_len p))
       (upd_sc b (rx_queue_update (\<lambda>_. q)) (s1\<lparr>mem := mm, mbufs := h\<rparr>))) }"

fun veth_start_loop ::
  "addr \<Rightarrow> addr list \<Rightarrow> 'a veth_kernel_scheme \<Rightarrow> 'a veth_kernel_scheme option" where
  "veth_start_loop a [] s = Some s"
| "veth_start_loop a (m # ms) s = do { s1 \<leftarrow> veth_xmit a m ms s; veth_start_loop a ms s1 }"

definition veth_start :: "addr \<Rightarrow> 'a veth_kernel_scheme \<Rightarrow> 'a veth_kernel_scheme option" where
  "veth_start a s = do {
     c \<leftarrow> softcs s a;
     if \<not> running c \<or> peer c = None then Some s else veth_start_loop a (if_snd c) s }"

definition veth_init ::
  "'a veth_kernel_scheme veth_env \<Rightarrow> addr \<Rightarrow> 'a veth_kernel_scheme \<Rightarrow> 'a veth_kernel_scheme option" where
  "veth_init E a s = do {
     c \<leftarrow> softcs s a;
     let s1 = upd_sc a (\<lambda>c. c\<lparr>running := True, if_flags := (if_flags c OR IFF_RUNNING) AND NOT IFF_OACTIVE\<rparr>) s;
     if rx_task_id c = 0 then
       (case task_create E s1 of
          (RTEMS_SUCCESSFUL, i, s2) \<Rightarrow>
            (case task_start E i a (upd_sc a (rx_task_id_update (\<lambda>_. i)) s2) of
               (RTEMS_SUCCESSFUL, s3) \<Rightarrow> Some s3
             | (_, s3) \<Rightarrow> Some (upd_sc a (rx_task_id_update (\<lambda>_. 0)) s3))
        | (_, _, s2) \<Rightarrow> Some s2)
     else Some s1 }"

text \<open>The branch of the ioctl handler that shuts the interface down.\<close>

definition veth_down :: "addr \<Rightarrow> 'a veth_kernel_scheme \<Rightarrow> 'a veth_kernel_scheme" where
  "veth_down a s = upd_sc a (\<lambda>c. c\<lparr>running := False, if_flags := if_flags c AND NOT IFF_RUNNING\<rparr>) s"

definition veth_ioctl ::
  "'a veth_kernel_scheme veth_env \<Rightarrow> addr \<Rightarrow> ioctl_command \<Rightarrow> int \<Rightarrow> 'a veth_kernel_scheme \<Rightarrow>
     (int \<times> 'a veth_kernel_scheme) option" where
  "veth_ioctl E a command ifr_mtu s = do {
     c \<leftarrow> softcs s a;
     if command = SIOCSIFADDR \<or> command = SIOCGIFADDR then
       (case ether_ioctl E a command s of
          (error, s1) \<Rightarrow>
            (case (if RTEMSCFG_NET_CONTAINER (cfg s1) \<and> command = SIOCSIFADDR \<and> error = 0
                   then do { t \<leftarrow> executing s1; thread_ns netContainer s1 t } else None) of
               None \<Rightarrow> Some (error, s1)
             | Some n \<Rightarrow> Some (error, upd_sc a (sc_container_update (\<lambda>_. Some n)) s1)))
     else if command = SIOCSIFFLAGS then
       (if if_flags c AND IFF_UP \<noteq> 0 then
          (if if_flags c AND IFF_RUNNING = 0 then do { s1 \<leftarrow> veth_init E a s; Some (0, s1) } else Some (0, s))
        else if if_flags c AND IFF_RUNNING \<noteq> 0 then
          Some (0, veth_down a s)
        else Some (0, s))
     else if command = SIOCSIFMTU then
       (if ifr_mtu < 68 \<or> 65535 < ifr_mtu then Some (EINVAL, s)
        else Some (0, upd_sc a (if_mtu_update (\<lambda>_. of_int ifr_mtu)) s))
     else if command = SIOCADDMULTI \<or> command = SIOCDELMULTI then Some (0, s)
     else Some (EINVAL, s) }"

section \<open>Creating, pairing and destroying interfaces\<close>

text \<open>A read of a C string: the terminator is the last readable character.\<close>

definition char_at :: "string \<Rightarrow> nat \<Rightarrow> char option" where
  "char_at str i = (if i < length str then Some (str ! i) else if i = length str then Some NUL else None)"

definition veth_softc_new :: "int \<Rightarrow> u8 list \<Rightarrow> mbuf_queue \<Rightarrow> veth_softc" where
  "veth_softc_new unit' mac q =
     \<lparr>if_unit = unit', if_next = None, if_flags = IFF_BROADCAST OR IFF_SIMPLEX OR IFF_MULTICAST, if_mtu = 1500,
      if_snd = [], ifq_maxlen = VETH_QUEUE_SIZE, if_ipackets = 0, if_ibytes = 0, if_opackets = 0, if_obytes = 0,
      if_oerrors = 0, ac_enaddr = mac, peer = None, rx_queue = q, rx_task_id = 0, sc_container = None,
      tx_packets = 0, tx_bytes = 0, rx_packets = 0, rx_bytes = 0, tx_dropped = 0, rx_dropped = 0, running = False\<rparr>"

definition veth_attach ::
  "'a veth_kernel_scheme veth_env \<Rightarrow> addr \<Rightarrow> ptr \<Rightarrow> 'a veth_kernel_scheme \<Rightarrow> 'a veth_kernel_scheme option" where
  "veth_attach E a container_group s =
     (case (if RTEMSCFG_NET_CONTAINER (cfg s) then container_group else None) of
        Some g \<Rightarrow> do {
          ng \<leftarrow> groups s g;
          Some (upd_sc a (if_next_update (\<lambda>_. ifnet_p ng)) s
            \<lparr>groups := (groups s)(g \<mapsto> ng\<lparr>ifnet_p := Some a\<rparr>)\<rparr>) }
      | None \<Rightarrow> Some (if_attach E a s))"

definition veth_create ::
  "'a veth_kernel_scheme veth_env \<Rightarrow> string option \<Rightarrow> ptr \<Rightarrow> 'a veth_kernel_scheme \<Rightarrow>
     (ptr \<times> 'a veth_kernel_scheme) option" where
  "veth_create E name container_group s =
     (case name of
        None \<Rightarrow> Some (None, s)
      | Some str \<Rightarrow>
     (case malloc (mem s) of
        (None, m) \<Rightarrow> Some (None, s\<lparr>mem := m\<rparr>)
      | (Some a, m) \<Rightarrow>
     (case mbuf_queue_init (Some \<lparr>mq_head = [], mq_count = 0, mq_max_size = 0\<rparr>) VETH_QUEUE_SIZE of
        (r, queue) \<Rightarrow>
        if r \<noteq> 0 then Some (None, s\<lparr>mem := free_block m\<rparr>)
        else do {
          q \<leftarrow> queue;
          digit \<leftarrow> char_at str 4;
          let (mac, s1) = veth_generate_mac (s\<lparr>mem := m\<rparr>);
          s2 \<leftarrow> veth_attach E a container_group
            (s1\<lparr>softcs := (softcs s1)(a \<mapsto> veth_softc_new (int (of_char digit) - 48) mac q)\<rparr>);
          Some (Some a, ether_ifattach E a s2) })))"

definition veth_set_pair :: "ptr \<Rightarrow> ptr \<Rightarrow> 'a veth_kernel_scheme \<Rightarrow> (int \<times> 'a veth_kernel_scheme) option" where
  "veth_set_pair veth1 veth2 s =
     (case (veth1, veth2) of
        (Some a, Some b) \<Rightarrow>
          if a = b then Some (-1, s)
          else do {
            _ \<leftarrow> softcs s a;
            _ \<leftarrow> softcs s b;
            Some (0, upd_sc b (peer_update (\<lambda>_. Some a)) (upd_sc a (peer_update (\<lambda>_. Some b)) s)) }
      | _ \<Rightarrow> Some (-1, s))"

text \<open>Destroying: up to the ten ticks in which the receiver may finish, and after them. The second half
  also yields the unit number that the closing message reads through \<open>ifp\<close>, \<open>None\<close> when that block
  is gone.\<close>

definition veth_destroy_begin ::
  "'a veth_kernel_scheme veth_env \<Rightarrow> addr \<Rightarrow> 'a veth_kernel_scheme \<Rightarrow> 'a veth_kernel_scheme option" where
  "veth_destroy_begin E a s = do {
     c \<leftarrow> softcs s a;
     let s1 = upd_sc a (running_update (\<lambda>_. False)) s;
     Some (if rx_task_id c = 0 then s1 else wake_after E 10 s1) }"

definition veth_destroy_finish ::
  "addr \<Rightarrow> 'a veth_kernel_scheme \<Rightarrow> (int option \<times> 'a veth_kernel_scheme) option" where
  "veth_destroy_finish a s = do {
     let s1 = upd_sc a (rx_task_id_update (\<lambda>_. 0)) s;
     c \<leftarrow> softcs s1 a;
     s2 \<leftarrow> (case peer c of
        None \<Rightarrow> Some s1
      | Some b \<Rightarrow> do {
          _ \<leftarrow> softcs s1 b;
          Some (upd_sc a (peer_update (\<lambda>_. None)) (upd_sc b (peer_update (\<lambda>_. None)) s1)) });
     c2 \<leftarrow> softcs s2 a;
     (_, mm, h) \<leftarrow> mbuf_queue_destroy (Some (rx_queue c2)) (mem s2) (mbufs s2);
     let s3 = s2\<lparr>mem := free_block mm, mbufs := h, softcs := (softcs s2)(a := None)\<rparr>;
     Some (map_option if_unit (softcs s3 a), s3) }"

definition veth_destroy ::
  "'a veth_kernel_scheme veth_env \<Rightarrow> ptr \<Rightarrow> 'a veth_kernel_scheme \<Rightarrow>
     (int option \<times> 'a veth_kernel_scheme) option" where
  "veth_destroy E sc s =
     (case sc of
        None \<Rightarrow> Some (None, s)
      | Some a \<Rightarrow> do { s1 \<leftarrow> veth_destroy_begin E a s; veth_destroy_finish a s1 })"

section \<open>The queue is a bounded FIFO\<close>

text \<open>The contract of a bounded queue whose insertions may be refused: what is accepted comes out in
  order, at most \<open>cap\<close> packets are held, and every block taken for an entry is given back.\<close>

datatype 'x fifo_op = Enq 'x | Deq

fun fifo_run ::
  "('x \<Rightarrow> 'q \<Rightarrow> (bool \<times> 'q) option) \<Rightarrow> ('q \<Rightarrow> 'x option \<times> 'q) \<Rightarrow> 'x fifo_op list \<Rightarrow> 'q \<Rightarrow>
     ('x list \<times> 'x list \<times> 'q) option" where
  "fifo_run enq deq [] q = Some ([], [], q)"
| "fifo_run enq deq (Enq x # ops) q = do {
     (ok, q1) \<leftarrow> enq x q;
     (acc, out, q2) \<leftarrow> fifo_run enq deq ops q1;
     Some (if ok then x # acc else acc, out, q2) }"
| "fifo_run enq deq (Deq # ops) q =
     (case deq q of (y, q1) \<Rightarrow> do {
        (acc, out, q2) \<leftarrow> fifo_run enq deq ops q1;
        Some (acc, (case y of None \<Rightarrow> out | Some x \<Rightarrow> x # out), q2) })"

locale bounded_fifo =
  fixes wf :: "'q \<Rightarrow> bool" and abs :: "'q \<Rightarrow> 'x list" and cap :: "'q \<Rightarrow> int" and blocks :: "'q \<Rightarrow> int"
    and enq :: "'x \<Rightarrow> 'q \<Rightarrow> (bool \<times> 'q) option" and deq :: "'q \<Rightarrow> 'x option \<times> 'q"
  assumes bounded: "wf q \<Longrightarrow> int (length (abs q)) \<le> cap q"
    and enq_law: "wf q \<Longrightarrow> enq x q = Some (ok, q') \<Longrightarrow>
      wf q' \<and> cap q' = cap q \<and> blocks q' = blocks q \<and> abs q' = (if ok then abs q @ [x] else abs q)"
    and deq_law: "wf q \<Longrightarrow> deq q = (y, q') \<Longrightarrow>
      wf q' \<and> cap q' = cap q \<and> blocks q' = blocks q \<and>
      (case y of None \<Rightarrow> abs q = [] \<and> abs q' = [] | Some x \<Rightarrow> abs q = x # abs q')"
begin

lemma run_law:
  "wf q \<Longrightarrow> fifo_run enq deq ops q = Some (acc, out, q') \<Longrightarrow>
     wf q' \<and> cap q' = cap q \<and> blocks q' = blocks q \<and> abs q @ acc = out @ abs q'"
proof (induction ops arbitrary: q acc out)
  case Nil
  then show ?case by simp
next
  case (Cons op ops)
  show ?case
  proof (cases op)
    case (Enq x)
    with Cons.prems(2) obtain ok q1 acc1 where e: "enq x q = Some (ok, q1)"
      and r: "fifo_run enq deq ops q1 = Some (acc1, out, q')" and acc: "acc = (if ok then x # acc1 else acc1)"
      by (auto simp: bind_eq_Some_conv)
    from enq_law [OF Cons.prems(1) e] Cons.IH [OF _ r] acc show ?thesis by (auto split: if_splits)
  next
    case Deq
    obtain y q1 where d: "deq q = (y, q1)" by fastforce
    with Deq Cons.prems(2) obtain out1 where r: "fifo_run enq deq ops q1 = Some (acc, out1, q')"
      and out: "out = (case y of None \<Rightarrow> out1 | Some x \<Rightarrow> x # out1)"
      by (auto simp: bind_eq_Some_conv)
    from deq_law [OF Cons.prems(1) d] Cons.IH [OF _ r] out show ?thesis by (auto split: option.splits)
  qed
qed

lemma run_bounded:
  "wf q \<Longrightarrow> fifo_run enq deq ops q = Some (acc, out, q') \<Longrightarrow> int (length (abs q')) \<le> cap q"
  using run_law [of q ops acc out q'] bounded [of q'] by simp

end

text \<open>The driver's queue, with the allocator and the packets it works on.\<close>

type_synonym mq_state = "mbuf_queue \<times> Memory \<times> mheap"

definition mq_wf :: "mbuf_queue \<Rightarrow> bool" where
  "mq_wf q \<longleftrightarrow> mq_count q = int (length (mq_head q)) \<and> mq_count q \<le> mq_max_size q"

definition mq_packets :: "mbuf_queue \<Rightarrow> addr list" where
  "mq_packets q = map snd (mq_head q)"

definition mq_blocks :: "mq_state \<Rightarrow> int" where
  "mq_blocks = (\<lambda>(q, mm, _). live mm - int (length (mq_head q)))"

definition mq_enq :: "addr \<Rightarrow> mq_state \<Rightarrow> (bool \<times> mq_state) option" where
  "mq_enq m = (\<lambda>(q, mm, h). do {
     (r, q', mm', h') \<leftarrow> mbuf_queue_enqueue (Some q) (Some m) mm h;
     q' \<leftarrow> q';
     Some (r = 0, q', mm', h') })"

definition mq_deq :: "mq_state \<Rightarrow> ptr \<times> mq_state" where
  "mq_deq = (\<lambda>(q, mm, h). case mbuf_queue_dequeue (Some q) mm of (m, q', mm') \<Rightarrow> (m, the q', mm', h))"

text \<open>What an insertion does on each branch.\<close>

lemma mbuf_queue_enqueueE:
  assumes "mbuf_queue_enqueue (Some q) (Some m) mm h = Some (r, q', mm', h')"
  obtains (stored) e where "r = 0" "q' = Some (q\<lparr>mq_head := mq_head q @ [(e, m)], mq_count := mq_count q + 1\<rparr>)"
      "mm' = mm\<lparr>brk := Suc (brk mm), live := live mm + 1\<rparr>" "h' = h" "mq_count q < mq_max_size q"
  | (dropped) "r = -1" "q' = Some q" "h m \<noteq> None" "h' = h(m := None)" "live mm' = live mm"
      "brk mm \<le> brk mm'"
proof (cases "mq_count q < mq_max_size q \<and> \<not> oom mm (brk mm)")
  case True
  then have "malloc mm = (Some (brk mm), mm\<lparr>brk := Suc (brk mm), live := live mm + 1\<rparr>)"
    by (simp add: malloc_def)
  with assms True show ?thesis by (intro stored [of "brk mm"]) (auto simp: mbuf_queue_enqueue_def)
next
  case False
  with assms show ?thesis
    by (intro dropped) (auto simp: mbuf_queue_enqueue_def malloc_def m_freem_def bind_eq_Some_conv split: if_splits)
qed

lemma mbuf_queue_enqueue_safe:
  "h m = Some p \<Longrightarrow> \<exists>r q' mm' h'. mbuf_queue_enqueue (Some q) (Some m) mm h = Some (r, Some q', mm', h')"
  by (auto simp: mbuf_queue_enqueue_def m_freem_def malloc_def)

lemma mbuf_queue_dequeue_Cons:
  "mq_head q = (e, m) # rest \<Longrightarrow> mbuf_queue_dequeue (Some q) mm =
     (Some m, Some (q\<lparr>mq_head := rest, mq_count := mq_count q - 1\<rparr>), free_block mm)"
  by (simp add: mbuf_queue_dequeue_def)

lemma mbuf_queue_dequeue_Nil: "mq_head q = [] \<Longrightarrow> mbuf_queue_dequeue (Some q) mm = (None, Some q, mm)"
  by (simp add: mbuf_queue_dequeue_def)

interpretation mq: bounded_fifo "\<lambda>x. mq_wf (fst x)" "\<lambda>x. mq_packets (fst x)" "\<lambda>x. mq_max_size (fst x)"
  mq_blocks mq_enq mq_deq
proof
  fix q :: mq_state
  assume "mq_wf (fst q)"
  then show "int (length (mq_packets (fst q))) \<le> mq_max_size (fst q)"
    by (simp add: mq_wf_def mq_packets_def)
next
  fix q q' :: mq_state and m ok
  assume wf: "mq_wf (fst q)" and e: "mq_enq m q = Some (ok, q')"
  obtain q0 mm h where q: "q = (q0, mm, h)" by (cases q) auto
  from e q obtain r q1 mm' h' where e0: "mbuf_queue_enqueue (Some q0) (Some m) mm h = Some (r, Some q1, mm', h')"
    and q': "ok = (r = 0)" "q' = (q1, mm', h')" by (auto simp: mq_enq_def bind_eq_Some_conv)
  from e0 show "mq_wf (fst q') \<and> mq_max_size (fst q') = mq_max_size (fst q) \<and> mq_blocks q' = mq_blocks q \<and>
    mq_packets (fst q') = (if ok then mq_packets (fst q) @ [m] else mq_packets (fst q))"
    by (cases rule: mbuf_queue_enqueueE) (use wf q q' in \<open>auto simp: mq_wf_def mq_packets_def mq_blocks_def\<close>)
next
  fix q q' :: mq_state and y
  assume wf: "mq_wf (fst q)" and d: "mq_deq q = (y, q')"
  obtain q0 mm h where q: "q = (q0, mm, h)" by (cases q) auto
  show "mq_wf (fst q') \<and> mq_max_size (fst q') = mq_max_size (fst q) \<and> mq_blocks q' = mq_blocks q \<and>
    (case y of None \<Rightarrow> mq_packets (fst q) = [] \<and> mq_packets (fst q') = []
     | Some x \<Rightarrow> mq_packets (fst q) = x # mq_packets (fst q'))"
    using wf d q by (cases "mq_head q0")
      (auto simp: mq_deq_def mq_wf_def mq_packets_def mq_blocks_def mbuf_queue_dequeue_def)
qed

text \<open>A queue is \<open>able\<close> to take the given packets when inserting them cannot fail to return, and
  \<open>plenty\<close> when only a full queue makes it refuse one. Then it behaves exactly like a list of bounded
  length.\<close>

fun fifo_spec :: "int \<Rightarrow> 'x fifo_op list \<Rightarrow> 'x list \<Rightarrow> 'x list \<times> 'x list \<times> 'x list" where
  "fifo_spec k [] xs = ([], [], xs)"
| "fifo_spec k (Enq x # ops) xs =
     (if int (length xs) < k
      then (case fifo_spec k ops (xs @ [x]) of (acc, out, ys) \<Rightarrow> (x # acc, out, ys))
      else fifo_spec k ops xs)"
| "fifo_spec k (Deq # ops) [] = fifo_spec k ops []"
| "fifo_spec k (Deq # ops) (x # xs) = (case fifo_spec k ops xs of (acc, out, ys) \<Rightarrow> (acc, x # out, ys))"

fun fifo_args :: "'x fifo_op list \<Rightarrow> 'x list" where
  "fifo_args [] = []"
| "fifo_args (Enq x # ops) = x # fifo_args ops"
| "fifo_args (Deq # ops) = fifo_args ops"

locale reliable_fifo = bounded_fifo +
  fixes able :: "'b list \<Rightarrow> 'a \<Rightarrow> bool" and plenty :: "'a \<Rightarrow> bool"
  assumes able_enq: "able (x # xs) q \<Longrightarrow> \<exists>ok q'. enq x q = Some (ok, q') \<and> able xs q'"
    and able_deq: "able xs q \<Longrightarrow> able xs (snd (deq q))"
    and plenty_enq: "wf q \<Longrightarrow> plenty q \<Longrightarrow> enq x q = Some (ok, q') \<Longrightarrow>
      plenty q' \<and> ok = (int (length (abs q)) < cap q)"
    and plenty_deq: "plenty q \<Longrightarrow> plenty (snd (deq q))"
begin

lemma run_total: "able (fifo_args ops) q \<Longrightarrow> \<exists>acc out q'. fifo_run enq deq ops q = Some (acc, out, q')"
proof (induction ops arbitrary: q)
  case Nil
  then show ?case by simp
next
  case (Cons op ops)
  show ?case
  proof (cases op)
    case (Enq x)
    with Cons.prems able_enq [of x "fifo_args ops" q] obtain ok q1 where e: "enq x q = Some (ok, q1)"
      and "able (fifo_args ops) q1" by auto
    with Cons.IH [of q1] Enq show ?thesis by auto
  next
    case Deq
    with Cons.prems able_deq [of "fifo_args ops" q] Cons.IH [of "snd (deq q)"] show ?thesis
      by (auto split: prod.splits)
  qed
qed

lemma run_spec:
  "wf q \<Longrightarrow> plenty q \<Longrightarrow> fifo_run enq deq ops q = Some (acc, out, q') \<Longrightarrow>
     (acc, out, abs q') = fifo_spec (cap q) ops (abs q)"
proof (induction ops arbitrary: q acc out)
  case Nil
  then show ?case by simp
next
  case (Cons op ops)
  show ?case
  proof (cases op)
    case (Enq x)
    with Cons.prems(3) obtain ok q1 acc1 where e: "enq x q = Some (ok, q1)"
      and r: "fifo_run enq deq ops q1 = Some (acc1, out, q')" and acc: "acc = (if ok then x # acc1 else acc1)"
      by (auto simp: bind_eq_Some_conv)
    from plenty_enq [OF Cons.prems(1,2) e] have q1: "plenty q1" "ok = (int (length (abs q)) < cap q)" by auto
    from enq_law [OF Cons.prems(1) e] Cons.IH [OF _ q1(1) r] q1(2) acc Enq show ?thesis
      by (auto split: prod.splits if_splits)
  next
    case Deq
    obtain y q1 where d: "deq q = (y, q1)" by fastforce
    with Deq Cons.prems(3) obtain out1 where r: "fifo_run enq deq ops q1 = Some (acc, out1, q')"
      and out: "out = (case y of None \<Rightarrow> out1 | Some x \<Rightarrow> x # out1)"
      by (auto simp: bind_eq_Some_conv)
    from plenty_deq [OF Cons.prems(2)] d have "plenty q1" by simp
    with deq_law [OF Cons.prems(1) d] Cons.IH [OF _ _ r] out Deq show ?thesis
      by (auto split: option.splits prod.splits)
  qed
qed

end

definition mq_able :: "addr list \<Rightarrow> mq_state \<Rightarrow> bool" where
  "mq_able ms = (\<lambda>(q, mm, h). distinct ms \<and> (\<forall>m \<in> set ms. h m \<noteq> None))"

definition mq_plenty :: "mq_state \<Rightarrow> bool" where
  "mq_plenty = (\<lambda>(q, mm, h). oom mm = (\<lambda>_. False))"

interpretation mqr: reliable_fifo "\<lambda>x. mq_wf (fst x)" "\<lambda>x. mq_packets (fst x)" "\<lambda>x. mq_max_size (fst x)"
  mq_blocks mq_enq mq_deq mq_able mq_plenty
proof
  fix m ms and q :: mq_state
  assume a: "mq_able (m # ms) q"
  obtain q0 mm h where q: "q = (q0, mm, h)" by (cases q) auto
  from a q obtain p where "h m = Some p" by (auto simp: mq_able_def)
  from mbuf_queue_enqueue_safe [of h m p q0 mm, OF this] obtain r q1 mm' h' where
    e: "mbuf_queue_enqueue (Some q0) (Some m) mm h = Some (r, Some q1, mm', h')" by blast
  from e have "mq_able ms (q1, mm', h')"
    by (cases rule: mbuf_queue_enqueueE) (use a q in \<open>auto simp: mq_able_def\<close>)
  with e q show "\<exists>ok q'. mq_enq m q = Some (ok, q') \<and> mq_able ms q'" by (simp add: mq_enq_def)
next
  fix ms and q :: mq_state
  assume "mq_able ms q"
  then show "mq_able ms (snd (mq_deq q))" by (cases q) (auto simp: mq_able_def mq_deq_def split: prod.splits)
next
  fix m ok and q q' :: mq_state
  assume wf: "mq_wf (fst q)" and p: "mq_plenty q" and e: "mq_enq m q = Some (ok, q')"
  obtain q0 mm h where q: "q = (q0, mm, h)" by (cases q) auto
  show "mq_plenty q' \<and> ok = (int (length (mq_packets (fst q))) < mq_max_size (fst q))"
    using e p wf q
    by (auto simp: mq_enq_def mq_plenty_def mbuf_queue_enqueue_def malloc_def mq_wf_def mq_packets_def
        bind_eq_Some_conv split: if_splits)
next
  fix q :: mq_state
  assume "mq_plenty q"
  then show "mq_plenty (snd (mq_deq q))"
    by (cases q) (auto simp: mq_plenty_def mq_deq_def mbuf_queue_dequeue_def free_block_def split: list.splits)
qed

text \<open>The closing loop frees every packet that is still queued, each exactly once.\<close>

lemma mbuf_queue_destroy_loop_frees:
  "\<forall>m \<in> set (mq_packets q). h m \<noteq> None \<Longrightarrow> distinct (mq_packets q) \<Longrightarrow>
   \<exists>q' mm'. mbuf_queue_destroy_loop q mm h = Some (q', mm', h |` (- set (mq_packets q))) \<and>
     mq_head q' = [] \<and> live mm' = live mm - int (length (mq_head q)) \<and> brk mm' = brk mm \<and> oom mm' = oom mm"
proof (induction "mq_head q" arbitrary: q mm h)
  case Nil
  then show ?case
    by (subst mbuf_queue_destroy_loop.simps) (simp add: mbuf_queue_dequeue_Nil mq_packets_def restrict_map_def)
next
  case (Cons em rest)
  obtain e m where em: "em = (e, m)" by fastforce
  let ?q = "q\<lparr>mq_head := rest, mq_count := mq_count q - 1\<rparr>"
  have hd: "mq_head q = (e, m) # rest" using Cons.hyps(2) em by simp
  have ps: "mq_packets q = m # mq_packets ?q" using hd by (simp add: mq_packets_def)
  from Cons.prems ps have live: "\<forall>x \<in> set (mq_packets ?q). (h(m := None)) x \<noteq> None"
    and dist: "distinct (mq_packets ?q)" by auto
  from Cons.hyps(1) [of ?q "h(m := None)" "free_block mm", OF _ live dist]
  obtain q' mm' where IH: "mbuf_queue_destroy_loop ?q (free_block mm) (h(m := None)) =
      Some (q', mm', (h(m := None)) |` (- set (mq_packets ?q)))"
    "mq_head q' = []" "live mm' = live mm - 1 - int (length rest)" "brk mm' = brk mm" "oom mm' = oom mm"
    by auto
  have "(h(m := None)) |` (- set (mq_packets ?q)) = h |` (- set (mq_packets q))"
    by (auto simp: ps restrict_map_def fun_eq_iff)
  moreover from Cons.prems ps obtain p where "h m = Some p" by auto
  ultimately show ?case
    using IH hd by (subst mbuf_queue_destroy_loop.simps) (simp add: mbuf_queue_dequeue_Cons m_freem_def)
qed

end
