(* ===== verification/VethSafety.thy ===== *)
theory VethSafety
  imports Veth
begin

text \<open>
  Safety of the virtual Ethernet driver. The invariant says that peers refer to each other, that every
  receive queue counts its packets and stays within its bound, and that every queued packet is live
  and stands in one queue only. The driver's operations and the calls of the network stack are the
  rules of three step relations: \<open>veth_call\<close> (what the stack does), \<open>veth_traffic\<close> (that and the
  driver's handlers) and \<open>veth_step\<close> (that and creating, pairing and destroying interfaces).
\<close>

section \<open>Ownership of packets and pairing\<close>

type_synonym scheap = "addr \<rightharpoonup> veth_softc"

definition sc_packets :: "veth_softc \<Rightarrow> addr list" where
  "sc_packets c = if_snd c @ mq_packets (rx_queue c)"

text \<open>How often a packet stands in the queues of all interfaces together.\<close>

definition holders :: "scheap \<Rightarrow> addr \<Rightarrow> int" where
  "holders h m = owned (\<lambda>c. int (count_list (sc_packets c) m)) h"

definition peers_ok :: "scheap \<Rightarrow> bool" where
  "peers_ok h \<longleftrightarrow> (\<forall>a x b. h a = Some x \<longrightarrow> peer x = Some b \<longrightarrow>
     a \<noteq> b \<and> (\<exists>y. h b = Some y \<and> peer y = Some a))"

definition queues_ok :: "scheap \<Rightarrow> bool" where
  "queues_ok h \<longleftrightarrow> (\<forall>a c. h a = Some c \<longrightarrow> mq_wf (rx_queue c))"

definition packets_ok :: "scheap \<Rightarrow> mheap \<Rightarrow> bool" where
  "packets_ok h mb \<longleftrightarrow> (\<forall>m. holders h m \<le> 1 \<and> (0 < holders h m \<longrightarrow> mb m \<noteq> None))"

definition exec_ok :: "'a kernel_scheme \<Rightarrow> bool" where
  "exec_ok s \<longleftrightarrow> (\<exists>t th. executing s = Some t \<and> threads s t = Some th)"

definition veth_inv :: "'a veth_kernel_scheme \<Rightarrow> bool" where
  "veth_inv s \<longleftrightarrow> heap_ok (mem s) (softcs s) \<and> peers_ok (softcs s) \<and> queues_ok (softcs s) \<and>
     packets_ok (softcs s) (mbufs s) \<and> exec_ok s"

text \<open>The packets handed to an interface: those it has processed and those still queued.\<close>

definition sc_received :: "veth_softc \<Rightarrow> u64" where
  "sc_received c = rx_packets c + of_int (mq_count (rx_queue c))"

text \<open>The packets on their way from \<open>a\<close> to \<open>b\<close> that the statistics of the two ends do not explain.\<close>

definition flow :: "scheap \<Rightarrow> addr \<Rightarrow> addr \<Rightarrow> u64" where
  "flow h a b = tx_packets (the (h a)) - sc_received (the (h b))"

definition paired :: "scheap \<Rightarrow> addr \<Rightarrow> addr \<Rightarrow> bool" where
  "paired h a b \<longleftrightarrow> (\<exists>x y. h a = Some x \<and> h b = Some y \<and> peer x = Some b \<and> peer y = Some a)"

text \<open>A change that keeps the pairing and the account of every pair.\<close>

definition flows :: "scheap \<Rightarrow> scheap \<Rightarrow> bool" where
  "flows h h' \<longleftrightarrow> (\<forall>a. map_option peer (h' a) = map_option peer (h a)) \<and>
     (\<forall>a b. paired h a b \<longrightarrow> flow h' a b = flow h a b)"

lemma flows_refl [simp]: "flows h h"
  by (simp add: flows_def)

lemma flows_paired: "flows h h' \<Longrightarrow> paired h' a b \<longleftrightarrow> paired h a b"
proof -
  assume f: "flows h h'"
  have e: "map_option peer (k x) = Some p \<longleftrightarrow> (\<exists>c. k x = Some c \<and> peer c = p)" for k :: scheap and x p
    by (auto simp: map_option_case split: option.splits)
  have p: "paired k a b \<longleftrightarrow> map_option peer (k a) = Some (Some b) \<and> map_option peer (k b) = Some (Some a)" for k
    unfolding paired_def e by blast
  from f have "map_option peer (h' x) = map_option peer (h x)" for x by (simp add: flows_def)
  then show ?thesis by (simp only: p)
qed

lemma flows_trans: "flows h h' \<Longrightarrow> flows h' h'' \<Longrightarrow> flows h h''"
  using flows_paired unfolding flows_def by metis

lemma flows_dom: "flows h h' \<Longrightarrow> dom h' = dom h"
  unfolding flows_def by (metis (no_types, lifting) domIff option.map_disc_iff subsetI subset_antisym)

text \<open>One interface changes.\<close>

lemma flows_update:
  assumes "h a = Some c" "peer c' = peer c" "tx_packets c' = tx_packets c" "sc_received c' = sc_received c"
  shows "flows h (h(a \<mapsto> c'))"
  using assms by (auto simp: flows_def flow_def)

lemma peers_ok_update: "peers_ok h \<Longrightarrow> h a = Some c \<Longrightarrow> peer c' = peer c \<Longrightarrow> peers_ok (h(a \<mapsto> c'))"
  unfolding peers_ok_def fun_upd_apply by (metis option.inject)

lemma queues_ok_update: "queues_ok h \<Longrightarrow> mq_wf (rx_queue c') \<Longrightarrow> queues_ok (h(a \<mapsto> c'))"
  by (auto simp: queues_ok_def)

lemma holders_update:
  "finite (dom h) \<Longrightarrow> h a = Some c \<Longrightarrow> holders (h(a \<mapsto> c')) m =
     holders h m - int (count_list (sc_packets c) m) + int (count_list (sc_packets c') m)"
  by (simp add: holders_def own_simps)

lemma holders_nonneg: "0 \<le> holders h m"
  unfolding holders_def owned_def by (rule sum_nonneg) simp

lemma holders_ge:
  assumes "finite (dom h)" "h a = Some c"
  shows "int (count_list (sc_packets c) m) \<le> holders h m"
  using holders_nonneg [of "h(a := None)" m] owned_remove [OF assms, of "\<lambda>c. int (count_list (sc_packets c) m)"]
  by (simp add: holders_def)

lemma holders_pos:
  "finite (dom h) \<Longrightarrow> h a = Some c \<Longrightarrow> m \<in> set (sc_packets c) \<Longrightarrow> 0 < holders h m"
  using holders_ge [of h a c m] count_notin [of m "sc_packets c"] count_list_0_iff [of "sc_packets c" m]
  by (cases "count_list (sc_packets c) m") auto

lemma packet_live:
  "veth_inv s \<Longrightarrow> softcs s a = Some c \<Longrightarrow> m \<in> set (sc_packets c) \<Longrightarrow> \<exists>p. mbufs s m = Some p"
  using holders_pos [of "softcs s" a c m] by (auto simp: veth_inv_def packets_ok_def heap_ok_def)

text \<open>A change of one interface that keeps its peer, its packets and its queue.\<close>

definition sc_similar :: "veth_softc \<Rightarrow> veth_softc \<Rightarrow> bool" where
  "sc_similar c c' \<longleftrightarrow> peer c' = peer c \<and> if_snd c' = if_snd c \<and> rx_queue c' = rx_queue c \<and>
     tx_packets c' = tx_packets c \<and> rx_packets c' = rx_packets c"

lemma upd_sc_sel [simp]:
  "mem (upd_sc a f s) = mem s" "mbufs (upd_sc a f s) = mbufs s" "cfg (upd_sc a f s) = cfg s"
  "executing (upd_sc a f s) = executing s" "threads (upd_sc a f s) = threads s"
  "groups (upd_sc a f s) = groups s" "dom (softcs (upd_sc a f s)) = dom (softcs s)"
  by (auto simp: upd_sc_def)

lemma upd_sc_softcs: "softcs s a = Some c \<Longrightarrow> softcs (upd_sc a f s) = (softcs s)(a \<mapsto> f c)"
  by (simp add: upd_sc_def)

lemma upd_sc_other: "softcs s a = None \<Longrightarrow> upd_sc a f s = s"
  by (simp add: upd_sc_def fun_upd_idem)

lemma veth_inv_similar:
  assumes "\<And>c. sc_similar c (f c)"
  shows "(veth_inv s \<longrightarrow> veth_inv (upd_sc a f s)) \<and> flows (softcs s) (softcs (upd_sc a f s))"
proof (cases "softcs s a")
  case None
  then show ?thesis by (simp add: upd_sc_other)
next
  case (Some c)
  have sim: "peer (f c) = peer c" "sc_packets (f c) = sc_packets c" "rx_queue (f c) = rx_queue c"
    "tx_packets (f c) = tx_packets c" "sc_received (f c) = sc_received c"
    using assms [of c] by (auto simp: sc_similar_def sc_packets_def sc_received_def)
  note sc = upd_sc_softcs [OF Some, of f]
  have "flows (softcs s) (softcs (upd_sc a f s))"
    unfolding sc using Some sim by (intro flows_update) simp_all
  moreover have "veth_inv (upd_sc a f s)" if i: "veth_inv s"
  proof -
    have fin: "finite (dom (softcs s))" using i by (simp add: veth_inv_def heap_ok_def)
    have "holders ((softcs s)(a \<mapsto> f c)) = holders (softcs s)"
      using holders_update [OF fin Some] sim by (simp add: fun_eq_iff)
    with i Some sim show ?thesis unfolding veth_inv_def sc
      by (auto simp: packets_ok_def exec_ok_def intro!: heap_ok_update peers_ok_update queues_ok_update)
        (simp add: queues_ok_def)
  qed
  ultimately show ?thesis by blast
qed

section \<open>Transmitting\<close>

lemma flows_update2:
  assumes h: "h a = Some c" "h b = Some d" "a \<noteq> b" and pair: "peer c = Some b" "peer d = Some a"
    and same: "peer c' = peer c" "peer d' = peer d" "tx_packets d' = tx_packets d" "sc_received c' = sc_received c"
    and moved: "tx_packets c' - sc_received d' = tx_packets c - sc_received d"
  shows "flows h (h(a \<mapsto> c', b \<mapsto> d'))"
proof -
  have "flow (h(a \<mapsto> c', b \<mapsto> d')) x y = flow h x y" if p: "paired h x y" for x y
  proof -
    consider "x = a" "y = b" | "x = b" "y = a" | "x \<noteq> a" "x \<noteq> b" "y \<noteq> a" "y \<noteq> b"
      using p h pair unfolding paired_def by (metis option.inject)
    then show ?thesis using h same moved by cases (simp_all add: flow_def)
  qed
  with h same show ?thesis by (auto simp: flows_def)
qed

lemma veth_inv_update2:
  assumes i: "veth_inv s" and h: "softcs s a = Some c" "softcs s b = Some d" "a \<noteq> b"
    and same: "peer c' = peer c" "peer d' = peer d" and q: "mq_wf (rx_queue c')" "mq_wf (rx_queue d')"
    and sc: "softcs s' = (softcs s)(a \<mapsto> c', b \<mapsto> d')" and brk: "brk (mem s) \<le> brk (mem s')"
    and th: "executing s' = executing s" "threads s' = threads s"
    and pk: "packets_ok ((softcs s)(a \<mapsto> c', b \<mapsto> d')) (mbufs s')"
  shows "veth_inv s'"
proof -
  have ok: "heap_ok (mem s) (softcs s)" "peers_ok (softcs s)" "queues_ok (softcs s)" "exec_ok s"
    using i by (auto simp: veth_inv_def)
  have b: "((softcs s)(a \<mapsto> c')) b = Some d" using h by simp
  have "heap_ok (mem s') (softcs s')" unfolding sc
    by (rule heap_ok_mono [OF _ brk]) (intro heap_ok_update [OF heap_ok_update [OF ok(1) h(1)] b])
  moreover have "peers_ok (softcs s')" unfolding sc
    by (rule peers_ok_update [OF peers_ok_update [OF ok(2) h(1) same(1)] b same(2)])
  moreover have "queues_ok (softcs s')" unfolding sc using ok(3) q by (intro queues_ok_update)
  ultimately show ?thesis using pk ok(4) by (simp add: veth_inv_def exec_ok_def sc th)
qed

lemma packets_ok_drop:
  assumes po: "packets_ok h mb" and hold: "\<And>x. holders h' x = holders h x - (if x = m then 1 else 0)"
  shows "packets_ok h' (mb(m := None))"
  unfolding packets_ok_def
proof (intro allI conjI impI)
  fix x
  have px: "holders h x \<le> 1" "0 < holders h x \<longrightarrow> mb x \<noteq> None" using po by (auto simp: packets_ok_def)
  show "holders h' x \<le> 1" using px hold [of x] by (simp split: if_splits)
  assume "0 < holders h' x"
  with px hold [of x] show "(mb(m := None)) x \<noteq> None" by (simp split: if_splits)
qed

text \<open>One packet moves from the send queue to the peer, or is freed.\<close>

lemma veth_xmit_ok:
  assumes i: "veth_inv s" and a: "softcs s a = Some c" and snd: "if_snd c = m # ms" and pe: "peer c = Some b"
  obtains s' c' where "veth_xmit a m ms s = Some s'" "veth_inv s'" "flows (softcs s) (softcs s')"
    "softcs s' a = Some c'" "if_snd c' = ms" "peer c' = Some b"
proof -
  from i have fin: "finite (dom (softcs s))" and po: "packets_ok (softcs s) (mbufs s)"
    and peers: "peers_ok (softcs s)" and qs: "queues_ok (softcs s)"
    by (auto simp: veth_inv_def heap_ok_def)
  from peers a pe obtain d where b: "softcs s b = Some d" "a \<noteq> b" "peer d = Some a"
    unfolding peers_ok_def by blast
  have "m \<in> set (sc_packets c)" using snd by (simp add: sc_packets_def)
  with packet_live [OF i a] obtain p where p: "mbufs s m = Some p" by blast
  from mbuf_queue_enqueue_safe [of "mbufs s", OF p]
  obtain r q mm h where e: "mbuf_queue_enqueue (Some (rx_queue d)) (Some m) (mem s) (mbufs s) = Some (r, Some q, mm, h)"
    by blast
  define c1 where "c1 = tx_statistics r (pkthdr_len p) (c\<lparr>if_snd := ms\<rparr>)"
  define d1 where "d1 = d\<lparr>rx_queue := q\<rparr>"
  define s' where "s' = upd_sc a (tx_statistics r (pkthdr_len p)) (upd_sc b (rx_queue_update (\<lambda>_. q))
    (upd_sc a (if_snd_update (\<lambda>_. ms)) s\<lparr>mem := mm, mbufs := h\<rparr>))"
  have x: "veth_xmit a m ms s = Some s'"
    using a b p e pe by (simp add: veth_xmit_def s'_def upd_sc_def Let_def)
  have sc: "softcs s' = (softcs s)(a \<mapsto> c1, b \<mapsto> d1)"
    using a b by (auto simp: s'_def upd_sc_def c1_def d1_def)
  have rest: "mem s' = mm" "mbufs s' = h" "executing s' = executing s" "threads s' = threads s"
    by (simp_all add: s'_def upd_sc_def)
  have c1: "peer c1 = peer c" "if_snd c1 = ms" "rx_queue c1 = rx_queue c" "sc_received c1 = sc_received c"
    "tx_packets c1 = tx_packets c + (if r = 0 then 1 else 0)"
    by (simp_all add: c1_def tx_statistics_def sc_received_def)
  have d1: "peer d1 = peer d" "rx_queue d1 = q" "tx_packets d1 = tx_packets d" "if_snd d1 = if_snd d"
    "rx_packets d1 = rx_packets d" by (simp_all add: d1_def)
  have hold: "holders (softcs s') x = holders (softcs s) x - (if x = m then 1 else 0)
      + int (count_list (mq_packets q) x) - int (count_list (mq_packets (rx_queue d)) x)" for x
    unfolding sc using fin a b c1 d1 snd by (simp add: holders_update sc_packets_def)
  have wfd: "mq_wf (rx_queue d)" "mq_wf (rx_queue c)" using qs a b by (auto simp: queues_ok_def)
  from e have new: "mq_wf q \<and> brk (mem s) \<le> brk mm \<and> packets_ok (softcs s') h \<and>
      sc_received d1 = sc_received d + (if r = 0 then 1 else 0)"
  proof (cases rule: mbuf_queue_enqueueE)
    case (stored e)
    then have "holders (softcs s') x = holders (softcs s) x" for x
      unfolding hold by (simp add: mq_packets_def)
    with stored wfd po d1 show ?thesis
      by (auto simp: packets_ok_def mq_wf_def sc_received_def add.assoc)
  next
    case dropped
    then have "holders (softcs s') x = holders (softcs s) x - (if x = m then 1 else 0)" for x
      unfolding hold by simp
    then have "packets_ok (softcs s') h" using po dropped(4) by (simp add: packets_ok_drop)
    with dropped wfd d1 show ?thesis by (simp add: sc_received_def)
  qed
  have "veth_inv s'"
    using i a b c1 d1 new wfd by (intro veth_inv_update2 [OF i a b(1,2) _ _ _ _ sc]) (simp_all add: rest flip: sc)
  moreover have "flows (softcs s) (softcs s')"
    unfolding sc using a b c1 d1 new pe by (intro flows_update2 [where c = c and d = d]) simp_all
  moreover have "softcs s' a = Some c1" using b by (simp add: sc)
  ultimately show ?thesis using that x c1 pe by auto
qed

lemma veth_start_loop_ok:
  "veth_inv s \<Longrightarrow> softcs s a = Some c \<Longrightarrow> if_snd c = ms \<Longrightarrow> peer c = Some b \<Longrightarrow>
   \<exists>s' c'. veth_start_loop a ms s = Some s' \<and> veth_inv s' \<and> flows (softcs s) (softcs s') \<and>
     softcs s' a = Some c' \<and> if_snd c' = []"
proof (induction ms arbitrary: s c)
  case Nil
  then show ?case by auto
next
  case (Cons m ms)
  from Cons.prems obtain s1 c1 where x: "veth_xmit a m ms s = Some s1" "veth_inv s1"
    "flows (softcs s) (softcs s1)" "softcs s1 a = Some c1" "if_snd c1 = ms" "peer c1 = Some b"
    by (rule veth_xmit_ok)
  from Cons.IH [OF x(2,4,5,6)] x(1) flows_trans [OF x(3)] show ?case by fastforce
qed

lemma veth_start_ok:
  assumes "veth_inv s" "softcs s a = Some c"
  obtains s' where "veth_start a s = Some s'" "veth_inv s'" "flows (softcs s) (softcs s')"
  using assms veth_start_loop_ok [OF assms refl]
  by (cases "\<not> running c \<or> peer c = None") (auto simp: veth_start_def)

section \<open>Steps of the driver and of the network stack\<close>

text \<open>A change of the rest of the kernel: no interface, no packet.\<close>

definition veth_keeps :: "'a veth_kernel_scheme \<Rightarrow> 'a veth_kernel_scheme \<Rightarrow> bool" where
  "veth_keeps s s' \<longleftrightarrow> softcs s' = softcs s \<and> mbufs s' = mbufs s \<and> brk (mem s) \<le> brk (mem s') \<and>
     executing s' = executing s \<and> dom (threads s) \<subseteq> dom (threads s')"

text \<open>
  What the network stack does to the driver: it changes packets that stand in no queue of the driver
  (a new packet, a packet it was handed, a packet it frees), it appends a packet of its own to a send
  queue, it writes its own fields of an \<open>ifnet\<close>, it shuts an interface down, and it calls \<open>if_start\<close>
  and \<open>if_init\<close>.
\<close>

inductive veth_call :: "'a veth_kernel_scheme veth_env \<Rightarrow> 'a veth_kernel_scheme \<Rightarrow> 'a veth_kernel_scheme \<Rightarrow> bool"
  for E where
  packet: "holders (softcs s) m = 0 \<Longrightarrow> veth_call E s (s\<lparr>mbufs := (mbufs s)(m := x)\<rparr>)"
| send: "holders (softcs s) m = 0 \<Longrightarrow> mbufs s m = Some p \<Longrightarrow> veth_call E s (upd_sc a (\<lambda>c. c\<lparr>if_snd := if_snd c @ [m]\<rparr>) s)"
| ifnet: "veth_call E s (upd_sc a (\<lambda>c. c\<lparr>if_next := n, if_flags := f, ac_enaddr := e\<rparr>) s)"
| down: "veth_call E s (veth_down a s)"
| kernel: "veth_keeps s s' \<Longrightarrow> veth_call E s s'"
| start: "veth_start a s = Some s' \<Longrightarrow> veth_call E s s'"
| init: "veth_init E a s = Some s' \<Longrightarrow> veth_call E s s'"

inductive veth_traffic :: "'a veth_kernel_scheme veth_env \<Rightarrow> 'a veth_kernel_scheme \<Rightarrow> 'a veth_kernel_scheme \<Rightarrow> bool"
  for E where
  call: "veth_call E s s' \<Longrightarrow> veth_traffic E s s'"
| receive: "veth_rx_once E a s = Some s' \<Longrightarrow> veth_traffic E s s'"
| ioctl: "veth_ioctl E a command mtu s = Some (r, s') \<Longrightarrow> veth_traffic E s s'"

text \<open>Interfaces are paired while both have no peer, which is what keeps pairing symmetric. The two
  halves of destroying an interface are separate steps: other tasks run in between.\<close>

inductive veth_step :: "'a veth_kernel_scheme veth_env \<Rightarrow> 'a veth_kernel_scheme \<Rightarrow> 'a veth_kernel_scheme \<Rightarrow> bool"
  for E where
  traffic: "veth_traffic E s s' \<Longrightarrow> veth_step E s s'"
| create: "veth_create E name grp s = Some (r, s') \<Longrightarrow> veth_step E s s'"
| pair: "softcs s a = Some c \<Longrightarrow> peer c = None \<Longrightarrow> softcs s b = Some d \<Longrightarrow> peer d = None \<Longrightarrow>
    veth_set_pair (Some a) (Some b) s = Some (r, s') \<Longrightarrow> veth_step E s s'"
| destroy_begin: "veth_destroy_begin E a s = Some s' \<Longrightarrow> veth_step E s s'"
| destroy_finish: "veth_destroy_finish a s = Some (r, s') \<Longrightarrow> veth_step E s s'"

inductive_cases veth_callE: "veth_call E s s'"
inductive_cases veth_trafficE: "veth_traffic E s s'"
inductive_cases veth_stepE: "veth_step E s s'"

text \<open>The stack and the task manager behave: they act on the driver through such calls only, and the
  stack touches a packet it is handed only while no queue of the driver holds it.\<close>

definition veth_polite :: "'a veth_kernel_scheme veth_env \<Rightarrow> bool" where
  "veth_polite E \<longleftrightarrow>
     (\<forall>a d m s. holders (softcs s) m = 0 \<longrightarrow> (veth_call E)\<^sup>*\<^sup>* s (ether_input E a d m s)) \<and>
     (\<forall>a cmd s. (veth_call E)\<^sup>*\<^sup>* s (snd (ether_ioctl E a cmd s))) \<and>
     (\<forall>a s. (veth_call E)\<^sup>*\<^sup>* s (if_attach E a s)) \<and>
     (\<forall>a s. (veth_call E)\<^sup>*\<^sup>* s (ether_ifattach E a s)) \<and>
     (\<forall>n s. (veth_call E)\<^sup>*\<^sup>* s (wake_after E n s)) \<and>
     (\<forall>s. veth_keeps s (snd (snd (task_create E s)))) \<and>
     (\<forall>i a s. veth_keeps s (snd (task_start E i a s)))"

lemma exec_ok_mono:
  "exec_ok s \<Longrightarrow> executing s' = executing s \<Longrightarrow> dom (threads s) \<subseteq> dom (threads s') \<Longrightarrow> exec_ok s'"
  unfolding exec_ok_def by (metis domIff not_None_eq subset_iff)

lemma veth_inv_update1:
  assumes i: "veth_inv s" and h: "softcs s a = Some c" and same: "peer c' = peer c" and q: "mq_wf (rx_queue c')"
    and sc: "softcs s' = (softcs s)(a \<mapsto> c')" and brk: "brk (mem s) \<le> brk (mem s')"
    and th: "executing s' = executing s" "dom (threads s) \<subseteq> dom (threads s')"
    and pk: "packets_ok ((softcs s)(a \<mapsto> c')) (mbufs s')"
  shows "veth_inv s'"
proof -
  have ok: "heap_ok (mem s) (softcs s)" "peers_ok (softcs s)" "queues_ok (softcs s)" "exec_ok s"
    using i by (auto simp: veth_inv_def)
  have "heap_ok (mem s') (softcs s')" unfolding sc
    by (rule heap_ok_mono [OF _ brk]) (rule heap_ok_update [OF ok(1) h])
  moreover have "peers_ok (softcs s')" unfolding sc by (rule peers_ok_update [OF ok(2) h same])
  moreover have "queues_ok (softcs s')" unfolding sc using ok(3) q by (rule queues_ok_update)
  ultimately show ?thesis using pk exec_ok_mono [OF ok(4) th] by (simp add: veth_inv_def sc)
qed

lemma veth_inv_keeps:
  "veth_keeps s s' \<Longrightarrow> veth_inv s \<Longrightarrow> veth_inv s' \<and> flows (softcs s) (softcs s')"
  unfolding veth_inv_def veth_keeps_def using exec_ok_mono heap_ok_mono by fastforce

lemma upd_thread_exec: "exec_ok s \<Longrightarrow> exec_ok (upd_thread t f s)"
  by (rule exec_ok_mono) auto

text \<open>Changes that count as similar need no further argument.\<close>

lemma similar_updates [simp]:
  "sc_similar c c" "sc_similar c (c\<lparr>if_next := n\<rparr>)" "sc_similar c (c\<lparr>rx_task_id := i\<rparr>)"
  "sc_similar c (c\<lparr>if_mtu := u\<rparr>)" "sc_similar c (c\<lparr>sc_container := k\<rparr>)"
  "sc_similar c (c\<lparr>running := rn\<rparr>)" "sc_similar c (c\<lparr>if_flags := f, running := rn\<rparr>)"
  "sc_similar c (c\<lparr>if_next := n, if_flags := f, ac_enaddr := e\<rparr>)"
  by (simp_all add: sc_similar_def)

lemmas upd_sc_inv = veth_inv_similar [THEN conjunct1, rule_format]
lemmas upd_sc_flows = veth_inv_similar [THEN conjunct2]

lemma upd_sc_flows_from: "flows h (softcs s) \<Longrightarrow> (\<And>c. sc_similar c (f c)) \<Longrightarrow> flows h (softcs (upd_sc a f s))"
  using flows_trans upd_sc_flows by blast

lemma veth_down_ok: "(veth_inv s \<longrightarrow> veth_inv (veth_down a s)) \<and> flows (softcs s) (softcs (veth_down a s))"
  unfolding veth_down_def by (rule veth_inv_similar) (simp add: sc_similar_def)

lemma veth_init_ok:
  assumes E: "veth_polite E" and i: "veth_inv s" and c: "softcs s a = Some c"
  obtains s' where "veth_init E a s = Some s'" "veth_inv s'" "flows (softcs s) (softcs s')"
proof -
  define f :: "veth_softc \<Rightarrow> veth_softc" where "f = (\<lambda>c. c\<lparr>running := True, if_flags := (if_flags c OR IFF_RUNNING) AND NOT IFF_OACTIVE\<rparr>)"
  define s1 where "s1 = upd_sc a f s"
  have ok1: "veth_inv s1" "flows (softcs s) (softcs s1)"
    using upd_sc_inv [of f s a] upd_sc_flows [of f s a] i by (simp_all add: s1_def f_def sc_similar_def)
  show ?thesis
  proof (cases "rx_task_id c = 0")
    case False
    with c have "veth_init E a s = Some s1" by (simp add: veth_init_def s1_def f_def)
    with ok1 that show ?thesis by blast
  next
    case True
    obtain st n s2 where tc: "task_create E s1 = (st, n, s2)" by (metis prod_cases3)
    from E tc have k2: "veth_keeps s1 s2" unfolding veth_polite_def by (metis snd_conv)
    from veth_inv_keeps [OF k2 ok1(1)] flows_trans [OF ok1(2)] have ok2: "veth_inv s2" "flows (softcs s) (softcs s2)"
      by auto
    let ?s2 = "upd_sc a (rx_task_id_update (\<lambda>_. n)) s2"
    obtain st3 s3 where ts: "task_start E n a ?s2 = (st3, s3)" by fastforce
    from E ts have k3: "veth_keeps ?s2 s3" unfolding veth_polite_def by (metis snd_conv)
    have "veth_inv ?s2" "flows (softcs s) (softcs ?s2)"
      using ok2 by (auto intro!: upd_sc_inv upd_sc_flows_from)
    with veth_inv_keeps [OF k3] flows_trans have ok3: "veth_inv s3" "flows (softcs s) (softcs s3)" by blast+
    let ?s4 = "upd_sc a (rx_task_id_update (\<lambda>_. 0)) s3"
    have ok4: "veth_inv ?s4" "flows (softcs s) (softcs ?s4)"
      using ok3 by (auto intro!: upd_sc_inv upd_sc_flows_from)
    have "veth_init E a s = (if st \<noteq> RTEMS_SUCCESSFUL then Some s2
        else if st3 = RTEMS_SUCCESSFUL then Some s3 else Some ?s4)"
      using c True tc ts by (cases st; cases st3) (simp_all add: veth_init_def s1_def f_def)
    with that ok2 ok3 ok4 show ?thesis by (metis (full_types))
  qed
qed

lemma veth_init_gone: "softcs s a = None \<Longrightarrow> veth_init E a s = None"
  by (simp add: veth_init_def)

lemma holders_output:
  assumes "veth_inv s" "softcs s a = Some c"
  shows "holders ((softcs s)(a \<mapsto> c\<lparr>if_snd := if_snd c @ [m]\<rparr>)) x = holders (softcs s) x + (if x = m then 1 else 0)"
  using assms by (simp add: holders_update sc_packets_def veth_inv_def heap_ok_def)

lemma veth_call_ok:
  assumes E: "veth_polite E" and st: "veth_call E s s'" and i: "veth_inv s"
  shows "veth_inv s' \<and> flows (softcs s) (softcs s')"
  using st
proof cases
  case (packet m x)
  with i show ?thesis by (auto simp: veth_inv_def packets_ok_def exec_ok_def)
next
  case (send m p a)
  show ?thesis
  proof (cases "softcs s a")
    case None
    with send i show ?thesis by (simp add: upd_sc_other)
  next
    case (Some c)
    let ?c = "c\<lparr>if_snd := if_snd c @ [m]\<rparr>"
    have sc: "softcs s' = (softcs s)(a \<mapsto> ?c)" using send Some by (simp add: upd_sc_softcs)
    have "flows (softcs s) (softcs s')" unfolding sc using Some by (intro flows_update) (simp_all add: sc_received_def)
    moreover have "packets_ok (softcs s') (mbufs s')"
      using i send holders_output [OF i Some, of m] unfolding sc by (auto simp: packets_ok_def veth_inv_def)
    moreover have "mq_wf (rx_queue c)" using i Some by (auto simp: veth_inv_def queues_ok_def)
    moreover have "veth_inv s'" using send calculation
      by (intro veth_inv_update1 [OF i Some _ _ sc]) (simp_all flip: sc)
    ultimately show ?thesis by blast
  qed
next
  case (ifnet a n f e)
  with i show ?thesis by (auto intro!: upd_sc_inv upd_sc_flows)
next
  case (down a)
  with i veth_down_ok show ?thesis by blast
next
  case kernel
  with i veth_inv_keeps show ?thesis by blast
next
  case (start a)
  then obtain c where "softcs s a = Some c" by (auto simp: veth_start_def bind_eq_Some_conv)
  with i start show ?thesis by (metis veth_start_ok option.inject)
next
  case (init a)
  then obtain c where "softcs s a = Some c" by (auto simp: veth_init_def bind_eq_Some_conv)
  with E i init show ?thesis by (metis veth_init_ok option.inject)
qed

lemma veth_calls_ok:
  assumes "veth_polite E" "(veth_call E)\<^sup>*\<^sup>* s s'" "veth_inv s"
  shows "veth_inv s' \<and> flows (softcs s) (softcs s')"
  using assms(2)
proof (induction rule: rtranclp_induct)
  case base
  with assms(3) show ?case by simp
next
  case (step s1 s2)
  with veth_call_ok [OF assms(1) step.hyps(2)] flows_trans show ?case by blast
qed

section \<open>Receiving\<close>

lemma upd_thread_veth_sel [simp]:
  "softcs (upd_thread t f s) = softcs s" "mbufs (upd_thread t f s) = mbufs s"
  by (simp_all add: upd_thread_def)

lemma veth_enter_net_ok:
  assumes "exec_ok s"
  obtains saved s1 where "veth_enter_net c s = Some (saved, s1)" "softcs s1 = softcs s" "mbufs s1 = mbufs s"
    "mem s1 = mem s" "cfg s1 = cfg s" "executing s1 = executing s" "dom (threads s1) = dom (threads s)"
proof -
  from assms obtain t th where "executing s = Some t" "threads s t = Some th" by (auto simp: exec_ok_def)
  with that show ?thesis
    by (cases "RTEMSCFG_NET_CONTAINER (cfg s) \<and> sc_container c \<noteq> None") (auto simp: veth_enter_net_def)
qed

lemma veth_inv_upd_thread: "veth_inv s \<Longrightarrow> veth_inv (upd_thread t f s)"
  by (auto simp: veth_inv_def intro: upd_thread_exec)

lemma veth_leave_net_ok:
  assumes "veth_inv s" "softcs s a = Some c"
  obtains s1 where "veth_leave_net a saved s = Some s1" "softcs s1 = softcs s" "veth_inv s1"
proof -
  from assms obtain t th where "executing s = Some t" "threads s t = Some th" by (auto simp: veth_inv_def exec_ok_def)
  with assms that veth_inv_upd_thread [OF assms(1)] show ?thesis
    by (cases "RTEMSCFG_NET_CONTAINER (cfg s) \<and> sc_container c \<noteq> None") (auto simp: veth_leave_net_def)
qed

text \<open>Taking the first packet off a receive queue and counting it.\<close>

lemma veth_dequeue_inv:
  assumes i: "veth_inv s" and a: "softcs s a = Some c" and q: "mq_head (rx_queue c) = (e, m) # rest"
    and sc: "softcs s' = (softcs s)(a \<mapsto> c')" and mb: "mbufs s' = (mbufs s)(m \<mapsto> p)"
    and mm: "mem s' = free_block (mem s)" and th: "executing s' = executing s" "dom (threads s') = dom (threads s)"
    and c': "c' = rx_statistics n (c\<lparr>rx_queue := rx_queue c\<lparr>mq_head := rest, mq_count := mq_count (rx_queue c) - 1\<rparr>\<rparr>)"
  shows "veth_inv s' \<and> flows (softcs s) (softcs s') \<and> holders (softcs s') m = 0"
proof -
  from i have fin: "finite (dom (softcs s))" and po: "packets_ok (softcs s) (mbufs s)"
    and wf: "mq_wf (rx_queue c)" using a by (auto simp: veth_inv_def heap_ok_def queues_ok_def)
  have "sc_packets c = if_snd c @ m # map snd rest" "sc_packets c' = if_snd c @ map snd rest"
    using q by (simp_all add: sc_packets_def mq_packets_def c' rx_statistics_def)
  with holders_update [OF fin a, of c'] have hold: "holders (softcs s') x = holders (softcs s) x - (if x = m then 1 else 0)" for x
    unfolding sc by auto
  have "holders (softcs s) m \<le> 1" using po by (simp add: packets_ok_def)
  with holders_nonneg [of "softcs s'" m] hold [of m] have h0: "holders (softcs s') m = 0" by simp
  have "packets_ok (softcs s') (mbufs s')"
    using po hold h0 by (simp add: packets_ok_def mb)
  moreover have "mq_wf (rx_queue c')" "peer c' = peer c" using wf q by (simp_all add: mq_wf_def c' rx_statistics_def)
  ultimately have "veth_inv s'"
    by (intro veth_inv_update1 [OF i a _ _ sc]) (simp_all add: mm th flip: sc)
  moreover have "flows (softcs s) (softcs s')"
    unfolding sc by (rule flows_update [of "softcs s", OF a]) (simp_all add: c' rx_statistics_def sc_received_def)
  ultimately show ?thesis using h0 by blast
qed

text \<open>The state in which the receiver hands the first packet to the stack.\<close>

lemma veth_rx_once_Cons:
  assumes i: "veth_inv s" and a: "softcs s a = Some c" and hd: "mq_head (rx_queue c) = (e, m) # rest"
  obtains saved p s3 where
    "veth_rx_once E a s = veth_leave_net a saved (ether_input E a (m_data p) m s3)" "mbufs s m = Some p"
    "veth_inv s3" "flows (softcs s) (softcs s3)" "holders (softcs s3) m = 0"
    "softcs s3 = (softcs s)(a \<mapsto> rx_statistics (pkthdr_len p)
       (c\<lparr>rx_queue := rx_queue c\<lparr>mq_head := rest, mq_count := mq_count (rx_queue c) - 1\<rparr>\<rparr>))"
proof -
  let ?q = "rx_queue c\<lparr>mq_head := rest, mq_count := mq_count (rx_queue c) - 1\<rparr>"
  define s0 where "s0 = upd_sc a (rx_queue_update (\<lambda>_. ?q)) (s\<lparr>mem := free_block (mem s)\<rparr>)"
  have s0: "softcs s0 = (softcs s)(a \<mapsto> c\<lparr>rx_queue := ?q\<rparr>)" "mbufs s0 = mbufs s" "mem s0 = free_block (mem s)"
    "executing s0 = executing s" "threads s0 = threads s" using a by (simp_all add: s0_def upd_sc_def)
  with i have "exec_ok s0" by (simp add: veth_inv_def exec_ok_def)
  then obtain saved s1 where en: "veth_enter_net c s0 = Some (saved, s1)" and s1: "softcs s1 = softcs s0"
    "mbufs s1 = mbufs s0" "mem s1 = mem s0" "cfg s1 = cfg s0" "executing s1 = executing s0"
    "dom (threads s1) = dom (threads s0)" by (rule veth_enter_net_ok)
  have "m \<in> set (sc_packets c)" using hd by (simp add: sc_packets_def mq_packets_def)
  with packet_live [OF i a] obtain p where p: "mbufs s m = Some p" by blast
  define s2 where "s2 = upd_sc a (rx_statistics (pkthdr_len p)) s1"
  define s3 where "s3 = s2\<lparr>mbufs := (mbufs s2)(m \<mapsto>
     p\<lparr>rcvif := Some a, m_data := m_data p + ether_header_size, m_len := m_len p - ether_header_size,
       pkthdr_len := pkthdr_len p - ether_header_size\<rparr>)\<rparr>"
  have s2: "softcs s2 = (softcs s)(a \<mapsto> rx_statistics (pkthdr_len p) (c\<lparr>rx_queue := ?q\<rparr>))"
    using s0 s1 by (simp add: s2_def upd_sc_def)
  have ok3: "veth_inv s3 \<and> flows (softcs s) (softcs s3) \<and> holders (softcs s3) m = 0"
    by (rule veth_dequeue_inv [OF i a hd _ _ _ _ _ refl])
       (use s0 s1 s2 in \<open>simp_all add: s3_def, simp_all add: s2_def\<close>)
  have "veth_rx_once E a s = veth_leave_net a saved (ether_input E a (m_data p) m s3)"
    using a hd en p s0 s1 unfolding s3_def s2_def
    by (simp add: veth_rx_once_def mbuf_queue_dequeue_Cons s0_def [symmetric] Let_def)
  with that p ok3 s2 show ?thesis by (simp add: s3_def)
qed

lemma veth_rx_once_ok:
  assumes E: "veth_polite E" and i: "veth_inv s" and a: "softcs s a = Some c"
  obtains s' where "veth_rx_once E a s = Some s'" "veth_inv s'" "flows (softcs s) (softcs s')"
proof (cases "mq_head (rx_queue c)")
  case Nil
  have "(veth_call E)\<^sup>*\<^sup>* s (wake_after E 1 s)" using E by (simp add: veth_polite_def)
  with veth_calls_ok [OF E _ i] that Nil a show ?thesis
    by (simp add: veth_rx_once_def mbuf_queue_dequeue_Nil)
next
  case (Cons em rest)
  obtain e m where "em = (e, m)" by fastforce
  with Cons have "mq_head (rx_queue c) = (e, m) # rest" by simp
  with i a obtain saved and p :: mbuf and s3 where
    once: "veth_rx_once E a s = veth_leave_net a saved (ether_input E a (m_data p) m s3)"
    and ok3: "veth_inv s3" "flows (softcs s) (softcs s3)" "holders (softcs s3) m = 0"
    by (rule veth_rx_once_Cons [where E = E]) blast
  define s4 where "s4 = ether_input E a (m_data p) m s3"
  have "(veth_call E)\<^sup>*\<^sup>* s3 s4" using E ok3 by (simp add: veth_polite_def s4_def)
  with veth_calls_ok [OF E] ok3 have ok4: "veth_inv s4" "flows (softcs s3) (softcs s4)" by blast+
  have "a \<in> dom (softcs s4)" using flows_dom [OF ok4(2)] flows_dom [OF ok3(2)] a by blast
  then obtain c4 where "softcs s4 a = Some c4" by blast
  with veth_leave_net_ok [OF ok4(1)] obtain s5 where s5: "veth_leave_net a saved s4 = Some s5"
    "softcs s5 = softcs s4" "veth_inv s5" by blast
  with that once ok3 flows_trans [OF _ ok4(2)] show ?thesis by (simp add: s4_def)
qed

text \<open>The effect of one round on the interface itself, when the stack leaves it alone.\<close>

lemma veth_rx_once_effect:
  assumes E: "veth_polite E" and i: "veth_inv s" and a: "softcs s a = Some c"
    and hd: "mq_head (rx_queue c) = (e, m) # rest"
    and stack: "\<And>d x s. softcs (ether_input E a d x s) = softcs s"
  obtains s' n where "veth_rx_once E a s = Some s'" "veth_inv s'"
    "softcs s' a = Some (rx_statistics n (c\<lparr>rx_queue := rx_queue c\<lparr>mq_head := rest, mq_count := mq_count (rx_queue c) - 1\<rparr>\<rparr>))"
proof -
  from i a hd obtain saved and p :: mbuf and s3 where
    once: "veth_rx_once E a s = veth_leave_net a saved (ether_input E a (m_data p) m s3)"
    and s3: "softcs s3 = (softcs s)(a \<mapsto> rx_statistics (pkthdr_len p)
       (c\<lparr>rx_queue := rx_queue c\<lparr>mq_head := rest, mq_count := mq_count (rx_queue c) - 1\<rparr>\<rparr>))"
    by (rule veth_rx_once_Cons [where E = E]) blast
  from veth_rx_once_ok [OF E i a] obtain s' where s': "veth_rx_once E a s = Some s'" "veth_inv s'" by blast
  have "softcs s' = softcs (ether_input E a (m_data p) m s3)"
    using s'(1) once by (auto simp: veth_leave_net_def bind_eq_Some_conv split: if_splits)
  with that s' s3 stack show ?thesis by auto
qed

section \<open>Ioctl, creation, pairing and destruction\<close>

lemma veth_ioctl_ok:
  assumes E: "veth_polite E" and i: "veth_inv s" and a: "softcs s a = Some c"
  obtains r s' where "veth_ioctl E a command mtu s = Some (r, s')" "veth_inv s'" "flows (softcs s) (softcs s')"
proof -
  obtain r1 s1 where ei: "ether_ioctl E a command s = (r1, s1)" by fastforce
  have "(veth_call E)\<^sup>*\<^sup>* s s1" using E ei unfolding veth_polite_def by (metis snd_conv)
  with veth_calls_ok [OF E _ i] have ok1: "veth_inv s1" "flows (softcs s) (softcs s1)" by blast+
  from veth_init_ok [OF E i a] obtain s2 where s2: "veth_init E a s = Some s2" "veth_inv s2" "flows (softcs s) (softcs s2)"
    by blast
  have ok3: "veth_inv (veth_down a s)" "flows (softcs s) (softcs (veth_down a s))"
    using i veth_down_ok by blast+
  have ok4: "veth_inv (upd_sc a (if_mtu_update (\<lambda>_. u)) s)" "flows (softcs s) (softcs (upd_sc a (if_mtu_update (\<lambda>_. u)) s))" for u
    using i by (auto intro!: upd_sc_inv upd_sc_flows)
  have ok5: "veth_inv (upd_sc a (sc_container_update (\<lambda>_. u)) s1)"
    "flows (softcs s) (softcs (upd_sc a (sc_container_update (\<lambda>_. u)) s1))" for u
    using ok1 by (auto intro!: upd_sc_inv upd_sc_flows_from)
  have "\<exists>r s'. veth_ioctl E a command mtu s = Some (r, s') \<and> veth_inv s' \<and> flows (softcs s) (softcs s')"
    using a i s2 ok1 ok3 ok4 ok5 ei by (cases command)
      (auto simp: veth_ioctl_def split: option.splits)
  with that show ?thesis by blast
qed

lemma veth_traffic_ok:
  assumes E: "veth_polite E" and st: "veth_traffic E s s'" and i: "veth_inv s"
  shows "veth_inv s' \<and> flows (softcs s) (softcs s')"
  using st
proof cases
  case call
  then show ?thesis using veth_call_ok [OF E _ i] by blast
next
  case (receive a)
  then obtain c where "softcs s a = Some c" by (auto simp: veth_rx_once_def bind_eq_Some_conv)
  with receive veth_rx_once_ok [OF E i] show ?thesis by (metis option.inject)
next
  case (ioctl a command mtu r)
  then obtain c where "softcs s a = Some c" by (auto simp: veth_ioctl_def bind_eq_Some_conv)
  with ioctl veth_ioctl_ok [OF E i] show ?thesis by (metis option.inject prod.inject)
qed

lemma veth_traffics_ok:
  assumes "veth_polite E" "(veth_traffic E)\<^sup>*\<^sup>* s s'" "veth_inv s"
  shows "veth_inv s' \<and> flows (softcs s) (softcs s')"
  using assms(2)
proof (induction rule: rtranclp_induct)
  case base
  with assms(3) show ?case by simp
next
  case (step s1 s2)
  with veth_traffic_ok [OF assms(1) step.hyps(2)] flows_trans show ?case by blast
qed

text \<open>A new interface: no peer, nothing queued.\<close>

lemma veth_inv_new:
  assumes i: "veth_inv s" and fresh: "softcs s a = None" and c: "peer c = None" "sc_packets c = []" "mq_wf (rx_queue c)"
    and s': "softcs s' = (softcs s)(a \<mapsto> c)" "mbufs s' = mbufs s" "executing s' = executing s" "threads s' = threads s"
    and mm: "brk (mem s) \<le> a" "a < brk (mem s')"
  shows "veth_inv s'"
proof -
  from i have ok: "heap_ok (mem s) (softcs s)" "peers_ok (softcs s)" "queues_ok (softcs s)"
    "packets_ok (softcs s) (mbufs s)" "exec_ok s" by (auto simp: veth_inv_def)
  have "holders (softcs s') x = holders (softcs s) x" for x
    using ok(1) fresh c by (simp add: holders_def s' own_simps heap_ok_def)
  moreover have "heap_ok (mem s') (softcs s')" using ok(1) mm by (fastforce simp: heap_ok_def s')
  moreover have "peers_ok (softcs s')" using ok(2) fresh c(1) unfolding peers_ok_def s'(1) fun_upd_apply
    by (metis option.distinct(1) option.inject)
  moreover have "queues_ok (softcs s')" unfolding s' using ok(3) c(3) by (rule queues_ok_update)
  ultimately show ?thesis using ok by (simp add: veth_inv_def packets_ok_def exec_ok_def s')
qed

lemma veth_inv_irrelevant [simp]: "veth_inv (s\<lparr>groups := g\<rparr>) = veth_inv s"
  by (simp add: veth_inv_def exec_ok_def)

lemma veth_attach_ok:
  assumes E: "veth_polite E" and i: "veth_inv s" and r: "veth_attach E a grp s = Some s'"
  shows "veth_inv s'"
proof (cases "if RTEMSCFG_NET_CONTAINER (cfg s) then grp else None")
  case None
  then have "s' = if_attach E a s" using r by (simp add: veth_attach_def)
  moreover have "(veth_call E)\<^sup>*\<^sup>* s (if_attach E a s)" using E by (simp add: veth_polite_def)
  ultimately show ?thesis using veth_calls_ok [OF E _ i] by blast
next
  case (Some g)
  with r obtain ng where "s' = (upd_sc a (if_next_update (\<lambda>_. ifnet_p ng)) s)\<lparr>groups := (groups s)(g \<mapsto> ng\<lparr>ifnet_p := Some a\<rparr>)\<rparr>"
    by (auto simp: veth_attach_def bind_eq_Some_conv)
  with i show ?thesis by (simp add: upd_sc_inv)
qed

lemma veth_create_ok:
  assumes E: "veth_polite E" and i: "veth_inv s" and r: "veth_create E name grp s = Some (p, s')"
  shows "veth_inv s'"
proof -
  consider "name = None" | str where "name = Some str" "oom (mem s) (brk (mem s))"
    | str where "name = Some str" "\<not> oom (mem s) (brk (mem s))" by (cases name) auto
  then show ?thesis
  proof cases
    case 1
    with r i show ?thesis by (simp add: veth_create_def)
  next
    case 2
    with r have "s' = s\<lparr>mem := (mem s)\<lparr>brk := Suc (brk (mem s))\<rparr>\<rparr>" by (simp add: veth_create_def malloc_def)
    with i heap_ok_mono show ?thesis by (fastforce simp: veth_inv_def exec_ok_def)
  next
    case (3 str)
    let ?a = "brk (mem s)" and ?m = "(mem s)\<lparr>brk := Suc (brk (mem s)), live := live (mem s) + 1\<rparr>"
    let ?q = "\<lparr>mq_head = [], mq_count = 0, mq_max_size = VETH_QUEUE_SIZE\<rparr>"
    have m: "malloc (mem s) = (Some ?a, ?m)" using 3 by (simp add: malloc_def)
    have q: "mbuf_queue_init (Some \<lparr>mq_head = [], mq_count = 0, mq_max_size = 0\<rparr>) VETH_QUEUE_SIZE = (0, Some ?q)"
      by (simp add: mbuf_queue_init_def VETH_QUEUE_SIZE_def)
    obtain mac s1 where mac: "veth_generate_mac (s\<lparr>mem := ?m\<rparr>) = (mac, s1)" by fastforce
    then have s1: "s1 = s\<lparr>mem := ?m, mac_counter := mac_counter s + 1\<rparr>" by (auto simp: veth_generate_mac_def Let_def)
    from r 3 obtain digit s2 where att: "veth_attach E ?a grp
         (s1\<lparr>softcs := (softcs s1)(?a \<mapsto> veth_softc_new (int (of_char digit) - 48) mac ?q)\<rparr>) = Some s2"
      and s': "s' = ether_ifattach E ?a s2"
      by (auto simp: veth_create_def m q mac bind_eq_Some_conv)
    from i have fresh: "softcs s ?a = None" by (auto simp: veth_inv_def intro: heap_ok_fresh)
    have "veth_inv s2"
      by (rule veth_attach_ok [OF E _ att], rule veth_inv_new [OF i fresh])
         (simp_all add: s1 veth_softc_new_def sc_packets_def mq_packets_def mq_wf_def VETH_QUEUE_SIZE_def)
    moreover have "(veth_call E)\<^sup>*\<^sup>* s2 s'" using E s' by (simp add: veth_polite_def)
    ultimately show ?thesis using veth_calls_ok [OF E] by blast
  qed
qed

lemma veth_set_pair_ok:
  assumes i: "veth_inv s" and c: "softcs s a = Some c" "peer c = None" and d: "softcs s b = Some d" "peer d = None"
    and r: "veth_set_pair (Some a) (Some b) s = Some (e, s')"
  shows "veth_inv s'"
proof (cases "a = b")
  case True
  with r i show ?thesis by (simp add: veth_set_pair_def)
next
  case False
  let ?h = "(softcs s)(a \<mapsto> c\<lparr>peer := Some b\<rparr>, b \<mapsto> d\<lparr>peer := Some a\<rparr>)"
  from False r c d have s': "s' = upd_sc b (peer_update (\<lambda>_. Some a)) (upd_sc a (peer_update (\<lambda>_. Some b)) s)"
    by (simp add: veth_set_pair_def)
  then have sc: "softcs s' = ?h" using False c d by (simp add: upd_sc_def)
  from i have ok: "heap_ok (mem s) (softcs s)" "peers_ok (softcs s)" "queues_ok (softcs s)"
    "packets_ok (softcs s) (mbufs s)" "exec_ok s" by (auto simp: veth_inv_def)
  have "holders ?h x = holders (softcs s) x" for x
    using ok(1) False c d by (simp add: holders_update sc_packets_def heap_ok_def)
  moreover have "peers_ok ?h" using ok(2) c d False unfolding peers_ok_def fun_upd_apply
    by (auto split: if_splits) (metis option.distinct(1) option.inject)+
  moreover have "queues_ok ?h" using ok(3) c d by (auto simp: queues_ok_def)
  moreover have "heap_ok (mem s) ?h"
    by (rule heap_ok_update [OF heap_ok_update [OF ok(1) c(1)]]) (use d False in simp)
  ultimately show ?thesis using ok by (simp add: veth_inv_def packets_ok_def exec_ok_def sc) (simp add: s')
qed

text \<open>Destroying an interface: its peer is set free, its receive queue is emptied.\<close>

lemma distinct_count_list: "(\<And>x. count_list xs x \<le> 1) \<Longrightarrow> distinct xs"
  by (induction xs) (force simp: count_list_0_iff split: if_splits)+

lemma sc_packets_distinct:
  assumes "veth_inv s" "softcs s a = Some c"
  shows "distinct (sc_packets c)"
proof (rule distinct_count_list)
  fix x
  have "int (count_list (sc_packets c) x) \<le> holders (softcs s) x"
    using assms by (intro holders_ge [of _ a]) (auto simp: veth_inv_def heap_ok_def)
  also have "\<dots> \<le> 1" using assms by (simp add: veth_inv_def packets_ok_def)
  finally show "count_list (sc_packets c) x \<le> 1" by simp
qed

lemma veth_inv_unpair:
  assumes i: "veth_inv s" and a: "softcs s a = Some c" and pe: "peer c = Some b"
  shows "veth_inv (upd_sc a (peer_update (\<lambda>_. None)) (upd_sc b (peer_update (\<lambda>_. None)) s))"
proof -
  from i have ok: "heap_ok (mem s) (softcs s)" "peers_ok (softcs s)" "queues_ok (softcs s)"
    "packets_ok (softcs s) (mbufs s)" "exec_ok s" by (auto simp: veth_inv_def)
  from ok(2) a pe obtain d where b: "softcs s b = Some d" "a \<noteq> b" "peer d = Some a"
    unfolding peers_ok_def by blast
  let ?h = "(softcs s)(b \<mapsto> d\<lparr>peer := None\<rparr>, a \<mapsto> c\<lparr>peer := None\<rparr>)"
  have sc: "softcs (upd_sc a (peer_update (\<lambda>_. None)) (upd_sc b (peer_update (\<lambda>_. None)) s)) = ?h"
    using a b by (simp add: upd_sc_def)
  have "holders ?h x = holders (softcs s) x" for x
    using ok(1) a b by (simp add: holders_update sc_packets_def heap_ok_def)
  moreover have "peers_ok ?h" unfolding peers_ok_def
  proof (intro allI impI)
    fix x z y
    assume x: "?h x = Some z" "peer z = Some y"
    with a b have z: "x \<noteq> a" "x \<noteq> b" "softcs s x = Some z" by (auto split: if_splits)
    with ok(2) x obtain w where w: "x \<noteq> y" "softcs s y = Some w" "peer w = Some x" unfolding peers_ok_def by blast
    with a b pe z have "y \<noteq> a" "y \<noteq> b" by auto
    with w show "x \<noteq> y \<and> (\<exists>w. ?h y = Some w \<and> peer w = Some x)" by simp
  qed
  moreover have "queues_ok ?h" using ok(3) a b by (auto simp: queues_ok_def)
  moreover have "heap_ok (mem s) ?h"
    by (rule heap_ok_update [OF heap_ok_update [OF ok(1) b(1)]]) (use a b in simp)
  ultimately show ?thesis using ok by (simp add: veth_inv_def packets_ok_def exec_ok_def sc)
qed

lemma packets_ok_destroy:
  assumes po: "packets_ok h mb" and fin: "finite (dom h)" and a: "h a = Some c"
  shows "packets_ok (h(a := None)) (mb |` (- set (mq_packets (rx_queue c))))"
  unfolding packets_ok_def
proof (intro allI conjI impI)
  fix x
  have hold: "holders (h(a := None)) x = holders h x - int (count_list (sc_packets c) x)"
    using owned_remove [OF fin a] by (simp add: holders_def)
  have px: "holders h x \<le> 1" "0 < holders h x \<longrightarrow> mb x \<noteq> None" using po by (auto simp: packets_ok_def)
  show "holders (h(a := None)) x \<le> 1" using px hold by simp
  assume pos: "0 < holders (h(a := None)) x"
  with px hold have "count_list (sc_packets c) x = 0" by linarith
  then have "x \<notin> set (mq_packets (rx_queue c))" by (simp add: count_list_0_iff sc_packets_def)
  moreover have "mb x \<noteq> None" using pos px hold by simp
  ultimately show "(mb |` (- set (mq_packets (rx_queue c)))) x \<noteq> None" by (simp add: restrict_map_def)
qed

lemma veth_inv_remove:
  assumes i: "veth_inv s" and a: "softcs s a = Some c" and pe: "peer c = None"
    and s': "softcs s' = (softcs s)(a := None)" "mbufs s' = mbufs s |` (- set (mq_packets (rx_queue c)))"
    "brk (mem s') = brk (mem s)" "executing s' = executing s" "threads s' = threads s"
  shows "veth_inv s'"
proof -
  from i have ok: "heap_ok (mem s) (softcs s)" "peers_ok (softcs s)" "queues_ok (softcs s)"
    "packets_ok (softcs s) (mbufs s)" "exec_ok s" by (auto simp: veth_inv_def)
  have "peers_ok (softcs s')" using ok(2) a pe unfolding peers_ok_def s' fun_upd_apply
    by (metis option.distinct(1) option.inject)
  moreover have "heap_ok (mem s') (softcs s')" using ok(1) by (auto simp: heap_ok_def s')
  moreover have "queues_ok (softcs s')" using ok(3) by (auto simp: queues_ok_def s')
  moreover have "packets_ok (softcs s') (mbufs s')" unfolding s'
    by (rule packets_ok_destroy [OF ok(4) heap_ok_finite [OF ok(1)] a])
  ultimately show ?thesis using ok(5) by (simp add: veth_inv_def exec_ok_def s')
qed

lemma veth_destroy_finish_ok:
  assumes i: "veth_inv s" and a: "softcs s a = Some c"
  obtains s' where "veth_destroy_finish a s = Some (None, s')" "veth_inv s'"
    "dom (softcs s') = dom (softcs s) - {a}" "mbufs s' = mbufs s |` (- set (mq_packets (rx_queue c)))"
    "live (mem s') = live (mem s) - 1 - mq_count (rx_queue c)" "groups s' = groups s"
proof -
  define s1 where "s1 = upd_sc a (rx_task_id_update (\<lambda>_. 0)) s"
  have i1: "veth_inv s1" using i by (auto simp: s1_def intro!: upd_sc_inv)
  have s1: "softcs s1 a = Some (c\<lparr>rx_task_id := 0\<rparr>)" "mem s1 = mem s" "mbufs s1 = mbufs s" "groups s1 = groups s"
    "dom (softcs s1) = dom (softcs s)" using a by (auto simp: s1_def upd_sc_def)
  define s2 where "s2 = (case peer c of None \<Rightarrow> s1 | Some b \<Rightarrow>
     upd_sc a (peer_update (\<lambda>_. None)) (upd_sc b (peer_update (\<lambda>_. None)) s1))"
  have unpair: "(case peer c of None \<Rightarrow> Some s1 | Some b \<Rightarrow> do { _ \<leftarrow> softcs s1 b;
      Some (upd_sc a (peer_update (\<lambda>_. None)) (upd_sc b (peer_update (\<lambda>_. None)) s1)) }) = Some s2"
  proof (cases "peer c")
    case (Some b)
    with i1 s1(1) obtain d where "softcs s1 b = Some d" unfolding veth_inv_def peers_ok_def by fastforce
    with Some show ?thesis by (simp add: s2_def)
  qed (simp add: s2_def)
  have i2: "veth_inv s2" using i1 s1 veth_inv_unpair [OF i1 s1(1)] by (auto simp: s2_def split: option.splits)
  have s2: "softcs s2 a = Some (c\<lparr>rx_task_id := 0, peer := None\<rparr>)" "mem s2 = mem s" "mbufs s2 = mbufs s"
    "groups s2 = groups s" "dom (softcs s2) = dom (softcs s)"
    using s1 by (auto simp: s2_def upd_sc_def split: option.splits)
  let ?c = "c\<lparr>rx_task_id := 0, peer := None\<rparr>"
  have "\<forall>m \<in> set (mq_packets (rx_queue c)). mbufs s2 m \<noteq> None"
    using packet_live [OF i2 s2(1)] by (auto simp: sc_packets_def)
  moreover have "distinct (mq_packets (rx_queue c))"
    using sc_packets_distinct [OF i2 s2(1)] by (simp add: sc_packets_def)
  ultimately obtain q mm where q: "mbuf_queue_destroy_loop (rx_queue c) (mem s2) (mbufs s2) =
      Some (q, mm, mbufs s |` (- set (mq_packets (rx_queue c))))"
    and mm: "live mm = live (mem s2) - int (length (mq_head (rx_queue c)))" "brk mm = brk (mem s2)"
    using mbuf_queue_destroy_loop_frees [of "rx_queue c" "mbufs s2" "mem s2"] s2(3) by auto
  define s3 where "s3 = s2\<lparr>mem := free_block mm, mbufs := mbufs s |` (- set (mq_packets (rx_queue c))),
     softcs := (softcs s2)(a := None)\<rparr>"
  have "veth_destroy_finish a s = Some (None, s3)"
    using s1(1) unpair s2(1) q by (simp add: veth_destroy_finish_def s1_def [symmetric] mbuf_queue_destroy_def Let_def s3_def)
  moreover have "veth_inv s3"
    by (rule veth_inv_remove [OF i2 s2(1)]) (use s2 mm in \<open>simp_all add: s3_def\<close>)
  moreover have "mq_count (rx_queue c) = int (length (mq_head (rx_queue c)))"
    using i a by (auto simp: veth_inv_def queues_ok_def mq_wf_def)
  ultimately show ?thesis using that s2 mm by (auto simp: s3_def)
qed

section \<open>Reachable states\<close>

text \<open>At boot there is no interface, and some task is executing.\<close>

definition veth_boot :: "'a veth_kernel_scheme \<Rightarrow> bool" where
  "veth_boot s \<longleftrightarrow> softcs s = Map.empty \<and> exec_ok s"

lemma veth_boot_inv: "veth_boot s \<Longrightarrow> veth_inv s"
  by (simp add: veth_boot_def veth_inv_def heap_ok_def peers_ok_def queues_ok_def packets_ok_def holders_def)

lemma veth_step_ok:
  assumes E: "veth_polite E" and st: "veth_step E s s'" and i: "veth_inv s"
  shows "veth_inv s'"
  using st
proof cases
  case traffic
  then show ?thesis using veth_traffic_ok [OF E _ i] by blast
next
  case (create name grp r)
  then show ?thesis using veth_create_ok [OF E i] by blast
next
  case (pair a c b d r)
  then show ?thesis using veth_set_pair_ok [OF i] by blast
next
  case (destroy_begin a)
  let ?s = "upd_sc a (running_update (\<lambda>_. False)) s"
  have "veth_inv ?s" using i by (auto intro!: upd_sc_inv)
  moreover have "(veth_call E)\<^sup>*\<^sup>* ?s (wake_after E 10 ?s)" using E by (simp add: veth_polite_def)
  moreover have "s' = ?s \<or> s' = wake_after E 10 ?s"
    using destroy_begin by (auto simp: veth_destroy_begin_def Let_def bind_eq_Some_conv)
  ultimately show ?thesis using veth_calls_ok [OF E] by metis
next
  case (destroy_finish a r)
  then obtain c where "softcs s a = Some c"
    by (auto simp: veth_destroy_finish_def upd_sc_def Let_def bind_eq_Some_conv)
  then show ?thesis using destroy_finish veth_destroy_finish_ok [OF i] by (metis option.inject prod.inject)
qed

lemma veth_reachable_inv:
  assumes "veth_polite E" "veth_boot s0" "(veth_step E)\<^sup>*\<^sup>* s0 s"
  shows "veth_inv s"
  using assms(3) by (induction rule: rtranclp_induct) (use assms veth_step_ok veth_boot_inv in blast)+




text \<open>(C12) The driver's queue implements a bounded first-in first-out queue: every sequence of
  insertions of distinct packets and removals on a fresh queue runs to its end; the packets that were
  accepted are the ones that came out, in order, followed by the ones still queued, of which there are
  at most the queue's bound, and exactly one entry block is allocated for each. Without a failing
  allocation the packets accepted, delivered and queued are those of a list of bounded length.\<close>

theorem mbuf_queue_refines_fifo:
  assumes "0 < maxsz" "mbuf_queue_init (Some q0) maxsz = (r, Some q)"
    and "distinct (fifo_args ops)" "\<forall>m \<in> set (fifo_args ops). h m \<noteq> None"
  shows "r = 0 \<and> (\<exists>accepted delivered q' mm' h'.
    fifo_run mq_enq mq_deq ops (q, mm, h) = Some (accepted, delivered, (q', mm', h')) \<and>
    accepted = delivered @ mq_packets q' \<and> int (length (mq_packets q')) \<le> maxsz \<and>
    live mm' = live mm + int (length (mq_packets q')) \<and>
    (oom mm = (\<lambda>_. False) \<longrightarrow> (accepted, delivered, mq_packets q') = fifo_spec maxsz ops []))"
proof -
  from assms(1,2) have q: "r = 0" "q = \<lparr>mq_head = [], mq_count = 0, mq_max_size = maxsz\<rparr>"
    by (auto simp: mbuf_queue_init_def split: if_splits)
  then have wf: "mq_wf (fst (q, mm, h))" using assms(1) by (simp add: mq_wf_def)
  have "mq_able (fifo_args ops) (q, mm, h)" using assms(3,4) by (simp add: mq_able_def)
  from mqr.run_total [OF this] obtain acc out q' mm' h' where
    run: "fifo_run mq_enq mq_deq ops (q, mm, h) = Some (acc, out, q', mm', h')" by (metis prod_cases3)
  from mq.run_law [OF wf run] mq.run_bounded [OF wf run] mqr.run_spec [OF wf _ run] q run show ?thesis
    by (simp add: mq_packets_def mq_blocks_def mq_plenty_def)
qed

text \<open>The order of pairing matters. Pairing an interface that has a peer leaves the old peer pointing at
  it; when the interface is destroyed, that pointer dangles.\<close>

lemma veth_repair_dangles:
  assumes i: "veth_inv s" and a: "softcs s a = Some x" "peer x = Some b"
    and c: "softcs s c = Some z" "c \<noteq> a" "c \<noteq> b"
    and p: "veth_set_pair (Some a) (Some c) s = Some (r, s1)" and d: "veth_destroy_finish a s1 = Some (u, s2)"
  shows "softcs s2 a = None \<and> (\<exists>y. softcs s2 b = Some y \<and> peer y = Some a)"
proof -
  from i a obtain y where b: "softcs s b = Some y" "peer y = Some a" "a \<noteq> b"
    unfolding veth_inv_def peers_ok_def by blast
  have s1: "softcs s1 = (softcs s)(a \<mapsto> x\<lparr>peer := Some c\<rparr>, c \<mapsto> z\<lparr>peer := Some a\<rparr>)"
    using p a c by (auto simp: veth_set_pair_def upd_sc_def split: if_splits)
  with d b c have "softcs s2 b = Some y" "softcs s2 a = None"
    by (auto simp: veth_destroy_finish_def upd_sc_def Let_def bind_eq_Some_conv split: option.splits)
  with b show ?thesis by blast
qed

text \<open>Destroying takes the interface out of no list: the group it was created in still points to it.\<close>

lemma veth_destroy_keeps_list:
  "veth_destroy_finish a s = Some (u, s') \<Longrightarrow> groups s' = groups s \<and> softcs s' a = None \<and> u = None"
  by (auto simp: veth_destroy_finish_def upd_sc_def Let_def bind_eq_Some_conv split: option.splits)

text \<open>A generated address is a locally administered unicast one; two interfaces created one tick apart,
  the first on an even tick with an even counter, get the same address.\<close>

lemma veth_mac_local:
  "veth_generate_mac s = (mac, s') \<Longrightarrow> length mac = 6 \<and> bit (hd mac) 1 \<and> \<not> bit (hd mac) 0"
  by (auto simp: veth_generate_mac_def Let_def bit_simps)

lemma demo_mac_collision:
  "fst (veth_generate_mac (s\<lparr>ticks_since_boot := 1000, mac_counter := 0\<rparr>)) =
   fst (veth_generate_mac (s\<lparr>ticks_since_boot := 1001, mac_counter := 1\<rparr>))"
  by (simp add: veth_generate_mac_def Let_def)

section \<open>Witnesses\<close>

text \<open>A stack that frees what it is handed, accepts every ioctl and starts every task.\<close>

definition demo_env :: "'a veth_kernel_scheme veth_env" where
  "demo_env = \<lparr>ether_input = (\<lambda>a d m s. s\<lparr>mbufs := (mbufs s)(m := None)\<rparr>), ether_ioctl = (\<lambda>a cmd s. (0, s)),
     if_attach = (\<lambda>a s. s), ether_ifattach = (\<lambda>a s. s), task_create = (\<lambda>s. (RTEMS_SUCCESSFUL, 5, s)),
     task_start = (\<lambda>i a s. (RTEMS_SUCCESSFUL, s)),
     wake_after = (\<lambda>n s. s), task_delete_self = (\<lambda>s. s)\<rparr>"

lemma demo_env_polite: "veth_polite demo_env"
  by (auto simp: veth_polite_def demo_env_def veth_keeps_def intro!: r_into_rtranclp veth_call.packet)

definition demo_veth :: veth_kernel where
  "demo_veth = net_kernel.extend demo_net (veth_kernel.fields [50 \<mapsto> \<lparr>m_data = 0, m_len = 60, pkthdr_len = 60, rcvif = None\<rparr>]
     Map.empty 0)"

lemma demo_veth_sel [simp]:
  "softcs demo_veth = Map.empty" "mbufs demo_veth = [50 \<mapsto> \<lparr>m_data = 0, m_len = 60, pkthdr_len = 60, rcvif = None\<rparr>]"
  "mac_counter demo_veth = 0" "executing demo_veth = Some 3"
  "threads demo_veth = threads demo_net" "mem demo_veth = \<lparr>brk = 10, oom = (\<lambda>_. False), live = 4\<rparr>"
  by (simp_all add: demo_veth_def demo_net_def io_kernel.defs net_kernel.defs veth_kernel.defs)

lemma demo_veth_boot: "veth_boot demo_veth"
  by (simp add: veth_boot_def exec_ok_def)

text \<open>Two interfaces are created at addresses 10 and 11 and paired, and a packet is put in the first
  one's send queue.\<close>

lemma demo_veth_create:
  assumes "softcs s = h" "mem s = \<lparr>brk = n, oom = (\<lambda>_. False), live = l\<rparr>"
  shows "\<exists>s' mac. veth_create demo_env (Some ''veth0'') None s = Some (Some n, s') \<and> mbufs s' = mbufs s \<and>
    executing s' = executing s \<and> threads s' = threads s \<and> mem s' = \<lparr>brk = Suc n, oom = (\<lambda>_. False), live = l + 1\<rparr> \<and>
    softcs s' = h(n \<mapsto> veth_softc_new 0 mac \<lparr>mq_head = [], mq_count = 0, mq_max_size = VETH_QUEUE_SIZE\<rparr>)"
  using assms by (simp add: veth_create_def malloc_def mbuf_queue_init_def VETH_QUEUE_SIZE_def char_at_def
      veth_generate_mac_def veth_attach_def Let_def demo_env_def) blast

lemma demo_veth_pair:
  obtains s c d where "(veth_step demo_env)\<^sup>*\<^sup>* demo_veth s" "softcs s = [10 \<mapsto> c, 11 \<mapsto> d]" "peer c = Some 11"
    "peer d = Some 10" "if_snd c = [50]" "rx_queue d = \<lparr>mq_head = [], mq_count = 0, mq_max_size = 64\<rparr>"
    "tx_packets c = 0" "rx_packets d = 0"
proof -
  obtain s1 mac1 where c1: "veth_create demo_env (Some ''veth0'') None demo_veth = Some (Some 10, s1)"
    and s1: "mbufs s1 = mbufs demo_veth" "executing s1 = executing demo_veth" "threads s1 = threads demo_veth"
      "mem s1 = \<lparr>brk = 11, oom = (\<lambda>_. False), live = 5\<rparr>"
      "softcs s1 = [10 \<mapsto> veth_softc_new 0 mac1 \<lparr>mq_head = [], mq_count = 0, mq_max_size = VETH_QUEUE_SIZE\<rparr>]"
    using demo_veth_create [of demo_veth Map.empty 10 4] by auto
  obtain s2 mac2 where c2: "veth_create demo_env (Some ''veth0'') None s1 = Some (Some 11, s2)"
    and s2: "mbufs s2 = mbufs s1" "softcs s2 = (softcs s1)(11 \<mapsto> veth_softc_new 0 mac2
        \<lparr>mq_head = [], mq_count = 0, mq_max_size = VETH_QUEUE_SIZE\<rparr>)"
    using demo_veth_create [OF refl s1(4)] by auto
  let ?x = "veth_softc_new 0 mac1 \<lparr>mq_head = [], mq_count = 0, mq_max_size = VETH_QUEUE_SIZE\<rparr>"
  let ?y = "veth_softc_new 0 mac2 \<lparr>mq_head = [], mq_count = 0, mq_max_size = VETH_QUEUE_SIZE\<rparr>"
  obtain s3 where p: "veth_set_pair (Some 10) (Some 11) s2 = Some (0, s3)" and s3: "mbufs s3 = mbufs s2"
    "softcs s3 = [10 \<mapsto> ?x\<lparr>peer := Some 11\<rparr>, 11 \<mapsto> ?y\<lparr>peer := Some 10\<rparr>]"
    using s1 s2 by (simp add: veth_set_pair_def upd_sc_def)
  define s4 where "s4 = upd_sc 10 (\<lambda>c. c\<lparr>if_snd := if_snd c @ [50]\<rparr>) s3"
  have st1: "veth_step demo_env demo_veth s1" using c1 by (rule veth_step.create)
  have st2: "veth_step demo_env s1 s2" using c2 by (rule veth_step.create)
  have st3: "veth_step demo_env s2 s3"
    by (rule veth_step.pair [where c = ?x and d = ?y, OF _ _ _ _ p]) (use s1 s2 in \<open>simp_all add: veth_softc_new_def\<close>)
  have "holders (softcs s3) 50 = 0"
    unfolding s3 holders_def by (simp add: own_simps sc_packets_def mq_packets_def veth_softc_new_def)
  then have "veth_call demo_env s3 s4" unfolding s4_def by (rule veth_call.send) (simp add: s1 s2 s3)
  then have st4: "veth_step demo_env s3 s4" by (intro veth_step.traffic veth_traffic.call)
  have "(veth_step demo_env)\<^sup>*\<^sup>* demo_veth s4"
    by (intro converse_rtranclp_into_rtranclp [of "veth_step demo_env", OF st1]
        converse_rtranclp_into_rtranclp [of "veth_step demo_env", OF st2]
        converse_rtranclp_into_rtranclp [of "veth_step demo_env", OF st3] r_into_rtranclp [of "veth_step demo_env", OF st4])
  moreover have "softcs s4 = [10 \<mapsto> ?x\<lparr>peer := Some 11, if_snd := [50]\<rparr>, 11 \<mapsto> ?y\<lparr>peer := Some 10\<rparr>]"
    by (simp add: s4_def upd_sc_def s3 fun_upd_twist) (simp add: veth_softc_new_def)
  ultimately show ?thesis by (rule that) (simp_all add: veth_softc_new_def VETH_QUEUE_SIZE_def)
qed



definition demo_mbuf :: mbuf where
  "demo_mbuf = \<lparr>m_data = 0, m_len = 60, pkthdr_len = 60, rcvif = None\<rparr>"

theorem mbuf_queue_refines_fifo_witness:
  "\<exists>q' mm' h'. fifo_run mq_enq mq_deq [Enq 7, Enq 8, Enq 5, Deq, Enq 9]
      (\<lparr>mq_head = [], mq_count = 0, mq_max_size = 2\<rparr>, \<lparr>brk = 10, oom = (\<lambda>_. False), live = 0\<rparr>, [5 \<mapsto> demo_mbuf, 7 \<mapsto> demo_mbuf, 8 \<mapsto> demo_mbuf, 9 \<mapsto> demo_mbuf])
      = Some ([7, 8, 9], [7], q', mm', h') \<and> mq_packets q' = [8, 9] \<and> live mm' = 2"
proof -
  let ?q = "\<lparr>mq_head = [], mq_count = 0, mq_max_size = 2\<rparr> :: mbuf_queue"
  let ?mm = "\<lparr>brk = 10, oom = (\<lambda>_. False), live = 0\<rparr> :: Memory"
  have "mbuf_queue_init (Some ?q) 2 = (0, Some ?q)" by (simp add: mbuf_queue_init_def)
  from mbuf_queue_refines_fifo [of 2 ?q 0 ?q "[Enq 7, Enq 8, Enq 5, Deq, Enq 9]" "[5 \<mapsto> demo_mbuf, 7 \<mapsto> demo_mbuf, 8 \<mapsto> demo_mbuf, 9 \<mapsto> demo_mbuf]" ?mm, OF _ this]
  show ?thesis by auto
qed

text \<open>An environment in which interface 10 is shut down during the first idle tick, and that interface
  with two packets waiting.\<close>

definition demo_idle_env :: "'a veth_kernel_scheme veth_env" where
  "demo_idle_env = demo_env\<lparr>wake_after := (\<lambda>n s. veth_down 10 s)\<rparr>"

lemma demo_idle_env_polite: "veth_polite demo_idle_env"
  by (auto simp: veth_polite_def demo_idle_env_def demo_env_def veth_keeps_def
      intro!: r_into_rtranclp veth_call.packet veth_call.down)

definition demo_rx :: veth_softc where
  "demo_rx = (veth_softc_new 0 [] \<lparr>mq_head = [(30, 50), (31, 51)], mq_count = 2, mq_max_size = 64\<rparr>)\<lparr>running := True\<rparr>"

definition demo_rx_state :: veth_kernel where
  "demo_rx_state = demo_veth\<lparr>mem := \<lparr>brk = 40, oom = (\<lambda>_. False), live = 6\<rparr>, softcs := [10 \<mapsto> demo_rx],
     mbufs := [50 \<mapsto> \<lparr>m_data = 0, m_len = 60, pkthdr_len = 60, rcvif = None\<rparr>,
               51 \<mapsto> \<lparr>m_data = 0, m_len = 70, pkthdr_len = 70, rcvif = None\<rparr>]\<rparr>"

lemma demo_rx_state_inv: "veth_inv demo_rx_state"
  by (auto simp: veth_inv_def heap_ok_def peers_ok_def queues_ok_def packets_ok_def exec_ok_def holders_def owned_def
      demo_rx_state_def demo_rx_def veth_softc_new_def sc_packets_def mq_packets_def mq_wf_def split: if_splits)


end
