(* ===== verification/ContainerFs.thy ===== *)
theory ContainerFs
  imports NetContainer Text
begin

text \<open>
  The container control files, \<open>score/src/containerfs.c\<close>: the write handlers of \<open>/pidctl\<close>,
  \<open>/utsctl\<close>, \<open>/mntctl\<close>, \<open>/netctl\<close>, \<open>/ipcctl\<close>, \<open>/cpuctl\<close>, \<open>/memctl\<close> and \<open>/ioctl\<close>, the tables of
  control groups that the last three keep, and the registration of the files.

  A handler gets the bytes of a write, cuts a command line out of them and calls the component behind
  the file. What it prints is appended to \<open>console\<close>. \<open>/cpuctl\<close> and \<open>/memctl\<close> describe a new group in
  a local variable: \<open>config_frame\<close> is the address of that variable, live while the handler runs. The
  lock that \<open>_Cgroup_Get\<close> leaves held is released at once, and is not modelled.
\<close>

section \<open>State and output\<close>

record id_table =
  ids :: "u32 list"
  id_count :: nat

record fs_kernel = net_kernel +
  cgroup_table :: id_table
  cgroup_name_index :: u32
  iocgroup_table :: id_table
  errno :: int
  console :: string
  config_frame :: addr
  nodes_created :: "string list"

definition CONTAINERFS_CGROUP_TRACK_MAX :: nat where "CONTAINERFS_CGROUP_TRACK_MAX = 32"

definition printf :: "string list \<Rightarrow> 'a fs_kernel_scheme \<Rightarrow> 'a fs_kernel_scheme" where
  "printf ps s = s\<lparr>console := console s @ concat ps\<rparr>"

definition nl :: string where "nl = [CHR 0x0A]"

text \<open>\<open>%d\<close> of an integer and of a status code, \<open>%u\<close> of a number.\<close>

definition pd :: "int \<Rightarrow> string" where "pd i = fmt_d 0 i"
definition pu :: "nat \<Rightarrow> string" where "pu n = digits 10 20 n"

fun sc_value :: "rtems_status_code \<Rightarrow> int" where
  "sc_value RTEMS_SUCCESSFUL = 0" | "sc_value RTEMS_TASK_EXITTED = 1" | "sc_value RTEMS_MP_NOT_CONFIGURED = 2"
| "sc_value RTEMS_INVALID_NAME = 3" | "sc_value RTEMS_INVALID_ID = 4" | "sc_value RTEMS_TOO_MANY = 5"
| "sc_value RTEMS_TIMEOUT = 6" | "sc_value RTEMS_OBJECT_WAS_DELETED = 7" | "sc_value RTEMS_INVALID_SIZE = 8"
| "sc_value RTEMS_INVALID_ADDRESS = 9" | "sc_value RTEMS_INVALID_NUMBER = 10" | "sc_value RTEMS_NOT_DEFINED = 11"
| "sc_value RTEMS_RESOURCE_IN_USE = 12" | "sc_value RTEMS_UNSATISFIED = 13" | "sc_value RTEMS_INCORRECT_STATE = 14"
| "sc_value RTEMS_ALREADY_SUSPENDED = 15" | "sc_value RTEMS_ILLEGAL_ON_SELF = 16"
| "sc_value RTEMS_ILLEGAL_ON_REMOTE_OBJECT = 17" | "sc_value RTEMS_CALLED_FROM_ISR = 18"
| "sc_value RTEMS_INVALID_PRIORITY = 19" | "sc_value RTEMS_INVALID_CLOCK = 20" | "sc_value RTEMS_INVALID_NODE = 21"
| "sc_value RTEMS_NOT_CONFIGURED = 22" | "sc_value RTEMS_NOT_OWNER_OF_RESOURCE = 23"
| "sc_value RTEMS_NOT_IMPLEMENTED = 24" | "sc_value RTEMS_INTERNAL_ERROR = 25" | "sc_value RTEMS_NO_MEMORY = 26"
| "sc_value RTEMS_IO_ERROR = 27" | "sc_value RTEMS_INTERRUPTED = 28" | "sc_value RTEMS_PROXY_BLOCKING = 29"

section \<open>The command line\<close>

text \<open>The loop that ends the command at the first line end.\<close>

fun cut_line :: "char list \<Rightarrow> char list" where
  "cut_line [] = []"
| "cut_line (ch # cs) = (if ch = CHR 0x0D \<or> ch = CHR 0x0A then NUL # cs else ch # cut_line cs)"

text \<open>The result is the return value and the bytes written to \<open>cmd\<close>. The caller's buffer must hold the
  bytes that are copied.\<close>

definition containerfs_copy_command ::
  "nat \<Rightarrow> char list option \<Rightarrow> nat \<Rightarrow> (nat \<times> char list) option" where
  "containerfs_copy_command cmd_size buffer count' =
     (case buffer of
        None \<Rightarrow> Some (0, [])
      | Some bytes \<Rightarrow>
          if count' = 0 \<or> cmd_size = 0 then Some (0, [])
          else let n = min count' (cmd_size - 1) in
            if length bytes < n then None
            else Some (n, cut_line (take n bytes) @ [NUL]))"

text \<open>\<open>strncmp(cmd, word, strlen(word)) == 0\<close>.\<close>

definition starts_with :: "string \<Rightarrow> string \<Rightarrow> bool" where
  "starts_with word cmd \<longleftrightarrow> take (length word) cmd = word"

section \<open>Tables of identifiers\<close>

text \<open>The shift that closes the gap at \<open>i\<close>, as the code runs it: \<open>j\<close> from \<open>i + 1\<close> below \<open>n\<close>.\<close>

fun shift_down :: "nat \<Rightarrow> nat \<Rightarrow> u32 list \<Rightarrow> u32 list option" where
  "shift_down j 0 xs = Some xs"
| "shift_down j (Suc k) xs =
     (if j < length xs \<and> 0 < j then shift_down (Suc j) k (xs[j - 1 := xs ! j]) else None)"

definition track_find :: "u32 \<Rightarrow> id_table \<Rightarrow> nat option" where
  "track_find i t = array_scan (\<lambda>x. x = i) 0 (take (id_count t) (ids t))"

definition track_add :: "u32 \<Rightarrow> id_table \<Rightarrow> id_table option" where
  "track_add i t =
     (if track_find i t \<noteq> None then Some t
      else if id_count t < CONTAINERFS_CGROUP_TRACK_MAX then do {
        xs \<leftarrow> array_update (ids t) (int (id_count t)) i;
        Some (t\<lparr>ids := xs, id_count := Suc (id_count t)\<rparr>) }
      else Some t)"

definition track_remove :: "u32 \<Rightarrow> id_table \<Rightarrow> id_table option" where
  "track_remove i t =
     (case track_find i t of
        None \<Rightarrow> Some t
      | Some k \<Rightarrow> do {
          xs \<leftarrow> shift_down (k + 1) (id_count t - (k + 1)) (ids t);
          Some (t\<lparr>ids := xs, id_count := id_count t - 1\<rparr>) })"

definition containerfs_cgroup_track_add :: "u32 \<Rightarrow> 'a fs_kernel_scheme \<Rightarrow> 'a fs_kernel_scheme option" where
  "containerfs_cgroup_track_add i s = do { t \<leftarrow> track_add i (cgroup_table s); Some (s\<lparr>cgroup_table := t\<rparr>) }"

definition containerfs_cgroup_track_remove :: "u32 \<Rightarrow> 'a fs_kernel_scheme \<Rightarrow> 'a fs_kernel_scheme option" where
  "containerfs_cgroup_track_remove i s = do { t \<leftarrow> track_remove i (cgroup_table s); Some (s\<lparr>cgroup_table := t\<rparr>) }"

definition containerfs_iocgroup_track_add :: "u32 \<Rightarrow> 'a fs_kernel_scheme \<Rightarrow> 'a fs_kernel_scheme option" where
  "containerfs_iocgroup_track_add i s = do { t \<leftarrow> track_add i (iocgroup_table s); Some (s\<lparr>iocgroup_table := t\<rparr>) }"

definition containerfs_iocgroup_track_remove :: "u32 \<Rightarrow> 'a fs_kernel_scheme \<Rightarrow> 'a fs_kernel_scheme option" where
  "containerfs_iocgroup_track_remove i s = do { t \<leftarrow> track_remove i (iocgroup_table s); Some (s\<lparr>iocgroup_table := t\<rparr>) }"

section \<open>The namespace files\<close>

text \<open>The five namespace files share the way a container is looked up, deleted and listed. \<open>gid\<close> reads
  the identifier of a container, \<open>own\<close> and \<open>reg\<close> are the root's container and the registry.\<close>

fun ctl_scan :: "(ptr \<Rightarrow> 's \<Rightarrow> int option) \<Rightarrow> int \<Rightarrow> addr list \<Rightarrow> 's \<Rightarrow> ptr option" where
  "ctl_scan gid i [] s = Some None"
| "ctl_scan gid i (c # cs) s = do { k \<leftarrow> gid (Some c) s; if k = i then Some (Some c) else ctl_scan gid i cs s }"

definition ctl_find ::
  "(ptr \<Rightarrow> 'a fs_kernel_scheme \<Rightarrow> int option) \<Rightarrow> (Container \<Rightarrow> ptr) \<Rightarrow> (Container \<Rightarrow> addr list) \<Rightarrow> int \<Rightarrow>
     'a fs_kernel_scheme \<Rightarrow> (ptr \<times> bool) option" where
  "ctl_find gid own reg i s =
     (case rtems_container_get_root s of
        None \<Rightarrow> Some (None, False)
      | Some root \<Rightarrow> do {
          is_root \<leftarrow> (case own root of None \<Rightarrow> Some False | Some c \<Rightarrow> map_option (\<lambda>k. k = i) (gid (Some c) s));
          if is_root then Some (own root, True)
          else map_option (\<lambda>p. (p, False)) (ctl_scan gid i (reg root) s) })"

definition ctl_delete ::
  "string \<Rightarrow> (ptr \<Rightarrow> 'a fs_kernel_scheme \<Rightarrow> int option) \<Rightarrow> (Container \<Rightarrow> ptr) \<Rightarrow> (Container \<Rightarrow> addr list) \<Rightarrow>
     (ptr \<Rightarrow> 'a fs_kernel_scheme \<Rightarrow> 'a fs_kernel_scheme option) \<Rightarrow> string \<Rightarrow> 'a fs_kernel_scheme \<Rightarrow>
     'a fs_kernel_scheme option" where
  "ctl_delete tag gid own reg del args s = do {
     v \<leftarrow> sscanf_d args;
     case v of
       Some i \<Rightarrow>
         if 0 < i then do {
           (found, is_root) \<leftarrow> ctl_find gid own reg i s;
           if found \<noteq> None then
             if is_root then Some (printf [tag, '' delete: cannot delete root container (id='', pd i, '')'', nl] s)
             else do { s1 \<leftarrow> del found s; Some (printf [tag, '' deleted: id='', pd i, nl] s1) }
           else Some (printf [tag, '' delete: id='', pd i, '' not found'', nl] s) }
         else Some (printf [tag, '' usage: delete <id>'', nl] s)
     | None \<Rightarrow> Some (printf [tag, '' usage: delete <id>'', nl] s) }"

fun show_each :: "('x \<Rightarrow> 's \<Rightarrow> string option) \<Rightarrow> 'x list \<Rightarrow> 's \<Rightarrow> string option" where
  "show_each shw [] s = Some []"
| "show_each shw (c # cs) s = do { x \<leftarrow> shw c s; xs \<leftarrow> show_each shw cs s; Some (x @ xs) }"

definition ctl_list ::
  "string \<Rightarrow> (addr \<Rightarrow> 'a fs_kernel_scheme \<Rightarrow> string option) \<Rightarrow> (Container \<Rightarrow> ptr) \<Rightarrow> (Container \<Rightarrow> addr list) \<Rightarrow>
     'a fs_kernel_scheme \<Rightarrow> 'a fs_kernel_scheme option" where
  "ctl_list tag shw own reg s =
     (case rtems_container_get_root s of
        None \<Rightarrow> Some (printf [tag, '' list: no root container'', nl] s)
      | Some root \<Rightarrow>
          (case own root of
             None \<Rightarrow> Some (printf [tag, '' list: no root container'', nl] s)
           | Some c \<Rightarrow> do {
               first \<leftarrow> shw c s;
               rest \<leftarrow> show_each (\<lambda>d s. map_option (\<lambda>x. '', '' @ x) (shw d s)) (reg root) s;
               Some (printf [tag, '' list: root '', first, rest, nl] s) }))"

definition show_id :: "(ptr \<Rightarrow> 's \<Rightarrow> int option) \<Rightarrow> addr \<Rightarrow> 's \<Rightarrow> string option" where
  "show_id gid c s = map_option (\<lambda>i. ''id='' @ pd i) (gid (Some c) s)"

definition ctl_created ::
  "string \<Rightarrow> (ptr \<Rightarrow> 'a fs_kernel_scheme \<Rightarrow> int option) \<Rightarrow> ptr \<times> 'a fs_kernel_scheme \<Rightarrow> 'a fs_kernel_scheme option" where
  "ctl_created tag gid r =
     (case r of
        (None, s) \<Rightarrow> Some (printf [tag, '' create failed'', nl] s)
      | (Some c, s) \<Rightarrow> do { i \<leftarrow> gid (Some c) s; Some (printf [tag, '' created: id='', pd i, nl] s) })"

definition ctl_unknown :: "string \<Rightarrow> string \<Rightarrow> string \<Rightarrow> 'a fs_kernel_scheme \<Rightarrow> 'a fs_kernel_scheme option" where
  "ctl_unknown tag supported cmd s =
     Some (printf [tag, '' unknown cmd: '', cmd, nl, tag, '' supported: '', supported, nl] s)"

text \<open>Every handler first takes the command line; an empty write changes nothing.\<close>

definition ctl_write ::
  "nat \<Rightarrow> (string \<Rightarrow> 's \<Rightarrow> 's option) \<Rightarrow> char list option \<Rightarrow> nat \<Rightarrow> 's \<Rightarrow> (int \<times> 's) option" where
  "ctl_write size' body buffer count' s = do {
     (n, cmd) \<leftarrow> containerfs_copy_command size' buffer count';
     if n = 0 then Some (int count', s)
     else do { s1 \<leftarrow> body (cstr cmd) s; Some (int count', s1) } }"

definition pidctl_write :: "char list option \<Rightarrow> nat \<Rightarrow> 'a fs_kernel_scheme \<Rightarrow> (int \<times> 'a fs_kernel_scheme) option" where
  "pidctl_write = ctl_write 128 (\<lambda>cmd s.
     if cmd = ''create'' then ctl_created ''[pidctl]'' rtems_pid_container_get_id (rtems_pid_container_create s)
     else if starts_with ''delete'' cmd then
       ctl_delete ''[pidctl]'' rtems_pid_container_get_id pidContainer pidContainerList rtems_pid_container_delete (drop 6 cmd) s
     else if cmd = ''list'' then
       ctl_list ''[pidctl]'' (show_id rtems_pid_container_get_id) pidContainer pidContainerList s
     else ctl_unknown ''[pidctl]'' ''create | delete <id> | list'' cmd s)"

definition uts_id :: "ptr \<Rightarrow> 'a uts_kernel_scheme \<Rightarrow> int option" where
  "uts_id p s = do { c \<leftarrow> p; map_option uts_ID (utss s c) }"

definition show_uts :: "addr \<Rightarrow> 'a uts_kernel_scheme \<Rightarrow> string option" where
  "show_uts c s = map_option (\<lambda>u. ''id='' @ pd (uts_ID u) @ '' name='' @ cstr (uts_name u)) (utss s c)"

text \<open>The name behind \<open>create\<close>: what follows one blank and further blanks, when it is not empty.\<close>

definition utsctl_name :: "string \<Rightarrow> string option" where
  "utsctl_name cmd =
     (if 6 < length cmd \<and> cmd ! 6 = CHR '' '' then
        (case dropWhile (\<lambda>ch. ch = CHR '' '') (drop 7 cmd) of [] \<Rightarrow> None | name \<Rightarrow> Some name)
      else None)"

definition utsctl_write :: "char list option \<Rightarrow> nat \<Rightarrow> 'a fs_kernel_scheme \<Rightarrow> (int \<times> 'a fs_kernel_scheme) option" where
  "utsctl_write = ctl_write 256 (\<lambda>cmd s.
     if starts_with ''create'' cmd then
       (case rtems_uts_container_create (utsctl_name cmd) s of
          (None, s1) \<Rightarrow> Some (printf [''[utsctl] create failed'', nl] s1)
        | (Some c, s1) \<Rightarrow> do {
            u \<leftarrow> utss s1 c;
            Some (printf [''[utsctl] created: id='', pd (uts_ID u), '', name='', cstr (uts_name u), nl] s1) })
     else if starts_with ''delete'' cmd then
       ctl_delete ''[utsctl]'' uts_id utsContainer utsContainerList rtems_uts_container_delete (drop 6 cmd) s
     else if cmd = ''list'' then ctl_list ''[utsctl]'' show_uts utsContainer utsContainerList s
     else ctl_unknown ''[utsctl]'' ''create [name] | delete <id> | list'' cmd s)"

definition mntctl_inherit ::
  "('a fs_kernel_scheme \<Rightarrow> 'a fs_kernel_scheme option) \<Rightarrow> string \<Rightarrow> 'a fs_kernel_scheme \<Rightarrow> 'a fs_kernel_scheme option" where
  "mntctl_inherit dr args s = do {
     v \<leftarrow> sscanf_d args;
     case v of
       Some i \<Rightarrow>
         if 0 < i then do {
           (parent, _) \<leftarrow> ctl_find rtems_mnt_container_get_id mntContainer mntContainerList i s;
           if parent \<noteq> None then do {
             (p, s1) \<leftarrow> rtems_mnt_container_create_with_inheritance dr parent s;
             case p of
               None \<Rightarrow> Some (printf [''[mntctl] create with inheritance failed'', nl] s1)
             | Some c \<Rightarrow> do {
                 let s2 = rtems_mnt_container_add_to_list (Some c) s1;
                 k \<leftarrow> rtems_mnt_container_get_id (Some c) s2;
                 Some (printf [''[mntctl] created with inheritance: id='', pd k, '', parent_id='', pd i, nl] s2) } }
           else Some (printf [''[mntctl] parent container id='', pd i, '' not found'', nl] s) }
         else Some (printf [''[mntctl] usage: create_inherit <parent_id>'', nl] s)
     | None \<Rightarrow> Some (printf [''[mntctl] usage: create_inherit <parent_id>'', nl] s) }"

definition mntctl_write ::
  "('a fs_kernel_scheme \<Rightarrow> 'a fs_kernel_scheme option) \<Rightarrow> char list option \<Rightarrow> nat \<Rightarrow> 'a fs_kernel_scheme \<Rightarrow>
     (int \<times> 'a fs_kernel_scheme) option" where
  "mntctl_write dr = ctl_write 256 (\<lambda>cmd s.
     if cmd = ''create'' then
       ctl_created ''[mntctl]'' rtems_mnt_container_get_id
         (case rtems_mnt_container_create s of
            (None, s1) \<Rightarrow> (None, s1)
          | (Some c, s1) \<Rightarrow> (Some c, rtems_mnt_container_add_to_list (Some c) s1))
     else if starts_with ''create_inherit'' cmd then mntctl_inherit dr (drop 14 cmd) s
     else if starts_with ''delete'' cmd then
       ctl_delete ''[mntctl]'' rtems_mnt_container_get_id mntContainer mntContainerList rtems_mnt_container_delete (drop 6 cmd) s
     else if cmd = ''list'' then
       ctl_list ''[mntctl]'' (show_id rtems_mnt_container_get_id) mntContainer mntContainerList s
     else ctl_unknown ''[mntctl]'' ''create | create_inherit <parent_id> | delete <id> | list'' cmd s)"

definition netctl_write ::
  "'a fs_kernel_scheme bsdnet \<Rightarrow> char list option \<Rightarrow> nat \<Rightarrow> 'a fs_kernel_scheme \<Rightarrow> (int \<times> 'a fs_kernel_scheme) option" where
  "netctl_write B = ctl_write 256 (\<lambda>cmd s.
     if cmd = ''create'' then do {
       r \<leftarrow> rtems_net_container_create B s;
       ctl_created ''[netctl]'' rtems_net_container_get_id r }
     else if starts_with ''delete'' cmd then
       ctl_delete ''[netctl]'' rtems_net_container_get_id netContainer netContainerList (rtems_net_container_delete B) (drop 6 cmd) s
     else if cmd = ''list'' then
       ctl_list ''[netctl]'' (show_id rtems_net_container_get_id) netContainer netContainerList s
     else ctl_unknown ''[netctl]'' ''create | delete <id> | list'' cmd s)"

definition ipcctl_write :: "char list option \<Rightarrow> nat \<Rightarrow> 'a fs_kernel_scheme \<Rightarrow> (int \<times> 'a fs_kernel_scheme) option" where
  "ipcctl_write = ctl_write 256 (\<lambda>cmd s.
     if cmd = ''create'' then do {
       r \<leftarrow> rtems_ipc_container_create s;
       ctl_created ''[ipcctl]'' rtems_ipc_container_get_id r }
     else if starts_with ''delete'' cmd then
       ctl_delete ''[ipcctl]'' rtems_ipc_container_get_id ipcContainer ipcContainerList rtems_ipc_container_delete (drop 6 cmd) s
     else if cmd = ''list'' then
       ctl_list ''[ipcctl]'' (show_id rtems_ipc_container_get_id) ipcContainer ipcContainerList s
     else ctl_unknown ''[ipcctl]'' ''create | delete <id> | list'' cmd s)"

section \<open>The control group files\<close>

definition cpuctl_error :: "int \<Rightarrow> 'a fs_kernel_scheme \<Rightarrow> (int \<times> 'a fs_kernel_scheme) option" where
  "cpuctl_error e s = Some (-1, s\<lparr>errno := e\<rparr>)"

definition is_blank :: "char \<Rightarrow> bool" where
  "is_blank ch \<longleftrightarrow> ch = CHR '' '' \<or> ch = CHR 0x09"

text \<open>A word followed by the end of the command or a blank; the result is what follows the blanks.\<close>

definition cpuctl_command :: "string \<Rightarrow> string \<Rightarrow> string option" where
  "cpuctl_command cmd word =
     (if starts_with word cmd \<and> (length cmd = length word \<or> is_blank (cmd ! length word))
      then Some (dropWhile is_blank (drop (length word) cmd)) else None)"

definition rtems_build_name :: "char \<Rightarrow> char \<Rightarrow> char \<Rightarrow> char \<Rightarrow> u32" where
  "rtems_build_name c1 c2 c3 c4 = push_bit 24 (of_nat (of_char c1)) OR push_bit 16 (of_nat (of_char c2))
     OR push_bit 8 (of_nat (of_char c3)) OR of_nat (of_char c4)"

text \<open>Creating a group from a configuration that lives in the handler's frame. The frame is gone when the
  handler returns.\<close>

definition create_from_frame ::
  "char \<times> char \<times> char \<Rightarrow> CORE_cgroup_config \<Rightarrow> 'a fs_kernel_scheme \<Rightarrow>
     (rtems_status_code \<times> u32 option \<times> 'a fs_kernel_scheme) option" where
  "create_from_frame abc conf s = do {
     let f = config_frame s;
     let name = (case abc of (a, b, c) \<Rightarrow>
       rtems_build_name a b c (char_of (48 + unat (cgroup_name_index s mod 10))));
     let s1 = s\<lparr>cgroup_name_index := cgroup_name_index s + 1, cgcfgs := (cgcfgs s)(f \<mapsto> conf)\<rparr>;
     (sc, i, s2) \<leftarrow> rtems_cgroup_create name False (Some f) s1;
     Some (sc, i, s2\<lparr>cgcfgs := (cgcfgs s2)(f := None)\<rparr>) }"

definition cpuctl_create :: "string \<Rightarrow> nat \<Rightarrow> 'a fs_kernel_scheme \<Rightarrow> (int \<times> 'a fs_kernel_scheme) option" where
  "cpuctl_create args count' s = do {
     vs \<leftarrow> (if args = [] then Some [100, 1000, 1] else sscanf_u [32, 32, 32] args);
     if length vs \<noteq> 3 then cpuctl_error EINVAL s
     else do {
       (sc, r, s1) \<leftarrow> create_from_frame (CHR ''C'', CHR ''P'', CHR ''U'')
          \<lparr>cpu_shares = of_nat (vs ! 2), cpu_quota = of_nat (vs ! 0), cpu_period = of_nat (vs ! 1),
           memory_limit = 0, blkio_limit = 0\<rparr> s;
       if sc = RTEMS_SUCCESSFUL then do {
         i \<leftarrow> r;
         s2 \<leftarrow> containerfs_cgroup_track_add i s1;
         Some (int count', printf [''[cpuctl] created: id='', pu (unat i), '', quota='', pu (vs ! 0), '', period='', pu (vs ! 1),
           '', shares='', pu (vs ! 2), nl] s2) }
       else cpuctl_error ENOMEM (printf [''[cpuctl] create failed: sc='', pd (sc_value sc), nl] s1) } }"

definition cpuctl_set :: "string \<Rightarrow> nat \<Rightarrow> 'a fs_kernel_scheme \<Rightarrow> (int \<times> 'a fs_kernel_scheme) option" where
  "cpuctl_set args count' s = do {
     vs \<leftarrow> sscanf_u [32, 32, 32] args;
     if length vs = 3 then do {
       p \<leftarrow> Cgroup_Get (of_nat (vs ! 0)) s;
       case p of
         Some cg \<Rightarrow> do {
           s1 \<leftarrow> CORE_cgroup_set_cpu_quota cg (of_nat (vs ! 1)) (of_nat (vs ! 2)) s;
           Some (int count', printf [''[cpuctl] updated: id='', pu (vs ! 0), '', quota='', pu (vs ! 1), '', period='', pu (vs ! 2), nl] s1) }
       | None \<Rightarrow> cpuctl_error ESRCH (printf [''[cpuctl] set: id='', pu (vs ! 0), '' not found'', nl] s) }
     else cpuctl_error EINVAL (printf [''[cpuctl] usage: set <id> <quota> <period>'', nl] s) }"

definition cpuctl_delete :: "string \<Rightarrow> nat \<Rightarrow> 'a fs_kernel_scheme \<Rightarrow> (int \<times> 'a fs_kernel_scheme) option" where
  "cpuctl_delete args count' s = do {
     vs \<leftarrow> sscanf_u [32] args;
     case vs of
       i # _ \<Rightarrow> do {
         (sc, s1) \<leftarrow> rtems_cgroup_delete (of_nat i) s;
         if sc = RTEMS_SUCCESSFUL then do {
           s2 \<leftarrow> containerfs_cgroup_track_remove (of_nat i) s1;
           Some (int count', printf [''[cpuctl] deleted: id='', pu i, nl] s2) }
         else cpuctl_error ESRCH (printf [''[cpuctl] delete failed: id='', pu i, '', sc='', pd (sc_value sc), nl] s1) }
     | [] \<Rightarrow> cpuctl_error EINVAL (printf [''[cpuctl] usage: delete <id>'', nl] s) }"

text \<open>\<open>pause\<close> and \<open>resume\<close>: \<open>act\<close> is \<open>_CORE_cgroup_Suspend\<close> or \<open>_CORE_cgroup_Resume\<close>.\<close>

definition cpuctl_switch ::
  "string \<Rightarrow> string \<Rightarrow>
   (cgp option \<Rightarrow> u32 \<Rightarrow> 'a fs_kernel_scheme \<Rightarrow> (rtems_status_code \<times> 'a fs_kernel_scheme) option) \<Rightarrow> string \<Rightarrow> nat \<Rightarrow>
   'a fs_kernel_scheme \<Rightarrow> (int \<times> 'a fs_kernel_scheme) option" where
  "cpuctl_switch verb past act args count' s = do {
     vs \<leftarrow> sscanf_u [32] args;
     case vs of
       i # _ \<Rightarrow> do {
         p \<leftarrow> Cgroup_Get (of_nat i) s;
         case p of
           Some cg \<Rightarrow> do {
             (sc, s1) \<leftarrow> act (Some cg) STATES_WAITING_FOR_CGROUP_CPU_QUOTA s;
             let s2 = printf [''[cpuctl] '', past, '': id='', pu i, '', sc='', pd (sc_value sc), nl] s1;
             if sc \<noteq> RTEMS_SUCCESSFUL then cpuctl_error EINVAL s2 else Some (int count', s2) }
         | None \<Rightarrow> cpuctl_error ESRCH (printf [''[cpuctl] '', verb, '': id='', pu i, '' not found'', nl] s) }
     | [] \<Rightarrow> cpuctl_error EINVAL (printf [''[cpuctl] usage: '', verb, '' <id>'', nl] s) }"

text \<open>Listing the tracked groups: each is looked up, and its configuration is read.\<close>

definition show_group :: "(CORE_cgroup_config \<Rightarrow> string) \<Rightarrow> u32 \<Rightarrow> 'a fs_kernel_scheme \<Rightarrow> string option" where
  "show_group shw i s = do {
     p \<leftarrow> Cgroup_Get i s;
     case p of
       None \<Rightarrow> Some []
     | Some p \<Rightarrow> do {
         cg \<leftarrow> cgs s p;
         case cg_config cg of
           None \<Rightarrow> Some []
         | Some c \<Rightarrow> do { conf \<leftarrow> cgcfgs s c; Some ('' id='' @ pu (unat i) @ shw conf) } } }"

definition list_groups ::
  "string \<Rightarrow> (u32 \<Rightarrow> 'a fs_kernel_scheme \<Rightarrow> string option) \<Rightarrow> id_table \<Rightarrow> 'a fs_kernel_scheme \<Rightarrow> 'a fs_kernel_scheme option" where
  "list_groups tag shw t s =
     (if id_count t = 0 then Some (printf [tag, '' list: empty'', nl] s)
      else do {
        out \<leftarrow> show_each shw (take (id_count t) (ids t)) s;
        Some (printf [tag, '' list:'', out, nl] s) })"

definition cpuctl_dispatch :: "string \<Rightarrow> nat \<Rightarrow> 'a fs_kernel_scheme \<Rightarrow> (int \<times> 'a fs_kernel_scheme) option" where
  "cpuctl_dispatch cmd count' s =
      (case cpuctl_command cmd ''create'' of Some args \<Rightarrow> cpuctl_create args count' s | None \<Rightarrow>
       (case cpuctl_command cmd ''set'' of Some args \<Rightarrow> cpuctl_set args count' s | None \<Rightarrow>
       (case cpuctl_command cmd ''delete'' of Some args \<Rightarrow> cpuctl_delete args count' s | None \<Rightarrow>
       (case cpuctl_command cmd ''pause'' of
          Some args \<Rightarrow> cpuctl_switch ''pause'' ''paused'' CORE_cgroup_Suspend args count' s | None \<Rightarrow>
       (case cpuctl_command cmd ''resume'' of
          Some args \<Rightarrow> cpuctl_switch ''resume'' ''resumed'' CORE_cgroup_Resume args count' s | None \<Rightarrow>
       if cmd = ''list'' then do {
         s1 \<leftarrow> list_groups ''[cpuctl]'' (show_group (\<lambda>c. ''(quota='' @ pu (unat (cpu_quota c)) @ '',period='' @ pu (unat (cpu_period c)) @ '')''))
                 (cgroup_table s) s;
         Some (int count', s1) }
       else cpuctl_error EINVAL (printf [''[cpuctl] supported: create [quota period shares] | set <id> <quota> <period> | '',
          ''delete <id> | pause <id> | resume <id> | list'', nl] s))))))"

definition cpuctl_write :: "char list option \<Rightarrow> nat \<Rightarrow> 'a fs_kernel_scheme \<Rightarrow> (int \<times> 'a fs_kernel_scheme) option" where
  "cpuctl_write buffer count' s = do {
     (n, cmd) \<leftarrow> containerfs_copy_command 256 buffer count';
     if n = 0 then cpuctl_error EINVAL s else cpuctl_dispatch (cstr cmd) count' s }"

definition memctl_create :: "string \<Rightarrow> 'a fs_kernel_scheme \<Rightarrow> 'a fs_kernel_scheme option" where
  "memctl_create args s = do {
     vs \<leftarrow> sscanf_u [64] args;
     let limit = (case vs of v # _ \<Rightarrow> v | [] \<Rightarrow> 1024 * 1024);
     (sc, r, s1) \<leftarrow> create_from_frame (CHR ''M'', CHR ''E'', CHR ''M'')
        \<lparr>cpu_shares = 1, cpu_quota = 0, cpu_period = 0, memory_limit = of_nat limit, blkio_limit = 0\<rparr> s;
     if sc = RTEMS_SUCCESSFUL then do {
       i \<leftarrow> r;
       s2 \<leftarrow> containerfs_cgroup_track_add i s1;
       Some (printf [''[memctl] created: id='', pu (unat i), '', memory_limit='', pu limit, nl] s2) }
     else Some (printf [''[memctl] create failed: sc='', pd (sc_value sc), nl] s1) }"

definition memctl_set :: "string \<Rightarrow> 'a fs_kernel_scheme \<Rightarrow> 'a fs_kernel_scheme option" where
  "memctl_set args s = do {
     vs \<leftarrow> sscanf_u [32, 64] args;
     if length vs = 2 then do {
       p \<leftarrow> Cgroup_Get (of_nat (vs ! 0)) s;
       q \<leftarrow> (case p of None \<Rightarrow> Some None
              | Some p \<Rightarrow> do { cg \<leftarrow> cgs s p; Some (map_option (Pair p) (cg_config cg)) });
       case q of
         Some (p, c) \<Rightarrow> do {
           conf \<leftarrow> cgcfgs s c;
           let s1 = upd_cg p (mem_quota_available_update (\<lambda>_. of_nat (vs ! 1)))
             (s\<lparr>cgcfgs := (cgcfgs s)(c \<mapsto> conf\<lparr>memory_limit := of_nat (vs ! 1)\<rparr>)\<rparr>);
           Some (printf [''[memctl] updated: id='', pu (vs ! 0), '', memory_limit='', pu (vs ! 1), nl] s1) }
       | None \<Rightarrow> Some (printf [''[memctl] set: id='', pu (vs ! 0), '' not found'', nl] s) }
     else Some (printf [''[memctl] usage: set <id> <memory_limit>'', nl] s) }"

definition memctl_delete :: "string \<Rightarrow> 'a fs_kernel_scheme \<Rightarrow> 'a fs_kernel_scheme option" where
  "memctl_delete args s = do {
     vs \<leftarrow> sscanf_u [32] args;
     case vs of
       i # _ \<Rightarrow> do {
         (sc, s1) \<leftarrow> rtems_cgroup_delete (of_nat i) s;
         if sc = RTEMS_SUCCESSFUL then do {
           s2 \<leftarrow> containerfs_cgroup_track_remove (of_nat i) s1;
           Some (printf [''[memctl] deleted: id='', pu i, nl] s2) }
         else Some (printf [''[memctl] delete failed: id='', pu i, '', sc='', pd (sc_value sc), nl] s1) }
     | [] \<Rightarrow> Some (printf [''[memctl] usage: delete <id>'', nl] s) }"

definition memctl_write :: "char list option \<Rightarrow> nat \<Rightarrow> 'a fs_kernel_scheme \<Rightarrow> (int \<times> 'a fs_kernel_scheme) option" where
  "memctl_write = ctl_write 256 (\<lambda>cmd s.
     if starts_with ''create'' cmd then memctl_create (drop 6 cmd) s
     else if starts_with ''set'' cmd then memctl_set (drop 3 cmd) s
     else if starts_with ''delete'' cmd then memctl_delete (drop 6 cmd) s
     else if cmd = ''list'' then
       list_groups ''[memctl]'' (show_group (\<lambda>c. ''(limit='' @ pu (unat (memory_limit c)) @ '')'')) (cgroup_table s) s
     else Some (printf [''[memctl] supported: create [memory_limit] | set <id> <memory_limit> | delete <id> | list'', nl] s))"

section \<open>The I/O control file\<close>

definition ioctl_create :: "string \<Rightarrow> 'a fs_kernel_scheme \<Rightarrow> 'a fs_kernel_scheme option" where
  "ioctl_create args s = do {
     vs \<leftarrow> sscanf_u [32] args;
     let weight = (case vs of v # _ \<Rightarrow> v | [] \<Rightarrow> 50);
     case rtems_io_cgroup_manager_create (1024 * 1024) (1024 * 1024) s of
       (sc, s1) \<Rightarrow>
         if sc \<noteq> RTEMS_SUCCESSFUL then Some (printf [''[ioctl] manager create failed: sc='', pd (sc_value sc), nl] s1)
         else do {
           (sc, r, s2) \<leftarrow> rtems_io_cgroup_create False (of_nat weight)
              (Some \<lparr>read_bps_limit = 0, write_bps_limit = 0, window_size_ms = 1000\<rparr>) s1;
           if sc = RTEMS_SUCCESSFUL then do {
             i \<leftarrow> r;
             s3 \<leftarrow> containerfs_iocgroup_track_add i s2;
             Some (printf [''[ioctl] created: id='', pu (unat i), '', weight='', pu weight, nl] s3) }
           else Some (printf [''[ioctl] create failed: sc='', pd (sc_value sc), nl] s2) } }"

definition ioctl_set :: "string \<Rightarrow> 'a fs_kernel_scheme \<Rightarrow> 'a fs_kernel_scheme option" where
  "ioctl_set args s = do {
     vs \<leftarrow> sscanf_u [32, 64, 64, 32] args;
     if length vs = 4 then do {
       p \<leftarrow> rtems_io_cgroup_get_by_id (of_nat (vs ! 0)) s;
       if p \<noteq> None then do {
         (_, s1) \<leftarrow> rtems_io_cgroup_set_limits p
            (Some \<lparr>read_bps_limit = of_nat (vs ! 1), write_bps_limit = of_nat (vs ! 2), window_size_ms = of_nat (vs ! 3)\<rparr>) s;
         Some (printf [''[ioctl] updated: id='', pu (vs ! 0), '', read_bps='', pu (vs ! 1), '', write_bps='', pu (vs ! 2),
           '', window_ms='', pu (vs ! 3), nl] s1) }
       else Some (printf [''[ioctl] set: id='', pu (vs ! 0), '' not found'', nl] s) }
     else Some (printf [''[ioctl] usage: set <id> <read_bps> <write_bps> <window_ms>'', nl] s) }"

definition ioctl_delete :: "string \<Rightarrow> 'a fs_kernel_scheme \<Rightarrow> 'a fs_kernel_scheme option" where
  "ioctl_delete args s = do {
     vs \<leftarrow> sscanf_u [32] args;
     case vs of
       i # _ \<Rightarrow> do {
         p \<leftarrow> rtems_io_cgroup_get_by_id (of_nat i) s;
         if p \<noteq> None then do {
           s1 \<leftarrow> rtems_io_cgroup_delete p s;
           s2 \<leftarrow> containerfs_iocgroup_track_remove (of_nat i) s1;
           Some (printf [''[ioctl] deleted: id='', pu i, nl] s2) }
         else Some (printf [''[ioctl] delete: id='', pu i, '' not found'', nl] s) }
     | [] \<Rightarrow> Some (printf [''[ioctl] usage: delete <id>'', nl] s) }"

definition show_iogroup :: "u32 \<Rightarrow> 'a fs_kernel_scheme \<Rightarrow> string option" where
  "show_iogroup i s = do {
     p \<leftarrow> rtems_io_cgroup_get_by_id i s;
     case p of
       None \<Rightarrow> Some []
     | Some c \<Rightarrow> do {
         g \<leftarrow> iocgs s c;
         Some ('' id='' @ pu (unat (io_ID g)) @ ''(r='' @ pu (unat (read_bps_limit (io_limits g))) @ '',w=''
           @ pu (unat (write_bps_limit (io_limits g))) @ '',win='' @ pu (unat (window_size_ms (io_limits g))) @ '')'') } }"

definition ioctl_write :: "char list option \<Rightarrow> nat \<Rightarrow> 'a fs_kernel_scheme \<Rightarrow> (int \<times> 'a fs_kernel_scheme) option" where
  "ioctl_write = ctl_write 256 (\<lambda>cmd s.
     if starts_with ''create'' cmd then ioctl_create (drop 6 cmd) s
     else if starts_with ''set'' cmd then ioctl_set (drop 3 cmd) s
     else if starts_with ''delete'' cmd then ioctl_delete (drop 6 cmd) s
     else if cmd = ''list'' then list_groups ''[ioctl]'' show_iogroup (iocgroup_table s) s
     else Some (printf [''[ioctl] supported: create [weight] | set <id> <read_bps> <write_bps> <window_ms> | '',
       ''delete <id> | list'', nl] s))"

section \<open>Registration\<close>

text \<open>Each file is registered once; \<open>make_node\<close> is \<open>IMFS_make_generic_node\<close>.\<close>

definition register_file ::
  "(string \<Rightarrow> 'a fs_kernel_scheme \<Rightarrow> int \<times> 'a fs_kernel_scheme) \<Rightarrow> string \<Rightarrow> 'a fs_kernel_scheme \<Rightarrow> 'a fs_kernel_scheme" where
  "register_file make_node file s =
     (if file \<in> set (nodes_created s) then s
      else case make_node (''/'' @ file) s of
        (rv, s1) \<Rightarrow>
          if rv = 0 then printf [''['', file, ''] control file registered at /'', file, nl]
            (s1\<lparr>nodes_created := file # nodes_created s1\<rparr>)
          else printf [''['', file, ''] failed to register control file (rv='', pd rv, '')'', nl] s1)"

definition rtems_containerfs_register_pidctl where "rtems_containerfs_register_pidctl mk = register_file mk ''pidctl''"
definition rtems_containerfs_register_utsctl where "rtems_containerfs_register_utsctl mk = register_file mk ''utsctl''"
definition rtems_containerfs_register_mntctl where "rtems_containerfs_register_mntctl mk = register_file mk ''mntctl''"
definition rtems_containerfs_register_netctl where "rtems_containerfs_register_netctl mk = register_file mk ''netctl''"
definition rtems_containerfs_register_ipcctl where "rtems_containerfs_register_ipcctl mk = register_file mk ''ipcctl''"
definition rtems_containerfs_register_cpuctl where "rtems_containerfs_register_cpuctl mk = register_file mk ''cpuctl''"
definition rtems_containerfs_register_memctl where "rtems_containerfs_register_memctl mk = register_file mk ''memctl''"
definition rtems_containerfs_register_ioctl where "rtems_containerfs_register_ioctl mk = register_file mk ''ioctl''"

end
