(* ===== verification/ContainerFsSpec.thy ===== *)
theory ContainerFsSpec
  imports ContainerFs
begin

text \<open>
  What the control files promise: the command line is a terminated string that fits its buffer, the
  tables of group identifiers implement a bounded set of distinct identifiers, \<open>delete <n>\<close> deletes the
  container with that identifier and never the root's, and commands that are not understood only
  print. One theorem is about a defect: a group made through \<open>/cpuctl\<close> is left with a pointer to
  the handler's dead frame.
\<close>

section \<open>The command line\<close>

definition ends_command :: "char \<Rightarrow> bool" where
  "ends_command ch \<longleftrightarrow> ch = NUL \<or> ch = CHR 0x0D \<or> ch = CHR 0x0A"

lemma length_cut_line [simp]: "length (cut_line cs) = length cs"
  by (induction cs) auto

lemma cstr_cut_line: "cstr (cut_line cs @ [NUL]) = takeWhile (\<lambda>ch. \<not> ends_command ch) cs"
  by (induction cs) (auto simp: cstr_def ends_command_def)

text \<open>(C18) The command buffer always holds a terminated string: for every write, what the handler reads
  from \<open>cmd\<close> was written, is at most as long as the array, ends with a terminator, and is the first line
  of the written bytes.\<close>

theorem containerfs_command_typed:
  assumes "0 < cmd_size" "count' \<le> length bytes"
  shows "\<exists>n cmd. containerfs_copy_command cmd_size (Some bytes) count' = Some (n, cmd) \<and> n = min count' (cmd_size - 1) \<and>
    (0 < count' \<longrightarrow> length cmd = n + 1 \<and> length cmd \<le> cmd_size \<and> last cmd = NUL \<and>
      cstr cmd = takeWhile (\<lambda>ch. \<not> ends_command ch) (take n bytes))"
  using assms by (auto simp: containerfs_copy_command_def Let_def cstr_cut_line)

lemma takeWhile_all: "\<forall>x \<in> set xs. P x \<Longrightarrow> takeWhile P xs = xs"
  by (simp add: takeWhile_eq_all_conv)

text \<open>A command written as one line reaches the handler unchanged.\<close>

lemma ctl_write_line:
  assumes "\<forall>ch \<in> set cmd. \<not> ends_command ch" "length cmd + 1 < size'"
  shows "ctl_write size' body (Some (cmd @ nl)) (length cmd + 1) s = do { s1 \<leftarrow> body cmd s; Some (int (length cmd + 1), s1) }"
proof -
  have "takeWhile (\<lambda>ch. \<not> ends_command ch) (cmd @ nl) = cmd"
    using assms(1) by (simp add: takeWhile_append nl_def ends_command_def takeWhile_all)
  moreover have "min (length cmd + 1) (size' - 1) = length cmd + 1" using assms(2) by simp
  ultimately have "containerfs_copy_command size' (Some (cmd @ nl)) (length cmd + 1) =
      Some (length cmd + 1, cut_line (cmd @ nl) @ [NUL])" "cstr (cut_line (cmd @ nl) @ [NUL]) = cmd"
    using assms(2) by (simp_all add: containerfs_copy_command_def cstr_cut_line) (simp_all add: nl_def)
  then show ?thesis by (simp add: ctl_write_def)
qed

section \<open>Tables of identifiers\<close>

datatype track_op = Track u32 | Untrack u32

fun track_run :: "(u32 \<Rightarrow> 't \<Rightarrow> 't option) \<Rightarrow> (u32 \<Rightarrow> 't \<Rightarrow> 't option) \<Rightarrow> track_op list \<Rightarrow> 't \<Rightarrow> 't option" where
  "track_run add rem [] t = Some t"
| "track_run add rem (Track i # ops) t = do { t1 \<leftarrow> add i t; track_run add rem ops t1 }"
| "track_run add rem (Untrack i # ops) t = do { t1 \<leftarrow> rem i t; track_run add rem ops t1 }"

text \<open>The specification: a list of distinct identifiers, at most \<open>n\<close> of them.\<close>

fun track_spec :: "nat \<Rightarrow> track_op \<Rightarrow> u32 list \<Rightarrow> u32 list" where
  "track_spec n (Track i) xs = (if i \<in> set xs \<or> n \<le> length xs then xs else xs @ [i])"
| "track_spec n (Untrack i) xs = remove1 i xs"

lemma track_spec_ok:
  assumes "distinct xs" "length xs \<le> n"
  shows "distinct (track_spec n op xs) \<and> length (track_spec n op xs) \<le> n"
proof (cases op)
  case (Untrack i)
  with assms show ?thesis by (auto simp: distinct_remove1 length_remove1)
qed (use assms in auto)

locale id_tracker =
  fixes cap :: nat and wf :: "'t \<Rightarrow> bool" and abs :: "'t \<Rightarrow> u32 list"
    and add :: "u32 \<Rightarrow> 't \<Rightarrow> 't option" and rem :: "u32 \<Rightarrow> 't \<Rightarrow> 't option"
  assumes add_law: "wf t \<Longrightarrow> \<exists>t'. add i t = Some t' \<and> wf t' \<and> abs t' = track_spec cap (Track i) (abs t)"
    and rem_law: "wf t \<Longrightarrow> \<exists>t'. rem i t = Some t' \<and> wf t' \<and> abs t' = track_spec cap (Untrack i) (abs t)"
    and bounded: "wf t \<Longrightarrow> distinct (abs t) \<and> length (abs t) \<le> cap"
begin

lemma run_law: "wf t \<Longrightarrow> \<exists>t'. track_run add rem ops t = Some t' \<and> wf t' \<and> abs t' = fold (track_spec cap) ops (abs t)"
proof (induction ops arbitrary: t)
  case Nil
  then show ?case by simp
next
  case (Cons op ops)
  show ?case
  proof (cases op)
    case (Track i)
    from add_law [OF Cons.prems, of i] obtain t1 where t1: "add i t = Some t1" "wf t1" "abs t1 = track_spec cap op (abs t)"
      unfolding Track by blast
    from Cons.IH [OF t1(2)] t1 Track show ?thesis by auto
  next
    case (Untrack i)
    from rem_law [OF Cons.prems, of i] obtain t1 where t1: "rem i t = Some t1" "wf t1" "abs t1 = track_spec cap op (abs t)"
      unfolding Untrack by blast
    from Cons.IH [OF t1(2)] t1 Untrack show ?thesis by auto
  qed
qed

end

definition table_ids :: "id_table \<Rightarrow> u32 list" where
  "table_ids t = take (id_count t) (ids t)"

definition table_ok :: "id_table \<Rightarrow> bool" where
  "table_ok t \<longleftrightarrow> length (ids t) = CONTAINERFS_CGROUP_TRACK_MAX \<and> id_count t \<le> length (ids t) \<and> distinct (table_ids t)"

lemma shift_down_take:
  "0 < j \<Longrightarrow> j + m \<le> length xs \<Longrightarrow>
   \<exists>ys. shift_down j m xs = Some ys \<and> length ys = length xs \<and> take (j - 1 + m) ys = take (j - 1) xs @ take m (drop j xs)"
proof (induction m arbitrary: j xs)
  case 0
  then show ?case by simp
next
  case (Suc m)
  let ?xs = "xs[j - 1 := xs ! j]"
  from Suc.prems Suc.IH [of "Suc j" ?xs] obtain ys where ys: "shift_down (Suc j) m ?xs = Some ys" "length ys = length xs"
    "take (j + m) ys = take j ?xs @ take m (drop (Suc j) ?xs)" by auto
  from Suc.prems obtain i where j: "j = Suc i" by (cases j) auto
  have "take j ?xs = take (j - 1) xs @ [xs ! j]"
    using Suc.prems unfolding j by (simp add: take_Suc_conv_app_nth)
  moreover have "drop j xs = xs ! j # drop (Suc j) xs" using Suc.prems by (simp add: Cons_nth_drop_Suc)
  moreover have "drop (Suc j) ?xs = drop (Suc j) xs" using j by simp
  ultimately have "take (j - 1 + Suc m) ys = take (j - 1) xs @ take (Suc m) (drop j xs)" using ys(3) j by simp
  moreover have "shift_down j (Suc m) xs = Some ys" using ys(1) Suc.prems by simp
  ultimately show ?case using ys(2) by blast
qed

lemma track_find_None: "track_find i t = None \<longleftrightarrow> i \<notin> set (table_ids t)"
  by (auto simp: track_find_def table_ids_def scan_simps)

lemma track_find_Some:
  assumes "track_find i t = Some k"
  shows "k < length (table_ids t) \<and> table_ids t ! k = i \<and> (\<forall>j < k. table_ids t ! j \<noteq> i)"
  using array_scan_SomeD [OF assms [unfolded track_find_def table_ids_def [symmetric]]] by auto

lemma remove1_at:
  "k < length xs \<Longrightarrow> xs ! k = x \<Longrightarrow> \<forall>j < k. xs ! j \<noteq> x \<Longrightarrow> remove1 x xs = take k xs @ drop (Suc k) xs"
proof (induction xs arbitrary: k)
  case (Cons y ys)
  show ?case
  proof (cases k)
    case 0
    with Cons show ?thesis by simp
  next
    case (Suc k')
    with Cons.prems have "y \<noteq> x" "\<forall>j < k'. ys ! j \<noteq> x" by auto
    with Cons Suc show ?thesis by simp
  qed
qed simp

lemma track_add_ok:
  assumes "table_ok t"
  shows "\<exists>t'. track_add i t = Some t' \<and> table_ok t' \<and> table_ids t' = track_spec CONTAINERFS_CGROUP_TRACK_MAX (Track i) (table_ids t)"
proof (cases "track_find i t = None \<and> id_count t < CONTAINERFS_CGROUP_TRACK_MAX")
  case True
  let ?t = "t\<lparr>ids := (ids t)[id_count t := i], id_count := Suc (id_count t)\<rparr>"
  have lt: "id_count t < length (ids t)" using assms True by (simp add: table_ok_def)
  then have ids': "table_ids ?t = table_ids t @ [i]" by (simp add: table_ids_def take_Suc_conv_app_nth)
  have "track_add i t = Some ?t" using True lt by (simp add: track_add_def array_update_nat)
  moreover have "i \<notin> set (table_ids t)" "length (table_ids t) = id_count t"
    using True assms track_find_None [of i t] by (simp_all add: table_ids_def table_ok_def)
  ultimately show ?thesis using True assms lt ids' by (auto simp: table_ok_def)
next
  case False
  with assms track_find_None [of i t] show ?thesis
    by (auto simp: track_add_def table_ok_def table_ids_def split: if_splits)
qed

lemma track_remove_ok:
  assumes "table_ok t"
  shows "\<exists>t'. track_remove i t = Some t' \<and> table_ok t' \<and> table_ids t' = track_spec CONTAINERFS_CGROUP_TRACK_MAX (Untrack i) (table_ids t)"
proof (cases "track_find i t")
  case None
  with assms track_find_None [of i t] show ?thesis by (simp add: track_remove_def remove1_idem)
next
  case (Some k)
  let ?n = "id_count t"
  from track_find_Some [OF Some] have k: "k < length (table_ids t)" "table_ids t ! k = i" "\<forall>j < k. table_ids t ! j \<noteq> i" by auto
  have n: "?n \<le> length (ids t)" "length (table_ids t) = ?n" using assms by (simp_all add: table_ok_def table_ids_def)
  from shift_down_take [of "k + 1" "?n - (k + 1)" "ids t"] k n obtain ys where ys:
    "shift_down (k + 1) (?n - (k + 1)) (ids t) = Some ys" "length ys = length (ids t)"
    "take (?n - 1) ys = take k (ids t) @ take (?n - (k + 1)) (drop (k + 1) (ids t))" by auto
  let ?t = "t\<lparr>ids := ys, id_count := ?n - 1\<rparr>"
  have r: "track_remove i t = Some ?t" using Some ys(1) by (simp add: track_remove_def)
  have "table_ids ?t = take k (table_ids t) @ drop (Suc k) (table_ids t)"
    using ys(3) k n by (simp add: table_ids_def take_drop min_def)
  then have ids': "table_ids ?t = remove1 i (table_ids t)" using remove1_at [OF k] by simp
  moreover have "distinct (remove1 i (table_ids t))" using assms by (simp add: table_ok_def distinct_remove1)
  ultimately have "table_ok ?t" using assms ys(2) by (auto simp: table_ok_def)
  with r ids' show ?thesis by simp
qed

interpretation tr: id_tracker CONTAINERFS_CGROUP_TRACK_MAX table_ok table_ids track_add track_remove
  using track_add_ok track_remove_ok
  by unfold_locales (auto simp: table_ok_def table_ids_def)

text \<open>(C9) The tables of control groups implement a bounded set: from the empty table every sequence of
  additions and removals stays inside the array and leaves exactly the identifiers that a list of at
  most 32 distinct identifiers would hold, in the same order.\<close>

theorem containerfs_table_refines:
  assumes "length (ids t) = CONTAINERFS_CGROUP_TRACK_MAX" "id_count t = 0"
  shows "\<exists>t'. track_run track_add track_remove ops t = Some t' \<and> id_count t' \<le> 32 \<and> length (ids t') = 32 \<and>
    distinct (take (id_count t') (ids t')) \<and>
    take (id_count t') (ids t') = fold (track_spec 32) ops []"
proof -
  have "table_ok t" "table_ids t = []" using assms by (simp_all add: table_ok_def table_ids_def)
  with tr.run_law [of t ops] show ?thesis by (auto simp: table_ok_def table_ids_def CONTAINERFS_CGROUP_TRACK_MAX_def)
qed

section \<open>Deleting by identifier\<close>

lemma printf_sel [simp]:
  "rootContainer (printf ps s) = rootContainer s" "console (printf ps s) = console s @ concat ps"
  by (simp_all add: printf_def)

lemma pu_chars: "ch \<in> set (pu n) \<Longrightarrow> is_digit ch"
  unfolding pu_def by (rule digits_is_digit [of 10]) simp_all

lemma delete_line:
  assumes "ch \<in> set (''delete '' @ pu n)"
  shows "\<not> ends_command ch"
  using assms pu_chars [of ch n] by (auto simp: ends_command_def NUL_def is_digit_def)

lemma length_pu: "length (pu n) \<le> 20"
  unfolding pu_def by (rule length_digits)

lemma ctl_delete_by_id:
  assumes "0 < n" "n < 2 ^ 31" "ctl_find gid own reg (int n) s = Some (found, is_root)"
  shows "ctl_delete tag gid own reg del (CHR '' '' # pu n) s =
    (case found of
       None \<Rightarrow> Some (printf [tag, '' delete: id='', pd (int n), '' not found'', nl] s)
     | Some c \<Rightarrow>
         if is_root then Some (printf [tag, '' delete: cannot delete root container (id='', pd (int n), '')'', nl] s)
         else do { s1 \<leftarrow> del (Some c) s; Some (printf [tag, '' deleted: id='', pd (int n), nl] s1) })"
  using assms sscanf_d_print [of n "[]"] by (simp add: ctl_delete_def pu_def del: digits.simps split: option.splits)

text \<open>What the delete branch of a namespace file does with the line \<open>delete <n>\<close>.\<close>

lemma ctl_write_delete:
  assumes "size' = 128 \<or> size' = 256" "body (''delete '' @ pu n) s = ctl_delete tag gid own reg del (CHR '' '' # pu n) s"
    and "0 < n" "n < 2 ^ 31" "ctl_find gid own reg (int n) s = Some (Some c, is_root)"
  shows "ctl_write size' body (Some (''delete '' @ pu n @ nl)) (length (''delete '' @ pu n) + 1) s =
    (if is_root then Some (int (length (''delete '' @ pu n) + 1),
        printf [tag, '' delete: cannot delete root container (id='', pd (int n), '')'', nl] s)
     else do { s1 \<leftarrow> del (Some c) s;
        Some (int (length (''delete '' @ pu n) + 1), printf [tag, '' deleted: id='', pd (int n), nl] s1) })"
proof -
  define line where "line = ''delete '' @ pu n"
  have "ctl_write size' body (Some (line @ nl)) (length line + 1) s =
    do { s1 \<leftarrow> body line s; Some (int (length line + 1), s1) }"
  proof (rule ctl_write_line)
    show "\<forall>ch \<in> set line. \<not> ends_command ch" unfolding line_def using delete_line by blast
    have "length line \<le> 27" using length_pu [of n] by (simp add: line_def)
    then show "length line + 1 < size'" using assms(1) by auto
  qed
  moreover have "body line s = (if is_root
      then Some (printf [tag, '' delete: cannot delete root container (id='', pd (int n), '')'', nl] s)
      else do { s1 \<leftarrow> del (Some c) s; Some (printf [tag, '' deleted: id='', pd (int n), nl] s1) })"
    using ctl_delete_by_id [OF assms(3-5)] assms(2) unfolding line_def by (simp only: option.case)
  ultimately have "ctl_write size' body (Some (line @ nl)) (length line + 1) s =
    (if is_root then Some (int (length line + 1), printf [tag, '' delete: cannot delete root container (id='', pd (int n), '')'', nl] s)
     else do { s1 \<leftarrow> del (Some c) s; Some (int (length line + 1), printf [tag, '' deleted: id='', pd (int n), nl] s1) })"
    by (cases is_root) simp_all
  then show ?thesis unfolding line_def append_assoc .
qed

text \<open>The commands that are tested for in front of \<open>delete\<close> do not match it.\<close>

lemma delete_dispatch:
  "''delete '' @ xs \<noteq> ''create''" "\<not> starts_with ''create'' (''delete '' @ xs)"
  "\<not> starts_with ''create_inherit'' (''delete '' @ xs)" "starts_with ''delete'' (''delete '' @ xs)"
  "drop 6 (''delete '' @ xs) = CHR '' '' # xs"
  by (simp_all add: starts_with_def)

definition delete_cmd :: "nat \<Rightarrow> char list" where
  "delete_cmd n = ''delete '' @ pu n @ nl"

definition delete_len :: "nat \<Rightarrow> nat" where
  "delete_len n = length (''delete '' @ pu n) + 1"

lemmas ctl_writes = pidctl_write_def utsctl_write_def mntctl_write_def netctl_write_def ipcctl_write_def

text \<open>The five delete branches, over the five namespaces.\<close>

lemma nsctl_delete_eq:
  assumes "0 < n" "n < 2 ^ 31"
  shows "ctl_find rtems_pid_container_get_id pidContainer pidContainerList (int n) s1 = Some (Some c, is_root) \<Longrightarrow>
      pidctl_write (Some (delete_cmd n)) (delete_len n) s1 =
      (if is_root then Some (int (delete_len n), printf [''[pidctl]'', '' delete: cannot delete root container (id='', pd (int n), '')'', nl] s1)
       else do { s' \<leftarrow> rtems_pid_container_delete (Some c) s1; Some (int (delete_len n), printf [''[pidctl]'', '' deleted: id='', pd (int n), nl] s') })"
    and "ctl_find uts_id utsContainer utsContainerList (int n) s2 = Some (Some c, is_root) \<Longrightarrow>
      utsctl_write (Some (delete_cmd n)) (delete_len n) s2 =
      (if is_root then Some (int (delete_len n), printf [''[utsctl]'', '' delete: cannot delete root container (id='', pd (int n), '')'', nl] s2)
       else do { s' \<leftarrow> rtems_uts_container_delete (Some c) s2; Some (int (delete_len n), printf [''[utsctl]'', '' deleted: id='', pd (int n), nl] s') })"
    and "ctl_find rtems_mnt_container_get_id mntContainer mntContainerList (int n) s3 = Some (Some c, is_root) \<Longrightarrow>
      mntctl_write dr (Some (delete_cmd n)) (delete_len n) s3 =
      (if is_root then Some (int (delete_len n), printf [''[mntctl]'', '' delete: cannot delete root container (id='', pd (int n), '')'', nl] s3)
       else do { s' \<leftarrow> rtems_mnt_container_delete (Some c) s3; Some (int (delete_len n), printf [''[mntctl]'', '' deleted: id='', pd (int n), nl] s') })"
    and "ctl_find rtems_net_container_get_id netContainer netContainerList (int n) s4 = Some (Some c, is_root) \<Longrightarrow>
      netctl_write B (Some (delete_cmd n)) (delete_len n) s4 =
      (if is_root then Some (int (delete_len n), printf [''[netctl]'', '' delete: cannot delete root container (id='', pd (int n), '')'', nl] s4)
       else do { s' \<leftarrow> rtems_net_container_delete B (Some c) s4; Some (int (delete_len n), printf [''[netctl]'', '' deleted: id='', pd (int n), nl] s') })"
    and "ctl_find rtems_ipc_container_get_id ipcContainer ipcContainerList (int n) s5 = Some (Some c, is_root) \<Longrightarrow>
      ipcctl_write (Some (delete_cmd n)) (delete_len n) s5 =
      (if is_root then Some (int (delete_len n), printf [''[ipcctl]'', '' delete: cannot delete root container (id='', pd (int n), '')'', nl] s5)
       else do { s' \<leftarrow> rtems_ipc_container_delete (Some c) s5; Some (int (delete_len n), printf [''[ipcctl]'', '' deleted: id='', pd (int n), nl] s') })"
  unfolding ctl_writes delete_cmd_def delete_len_def
  by (rule ctl_write_delete [OF _ _ assms]; simp only: delete_dispatch if_True if_False simp_thms)+

lemma ctl_find_root:
  "rootContainer s = Some r \<Longrightarrow> own r = Some c \<Longrightarrow> gid (Some c) s = Some i \<Longrightarrow> ctl_find gid own reg i s = Some (Some c, True)"
  by (simp add: ctl_find_def rtems_container_get_root_def)

lemma ctl_find_other:
  "rootContainer s = Some r \<Longrightarrow> own r = Some c \<Longrightarrow> gid (Some c) s = Some k \<Longrightarrow> k \<noteq> i \<Longrightarrow>
   ctl_scan gid i (reg r) s = Some p \<Longrightarrow> ctl_find gid own reg i s = Some (p, False)"
  by (simp add: ctl_find_def rtems_container_get_root_def)

text \<open>The search returns the first container of the registry with the identifier.\<close>

lemma ctl_scan_first:
  "\<forall>d \<in> set ds. \<exists>k. gid (Some d) s = Some k \<and> k \<noteq> i \<Longrightarrow> gid (Some c) s = Some i \<Longrightarrow>
   ctl_scan gid i (ds @ c # rest) s = Some (Some c)"
  by (induction ds) auto

text \<open>(C27) No control file deletes a root container: \<open>delete <n>\<close> with the identifier of the root's own
  container of that namespace prints a refusal and changes nothing else, in all five namespaces.\<close>

theorem nsctl_root_protected:
  assumes "0 < n" "n < 2 ^ 31" "rootContainer s = Some r"
  shows "(pidContainer r = Some c1 \<and> rtems_pid_container_get_id (Some c1) s = Some (int n) \<longrightarrow>
        (\<exists>msg. pidctl_write (Some (delete_cmd n)) (delete_len n) s = Some (int (delete_len n), s\<lparr>console := console s @ msg\<rparr>))) \<and>
     (utsContainer r = Some c2 \<and> uts_id (Some c2) s = Some (int n) \<longrightarrow>
        (\<exists>msg. utsctl_write (Some (delete_cmd n)) (delete_len n) s = Some (int (delete_len n), s\<lparr>console := console s @ msg\<rparr>))) \<and>
     (mntContainer r = Some c3 \<and> rtems_mnt_container_get_id (Some c3) s = Some (int n) \<longrightarrow>
        (\<exists>msg. mntctl_write dr (Some (delete_cmd n)) (delete_len n) s = Some (int (delete_len n), s\<lparr>console := console s @ msg\<rparr>))) \<and>
     (netContainer r = Some c4 \<and> rtems_net_container_get_id (Some c4) s = Some (int n) \<longrightarrow>
        (\<exists>msg. netctl_write B (Some (delete_cmd n)) (delete_len n) s = Some (int (delete_len n), s\<lparr>console := console s @ msg\<rparr>))) \<and>
     (ipcContainer r = Some c5 \<and> rtems_ipc_container_get_id (Some c5) s = Some (int n) \<longrightarrow>
        (\<exists>msg. ipcctl_write (Some (delete_cmd n)) (delete_len n) s = Some (int (delete_len n), s\<lparr>console := console s @ msg\<rparr>)))"
proof -
  note eq = nsctl_delete_eq [OF assms(1,2), where is_root = True, simplified if_True, unfolded printf_def]
  note f = ctl_find_root [OF assms(3)]
  show ?thesis
    using eq(1) [OF f] eq(2) [OF f] eq(3) [OF f] eq(4) [OF f] eq(5) [OF f] by blast
qed

text \<open>(C23) \<open>delete <n>\<close> parses back what was printed and deletes exactly the first registered PID container
  with that identifier: the effect of the write is the effect of deleting it, and a message.\<close>

theorem pidctl_delete_by_id:
  assumes "0 < n" "n < 2 ^ 31" "rootContainer s = Some r" "pidContainer r = Some c0"
    and "rtems_pid_container_get_id (Some c0) s = Some k" "k \<noteq> int n"
    and "pidContainerList r = ds @ c # rest" "rtems_pid_container_get_id (Some c) s = Some (int n)"
    and "\<forall>d \<in> set ds. \<exists>j. rtems_pid_container_get_id (Some d) s = Some j \<and> j \<noteq> int n"
    and "rtems_pid_container_delete (Some c) s = Some s1"
  shows "pidctl_write (Some (''delete '' @ pu n @ nl)) (length (''delete '' @ pu n) + 1) s =
    Some (int (length (''delete '' @ pu n) + 1), s1\<lparr>console := console s1 @ ''[pidctl] deleted: id='' @ pd (int n) @ nl\<rparr>)"
proof -
  have "ctl_scan rtems_pid_container_get_id (int n) (pidContainerList r) s = Some (Some c)"
    unfolding assms(7) using assms(8,9) by (intro ctl_scan_first) auto
  note find = ctl_find_other [where own = pidContainer and reg = pidContainerList and gid = rtems_pid_container_get_id,
      OF assms(3-6) this]
  have "pidctl_write (Some (delete_cmd n)) (delete_len n) s =
    Some (int (delete_len n), printf [''[pidctl]'', '' deleted: id='', pd (int n), nl] s1)"
    unfolding nsctl_delete_eq(1) [OF assms(1,2) find] assms(10) by simp
  then show ?thesis unfolding delete_cmd_def delete_len_def printf_def by simp
qed

section \<open>Other commands\<close>

text \<open>The command line of a write, and commands that neither create, delete nor set.\<close>

definition first_line :: "nat \<Rightarrow> char list \<Rightarrow> nat \<Rightarrow> string" where
  "first_line size' bytes count' = takeWhile (\<lambda>ch. \<not> ends_command ch) (take (min count' (size' - 1)) bytes)"

definition read_only :: "string \<Rightarrow> bool" where
  "read_only cmd \<longleftrightarrow> \<not> starts_with ''create'' cmd \<and> \<not> starts_with ''delete'' cmd \<and> \<not> starts_with ''set'' cmd"

definition only_prints :: "'a fs_kernel_scheme \<Rightarrow> 'a fs_kernel_scheme \<Rightarrow> bool" where
  "only_prints s s' \<longleftrightarrow> (\<exists>msg. s' = s\<lparr>console := console s @ msg\<rparr>)"

lemma only_prints_refl [simp]: "only_prints s s"
  by (auto simp: only_prints_def intro: exI [of _ "[]"])

lemma only_prints_printf [simp]: "only_prints s (printf ps s)"
  by (auto simp: only_prints_def printf_def)

lemma ctl_write_only_prints:
  assumes "ctl_write size' body (Some bytes) count' s = Some (r, s')" "0 < size'"
    and "\<And>cmd s1. cmd = first_line size' bytes count' \<Longrightarrow> body cmd s = Some s1 \<Longrightarrow> only_prints s s1"
  shows "r = int count' \<and> only_prints s s'"
proof (cases "count' = 0")
  case True
  with assms(1) show ?thesis by (simp add: ctl_write_def containerfs_copy_command_def)
next
  case False
  with assms(1,2) have "\<not> length bytes < min count' (size' - 1)"
    by (auto simp: ctl_write_def containerfs_copy_command_def Let_def split: if_splits)
  then have copy: "containerfs_copy_command size' (Some bytes) count' =
      Some (min count' (size' - 1), cut_line (take (min count' (size' - 1)) bytes) @ [NUL])"
    using False assms(2) by (simp add: containerfs_copy_command_def Let_def)
  have line: "cstr (cut_line (take (min count' (size' - 1)) bytes) @ [NUL]) = first_line size' bytes count'"
    by (simp only: cstr_cut_line first_line_def)
  from assms(1) copy line show ?thesis
    by (auto simp: ctl_write_def bind_eq_Some_conv split: if_splits dest: assms(3) [OF refl])
qed

lemma ctl_list_only_prints: "ctl_list tag shw own reg s = Some s1 \<Longrightarrow> only_prints s s1"
  by (auto simp: ctl_list_def bind_eq_Some_conv split: option.splits)

lemma ctl_unknown_only_prints: "ctl_unknown tag supp cmd s = Some s1 \<Longrightarrow> only_prints s s1"
  by (auto simp: ctl_unknown_def)

lemma list_groups_only_prints: "list_groups tag shw t s = Some s1 \<Longrightarrow> only_prints s s1"
  by (auto simp: list_groups_def bind_eq_Some_conv split: if_splits)

lemma starts_with_append: "starts_with (a @ b) cmd \<Longrightarrow> starts_with a cmd"
proof -
  assume "starts_with (a @ b) cmd"
  then have "take (length a) (take (length (a @ b)) cmd) = take (length a) (a @ b)" by (simp only: starts_with_def)
  then show ?thesis by (simp add: starts_with_def min_def)
qed

lemma read_only_not:
  assumes "read_only cmd"
  shows "cmd \<noteq> ''create''" "\<not> starts_with ''create'' cmd" "\<not> starts_with ''create_inherit'' cmd"
    "\<not> starts_with ''delete'' cmd" "\<not> starts_with ''set'' cmd"
proof -
  show "cmd \<noteq> ''create''" using assms by (auto simp: read_only_def) (simp add: starts_with_def)
  show "\<not> starts_with ''create_inherit'' cmd"
    using assms starts_with_append [of "''create''" "''_inherit''" cmd] by (auto simp: read_only_def)
qed (use assms in \<open>simp_all add: read_only_def\<close>)

lemmas only_prints_dests = ctl_list_only_prints ctl_unknown_only_prints list_groups_only_prints

text \<open>Listing and unknown commands have no effect: a write to any of the seven files whose first line
  does not begin with \<open>create\<close>, \<open>delete\<close> or \<open>set\<close>, whatever bytes follow, returns the number of bytes
  and changes nothing but the console.\<close>

theorem ctl_read_only:
  assumes "read_only (first_line 128 bytes count')" "read_only (first_line 256 bytes count')"
  shows "(pidctl_write (Some bytes) count' s = Some (r1, s1) \<longrightarrow> r1 = int count' \<and> only_prints s s1) \<and>
    (utsctl_write (Some bytes) count' s = Some (r2, s2) \<longrightarrow> r2 = int count' \<and> only_prints s s2) \<and>
    (mntctl_write dr (Some bytes) count' s = Some (r3, s3) \<longrightarrow> r3 = int count' \<and> only_prints s s3) \<and>
    (netctl_write B (Some bytes) count' s = Some (r4, s4) \<longrightarrow> r4 = int count' \<and> only_prints s s4) \<and>
    (ipcctl_write (Some bytes) count' s = Some (r5, s5) \<longrightarrow> r5 = int count' \<and> only_prints s s5) \<and>
    (memctl_write (Some bytes) count' s = Some (r6, s6) \<longrightarrow> r6 = int count' \<and> only_prints s s6) \<and>
    (ioctl_write (Some bytes) count' s = Some (r7, s7) \<longrightarrow> r7 = int count' \<and> only_prints s s7)"
proof -
  note not = read_only_not [OF assms(1)] read_only_not [OF assms(2)]
  have "r1 = int count' \<and> only_prints s s1" if "pidctl_write (Some bytes) count' s = Some (r1, s1)"
    using that unfolding pidctl_write_def
    by (rule ctl_write_only_prints) (use not in \<open>auto dest: only_prints_dests split: if_splits\<close>)
  moreover have "r2 = int count' \<and> only_prints s s2" if "utsctl_write (Some bytes) count' s = Some (r2, s2)"
    using that unfolding utsctl_write_def
    by (rule ctl_write_only_prints) (use not in \<open>auto dest: only_prints_dests split: if_splits\<close>)
  moreover have "r3 = int count' \<and> only_prints s s3" if "mntctl_write dr (Some bytes) count' s = Some (r3, s3)"
    using that unfolding mntctl_write_def
    by (rule ctl_write_only_prints) (use not in \<open>auto dest: only_prints_dests split: if_splits\<close>)
  moreover have "r4 = int count' \<and> only_prints s s4" if "netctl_write B (Some bytes) count' s = Some (r4, s4)"
    using that unfolding netctl_write_def
    by (rule ctl_write_only_prints) (use not in \<open>auto dest: only_prints_dests split: if_splits\<close>)
  moreover have "r5 = int count' \<and> only_prints s s5" if "ipcctl_write (Some bytes) count' s = Some (r5, s5)"
    using that unfolding ipcctl_write_def
    by (rule ctl_write_only_prints) (use not in \<open>auto dest: only_prints_dests split: if_splits\<close>)
  moreover have "r6 = int count' \<and> only_prints s s6" if "memctl_write (Some bytes) count' s = Some (r6, s6)"
    using that unfolding memctl_write_def
    by (rule ctl_write_only_prints) (use not in \<open>auto dest: only_prints_dests split: if_splits\<close>)
  moreover have "r7 = int count' \<and> only_prints s s7" if "ioctl_write (Some bytes) count' s = Some (r7, s7)"
    using that unfolding ioctl_write_def
    by (rule ctl_write_only_prints) (use not in \<open>auto dest: only_prints_dests split: if_splits\<close>)
  ultimately show ?thesis by blast
qed

section \<open>Errors of the control group file\<close>

lemma cpuctl_error_result: "cpuctl_error e s = Some (r, s') \<longleftrightarrow> r = -1 \<and> s' = s\<lparr>errno := e\<rparr>"
  by (auto simp: cpuctl_error_def)

definition ctl_result :: "nat \<Rightarrow> int \<Rightarrow> 'a fs_kernel_scheme \<Rightarrow> bool" where
  "ctl_result count' r s' \<longleftrightarrow> r = int count' \<or> r = -1 \<and> errno s' \<in> {EINVAL, ENOMEM, ESRCH}"

lemma ctl_result_error: "cpuctl_error e s = Some (r, s') \<Longrightarrow> e \<in> {EINVAL, ENOMEM, ESRCH} \<Longrightarrow> ctl_result count' r s'"
  by (auto simp: cpuctl_error_def ctl_result_def)

lemma ctl_result_ok [simp]: "ctl_result count' (int count') s'"
  by (simp add: ctl_result_def)

lemma cpuctl_parts_result:
  "cpuctl_create args count' s1 = Some (r, s') \<Longrightarrow> ctl_result count' r s'"
  "cpuctl_set args count' s1 = Some (r, s') \<Longrightarrow> ctl_result count' r s'"
  "cpuctl_delete args count' s1 = Some (r, s') \<Longrightarrow> ctl_result count' r s'"
  "cpuctl_switch verb past act args count' s1 = Some (r, s') \<Longrightarrow> ctl_result count' r s'"
proof -
  assume "cpuctl_create args count' s1 = Some (r, s')"
  then show "ctl_result count' r s'"
    by (auto simp: cpuctl_create_def bind_eq_Some_conv cpuctl_error_def ctl_result_def simp del: sscanf_u.simps split: if_splits)
next
  assume "cpuctl_set args count' s1 = Some (r, s')"
  then show "ctl_result count' r s'"
    by (auto simp: cpuctl_set_def bind_eq_Some_conv cpuctl_error_def ctl_result_def simp del: sscanf_u.simps
        split: if_splits option.splits)
next
  assume a: "cpuctl_delete args count' s1 = Some (r, s')"
  then obtain vs where "sscanf_u [32] args = Some vs"
    by (auto simp: cpuctl_delete_def bind_eq_Some_conv simp del: sscanf_u.simps)
  with a show "ctl_result count' r s'"
    by (cases vs) (auto simp: cpuctl_delete_def bind_eq_Some_conv cpuctl_error_def ctl_result_def
        simp del: sscanf_u.simps split: if_splits)
next
  assume a: "cpuctl_switch verb past act args count' s1 = Some (r, s')"
  then obtain vs where "sscanf_u [32] args = Some vs"
    by (auto simp: cpuctl_switch_def bind_eq_Some_conv simp del: sscanf_u.simps)
  with a show "ctl_result count' r s'"
    by (cases vs) (auto simp: cpuctl_switch_def Let_def bind_eq_Some_conv cpuctl_error_def ctl_result_def
        simp del: sscanf_u.simps split: if_splits option.splits)
qed

text \<open>Every write to \<open>/cpuctl\<close> that returns has either taken all bytes or failed with \<open>-1\<close> and one of
  the three error numbers; a command line that is empty or names none of its commands fails with
  \<open>EINVAL\<close>.\<close>

theorem cpuctl_write_errors:
  assumes "cpuctl_write (Some bytes) count' s = Some (r, s')"
  shows "(r = int count' \<or> r = -1 \<and> errno s' \<in> {EINVAL, ENOMEM, ESRCH}) \<and>
    ((\<forall>word \<in> {''create'', ''set'', ''delete'', ''pause'', ''resume''}. cpuctl_command (first_line 256 bytes count') word = None) \<and>
      first_line 256 bytes count' \<noteq> ''list'' \<longrightarrow> r = -1 \<and> errno s' = EINVAL)"
proof (cases "count' = 0")
  case True
  with assms show ?thesis
    by (auto simp: cpuctl_write_def containerfs_copy_command_def cpuctl_error_result)
next
  case False
  with assms have "\<not> length bytes < min count' 255"
    by (auto simp: cpuctl_write_def containerfs_copy_command_def Let_def split: if_splits)
  then have copy: "containerfs_copy_command 256 (Some bytes) count' =
      Some (min count' 255, cut_line (take (min count' 255) bytes) @ [NUL])"
    using False by (simp add: containerfs_copy_command_def Let_def)
  have "cstr (cut_line (take (min count' 255) bytes) @ [NUL]) = first_line 256 bytes count'"
    by (simp only: cstr_cut_line first_line_def) simp
  moreover have "(min count' 255 = 0) = False" using False by auto
  ultimately have d: "cpuctl_dispatch (first_line 256 bytes count') count' s = Some (r, s')"
    using assms copy by (simp only: cpuctl_write_def bind.simps prod.case if_False)
  then have "ctl_result count' r s'" unfolding cpuctl_dispatch_def
    by (auto simp: bind_eq_Some_conv split: option.splits if_splits dest: cpuctl_parts_result ctl_result_error)
  moreover have "r = -1 \<and> errno s' = EINVAL"
    if "\<forall>word \<in> {''create'', ''set'', ''delete'', ''pause'', ''resume''}. cpuctl_command (first_line 256 bytes count') word = None"
      "first_line 256 bytes count' \<noteq> ''list''"
  proof -
    have none: "cpuctl_command (first_line 256 bytes count') ''create'' = None" "cpuctl_command (first_line 256 bytes count') ''set'' = None"
      "cpuctl_command (first_line 256 bytes count') ''delete'' = None" "cpuctl_command (first_line 256 bytes count') ''pause'' = None"
      "cpuctl_command (first_line 256 bytes count') ''resume'' = None" using that(1) by blast+
    from d that(2) show ?thesis unfolding cpuctl_dispatch_def none
      by (auto simp: cpuctl_error_result split: if_splits)
  qed
  ultimately show ?thesis by (auto simp: ctl_result_def)
qed

section \<open>The configuration of a created group\<close>

lemma CORE_cgroup_Initialize_config:
  assumes "CORE_cgroup_Initialize p config s = Some s'"
  obtains cg where "cgs s' p = Some cg" "cg_config cg = config" "cg_state cg = STATES_READY"
  using assms
  by (auto simp: CORE_cgroup_Initialize_def set_cpu_resume_watchdog_def Watchdog_Per_CPU_insert_ticks_def upd_cg_def
      bind_eq_Some_conv split: if_splits)

text \<open>(C29) A group that \<open>/cpuctl\<close> creates keeps a pointer to the local variable of the handler: after the
  write returns, the group is registered with a configuration that no longer exists, and the end of
  its first period is undefined behaviour.\<close>

theorem cpuctl_create_dangles:
  assumes "cpuctl_create [] count' s = Some (int count', s')"
  shows "\<exists>p cg. cgs s' p = Some cg \<and> cg_config cg = Some (config_frame s) \<and> cgcfgs s' (config_frame s) = None \<and>
    cpu_resume_routine p s' = None"
proof -
  obtain i s1 where c: "create_from_frame (CHR ''C'', CHR ''P'', CHR ''U'')
      \<lparr>cpu_shares = 1, cpu_quota = 100, cpu_period = 1000, memory_limit = 0, blkio_limit = 0\<rparr> s = Some (RTEMS_SUCCESSFUL, Some i, s1)"
    and s': "cgs s' = cgs s1" "cgcfgs s' = cgcfgs s1"
    using assms by (auto simp: cpuctl_create_def bind_eq_Some_conv containerfs_cgroup_track_add_def printf_def
        cpuctl_error_result split: if_splits)
  let ?f = "config_frame s"
  obtain p s0 s2 info' h where ini: "CORE_cgroup_Initialize p (Some ?f) s0 = Some s2"
    and s1: "s1 = s2\<lparr>Cgroup_Information := info', objs := h, cgcfgs := (cgcfgs s2)(?f := None)\<rparr>"
    using c by (auto simp: create_from_frame_def rtems_cgroup_create_def Let_def bind_eq_Some_conv split: if_splits option.splits)
  from ini obtain cg where cg: "cgs s2 p = Some cg" "cg_config cg = Some ?f" "cg_state cg = STATES_READY"
    by (rule CORE_cgroup_Initialize_config)
  have "cpu_resume_routine p s' = None"
    using cg s1 s' by (simp add: cpu_resume_routine_def CORE_cgroup_Resume_def STATES_READY_def set_cpu_resume_watchdog_def)
  with cg s1 s' show ?thesis by (intro exI [of _ p] exI [of _ cg]) simp
qed

section \<open>Registration\<close>

text \<open>Registering a file again after it was registered does nothing, whatever the file system does.\<close>

lemma register_file_once:
  assumes "\<And>path st. nodes_created (snd (make_node path st)) = nodes_created st"
    and "register_file make_node file s = s1" "file \<in> set (nodes_created s1)"
  shows "register_file make_node file s1 = s1"
  using assms(3) by (simp add: register_file_def)

section \<open>Witnesses\<close>

text \<open>The root PID container 0 with identifier 1 and an empty container 1 with identifier 2; the control group
  object at (30, 0) is free; the handlers' frame is at 90.\<close>

definition demo_fs :: fs_kernel where
  "demo_fs = net_kernel.extend
     (demo_net\<lparr>cfg := demo_cfg, rootContainer := Some (Container_zero\<lparr>pidContainer := Some 0, pidContainerList := [1]\<rparr>),
        pids := [0 \<mapsto> PidContainer_new 1, 1 \<mapsto> PidContainer_new 2], g_pidContainerId := 2,
        cgs := [(30, 0) \<mapsto> demo_cgroup], objs := [30 \<mapsto> [\<lparr>obj_id = 0x5a010001, obj_name = 0\<rparr>]], wd_header := [], wd_ticks := 7,
        Cgroup_Information := Objects_Information_zero\<lparr>maximum_id := 0x5a010001, local_table := Some [None],
          allocate := OBJECTS_STATIC, deallocate := OBJECTS_STATIC, Inactive := [(30, 0)], initial_objects := Some 30\<rparr>\<rparr>)
     (fs_kernel.fields \<lparr>ids = replicate 32 0, id_count = 0\<rparr> 0 \<lparr>ids = replicate 32 0, id_count = 0\<rparr> 0 [] 90 [])"

lemma demo_fs_sel [simp]:
  "rootContainer demo_fs = Some (Container_zero\<lparr>pidContainer := Some 0, pidContainerList := [1]\<rparr>)"
  "pids demo_fs = [0 \<mapsto> PidContainer_new 1, 1 \<mapsto> PidContainer_new 2]" "console demo_fs = []" "config_frame demo_fs = 90"
  "cgroup_table demo_fs = \<lparr>ids = replicate 32 0, id_count = 0\<rparr>" "cgs demo_fs = [(30, 0) \<mapsto> demo_cgroup]"
  "objs demo_fs = [30 \<mapsto> [\<lparr>obj_id = 0x5a010001, obj_name = 0\<rparr>]]" "wd_header demo_fs = []" "wd_ticks demo_fs = 7"
  "Cgroup_Information demo_fs = Objects_Information_zero\<lparr>maximum_id := 0x5a010001, local_table := Some [None],
     allocate := OBJECTS_STATIC, deallocate := OBJECTS_STATIC, Inactive := [(30, 0)], initial_objects := Some 30\<rparr>"
  "cgroup_name_index demo_fs = 0" "cfg demo_fs = demo_cfg"
  by (simp_all add: demo_fs_def net_kernel.defs fs_kernel.defs)

theorem containerfs_command_typed_witness:
  "\<exists>n cmd. containerfs_copy_command 128 (Some (''list'' @ nl)) 5 = Some (n, cmd) \<and> length cmd \<le> 128 \<and> cstr cmd = ''list''"
  using containerfs_command_typed [of 128 5 "''list'' @ nl"] by (auto simp: nl_def ends_command_def NUL_def)

theorem containerfs_table_refines_witness:
  "\<exists>t'. track_run track_add track_remove [Track 5, Track 6, Track 5, Untrack 5] \<lparr>ids = replicate 32 0, id_count = 0\<rparr> = Some t' \<and>
     take (id_count t') (ids t') = [6]"
  using containerfs_table_refines [of "\<lparr>ids = replicate 32 0, id_count = 0\<rparr>" "[Track 5, Track 6, Track 5, Untrack 5]"]
  by (auto simp: CONTAINERFS_CGROUP_TRACK_MAX_def)

theorem nsctl_root_protected_witness:
  "\<exists>msg. pidctl_write (Some (delete_cmd 1)) (delete_len 1) demo_fs = Some (int (delete_len 1), demo_fs\<lparr>console := msg\<rparr>)"
proof -
  have "rtems_pid_container_get_id (Some 0) demo_fs = Some (int 1)"
    by (simp add: rtems_pid_container_get_id_def PidContainer_new_def)
  with nsctl_root_protected [of 1 demo_fs "Container_zero\<lparr>pidContainer := Some 0, pidContainerList := [1]\<rparr>" 0, THEN conjunct1]
  show ?thesis by fastforce
qed

theorem pidctl_delete_by_id_witness:
  "\<exists>s1. rtems_pid_container_delete (Some 1) demo_fs = Some s1 \<and>
     pidctl_write (Some (''delete '' @ pu 2 @ nl)) (length (''delete '' @ pu 2) + 1) demo_fs =
       Some (int (length (''delete '' @ pu 2) + 1), s1\<lparr>console := console s1 @ ''[pidctl] deleted: id='' @ pd (int 2) @ nl\<rparr>)"
proof -
  obtain s1 where s1: "rtems_pid_container_delete (Some 1) demo_fs = Some s1"
    by (simp add: rtems_pid_container_delete_def rtems_container_get_root_def rtems_pid_container_remove_from_list_def
        list_unlink_def PidContainer_new_def)
  show ?thesis
    by (rule exI [of _ s1], rule conjI [OF s1])
      (rule pidctl_delete_by_id [where r = "Container_zero\<lparr>pidContainer := Some 0, pidContainerList := [1]\<rparr>" and
          ds = "[]" and rest = "[]" and k = 1 and c = 1 and ?c0.0 = 0, OF _ _ _ _ _ _ _ _ _ s1],
        auto simp: rtems_pid_container_get_id_def PidContainer_new_def)
qed

theorem ctl_read_only_witness:
  "\<exists>s'. pidctl_write (Some ''help'') 4 demo_fs = Some (4, s') \<and> only_prints demo_fs s'"
proof -
  have f: "first_line 128 ''help'' 4 = ''help''" "first_line 256 ''help'' 4 = ''help''"
    by (simp_all add: first_line_def ends_command_def NUL_def)
  have r: "read_only ''help''" by (simp add: read_only_def starts_with_def)
  obtain s' where s': "pidctl_write (Some ''help'') 4 demo_fs = Some (4, s')"
    by (simp add: pidctl_write_def ctl_write_def containerfs_copy_command_def cstr_def NUL_def starts_with_def ctl_unknown_def)
  then show ?thesis
    using ctl_read_only [of "''help''" 4 demo_fs 4 s'] f r by auto
qed

theorem cpuctl_write_errors_witness:
  "\<exists>s'. cpuctl_write (Some ''help'') 4 demo_fs = Some (-1, s') \<and> errno s' = EINVAL"
proof -
  have f: "first_line 256 ''help'' 4 = ''help''" by (simp add: first_line_def ends_command_def NUL_def)
  obtain s' where s': "cpuctl_write (Some ''help'') 4 demo_fs = Some (-1, s')"
    by (simp add: cpuctl_write_def containerfs_copy_command_def cstr_def NUL_def cpuctl_dispatch_def cpuctl_command_def
        starts_with_def cpuctl_error_def)
  then show ?thesis
    using cpuctl_write_errors [OF s'] f by (auto simp: cpuctl_command_def starts_with_def)
qed

lemma demo_fs_create:
  "\<exists>s1. create_from_frame (CHR ''C'', CHR ''P'', CHR ''U'') conf demo_fs = Some (RTEMS_SUCCESSFUL, Some 0x5a010001, s1) \<and>
     cgroup_table s1 = cgroup_table demo_fs"
proof -
  have name: "char_of (48 :: nat) = CHR ''0''" by code_simp
  have "rtems_build_name CHR ''C'' CHR ''P'' CHR ''U'' CHR ''0'' \<noteq> 0" by (simp add: rtems_build_name_def)
  moreover have "Objects_Allocate (objs demo_fs) (Cgroup_Information demo_fs) =
      Some (Some (30, 0), (Cgroup_Information demo_fs)\<lparr>Inactive := []\<rparr>)"
    by (simp add: Objects_Allocate_def Objects_Get_inactive_def)
  ultimately show ?thesis
    by (simp add: create_from_frame_def rtems_cgroup_create_def Let_def name CORE_cgroup_Initialize_def set_cpu_resume_watchdog_def
        Watchdog_Per_CPU_insert_ticks_def Watchdog_Is_scheduled_def upd_cg_def Objects_Open_u32_def obj_write_def obj_read_def
        Objects_Set_local_object_def Objects_Get_index_def array_update_def OBJECTS_INDEX_MINIMUM_def)
qed

theorem cpuctl_create_dangles_witness:
  "\<exists>s' p. cpuctl_create [] 6 demo_fs = Some (6, s') \<and> cpu_resume_routine p s' = None"
proof -
  obtain s1 where "create_from_frame (CHR ''C'', CHR ''P'', CHR ''U'')
      \<lparr>cpu_shares = 1, cpu_quota = 100, cpu_period = 1000, memory_limit = 0, blkio_limit = 0\<rparr> demo_fs =
      Some (RTEMS_SUCCESSFUL, Some 0x5a010001, s1)" "cgroup_table s1 = cgroup_table demo_fs"
    using demo_fs_create by blast
  then obtain s' where s': "cpuctl_create [] 6 demo_fs = Some (int 6, s')"
    by (simp add: cpuctl_create_def containerfs_cgroup_track_add_def track_add_def track_find_def
        CONTAINERFS_CGROUP_TRACK_MAX_def array_update_def)
  from cpuctl_create_dangles [OF s'] s' show ?thesis by auto
qed

end
