(* ===== verification/Monitor.thy ===== *)
theory Monitor
  imports NetContainer Text
begin

text \<open>
  The resource monitor, \<open>score/src/monitor.c\<close>: sampling the clock, the heap and the network
  interfaces, the getters, and the status line and report it prints. The build options choose which of
  the three parts exist. \<open>malloc_info\<close> and the processor usage report are parameters; interfaces are a
  heap of the fields that the monitor reads, linked by \<open>ifs_next\<close>. Sizes of the heap are 64-bit words.
\<close>

section \<open>Data\<close>

record monitor_cfg =
  RTEMSCFG_MONITOR_CPU :: bool
  RTEMSCFG_MONITOR_MEM :: bool
  RTEMSCFG_MONITOR_NET :: bool

record RtemsCpuStats =
  total_seconds :: u32
  total_microseconds :: u32
  uptime_seconds :: u32
  uptime_microseconds :: u32

record Heap_Information_block =
  free_total :: u64
  free_largest :: u64
  used_total :: u64

record RtemsMemStats =
  bytes_total :: u64
  bytes_used :: u64
  bytes_free :: u64
  bytes_high_water :: u64

record RtemsNetStats =
  net_rx_bytes :: u64
  net_tx_bytes :: u64
  net_rx_packets :: u64
  net_tx_packets :: u64
  net_rx_errors :: u64
  net_tx_errors :: u64

record monitor_state =
  cpu_stats :: RtemsCpuStats
  mem_info :: Heap_Information_block
  net_stats :: RtemsNetStats

record RtemsMonitor =
  mon_cpu :: RtemsCpuStats
  mon_mem :: RtemsMemStats
  mon_net :: RtemsNetStats

record ifnet_counters =
  ifs_next :: ptr
  ifs_ibytes :: u64
  ifs_obytes :: u64
  ifs_ipackets :: u64
  ifs_opackets :: u64
  ifs_ierrors :: u64
  ifs_oerrors :: u64

record mon_kernel = net_kernel +
  ifnets :: "addr \<rightharpoonup> ifnet_counters"
  g_monitor_state :: monitor_state
  mon_console :: string

definition cpu_zero :: RtemsCpuStats where
  "cpu_zero = \<lparr>total_seconds = 0, total_microseconds = 0, uptime_seconds = 0, uptime_microseconds = 0\<rparr>"

definition mem_zero :: Heap_Information_block where
  "mem_zero = \<lparr>free_total = 0, free_largest = 0, used_total = 0\<rparr>"

definition net_zero :: RtemsNetStats where
  "net_zero = \<lparr>net_rx_bytes = 0, net_tx_bytes = 0, net_rx_packets = 0, net_tx_packets = 0, net_rx_errors = 0, net_tx_errors = 0\<rparr>"

section \<open>Sampling\<close>

definition rtems_monitor_initialize :: "'a mon_kernel_scheme \<Rightarrow> 'a mon_kernel_scheme" where
  "rtems_monitor_initialize s = s\<lparr>g_monitor_state := \<lparr>cpu_stats = cpu_zero, mem_info = mem_zero, net_stats = net_zero\<rparr>\<rparr>"

definition monitor_get_ifnet_head :: "'a mon_kernel_scheme \<Rightarrow> ptr option" where
  "monitor_get_ifnet_head s =
     (if RTEMSCFG_NET_CONTAINER (cfg s) then rtems_net_container_get_ifnet s else Some (global_ifnet s))"

text \<open>\<open>rtems_clock_get_ticks_per_second\<close> is a divisor.\<close>

definition sample_cpu :: "u32 \<Rightarrow> u32 \<Rightarrow> RtemsCpuStats option" where
  "sample_cpu current_ticks tps =
     (if tps = 0 then None
      else let sec = current_ticks div tps; usec = ((current_ticks mod tps) * 1000000) div tps in
        Some \<lparr>total_seconds = sec, total_microseconds = usec, uptime_seconds = sec, uptime_microseconds = usec\<rparr>)"

definition add_counters :: "ifnet_counters \<Rightarrow> RtemsNetStats \<Rightarrow> RtemsNetStats" where
  "add_counters i t =
     \<lparr>net_rx_bytes = net_rx_bytes t + ifs_ibytes i, net_tx_bytes = net_tx_bytes t + ifs_obytes i,
      net_rx_packets = net_rx_packets t + ifs_ipackets i, net_tx_packets = net_tx_packets t + ifs_opackets i,
      net_rx_errors = net_rx_errors t + ifs_ierrors i, net_tx_errors = net_tx_errors t + ifs_oerrors i\<rparr>"

text \<open>The loop over the interfaces; on a cyclic list it does not end.\<close>

partial_function (option) sum_interfaces ::
  "(addr \<rightharpoonup> ifnet_counters) \<Rightarrow> ptr \<Rightarrow> RtemsNetStats \<Rightarrow> RtemsNetStats option" where
  "sum_interfaces h p t =
     (case p of
        None \<Rightarrow> Some t
      | Some a \<Rightarrow> Option.bind (h a) (\<lambda>i. sum_interfaces h (ifs_next i) (add_counters i t)))"

definition rtems_monitor_sample ::
  "monitor_cfg \<Rightarrow> int \<times> Heap_Information_block \<Rightarrow> 'a mon_kernel_scheme \<Rightarrow> 'a mon_kernel_scheme option" where
  "rtems_monitor_sample mc info s = do {
     let g = g_monitor_state s;
     c \<leftarrow> (if RTEMSCFG_MONITOR_CPU mc then sample_cpu (ticks_since_boot s) (ticks_per_second s) else Some (cpu_stats g));
     let m = (if RTEMSCFG_MONITOR_MEM mc then (if fst info \<noteq> 0 then mem_zero else snd info) else mem_info g);
     n \<leftarrow> (if RTEMSCFG_MONITOR_NET mc
            then do { hd' \<leftarrow> monitor_get_ifnet_head s; sum_interfaces (ifnets s) hd' net_zero }
            else Some (net_stats g));
     Some (s\<lparr>g_monitor_state := \<lparr>cpu_stats = c, mem_info = m, net_stats = n\<rparr>\<rparr>) }"

section \<open>Getters\<close>

definition mem_stats :: "Heap_Information_block \<Rightarrow> RtemsMemStats" where
  "mem_stats i = \<lparr>bytes_total = free_total i + used_total i, bytes_used = used_total i, bytes_free = free_total i,
     bytes_high_water = free_largest i\<rparr>"

text \<open>A getter writes through its argument unless it is NULL; parts that are not built stay zero.\<close>

definition rtems_monitor_get_snapshot :: "monitor_cfg \<Rightarrow> bool \<Rightarrow> 'a mon_kernel_scheme \<Rightarrow> RtemsMonitor option" where
  "rtems_monitor_get_snapshot mc out_null s =
     (if out_null then None
      else let g = g_monitor_state s in Some
        \<lparr>mon_cpu = (if RTEMSCFG_MONITOR_CPU mc then cpu_stats g else cpu_zero),
         mon_mem = (if RTEMSCFG_MONITOR_MEM mc then mem_stats (mem_info g) else mem_stats mem_zero),
         mon_net = (if RTEMSCFG_MONITOR_NET mc then net_stats g else net_zero)\<rparr>)"

definition rtems_monitor_get_cpu :: "bool \<Rightarrow> 'a mon_kernel_scheme \<Rightarrow> RtemsCpuStats option" where
  "rtems_monitor_get_cpu out_null s = (if out_null then None else Some (cpu_stats (g_monitor_state s)))"

definition rtems_monitor_get_mem :: "bool \<Rightarrow> 'a mon_kernel_scheme \<Rightarrow> RtemsMemStats option" where
  "rtems_monitor_get_mem out_null s = (if out_null then None else Some (mem_stats (mem_info (g_monitor_state s))))"

definition rtems_monitor_get_net :: "bool \<Rightarrow> 'a mon_kernel_scheme \<Rightarrow> RtemsNetStats option" where
  "rtems_monitor_get_net out_null s = (if out_null then None else Some (net_stats (g_monitor_state s)))"

section \<open>The status line\<close>

text \<open>The text of a size, before it is cut to the buffer of 24 bytes.\<close>

definition bytes_text :: "u64 \<Rightarrow> string" where
  "bytes_text v =
     (if v < 1024 then digits 10 20 (unat v) @ ''B''
      else if v < 1024 * 1024 then digits 10 20 (unat (v div 1024)) @ ''K''
      else digits 10 20 (unat (v div (1024 * 1024))) @ ''M'')"

definition monitor_format_bytes :: "nat \<Rightarrow> u64 \<Rightarrow> string \<times> nat" where
  "monitor_format_bytes bufsz v = (take (bufsz - 1) (bytes_text v), length (bytes_text v))"

definition line_pieces :: "monitor_cfg \<Rightarrow> monitor_state \<Rightarrow> string list" where
  "line_pieces mc g =
     (if RTEMSCFG_MONITOR_CPU mc then
        [''CPU: uptime='' @ fmt_d 0 (int (unat (uptime_seconds (cpu_stats g)))) @ ''.'' @
         fmt_d 6 (int (unat (uptime_microseconds (cpu_stats g)))) @ ''s ''] else []) @
     (if RTEMSCFG_MONITOR_MEM mc then
        [''MEM:'' @ fst (monitor_format_bytes 24 (used_total (mem_info g))) @ ''/'' @
         fst (monitor_format_bytes 24 (free_total (mem_info g) + used_total (mem_info g))) @ '' ''] else []) @
     (if RTEMSCFG_MONITOR_NET mc then
        [''NET:rx='' @ fst (monitor_format_bytes 24 (net_rx_bytes (net_stats g))) @ '' tx='' @
         fst (monitor_format_bytes 24 (net_tx_bytes (net_stats g)))] else [])"

text \<open>A run of \<open>snprintf\<close> calls into one line, with the running length; the blank at its end is
  overwritten. Reading or writing behind the line is undefined.\<close>

fun put_pieces :: "nat \<Rightarrow> string \<times> nat \<Rightarrow> string list \<Rightarrow> (string \<times> nat) option" where
  "put_pieces size' (line, n) [] = Some (line, n)"
| "put_pieces size' (line, n) (p # ps) = do { r \<leftarrow> snprintf_at size' (line, n) p; put_pieces size' r ps }"

definition rtems_monitor_print_line :: "monitor_cfg \<Rightarrow> 'a mon_kernel_scheme \<Rightarrow> 'a mon_kernel_scheme option" where
  "rtems_monitor_print_line mc s = do {
     (line, n) \<leftarrow> put_pieces 256 ([], 0) (line_pieces mc (g_monitor_state s));
     if n = 0 then Some (s\<lparr>mon_console := mon_console s @ ''MON: (no modules enabled)'' @ [CHR 0x0A]\<rparr>)
     else if 256 < n then None
     else let out = (if n - 1 < length line \<and> line ! (n - 1) = CHR '' '' then take (n - 1) line else line) in
       Some (s\<lparr>mon_console := mon_console s @ out @ [CHR 0x0A]\<rparr>) }"

section \<open>The detailed report\<close>

definition report_rule :: string where
  "report_rule = replicate 79 (CHR ''-'') @ [CHR 0x0A]"

definition report_row :: "string \<Rightarrow> u64 \<Rightarrow> string \<Rightarrow> string" where
  "report_row label v unit' = label @ digits 10 20 (unat v) @ unit' @ [CHR 0x0A]"

definition rtems_monitor_print_detailed_report ::
  "monitor_cfg \<Rightarrow> string \<Rightarrow> bool \<Rightarrow> 'a mon_kernel_scheme \<Rightarrow> string" where
  "rtems_monitor_print_detailed_report mc cpu_report printer_null s =
     (if printer_null then []
      else let g = g_monitor_state s; m = mem_info g; n = net_stats g in
        (if RTEMSCFG_MONITOR_CPU mc then cpu_report else []) @
        (if RTEMSCFG_MONITOR_MEM mc then concat
           [[CHR 0x0A], report_rule, ''                              MEMORY USAGE'' @ [CHR 0x0A], report_rule,
            report_row '' Total Memory:     '' (free_total m + used_total m) '' bytes'',
            report_row '' Used Memory:      '' (used_total m) '' bytes'',
            report_row '' Free Memory:      '' (free_total m) '' bytes'',
            report_row '' Largest Free:     '' (free_largest m) '' bytes'', report_rule] else []) @
        (if RTEMSCFG_MONITOR_NET mc then concat
           [[CHR 0x0A], report_rule, ''                           NETWORK STATISTICS'' @ [CHR 0x0A], report_rule,
            report_row '' RX Bytes:         '' (net_rx_bytes n) [], report_row '' TX Bytes:         '' (net_tx_bytes n) [],
            report_row '' RX Packets:       '' (net_rx_packets n) [], report_row '' TX Packets:       '' (net_tx_packets n) [],
            report_row '' RX Errors:        '' (net_rx_errors n) [], report_row '' TX Errors:        '' (net_tx_errors n) [],
            report_rule] else []))"

section \<open>Properties\<close>

text \<open>The uptime is exact: with a clock of at most 4295 ticks per second the sampled seconds and
  microseconds are the quotient and the scaled remainder of the tick counter, computed without
  wrap-around, and the microseconds stay below a million.\<close>

theorem monitor_uptime_exact:
  assumes "0 < unat tps" "unat tps \<le> 4295"
  shows "\<exists>c. sample_cpu t tps = Some c \<and> unat (uptime_seconds c) = unat t div unat tps \<and>
    unat (uptime_microseconds c) = (unat t mod unat tps) * 1000000 div unat tps \<and> unat (uptime_microseconds c) < 1000000"
proof -
  let ?r = "unat t mod unat tps"
  have r: "?r < unat tps" using assms(1) by simp
  then have "?r * 1000000 < unat tps * 1000000" by simp
  moreover from r assms(2) have "?r * 1000000 \<le> 4294 * 1000000" by (intro mult_right_mono) auto
  ultimately have small: "?r * 1000000 < 2 ^ 32" "?r * 1000000 div unat tps < 1000000"
    using assms(1) by (auto simp: div_less_iff_less_mult)
  have "unat ((t mod tps) * 1000000) = ?r * 1000000 mod 2 ^ 32"
    by (simp add: unat_word_ariths unat_mod_distrib mod_mult_left_eq)
  also have "\<dots> = ?r * 1000000" using small(1) by simp
  finally have "unat (((t mod tps) * 1000000) div tps) = ?r * 1000000 div unat tps"
    by (simp add: unat_div_distrib)
  moreover have "tps \<noteq> 0" using assms(1) by auto
  ultimately show ?thesis using small(2) by (simp add: sample_cpu_def Let_def unat_div_distrib)
qed

text \<open>With ten thousand ticks per second the product wraps: half a second after boot the clock shows
  seventy thousand microseconds.\<close>

lemma monitor_uptime_wraps:
  "map_option uptime_microseconds (sample_cpu 5000 10000) = Some 70503"
  by (simp add: sample_cpu_def Let_def)

text \<open>A list of interfaces that ends.\<close>

fun if_chain :: "(addr \<rightharpoonup> ifnet_counters) \<Rightarrow> ptr \<Rightarrow> ifnet_counters list \<Rightarrow> bool" where
  "if_chain h p [] \<longleftrightarrow> p = None"
| "if_chain h p (i # is) \<longleftrightarrow> (\<exists>a. p = Some a \<and> h a = Some i \<and> if_chain h (ifs_next i) is)"

lemma sum_interfaces_chain: "if_chain h p is \<Longrightarrow> sum_interfaces h p t = Some (fold add_counters is t)"
proof (induction "is" arbitrary: p t)
  case Nil
  then show ?case by (subst sum_interfaces.simps) simp
next
  case (Cons i "is")
  then show ?case by (subst sum_interfaces.simps) auto
qed

text \<open>Each total is the sum of one counter.\<close>

definition sum_of :: "(ifnet_counters \<Rightarrow> u64) \<Rightarrow> ifnet_counters list \<Rightarrow> u64" where
  "sum_of f is = sum_list (map f is)"

lemma fold_add_counters:
  "fold add_counters is t =
     \<lparr>net_rx_bytes = net_rx_bytes t + sum_of ifs_ibytes is, net_tx_bytes = net_tx_bytes t + sum_of ifs_obytes is,
      net_rx_packets = net_rx_packets t + sum_of ifs_ipackets is, net_tx_packets = net_tx_packets t + sum_of ifs_opackets is,
      net_rx_errors = net_rx_errors t + sum_of ifs_ierrors is, net_tx_errors = net_tx_errors t + sum_of ifs_oerrors is\<rparr>"
  by (induction "is" arbitrary: t) (simp_all add: add_counters_def sum_of_def add.assoc)


section \<open>The line fits\<close>

lemma bytes_text_fits: "length (bytes_text v) \<le> 21"
  using length_digits [of 10 20 "unat v"] length_digits [of 10 20 "unat (v div 1024)"]
    length_digits [of 10 20 "unat (v div (1024 * 1024))"]
  by (simp add: bytes_text_def)

lemma monitor_format_bytes_eq: "fst (monitor_format_bytes 24 v) = bytes_text v"
  using bytes_text_fits [of v] by (simp add: monitor_format_bytes_def)

lemma put_pieces_fits:
  "length line + length (concat ps) < size' \<Longrightarrow>
   put_pieces size' (line, length line) ps = Some (line @ concat ps, length line + length (concat ps))"
proof (induction ps arbitrary: line)
  case (Cons p ps)
  have "put_pieces size' (line @ p, length (line @ p)) ps = Some ((line @ p) @ concat ps, length (line @ p) + length (concat ps))"
    using Cons.prems by (intro Cons.IH) simp
  with Cons.prems show ?case by (simp add: add.assoc)
qed simp

lemma line_pieces_length: "length (concat (line_pieces mc g)) \<le> 160"
  using length_fmt_d [of 0 "int (unat (uptime_seconds (cpu_stats g)))"]
    length_fmt_d [of 6 "int (unat (uptime_microseconds (cpu_stats g)))"]
    bytes_text_fits [of "used_total (mem_info g)"] bytes_text_fits [of "free_total (mem_info g) + used_total (mem_info g)"]
    bytes_text_fits [of "net_rx_bytes (net_stats g)"] bytes_text_fits [of "net_tx_bytes (net_stats g)"]
  by (simp add: line_pieces_def monitor_format_bytes_eq)

text \<open>The status line is never cut and never overruns: for every state and every choice of modules the
  pieces together fit the line of 256 bytes, every size fits its buffer of 24 bytes, and what is
  printed is the whole text, without a blank at its end.\<close>

theorem monitor_line_fits:
  "\<exists>line n. put_pieces 256 ([], 0) (line_pieces mc g) = Some (line, n) \<and> line = concat (line_pieces mc g) \<and>
     n = length line \<and> n \<le> 160 \<and> fst (monitor_format_bytes 24 v) = bytes_text v \<and>
     (\<exists>s'. rtems_monitor_print_line mc (s\<lparr>g_monitor_state := g\<rparr>) = Some s')"
proof -
  have len: "length (concat (line_pieces mc g)) \<le> 160" by (rule line_pieces_length)
  then have p: "put_pieces 256 ([], 0) (line_pieces mc g) = Some (concat (line_pieces mc g), length (concat (line_pieces mc g)))"
    using put_pieces_fits [of "[]" "line_pieces mc g" 256] by simp
  then have "\<exists>s'. rtems_monitor_print_line mc (s\<lparr>g_monitor_state := g\<rparr>) = Some s'"
    using len by (simp add: rtems_monitor_print_line_def Let_def del: length_concat)
  with p len monitor_format_bytes_eq show ?thesis by blast
qed

section \<open>Witnesses\<close>

definition demo_if :: "ptr \<Rightarrow> u64 \<Rightarrow> ifnet_counters" where
  "demo_if p n = \<lparr>ifs_next = p, ifs_ibytes = n, ifs_obytes = 2 * n, ifs_ipackets = 1, ifs_opackets = 2, ifs_ierrors = 0, ifs_oerrors = 0\<rparr>"

text \<open>Two interfaces at 200 and 201 on the global list, in a build without network containers.\<close>

definition demo_mon :: mon_kernel where
  "demo_mon = net_kernel.extend (demo_net\<lparr>cfg := demo_cfg\<lparr>RTEMSCFG_NET_CONTAINER := False\<rparr>, global_ifnet := Some 200,
       ticks_since_boot := 250, ticks_per_second := 100\<rparr>)
     (mon_kernel.fields [200 \<mapsto> demo_if (Some 201) 100, 201 \<mapsto> demo_if None 40]
        \<lparr>cpu_stats = cpu_zero, mem_info = mem_zero, net_stats = net_zero\<rparr> [])"

lemma demo_mon_sel [simp]:
  "ifnets demo_mon = [200 \<mapsto> demo_if (Some 201) 100, 201 \<mapsto> demo_if None 40]" "global_ifnet demo_mon = Some 200"
  "ticks_per_second demo_mon = 100" "\<not> RTEMSCFG_NET_CONTAINER (cfg demo_mon)"
  by (simp_all add: demo_mon_def net_kernel.defs mon_kernel.defs)

theorem monitor_uptime_exact_witness:
  "\<exists>c. sample_cpu 250 100 = Some c \<and> unat (uptime_seconds c) = 2 \<and> unat (uptime_microseconds c) = 500000"
  using monitor_uptime_exact [of 100 250] by auto


end
