(* ===== verification/NetInterface.thy ===== *)
theory NetInterface
  imports Veth Text
begin

text \<open>
  The interfaces of a network container: the parts of \<open>libnetworking/net/if.c\<close> and
  \<open>libnetworking/net/if_loop.c\<close> that were written or changed for containers. They attach an interface to
  the list and the index table of a group, look interfaces and addresses up in the list of the executing
  task's container, and make and reclaim the loopback interface of a container.

  Interfaces are linked by their \<open>if_next\<close> pointers, so a walk along them need not end and is a
  \<open>partial_function\<close>; the address list of one interface is a list of addresses. An IPv4 address begins
  with its \<open>struct ifaddr\<close>: one address names the generic part in \<open>ifas\<close>, the IPv4 part in \<open>ians\<close>, and the
  counter and route flag in \<open>ias\<close> of \<open>NetContainer\<close>. A socket address is its length, its family and the
  bytes behind them; indices are little-endian. A routing tree is the list of its routes. The
  sizes in a link-level address are those of a 64-bit target. Time stamps and the packet filter are left
  out. The last section has the places where the protocols choose address lists, interfaces and socket
  tables by container.
\<close>

unbundle bit_operations_syntax

section \<open>Data\<close>

record sockaddr =
  sa_len :: u8
  sa_family :: nat
  sa_data :: "nat \<Rightarrow> u8"

datatype if_routine = looutput | loioctl | other_routine nat

record ifnet =
  if_name :: string
  if_unit :: int
  if_index :: u16
  if_next :: ptr
  if_mtu :: int
  if_flags :: u32
  if_ioctl :: if_routine
  if_output :: if_routine
  if_type :: u8
  if_addrlen :: nat
  ifq_maxlen :: int
  ifq_head :: "addr list"
  if_bpf :: ptr
  if_ipackets :: u64
  if_opackets :: u64
  if_addrlist :: "addr list"

record ifaddr =
  ifa_addr :: sockaddr
  ifa_dstaddr :: "sockaddr option"
  ifa_netmask :: "sockaddr option"
  ifa_ifp :: ptr
  link_refcnt :: int
  ifa_claim_addr :: "(sockaddr \<Rightarrow> bool) option"

record in_ifaddr4 =
  ia_ifp :: ptr
  ia_multiaddrs :: "addr list"

record in_multi =
  inm_refcount :: u32
  inm_ia :: addr
  inm_ifp :: addr
  inm_reported_last :: bool
  inm_all_hosts :: bool
  inm_v1_router :: bool

record if_kernel = veth_kernel +
  ifs :: "addr \<rightharpoonup> ifnet"
  ifas :: "addr \<rightharpoonup> ifaddr"
  ians :: "addr \<rightharpoonup> in_ifaddr4"
  inms :: "addr \<rightharpoonup> in_multi"
  rnhs :: "addr \<rightharpoonup> addr list"
  g_if_index :: int
  g_if_indexlim :: int
  ifqmaxlen :: int

definition AF_INET :: nat where "AF_INET = 2"
definition AF_LINK :: nat where "AF_LINK = 18"
definition IFF_LOOPBACK :: u32 where "IFF_LOOPBACK = 0x0008"
definition IFF_POINTOPOINT :: u32 where "IFF_POINTOPOINT = 0x0010"
definition IFT_LOOP :: u8 where "IFT_LOOP = 0x18"
definition LOMTU :: int where "LOMTU = 16384"
definition IFNAMSIZ :: nat where "IFNAMSIZ = 16"

definition upd_if :: "addr \<Rightarrow> (ifnet \<Rightarrow> ifnet) \<Rightarrow> 'a if_kernel_scheme \<Rightarrow> 'a if_kernel_scheme" where
  "upd_if a f s = s\<lparr>ifs := (ifs s)(a := map_option f (ifs s a))\<rparr>"

section \<open>Allocation that waits\<close>

text \<open>The allocator of the stack tries again after a second until there is memory, unless the caller
  does not want to wait.\<close>

partial_function (option) rtems_bsdnet_malloc :: "bool \<Rightarrow> Memory \<Rightarrow> (ptr \<times> Memory) option" where
  "rtems_bsdnet_malloc nowait m =
     (case malloc m of
        (Some a, m1) \<Rightarrow> Some (Some a, m1)
      | (None, m1) \<Rightarrow> if nowait then Some (None, m1) else rtems_bsdnet_malloc nowait m1)"

section \<open>Attaching an interface\<close>

text \<open>The walk to the last interface of a list that is not empty, and the new head after appending.\<close>

partial_function (option) if_last :: "(addr \<rightharpoonup> ifnet) \<Rightarrow> addr \<Rightarrow> addr option" where
  "if_last h a = (case h a of None \<Rightarrow> None | Some x \<Rightarrow> (case if_next x of None \<Rightarrow> Some a | Some b \<Rightarrow> if_last h b))"

definition if_append :: "ptr \<Rightarrow> addr \<Rightarrow> 'a if_kernel_scheme \<Rightarrow> (ptr \<times> 'a if_kernel_scheme) option" where
  "if_append head ifp s =
     (case head of
        None \<Rightarrow> Some (Some ifp, s)
      | Some a \<Rightarrow> do { b \<leftarrow> if_last (ifs s) a; Some (head, upd_if b (if_next_update (\<lambda>_. Some ifp)) s) })"

text \<open>The table from indices to link-level addresses is doubled when the new index does not fit.\<close>

definition grow_addrs :: "ptr \<Rightarrow> int \<Rightarrow> bool \<Rightarrow> 'a if_kernel_scheme \<Rightarrow> (ptr \<times> int \<times> 'a if_kernel_scheme) option" where
  "grow_addrs tab lim full s =
     (if tab = None \<or> full then do {
        (q, m) \<leftarrow> rtems_bsdnet_malloc False (mem s);
        q \<leftarrow> q;
        case tab of
          None \<Rightarrow> Some (Some q, 2 * lim, s\<lparr>mem := m, addr_tabs := (addr_tabs s)(q \<mapsto> replicate (nat (2 * lim)) None)\<rparr>)
        | Some t \<Rightarrow> do {
            xs \<leftarrow> addr_tabs s t;
            if length xs < nat lim then None
            else Some (Some q, 2 * lim, s\<lparr>mem := free_block m,
              addr_tabs := (addr_tabs s)(t := None, q \<mapsto> take (nat lim) xs @ replicate (nat lim) None)\<rparr>) } }
      else Some (tab, lim, s))"

text \<open>The link-level address: the header of \<open>struct sockaddr_dl\<close> has eight bytes, six of them behind the
  family; the structure has 54. The name is printed into a buffer of 64 bytes.\<close>

definition ROUNDUP :: "nat \<Rightarrow> nat" where
  "ROUNDUP a = 1 + ((a - 1) OR 7)"

definition sdl_sockaddr :: "nat \<Rightarrow> u16 \<Rightarrow> u8 \<Rightarrow> string \<Rightarrow> sockaddr" where
  "sdl_sockaddr len idx ty nm = \<lparr>sa_len = of_nat len, sa_family = AF_LINK,
     sa_data = (\<lambda>i. if i = 0 then ucast idx else if i = 1 then ucast (drop_bit 8 idx) else if i = 2 then ty
        else if i = 3 then of_nat (length nm) else if 6 \<le> i \<and> i < 6 + length nm then of_char (nm ! (i - 6)) else 0)\<rparr>"

definition sdl_mask :: "nat \<Rightarrow> nat \<Rightarrow> sockaddr" where
  "sdl_mask len namelen = \<lparr>sa_len = of_nat len, sa_family = 0,
     sa_data = (\<lambda>i. if 6 \<le> i \<and> i < 6 + namelen then 0xff else 0)\<rparr>"

definition link_ifaddr :: "addr \<Rightarrow> ifnet \<Rightarrow> ifaddr" where
  "link_ifaddr ifp x =
     (let nm = if_name x @ fmt_d 0 (if_unit x); masklen = 8 + length nm in
      \<lparr>ifa_addr = sdl_sockaddr (max 54 (ROUNDUP (masklen + if_addrlen x))) (if_index x) (if_type x) nm,
       ifa_dstaddr = None, ifa_netmask = Some (sdl_mask masklen (length nm)), ifa_ifp = Some ifp,
       link_refcnt = 0, ifa_claim_addr = None\<rparr>)"

definition attach_link_addr :: "addr \<Rightarrow> ptr \<Rightarrow> 'a if_kernel_scheme \<Rightarrow> 'a if_kernel_scheme option" where
  "attach_link_addr ifp tab s = do {
     x \<leftarrow> ifs s ifp;
     if 64 \<le> length (if_name x @ fmt_d 0 (if_unit x)) then None
     else do {
       (p, m) \<leftarrow> rtems_bsdnet_malloc False (mem s);
       case p of
         None \<Rightarrow> Some (s\<lparr>mem := m\<rparr>)
       | Some ifa \<Rightarrow> do {
           t \<leftarrow> tab;
           xs \<leftarrow> addr_tabs s t;
           ys \<leftarrow> array_update xs (uint (if_index x) - 1) (Some ifa);
           Some (upd_if ifp (if_addrlist_update (\<lambda>l. ifa # l))
             (s\<lparr>mem := m, addr_tabs := (addr_tabs s)(t \<mapsto> ys), ifas := (ifas s)(ifa \<mapsto> link_ifaddr ifp x)\<rparr>)) } } }"

definition if_attach_to_container :: "addr \<Rightarrow> ptr \<Rightarrow> 'a if_kernel_scheme \<Rightarrow> 'a if_kernel_scheme option" where
  "if_attach_to_container ifp grp s =
     (case grp of
        None \<Rightarrow> do {
          (head, s1) \<leftarrow> if_append (global_ifnet s) ifp s;
          let n = g_if_index s1 + 1;
          let s2 = upd_if ifp (if_index_update (\<lambda>_. of_int n)) (s1\<lparr>global_ifnet := head, g_if_index := n\<rparr>);
          (t, lim, s3) \<leftarrow> grow_addrs (global_ifnet_addrs s2) (g_if_indexlim s2) (g_if_indexlim s2 \<le> n) s2;
          attach_link_addr ifp t (s3\<lparr>global_ifnet_addrs := t, g_if_indexlim := lim\<rparr>) }
      | Some g \<Rightarrow> do {
          ng \<leftarrow> groups s g;
          (head, s1) \<leftarrow> if_append (ifnet_p ng) ifp s;
          let n = if_index_counter ng + 1;
          let s2 = upd_if ifp (if_index_update (\<lambda>_. of_int n)) s1;
          (t, lim, s3) \<leftarrow> grow_addrs (ifnet_addrs ng) (if_indexlim ng) (if_indexlim ng \<le> uint (of_int n :: u16)) s2;
          attach_link_addr ifp t (s3\<lparr>groups := (groups s3)(g \<mapsto>
            ng\<lparr>ifnet_p := head, if_index_counter := n, ifnet_addrs := t, if_indexlim := lim\<rparr>)\<rparr>) })"

definition if_attach :: "addr \<Rightarrow> 'a if_kernel_scheme \<Rightarrow> 'a if_kernel_scheme option" where
  "if_attach ifp s = if_attach_to_container ifp None s"

section \<open>Looking up addresses and interfaces\<close>

text \<open>A walk along a list of interfaces that may return early (\<open>Inl\<close>) or carry a value on (\<open>Inr\<close>).\<close>

partial_function (option) scan_ifs ::
  "(addr \<rightharpoonup> ifnet) \<Rightarrow> (addr \<Rightarrow> ifnet \<Rightarrow> 'b \<Rightarrow> ('r + 'b) option) \<Rightarrow> 'b \<Rightarrow> ptr \<Rightarrow> ('r + 'b) option" where
  "scan_ifs h f b p =
     (case p of
        None \<Rightarrow> Some (Inr b)
      | Some a \<Rightarrow>
          (case h a of
             None \<Rightarrow> None
           | Some x \<Rightarrow>
               (case f a x b of
                  None \<Rightarrow> None
                | Some (Inl r) \<Rightarrow> Some (Inl r)
                | Some (Inr b1) \<Rightarrow> scan_ifs h f b1 (if_next x))))"

fun find_ifa :: "(ifaddr \<Rightarrow> bool) \<Rightarrow> (addr \<rightharpoonup> ifaddr) \<Rightarrow> addr list \<Rightarrow> (addr + unit) option" where
  "find_ifa P h [] = Some (Inr ())"
| "find_ifa P h (a # as) = do { x \<leftarrow> h a; if P x then Some (Inl a) else find_ifa P h as }"

definition found :: "(addr + unit) option \<Rightarrow> ptr option" where
  "found r = map_option (\<lambda>x. case x of Inl a \<Rightarrow> Some a | Inr _ \<Rightarrow> None) r"

text \<open>The macro \<open>equal\<close> compares as many bytes as the first address has, the length and the family
  included.\<close>

definition sa_byte :: "sockaddr \<Rightarrow> nat \<Rightarrow> u8" where
  "sa_byte a i = (if i = 0 then sa_len a else if i = 1 then of_nat (sa_family a) else sa_data a (i - 2))"

definition sa_equal :: "sockaddr \<Rightarrow> sockaddr \<Rightarrow> bool" where
  "sa_equal a b \<longleftrightarrow> list_all (\<lambda>i. sa_byte a i = sa_byte b i) [0..<unat (sa_len a)]"

definition dst_equal :: "sockaddr \<Rightarrow> ifaddr \<Rightarrow> bool" where
  "dst_equal addr x \<longleftrightarrow> (case ifa_dstaddr x of None \<Rightarrow> False | Some d \<Rightarrow> sa_equal addr d)"

definition executing_net :: "'a if_kernel_scheme \<Rightarrow> ptr" where
  "executing_net s = do { t \<leftarrow> executing s; thread_ns netContainer s t }"

definition match_addr :: "sockaddr \<Rightarrow> ifnet \<Rightarrow> ifaddr \<Rightarrow> bool" where
  "match_addr addr i x \<longleftrightarrow> sa_family (ifa_addr x) = sa_family addr \<and>
     (sa_equal addr (ifa_addr x) \<or>
      if_flags i AND IFF_BROADCAST \<noteq> 0 \<and> (case ifa_dstaddr x of None \<Rightarrow> False | Some b \<Rightarrow> sa_equal b addr))"

definition ifa_ifwithaddr :: "sockaddr \<Rightarrow> 'a if_kernel_scheme \<Rightarrow> ptr option" where
  "ifa_ifwithaddr addr s =
     (let walk = (\<lambda>p. found (scan_ifs (ifs s) (\<lambda>_ i _. find_ifa (match_addr addr i) (ifas s) (if_addrlist i)) () p)) in
      case executing_net s of
        Some c \<Rightarrow> do {
          nc \<leftarrow> nets s c;
          case net_grp nc of
            None \<Rightarrow> Some None
          | Some g \<Rightarrow> do { ng \<leftarrow> groups s g; walk (ifnet_p ng) } }
      | None \<Rightarrow> walk (global_ifnet s))"

definition ifa_ifwithdstaddr :: "sockaddr \<Rightarrow> 'a if_kernel_scheme \<Rightarrow> ptr option" where
  "ifa_ifwithdstaddr addr s = do {
     head \<leftarrow> rtems_net_container_get_ifnet s;
     found (scan_ifs (ifs s)
       (\<lambda>_ i _. if if_flags i AND IFF_POINTOPOINT \<noteq> 0
          then find_ifa (\<lambda>x. sa_family (ifa_addr x) = sa_family addr \<and> dst_equal addr x) (ifas s) (if_addrlist i)
          else Some (Inr ())) () head) }"

text \<open>Whether one netmask is more specific than another, \<open>rn_refines\<close> of \<open>radix.c\<close>, and the comparison of
  two addresses under a netmask.\<close>

definition rn_refines :: "sockaddr \<Rightarrow> sockaddr \<Rightarrow> bool" where
  "rn_refines m n =
     (let lm = unat (sa_len m); ln = unat (sa_len n); k = min ln lm; j = max 1 k;
          same = list_all (\<lambda>i. sa_byte n i = sa_byte m i) [1..<k] in
      if list_ex (\<lambda>i. sa_byte n i AND NOT (sa_byte m i) \<noteq> 0) [1..<k] then False
      else if list_ex (\<lambda>i. sa_byte n i \<noteq> 0) [j..<ln] then False
      else if same \<and> ln < lm \<and> list_ex (\<lambda>i. sa_byte m i \<noteq> 0) [j..<j + (lm - ln)] then True
      else \<not> same)"

definition mask_match :: "sockaddr \<Rightarrow> sockaddr \<Rightarrow> sockaddr \<Rightarrow> bool" where
  "mask_match a b m \<longleftrightarrow> list_all (\<lambda>i. (sa_data a i XOR sa_data b i) AND sa_data m i = 0) [0..<unat (sa_len m) - 2]"

fun net_scan :: "sockaddr \<Rightarrow> ifnet \<Rightarrow> (addr \<rightharpoonup> ifaddr) \<Rightarrow> addr list \<Rightarrow> ptr \<Rightarrow> (addr + ptr) option" where
  "net_scan addr i h [] maybe = Some (Inr maybe)"
| "net_scan addr i h (a # as) maybe = do {
     x \<leftarrow> h a;
     if sa_family (ifa_addr x) \<noteq> sa_family addr then net_scan addr i h as maybe
     else if if_flags i AND IFF_POINTOPOINT \<noteq> 0
     then (if dst_equal addr x then Some (Inl a) else net_scan addr i h as maybe)
     else (case ifa_claim_addr x of
             Some f \<Rightarrow> if f addr then Some (Inl a) else net_scan addr i h as maybe
           | None \<Rightarrow>
               (case ifa_netmask x of
                  None \<Rightarrow> net_scan addr i h as maybe
                | Some m \<Rightarrow>
                    if mask_match addr (ifa_addr x) m then do {
                      better \<leftarrow> (case maybe of
                         None \<Rightarrow> Some True
                       | Some b \<Rightarrow> do { y \<leftarrow> h b; n \<leftarrow> ifa_netmask y; Some (rn_refines m n) });
                      net_scan addr i h as (if better then Some a else maybe) }
                    else net_scan addr i h as maybe)) }"

definition sdl_index :: "sockaddr \<Rightarrow> int" where
  "sdl_index a = uint (sa_data a 0) + 256 * uint (sa_data a 1)"

definition tab_entry :: "ptr \<Rightarrow> int \<Rightarrow> 'a if_kernel_scheme \<Rightarrow> ptr option" where
  "tab_entry tab i s = do { t \<leftarrow> tab; xs \<leftarrow> addr_tabs s t; if 0 \<le> i \<and> i < int (length xs) then Some (xs ! nat i) else None }"

definition ifa_ifwithnet :: "sockaddr \<Rightarrow> 'a if_kernel_scheme \<Rightarrow> ptr option" where
  "ifa_ifwithnet addr s = do {
     cur \<leftarrow> current_group s;
     let walk = (\<lambda>p. map_option (\<lambda>x. case x of Inl a \<Rightarrow> Some a | Inr maybe \<Rightarrow> maybe)
           (scan_ifs (ifs s) (\<lambda>_ i maybe. net_scan addr i (ifas s) (if_addrlist i) maybe) None p));
     let i = sdl_index addr;
     case cur of
       Some ng \<Rightarrow>
         if sa_family addr = AF_LINK
         then (if i \<noteq> 0 \<and> i \<le> if_index_counter ng then tab_entry (ifnet_addrs ng) (i - 1) s else Some None)
         else walk (ifnet_p ng)
     | None \<Rightarrow>
         if sa_family addr = AF_LINK \<and> i \<noteq> 0 \<and> i \<le> g_if_index s then tab_entry (global_ifnet_addrs s) (i - 1) s
         else walk (global_ifnet s) }"

text \<open>An interface by its name: the letters before the unit, and the unit. A unit that does not fit an
  \<open>int\<close> is undefined.\<close>

definition unit_split :: "string \<Rightarrow> (string \<times> nat) option" where
  "unit_split name =
     (let base = takeWhile (\<lambda>ch. \<not> is_digit ch) (take IFNAMSIZ name); rest = drop (length base) name in
      if length base \<ge> min IFNAMSIZ (length name) \<or> dropWhile is_digit rest \<noteq> [] then None
      else Some (base, dec_value (takeWhile is_digit rest)))"

definition ifunit :: "string \<Rightarrow> 'a if_kernel_scheme \<Rightarrow> ptr option" where
  "ifunit name s =
     (case unit_split name of
        None \<Rightarrow> Some None
      | Some (base, u) \<Rightarrow>
          if 2 ^ 31 \<le> u then None
          else do {
            let walk = (\<lambda>p. found (scan_ifs (ifs s)
                  (\<lambda>a i _. Some (if if_name i = base \<and> if_unit i = int u then Inl a else Inr ())) () p));
            cur \<leftarrow> current_group s;
            mine \<leftarrow> (case cur of None \<Rightarrow> Some None | Some ng \<Rightarrow> walk (ifnet_p ng));
            case mine of Some a \<Rightarrow> Some (Some a) | None \<Rightarrow> walk (global_ifnet s) })"

section \<open>Loopback interfaces\<close>

definition loop_ifnet :: "int \<Rightarrow> u32 \<Rightarrow> int \<Rightarrow> ifnet" where
  "loop_ifnet u flags qlen =
     \<lparr>if_name = ''lo'', if_unit = u, if_index = 0, if_next = None, if_mtu = LOMTU, if_flags = flags, if_ioctl = loioctl,
      if_output = looutput, if_type = IFT_LOOP, if_addrlen = 0, ifq_maxlen = qlen, ifq_head = [], if_bpf = None,
      if_ipackets = 0, if_opackets = 0, if_addrlist = []\<rparr>"

text \<open>The global loopback interfaces are the elements of the static array \<open>loif\<close>.\<close>

fun initialize_loop_from :: "int \<Rightarrow> addr list \<Rightarrow> 'a if_kernel_scheme \<Rightarrow> 'a if_kernel_scheme option" where
  "initialize_loop_from i [] s = Some s"
| "initialize_loop_from i (ifp # rest) s = do {
     s1 \<leftarrow> if_attach ifp (s\<lparr>ifs := (ifs s)(ifp \<mapsto> loop_ifnet i (IFF_LOOPBACK OR IFF_MULTICAST) (ifqmaxlen s))\<rparr>);
     initialize_loop_from (i + 1) rest s1 }"

definition rtems_bsdnet_initialize_loop :: "addr list \<Rightarrow> 'a if_kernel_scheme \<Rightarrow> 'a if_kernel_scheme option" where
  "rtems_bsdnet_initialize_loop loif s = initialize_loop_from 0 loif s"

text \<open>IPv4 socket addresses: two bytes of port, four of address in network order. The mask has length 8.\<close>

definition sin_sockaddr :: "u8 \<Rightarrow> u32 \<Rightarrow> sockaddr" where
  "sin_sockaddr len ip = \<lparr>sa_len = len, sa_family = AF_INET,
     sa_data = (\<lambda>i. if 2 \<le> i \<and> i < 6 then ucast (drop_bit (8 * (5 - i)) ip) else 0)\<rparr>"

definition INADDR_LOOPBACK :: u32 where "INADDR_LOOPBACK = 0x7f000001"
definition IN_CLASSA_NET :: u32 where "IN_CLASSA_NET = 0xff000000"

definition loop_address :: "addr \<Rightarrow> ifaddr" where
  "loop_address ifp =
     \<lparr>ifa_addr = sin_sockaddr 16 INADDR_LOOPBACK, ifa_dstaddr = Some (sin_sockaddr 16 0),
      ifa_netmask = Some (sin_sockaddr 8 IN_CLASSA_NET), ifa_ifp = Some ifp, link_refcnt = 0, ifa_claim_addr = None\<rparr>"

definition rtems_bsdnet_initialize_loop_for_container ::
  "addr \<Rightarrow> 'a if_kernel_scheme \<Rightarrow> (int \<times> 'a if_kernel_scheme) option" where
  "rtems_bsdnet_initialize_loop_for_container g s = do {
     (p, m) \<leftarrow> rtems_bsdnet_malloc False (mem s);
     case p of
       None \<Rightarrow> Some (-1, s\<lparr>mem := m\<rparr>)
     | Some ifp \<Rightarrow> do {
         s1 \<leftarrow> if_attach_to_container ifp (Some g)
           (s\<lparr>mem := m, ifs := (ifs s)(ifp \<mapsto>
              loop_ifnet 0 (IFF_LOOPBACK OR IFF_MULTICAST OR IFF_UP OR IFF_RUNNING) (ifqmaxlen s))\<rparr>);
         (q, m1) \<leftarrow> rtems_bsdnet_malloc False (mem s1);
         case q of
           None \<Rightarrow> Some (-2, s1\<lparr>mem := m1\<rparr>)
         | Some ia \<Rightarrow> do {
             ng \<leftarrow> groups s1 g;
             Some (0, upd_if ifp (if_addrlist_update (\<lambda>l. l @ [ia]))
               (s1\<lparr>mem := m1, ifas := (ifas s1)(ia \<mapsto> loop_address ifp),
                   ias := (ias s1)(ia \<mapsto> \<lparr>ia_lo = True, ia_route = False, ifa_refcnt = 0\<rparr>),
                   ians := (ians s1)(ia \<mapsto> \<lparr>ia_ifp = Some ifp, ia_multiaddrs = []\<rparr>),
                   groups := (groups s1)(g \<mapsto> ng\<lparr>in_ifaddr := in_ifaddr ng @ [ia]\<rparr>)\<rparr>)) } } }"

section \<open>Reclaiming a loopback\<close>

text \<open>The reference count of an address, and the macro \<open>IFAFREE\<close>.\<close>

definition ifa_references :: "addr \<Rightarrow> 'a if_kernel_scheme \<Rightarrow> int option" where
  "ifa_references a s = do {
     x \<leftarrow> ifas s a;
     Some (case ias s a of None \<Rightarrow> link_refcnt x | Some e \<Rightarrow> ifa_refcnt e) }"

definition set_references :: "addr \<Rightarrow> int \<Rightarrow> 'a if_kernel_scheme \<Rightarrow> 'a if_kernel_scheme" where
  "set_references a n s =
     (case ias s a of
        None \<Rightarrow> s\<lparr>ifas := (ifas s)(a := map_option (link_refcnt_update (\<lambda>_. n)) (ifas s a))\<rparr>
      | Some e \<Rightarrow> s\<lparr>ias := (ias s)(a \<mapsto> e\<lparr>ifa_refcnt := n\<rparr>)\<rparr>)"

definition IFAFREE :: "addr \<Rightarrow> 'a if_kernel_scheme \<Rightarrow> 'a if_kernel_scheme option" where
  "IFAFREE a s = do {
     n \<leftarrow> ifa_references a s;
     if n \<le> 0
     then Some (s\<lparr>mem := free_block (mem s), ifas := (ifas s)(a := None), ias := (ias s)(a := None),
                  ians := (ians s)(a := None)\<rparr>)
     else Some (set_references a (n - 1) s) }"

text \<open>Leaving a multicast group. Sending the report and telling a driver that is not the loopback are
  the parameters.\<close>

record 's mcast_env =
  igmp_sendpkt :: "addr \<Rightarrow> 's \<Rightarrow> 's"
  driver_ioctl :: "nat \<Rightarrow> addr \<Rightarrow> 's \<Rightarrow> 's"

definition igmp_leavegroup ::
  "'a if_kernel_scheme mcast_env \<Rightarrow> addr \<Rightarrow> in_multi \<Rightarrow> ifnet \<Rightarrow> 'a if_kernel_scheme \<Rightarrow> 'a if_kernel_scheme" where
  "igmp_leavegroup M a x i s =
     (if inm_reported_last x \<and> \<not> inm_all_hosts x \<and> if_flags i AND IFF_LOOPBACK = 0 \<and> \<not> inm_v1_router x
      then igmp_sendpkt M a s else s)"

definition in_delmulti ::
  "'a if_kernel_scheme mcast_env \<Rightarrow> addr \<Rightarrow> 'a if_kernel_scheme \<Rightarrow> 'a if_kernel_scheme option" where
  "in_delmulti M a s = do {
     x \<leftarrow> inms s a;
     let n = inm_refcount x - 1;
     let s1 = s\<lparr>inms := (inms s)(a \<mapsto> x\<lparr>inm_refcount := n\<rparr>)\<rparr>;
     if n \<noteq> 0 then Some s1
     else do {
       i \<leftarrow> ifs s1 (inm_ifp x);
       let s2 = igmp_leavegroup M a x i s1;
       y \<leftarrow> ians s2 (inm_ia x);
       let s3 = s2\<lparr>ians := (ians s2)(inm_ia x \<mapsto> y\<lparr>ia_multiaddrs := remove1 a (ia_multiaddrs y)\<rparr>)\<rparr>;
       s4 \<leftarrow> IFAFREE (inm_ia x) s3;
       j \<leftarrow> ifs s4 (inm_ifp x);
       s5 \<leftarrow> Some (case if_ioctl j of loioctl \<Rightarrow> s4 | looutput \<Rightarrow> s4 | other_routine k \<Rightarrow> driver_ioctl M k a s4);
       Some (s5\<lparr>mem := free_block (mem s5), inms := (inms s5)(a := None)\<rparr>) } }"

partial_function (option) delmulti_all ::
  "'a if_kernel_scheme mcast_env \<Rightarrow> addr \<Rightarrow> 'a if_kernel_scheme \<Rightarrow> 'a if_kernel_scheme option" where
  "delmulti_all M ia s =
     (case ians s ia of
        None \<Rightarrow> None
      | Some y \<Rightarrow>
          (case ia_multiaddrs y of
             [] \<Rightarrow> Some s
           | a # _ \<Rightarrow> (case in_delmulti M a s of None \<Rightarrow> None | Some s1 \<Rightarrow> delmulti_all M ia s1)))"

fun delmulti_each ::
  "'a if_kernel_scheme mcast_env \<Rightarrow> addr list \<Rightarrow> 'a if_kernel_scheme \<Rightarrow> 'a if_kernel_scheme option" where
  "delmulti_each M [] s = Some s"
| "delmulti_each M (ia # ias') s = do { s1 \<leftarrow> delmulti_all M ia s; delmulti_each M ias' s1 }"

text \<open>The reasons to leave everything as it is: sockets, other interfaces or traffic, routes, and
  addresses with users other than their multicast memberships. \<open>rn_walktree\<close> with
  \<open>container_route_present\<close> stops at the first route with 1.\<close>

definition pcbs_empty :: "ptr \<Rightarrow> 'a if_kernel_scheme \<Rightarrow> bool option" where
  "pcbs_empty p s = (case p of None \<Rightarrow> Some True | Some a \<Rightarrow> map_option (\<lambda>l. l = []) (pcb_lists s a))"

definition loop_unused :: "ifnet \<Rightarrow> bool" where
  "loop_unused i \<longleftrightarrow> if_next i = None \<and> if_output i = looutput \<and> if_ioctl i = loioctl \<and> if_bpf i = None \<and>
     ifq_head i = [] \<and> if_ipackets i = 0 \<and> if_opackets i = 0"

definition container_route_present :: "addr \<Rightarrow> int" where
  "container_route_present rn = 1"

fun rn_walktree :: "(addr \<Rightarrow> int) \<Rightarrow> addr list \<Rightarrow> int" where
  "rn_walktree f [] = 0"
| "rn_walktree f (rn # rns) = (if f rn \<noteq> 0 then f rn else rn_walktree f rns)"

fun no_routes :: "ptr list \<Rightarrow> 'a if_kernel_scheme \<Rightarrow> bool option" where
  "no_routes [] s = Some True"
| "no_routes (None # ts) s = no_routes ts s"
| "no_routes (Some t # ts) s = do {
     rs \<leftarrow> rnhs s t;
     if rn_walktree container_route_present rs \<noteq> 0 then Some False else no_routes ts s }"

fun count_members :: "addr list \<Rightarrow> int \<Rightarrow> 'a if_kernel_scheme \<Rightarrow> int option option" where
  "count_members [] n s = Some (Some n)"
| "count_members (a # as) n s = do {
     x \<leftarrow> inms s a;
     if inm_refcount x \<noteq> 1 then Some None else count_members as (n + 1) s }"

fun addrs_unused :: "addr list \<Rightarrow> 'a if_kernel_scheme \<Rightarrow> bool option" where
  "addrs_unused [] s = Some True"
| "addrs_unused (a # as) s = do {
     x \<leftarrow> ifas s a;
     refs \<leftarrow> (if sa_family (ifa_addr x) = AF_INET then do { y \<leftarrow> ians s a; count_members (ia_multiaddrs y) 0 s }
             else if sa_family (ifa_addr x) \<noteq> AF_LINK then Some None
             else Some (Some 0));
     n \<leftarrow> ifa_references a s;
     if refs = Some n then addrs_unused as s else Some False }"

fun free_addrs :: "addr list \<Rightarrow> 'a if_kernel_scheme \<Rightarrow> 'a if_kernel_scheme option" where
  "free_addrs [] s = Some s"
| "free_addrs (a # as) s = do { s1 \<leftarrow> IFAFREE a s; free_addrs as s1 }"

fun free_trees :: "ptr list \<Rightarrow> 'a if_kernel_scheme \<Rightarrow> 'a if_kernel_scheme" where
  "free_trees [] s = s"
| "free_trees (None # ts) s = free_trees ts s"
| "free_trees (Some t # ts) s = free_trees ts (s\<lparr>mem := free_block (mem s), rnhs := (rnhs s)(t := None)\<rparr>)"

text \<open>Taking the loopback apart once nothing uses it.\<close>

definition free_interface :: "ptr \<Rightarrow> 'a if_kernel_scheme \<Rightarrow> 'a if_kernel_scheme option" where
  "free_interface p s =
     (case p of
        None \<Rightarrow> Some s
      | Some ifp \<Rightarrow> do {
          i \<leftarrow> ifs s ifp;
          s1 \<leftarrow> free_addrs (if_addrlist i) s;
          Some (s1\<lparr>mem := free_block (mem s1), ifs := (ifs s1)(ifp := None)\<rparr>) })"

definition zero_addrs :: "ptr \<Rightarrow> int \<Rightarrow> 'a if_kernel_scheme \<Rightarrow> 'a if_kernel_scheme option" where
  "zero_addrs p lim s =
     (case p of
        None \<Rightarrow> Some s
      | Some t \<Rightarrow> do {
          xs \<leftarrow> addr_tabs s t;
          if length xs < nat lim then None
          else Some (s\<lparr>addr_tabs := (addr_tabs s)(t \<mapsto> replicate (nat lim) None @ drop (nat lim) xs)\<rparr>) })"

definition reclaim_loop ::
  "'a if_kernel_scheme mcast_env \<Rightarrow> addr \<Rightarrow> net_group \<Rightarrow> 'a if_kernel_scheme \<Rightarrow> 'a if_kernel_scheme option" where
  "reclaim_loop M g ng s = do {
     s1 \<leftarrow> delmulti_each M (in_ifaddr ng) s;
     ng1 \<leftarrow> groups s1 g;
     s2 \<leftarrow> free_interface (ifnet_p ng) (s1\<lparr>groups := (groups s1)(g \<mapsto> ng1\<lparr>in_ifaddr := [], ifnet_p := None\<rparr>)\<rparr>);
     s3 \<leftarrow> zero_addrs (ifnet_addrs ng1) (if_indexlim ng1) s2;
     ng2 \<leftarrow> groups s3 g;
     Some ((free_trees (rt_tables ng2) s3)\<lparr>groups := (groups s3)(g \<mapsto>
       ng2\<lparr>rt_tables := replicate (length (rt_tables ng2)) None\<rparr>)\<rparr>) }"

definition rtems_bsdnet_destroy_loop_for_container ::
  "'a if_kernel_scheme mcast_env \<Rightarrow> addr \<Rightarrow> 'a if_kernel_scheme \<Rightarrow> 'a if_kernel_scheme option" where
  "rtems_bsdnet_destroy_loop_for_container M g s = do {
     ng \<leftarrow> groups s g;
     if veth_sc ng \<noteq> None then Some s
     else do {
       udp \<leftarrow> pcbs_empty (udp_pcblist ng) s;
       tcp \<leftarrow> (if udp then pcbs_empty (tcp_pcblist ng) s else Some False);
       if \<not> udp \<or> \<not> tcp then Some s
       else do {
         i \<leftarrow> (case ifnet_p ng of None \<Rightarrow> Some None | Some p \<Rightarrow> map_option Some (ifs s p));
         if (case i of None \<Rightarrow> False | Some x \<Rightarrow> \<not> loop_unused x) then Some s
         else do {
           empty \<leftarrow> no_routes (rt_tables ng) s;
           unused \<leftarrow> (if empty then addrs_unused (case i of None \<Rightarrow> [] | Some x \<Rightarrow> if_addrlist x) s else Some False);
           if unused then reclaim_loop M g ng s else Some s } } } }"

text \<open>A new, empty routing tree. Its allocation does not wait.\<close>

definition rn_inithead :: "'a if_kernel_scheme \<Rightarrow> ptr \<times> 'a if_kernel_scheme" where
  "rn_inithead s =
     (case malloc (mem s) of
        (None, m) \<Rightarrow> (None, s\<lparr>mem := m\<rparr>)
      | (Some a, m) \<Rightarrow> (Some a, s\<lparr>mem := m, rnhs := (rnhs s)(a \<mapsto> [])\<rparr>))"

section \<open>Which container a packet belongs to\<close>

text \<open>The choice of the outgoing interface for 127/8 in \<open>ip_output\<close>: the loopback of the own addresses, else
  the global one. \<open>global_list\<close> is the global list of IPv4 addresses.\<close>

fun loop_of_addrs :: "addr list \<Rightarrow> 'a if_kernel_scheme \<Rightarrow> ptr option" where
  "loop_of_addrs [] s = Some None"
| "loop_of_addrs (ia # l) s = do {
     y \<leftarrow> ians s ia;
     case ia_ifp y of
       None \<Rightarrow> loop_of_addrs l s
     | Some ifp \<Rightarrow> do { i \<leftarrow> ifs s ifp; if if_flags i AND IFF_LOOPBACK \<noteq> 0 then Some (Some ifp) else loop_of_addrs l s } }"

definition ip_output_loopback :: "addr list \<Rightarrow> u32 \<Rightarrow> 'a if_kernel_scheme \<Rightarrow> ptr option" where
  "ip_output_loopback global_list dst s =
     (if dst AND 0xff000000 \<noteq> 0x7f000000 then Some None
      else do {
        l \<leftarrow> rtems_net_container_get_in_ifaddr global_list s;
        own \<leftarrow> loop_of_addrs l s;
        case own of
          Some ifp \<Rightarrow> Some (Some ifp)
        | None \<Rightarrow> found (scan_ifs (ifs s) (\<lambda>a i _. Some (if if_name i = ''lo'' \<and> if_unit i = 0 then Inl a else Inr ())) ()
                   (global_ifnet s)) })"

text \<open>The group of the container that a virtual interface was created in. An interface is a virtual one
  exactly when it is the beginning of a \<open>veth_softc\<close>.\<close>

definition veth_group :: "ptr \<Rightarrow> 'a if_kernel_scheme \<Rightarrow> net_group option option" where
  "veth_group rcvif' s =
     (case do { a \<leftarrow> rcvif'; sc \<leftarrow> softcs s a; sc_container sc } of
        None \<Rightarrow> Some None
      | Some c \<Rightarrow> do { nc \<leftarrow> nets s c; case net_grp nc of None \<Rightarrow> Some None | Some g \<Rightarrow> map_option Some (groups s g) })"

definition ip_input_addresses :: "addr list \<Rightarrow> ptr \<Rightarrow> 'a if_kernel_scheme \<Rightarrow> addr list option" where
  "ip_input_addresses global_list rcvif' s = do {
     grp \<leftarrow> veth_group rcvif' s;
     case grp of
       Some ng \<Rightarrow> if in_ifaddr ng \<noteq> [] then Some (in_ifaddr ng) else rtems_net_container_get_in_ifaddr global_list s
     | None \<Rightarrow> rtems_net_container_get_in_ifaddr global_list s }"

text \<open>The table of sockets in which an incoming segment or datagram is looked up, and the one in which a new
  socket is entered. \<open>tcbinfo\<close> is the global TCP table; \<open>head_pcbinfo\<close> is the table of the listening socket that a
  connection was accepted from.\<close>

definition tcp_input_pcbinfo :: "inpcbinfo \<Rightarrow> ptr \<Rightarrow> 'a if_kernel_scheme \<Rightarrow> inpcbinfo option" where
  "tcp_input_pcbinfo tcbinfo rcvif' s = do {
     grp \<leftarrow> veth_group rcvif' s;
     Some (case do { ng \<leftarrow> grp; tcp_pcbinfo ng } of None \<Rightarrow> tcbinfo | Some i \<Rightarrow> i) }"

definition tcp_attach_pcbinfo :: "inpcbinfo \<Rightarrow> inpcbinfo option option \<Rightarrow> 'a if_kernel_scheme \<Rightarrow> inpcbinfo option" where
  "tcp_attach_pcbinfo tcbinfo head_pcbinfo s =
     (case head_pcbinfo of
        Some h \<Rightarrow> Some (case h of None \<Rightarrow> tcbinfo | Some i \<Rightarrow> i)
      | None \<Rightarrow> do {
          grp \<leftarrow> current_group s;
          Some (case do { ng \<leftarrow> grp; tcp_pcbinfo ng } of None \<Rightarrow> tcbinfo | Some i \<Rightarrow> i) })"

definition udp_input_pcbinfo :: "'a if_kernel_scheme \<Rightarrow> inpcbinfo option option" where
  "udp_input_pcbinfo s = rtems_net_container_get_udp_pcbinfo s"

definition udp_attach_pcbinfo :: "'a if_kernel_scheme \<Rightarrow> inpcbinfo option" where
  "udp_attach_pcbinfo s = do {
     grp \<leftarrow> current_group s;
     Some (case do { ng \<leftarrow> grp; udp_pcbinfo ng } of None \<Rightarrow> global_udbinfo s | Some i \<Rightarrow> i) }"

end
