(* ===== verification/NetInterfaceSpec.thy ===== *)
theory NetInterfaceSpec
  imports NetInterface
begin

text \<open>
  What the interface code of a network container guarantees: every interface is found under its index,
  lookups see the interfaces of the executing task's container only, and a loopback that nobody uses is
  taken apart completely.
\<close>

section \<open>Allocation that waits\<close>

text \<open>Memory becomes available again and again.\<close>

definition mem_recovers :: "Memory \<Rightarrow> bool" where
  "mem_recovers m \<longleftrightarrow> (\<forall>n. \<exists>k \<ge> n. \<not> oom m k)"

lemma bsdnet_malloc_at:
  "brk m \<le> k \<Longrightarrow> \<not> oom m k \<Longrightarrow>
     \<exists>a \<ge> brk m. rtems_bsdnet_malloc False m = Some (Some a, m\<lparr>brk := Suc a, live := live m + 1\<rparr>)"
proof (induction "k - brk m" arbitrary: m)
  case 0
  then have "malloc m = (Some (brk m), m\<lparr>brk := Suc (brk m), live := live m + 1\<rparr>)" by (simp add: malloc_def)
  then show ?case by (intro exI [of _ "brk m"]) (simp add: rtems_bsdnet_malloc.simps [of False m])
next
  case (Suc d)
  show ?case
  proof (cases "oom m (brk m)")
    case True
    let ?m = "m\<lparr>brk := Suc (brk m)\<rparr>"
    have "malloc m = (None, ?m)" using True by (simp add: malloc_def)
    moreover have "d = k - brk ?m" "brk ?m \<le> k" "\<not> oom ?m k" using Suc by auto
    from Suc.hyps(1) [OF this] obtain a where "Suc (brk m) \<le> a"
      "rtems_bsdnet_malloc False ?m = Some (Some a, m\<lparr>brk := Suc a, live := live m + 1\<rparr>)" by auto
    ultimately show ?thesis by (intro exI [of _ a]) (simp add: rtems_bsdnet_malloc.simps [of False m])
  next
    case False
    then have "malloc m = (Some (brk m), m\<lparr>brk := Suc (brk m), live := live m + 1\<rparr>)" by (simp add: malloc_def)
    then show ?thesis by (intro exI [of _ "brk m"]) (simp add: rtems_bsdnet_malloc.simps [of False m])
  qed
qed

lemma bsdnet_malloc_waits:
  assumes "mem_recovers m"
  obtains a m' where "rtems_bsdnet_malloc False m = Some (Some a, m')" "brk m \<le> a" "brk m' = Suc a"
    "live m' = live m + 1" "mem_recovers m'"
proof -
  from assms obtain k where "brk m \<le> k" "\<not> oom m k" unfolding mem_recovers_def by blast
  from bsdnet_malloc_at [OF this] obtain a where
    a: "brk m \<le> a" "rtems_bsdnet_malloc False m = Some (Some a, m\<lparr>brk := Suc a, live := live m + 1\<rparr>)" by blast
  show thesis by (rule that [OF a(2,1)]) (use assms in \<open>simp_all add: mem_recovers_def\<close>)
qed

section \<open>Lists of interfaces\<close>

fun ifs_chain :: "(addr \<rightharpoonup> ifnet) \<Rightarrow> ptr \<Rightarrow> addr list \<Rightarrow> bool" where
  "ifs_chain h p [] \<longleftrightarrow> p = None"
| "ifs_chain h p (a # as) \<longleftrightarrow> p = Some a \<and> (\<exists>x. h a = Some x \<and> ifs_chain h (if_next x) as)"

lemma ifs_chain_live: "ifs_chain h p xs \<Longrightarrow> a \<in> set xs \<Longrightarrow> h a \<noteq> None"
  by (induction xs arbitrary: p) auto

lemma ifs_chain_cong:
  "ifs_chain h p xs \<Longrightarrow> (\<And>a. a \<in> set xs \<Longrightarrow> map_option if_next (h' a) = map_option if_next (h a)) \<Longrightarrow> ifs_chain h' p xs"
proof (induction xs arbitrary: p)
  case (Cons a xs)
  then obtain x where x: "p = Some a" "h a = Some x" "ifs_chain h (if_next x) xs" by auto
  moreover from Cons.prems(2) [of a] x(2) obtain y where "h' a = Some y" "if_next y = if_next x" by auto
  ultimately show ?case using Cons.IH [of "if_next x"] Cons.prems(2) by auto
qed simp

lemma ifs_chain_unique: "ifs_chain h p xs \<Longrightarrow> ifs_chain h p ys \<Longrightarrow> xs = ys"
proof (induction xs arbitrary: p ys)
  case Nil
  then show ?case by (cases ys) auto
next
  case (Cons a xs)
  then show ?case by (cases ys) auto
qed

lemma ifs_chain_split: "ifs_chain h p (xs @ a # ys) \<Longrightarrow> ifs_chain h (Some a) (a # ys)"
  by (induction xs arbitrary: p) auto

lemma ifs_chain_distinct: "ifs_chain h p xs \<Longrightarrow> distinct xs"
proof (induction xs arbitrary: p)
  case (Cons a xs)
  then obtain x where x: "h a = Some x" "ifs_chain h (if_next x) xs" by auto
  have "a \<notin> set xs"
  proof
    assume "a \<in> set xs"
    then obtain us vs where xs: "xs = us @ a # vs" by (metis split_list)
    with x(2) have "ifs_chain h (Some a) (a # vs)" by (metis ifs_chain_split)
    with Cons.prems have "a # xs = a # vs" by (metis ifs_chain.simps(2) ifs_chain_unique)
    with xs show False by simp
  qed
  with Cons.IH [OF x(2)] show ?case by simp
qed simp

lemma if_last_chain: "ifs_chain h (Some a) xs \<Longrightarrow> xs \<noteq> [] \<and> if_last h a = Some (last xs)"
proof (induction xs arbitrary: a)
  case (Cons b xs)
  then obtain x where x: "b = a" "h a = Some x" "ifs_chain h (if_next x) xs" by auto
  show ?case
  proof (cases "if_next x")
    case None
    then show ?thesis using x by (cases xs) (auto simp: if_last.simps [of h a])
  next
    case (Some c)
    then show ?thesis using x Cons.IH [of c] by (auto simp: if_last.simps [of h a])
  qed
qed simp

lemma ifs_chain_snoc:
  assumes "ifs_chain h p xs" "xs \<noteq> []" "h b = Some y" "if_next y = None" "b \<notin> set xs"
  shows "ifs_chain (h(last xs := map_option (if_next_update (\<lambda>_. Some b)) (h (last xs)))) p (xs @ [b])"
  using assms ifs_chain_distinct [OF assms(1)]
proof (induction xs arbitrary: p)
  case (Cons a xs)
  then obtain x where x: "p = Some a" "h a = Some x" "ifs_chain h (if_next x) xs" by auto
  show ?case
  proof (cases "xs = []")
    case True
    then show ?thesis using x Cons.prems by auto
  next
    case False
    then have "a \<noteq> last xs" using Cons.prems(6) by auto
    then show ?thesis using x False Cons.prems Cons.IH [of "if_next x"] by auto
  qed
qed simp

text \<open>Appending an interface that has no successor and is not in the list yet.\<close>

lemma if_append_chain:
  assumes c: "ifs_chain (ifs s) p xs" and y: "ifs s b = Some y" "if_next y = None" "b \<notin> set xs"
  obtains h where "if_append p b s = Some (Some (hd (xs @ [b])), s\<lparr>ifs := h\<rparr>)" "ifs_chain h (Some (hd (xs @ [b]))) (xs @ [b])"
    "\<forall>a. map_option (if_next_update (\<lambda>_. None)) (h a) = map_option (if_next_update (\<lambda>_. None)) (ifs s a)"
    "h b = Some y" "dom h = dom (ifs s)" "\<forall>a. a \<notin> set xs \<longrightarrow> h a = ifs s a"
proof (cases "xs = []")
  case True
  with c y show thesis by (intro that [of "ifs s"]) (auto simp: if_append_def)
next
  case False
  let ?h = "(ifs s)(last xs := map_option (if_next_update (\<lambda>_. Some b)) (ifs s (last xs)))"
  from c False have p: "p = Some (hd xs)" by (cases xs) auto
  with c if_last_chain have l: "if_last (ifs s) (hd xs) = Some (last xs)" by blast
  have "b \<noteq> last xs" using y(3) False by auto
  then show thesis using ifs_chain_snoc [OF c False y] p l False y ifs_chain_live [OF c, of "last xs"]
    by (intro that [of ?h]) (auto simp: if_append_def upd_if_def option.map_comp comp_def dom_def)
qed

section \<open>The index table\<close>

lemma heap_ok_fresh_from: "heap_ok m h \<Longrightarrow> brk m \<le> a \<Longrightarrow> h a = None"
  by (cases "h a") (auto simp: heap_ok_def)

lemma heap_ok_extend: "heap_ok m h \<Longrightarrow> brk m \<le> a \<Longrightarrow> a < brk m' \<Longrightarrow> heap_ok m' (h(a \<mapsto> x))"
  by (fastforce simp: heap_ok_def)

text \<open>After making room, the table has the new index, its old entries and no new blocks in total.\<close>

lemma grow_addrs_ok:
  assumes t: "addr_tabs s t = Some tab" "int (length tab) = lim" "0 < lim" and n: "n \<le> lim"
    and m: "heap_ok (mem s) (addr_tabs s)" "mem_recovers (mem s)"
  obtains t' lim' m' T' tab' where
    "grow_addrs (Some t) lim (lim \<le> n) s = Some (Some t', lim', s\<lparr>mem := m', addr_tabs := T'\<rparr>)"
    "T' t' = Some tab'" "int (length tab') = lim'" "n < lim'" "lim \<le> lim'" "take (length tab) tab' = tab"
    "\<forall>u < brk (mem s). u \<noteq> t \<longrightarrow> T' u = addr_tabs s u" "t' = t \<or> brk (mem s) \<le> t'"
    "brk (mem s) \<le> brk m'" "live m' = live (mem s)" "mem_recovers m'" "heap_ok m' T'"
    "n < lim \<longrightarrow> t' = t \<and> lim' = lim \<and> T' = addr_tabs s"
proof (cases "lim \<le> n")
  case False
  show thesis by (rule that [where t' = t and lim' = lim and m' = "mem s" and T' = "addr_tabs s" and tab' = tab]) (use False assms in \<open>simp_all add: grow_addrs_def\<close>)
next
  case True
  obtain q m' where q: "rtems_bsdnet_malloc False (mem s) = Some (Some q, m')" "brk (mem s) \<le> q" "brk m' = Suc q"
    "live m' = live (mem s) + 1" "mem_recovers m'" using bsdnet_malloc_waits [OF m(2)] .
  let ?T = "(addr_tabs s)(t := None, q \<mapsto> tab @ replicate (nat lim) None)"
  have len: "length tab = nat lim" using t(2) by simp
  have "heap_ok (free_block m') ?T"
    using heap_ok_extend [OF heap_ok_remove [OF m(1)], of q "free_block m'"] q(2,3) by simp
  then show thesis
    by (intro that [where t' = q and lim' = "2 * lim" and m' = "free_block m'" and T' = ?T and tab' = "tab @ replicate (nat lim) None"])
      (use True n t q len in \<open>auto simp: grow_addrs_def mem_recovers_def\<close>)
qed

lemma attach_link_addr_ok:
  assumes "ifs s ifp = Some x" "length (if_name x @ fmt_d 0 (if_unit x)) < 64" "addr_tabs s t = Some tab"
    "1 \<le> uint (if_index x)" "uint (if_index x) \<le> int (length tab)" "mem_recovers (mem s)"
  obtains ifa m' where
    "attach_link_addr ifp (Some t) s = Some (upd_if ifp (if_addrlist_update (\<lambda>l. ifa # l))
       (s\<lparr>mem := m', addr_tabs := (addr_tabs s)(t \<mapsto> tab[nat (uint (if_index x) - 1) := Some ifa]),
          ifas := (ifas s)(ifa \<mapsto> link_ifaddr ifp x)\<rparr>))"
    "brk (mem s) \<le> ifa" "brk m' = Suc ifa" "live m' = live (mem s) + 1" "mem_recovers m'"
proof -
  obtain ifa m' where "rtems_bsdnet_malloc False (mem s) = Some (Some ifa, m')" "brk (mem s) \<le> ifa" "brk m' = Suc ifa"
    "live m' = live (mem s) + 1" "mem_recovers m'" using bsdnet_malloc_waits [OF assms(6)] .
  then show thesis
    by (intro that [where ifa = ifa and m' = m']) (use assms in \<open>simp_all add: attach_link_addr_def array_update_def\<close>)
qed

text \<open>The interfaces of a group form a list that ends, every one of them has an index in use, and the table
  has at this index a live link-level address of the interface.\<close>

definition has_link :: "addr \<Rightarrow> ptr list \<Rightarrow> int \<Rightarrow> (addr \<rightharpoonup> ifnet) \<Rightarrow> (addr \<rightharpoonup> ifaddr) \<Rightarrow> bool" where
  "has_link a tab n hi ha \<longleftrightarrow> (\<exists>x ifa y. hi a = Some x \<and> 1 \<le> uint (if_index x) \<and> uint (if_index x) \<le> n \<and>
     tab ! nat (uint (if_index x) - 1) = Some ifa \<and> ifa \<in> set (if_addrlist x) \<and> ha ifa = Some y \<and>
     ifa_ifp y = Some a \<and> sa_family (ifa_addr y) = AF_LINK)"

definition if_table_ok :: "addr \<Rightarrow> addr list \<Rightarrow> 'a if_kernel_scheme \<Rightarrow> bool" where
  "if_table_ok g xs s \<longleftrightarrow> (\<exists>ng t tab. groups s g = Some ng \<and> ifs_chain (ifs s) (ifnet_p ng) xs \<and>
     ifnet_addrs ng = Some t \<and> addr_tabs s t = Some tab \<and> int (length tab) = if_indexlim ng \<and>
     0 \<le> if_index_counter ng \<and> if_index_counter ng < if_indexlim ng \<and>
     (\<forall>a \<in> set xs. has_link a tab (if_index_counter ng) (ifs s) (ifas s)))"

definition if_heaps_ok :: "'a if_kernel_scheme \<Rightarrow> bool" where
  "if_heaps_ok s \<longleftrightarrow> mem_recovers (mem s) \<and> heap_ok (mem s) (ifas s) \<and> heap_ok (mem s) (addr_tabs s)"

lemma link_ifaddr_sel [simp]:
  "ifa_ifp (link_ifaddr a x) = Some a" "sa_family (ifa_addr (link_ifaddr a x)) = AF_LINK"
  "link_refcnt (link_ifaddr a x) = 0"
  by (simp_all add: link_ifaddr_def Let_def sdl_sockaddr_def)

lemma has_link_step:
  assumes l: "has_link a tab n hi ha" and a: "a \<noteq> b" and n: "n < k" "int (length tab) \<le> int (length tab')" "n \<le> int (length tab)"
    and tab': "take (length tab) tab' = tab" and f: "\<And>u. ha u \<noteq> None \<Longrightarrow> ha' u = ha u"
    and h: "map_option (if_next_update (\<lambda>_. None)) (hi' a) = map_option (if_next_update (\<lambda>_. None)) (hi a)"
  shows "has_link a (tab'[nat (k - 1) := v]) k hi' ha'"
proof -
  from l obtain x ifa y where x: "hi a = Some x" "1 \<le> uint (if_index x)" "uint (if_index x) \<le> n"
    "tab ! nat (uint (if_index x) - 1) = Some ifa" "ifa \<in> set (if_addrlist x)" "ha ifa = Some y"
    "ifa_ifp y = Some a" "sa_family (ifa_addr y) = AF_LINK" unfolding has_link_def by blast
  from h x(1) obtain x' where x': "hi' a = Some x'" "if_next_update (\<lambda>_. None) x' = if_next_update (\<lambda>_. None) x" by auto
  from arg_cong [OF x'(2), of if_index] arg_cong [OF x'(2), of if_addrlist]
  have eq: "if_index x' = if_index x" "if_addrlist x' = if_addrlist x" by simp_all
  let ?i = "nat (uint (if_index x) - 1)"
  have i: "?i < length tab" "?i \<noteq> nat (k - 1)" using x(2,3) n by auto
  then have "tab'[nat (k - 1) := v] ! ?i = tab ! ?i" using tab' by (metis nth_list_update_neq nth_take)
  with x x' eq f [of ifa] n(1) show ?thesis unfolding has_link_def by (intro exI [of _ x'] exI [of _ ifa] exI [of _ y]) auto
qed

lemma if_addrlist_cons: "if_addrlist_update ((#) a) (x :: ifnet) = x\<lparr>if_addrlist := a # if_addrlist x\<rparr>"
  by (cases x) simp

text \<open>The whole effect of attaching an interface to a group.\<close>

lemma if_attach_group:
  assumes ok: "groups s g = Some ng" "ifs_chain (ifs s) (ifnet_p ng) xs" "ifnet_addrs ng = Some t" "addr_tabs s t = Some tab"
    "int (length tab) = if_indexlim ng" "0 \<le> if_index_counter ng" "if_index_counter ng < if_indexlim ng"
    and b: "ifs s b = Some x" "if_next x = None" "b \<notin> set xs" "length (if_name x @ fmt_d 0 (if_unit x)) < 64"
    and n: "if_index_counter ng + 1 < 2 ^ 16" and heaps: "if_heaps_ok s"
  obtains ifa m' t' lim' T' tab' h x' ng' where
    "if_attach_to_container b (Some g) s = Some (s\<lparr>mem := m', groups := (groups s)(g \<mapsto> ng'),
       addr_tabs := T'(t' \<mapsto> tab'[nat (if_index_counter ng) := Some ifa]),
       ifs := h(b \<mapsto> x'\<lparr>if_addrlist := ifa # if_addrlist x\<rparr>), ifas := (ifas s)(ifa \<mapsto> link_ifaddr b x')\<rparr>)"
    "x' = x\<lparr>if_index := of_int (if_index_counter ng + 1)\<rparr>" "uint (if_index x') = if_index_counter ng + 1"
    "ng' = ng\<lparr>ifnet_p := Some (hd (xs @ [b])), if_index_counter := if_index_counter ng + 1, ifnet_addrs := Some t', if_indexlim := lim'\<rparr>"
    "ifs_chain h (Some (hd (xs @ [b]))) (xs @ [b])" "h b = Some x" "dom h = dom (ifs s)" "\<forall>a. a \<notin> set xs \<longrightarrow> h a = ifs s a"
    "\<forall>a. map_option (if_next_update (\<lambda>_. None)) (h a) = map_option (if_next_update (\<lambda>_. None)) (ifs s a)"
    "T' t' = Some tab'" "int (length tab') = lim'" "if_index_counter ng + 1 < lim'" "if_indexlim ng \<le> lim'" "take (length tab) tab' = tab"
    "\<forall>u < brk (mem s). u \<noteq> t \<longrightarrow> T' u = addr_tabs s u" "t' = t \<or> brk (mem s) \<le> t'"
    "brk (mem s) \<le> ifa" "brk m' = Suc ifa" "live m' = live (mem s) + 1" "mem_recovers m'" "heap_ok m' T'"
    "if_index_counter ng + 1 < if_indexlim ng \<longrightarrow> t' = t \<and> lim' = if_indexlim ng \<and> T' = addr_tabs s"
proof -
  let ?n = "if_index_counter ng + 1"
  obtain h where h: "if_append (ifnet_p ng) b s = Some (Some (hd (xs @ [b])), s\<lparr>ifs := h\<rparr>)"
    "ifs_chain h (Some (hd (xs @ [b]))) (xs @ [b])"
    "\<forall>a. map_option (if_next_update (\<lambda>_. None)) (h a) = map_option (if_next_update (\<lambda>_. None)) (ifs s a)"
    "h b = Some x" "dom h = dom (ifs s)" "\<forall>a. a \<notin> set xs \<longrightarrow> h a = ifs s a" using if_append_chain [OF ok(2) b(1-3)] .
  let ?x = "x\<lparr>if_index := of_int ?n\<rparr>"
  have un: "uint (of_int ?n :: u16) = ?n" using ok(6) n by (simp add: word_of_int_inverse uint_word_of_int take_bit_int_eq_self)
  define s2 where "s2 = upd_if b (if_index_update (\<lambda>_. of_int ?n)) (s\<lparr>ifs := h\<rparr>)"
  have s2: "s2 = s\<lparr>ifs := h(b \<mapsto> ?x)\<rparr>" using h(4) by (simp add: s2_def upd_if_def)
  have pre: "addr_tabs s2 t = Some tab" "0 < if_indexlim ng" "?n \<le> if_indexlim ng"
    "heap_ok (mem s2) (addr_tabs s2)" "mem_recovers (mem s2)"
    using ok heaps by (simp_all add: s2 if_heaps_ok_def)
  obtain t' lim' m1 T' tab' where gr:
    "grow_addrs (Some t) (if_indexlim ng) (if_indexlim ng \<le> ?n) s2 = Some (Some t', lim', s2\<lparr>mem := m1, addr_tabs := T'\<rparr>)"
    "T' t' = Some tab'" "int (length tab') = lim'" "?n < lim'" "if_indexlim ng \<le> lim'" "take (length tab) tab' = tab"
    "\<forall>u < brk (mem s2). u \<noteq> t \<longrightarrow> T' u = addr_tabs s2 u" "t' = t \<or> brk (mem s2) \<le> t'"
    "brk (mem s2) \<le> brk m1" "live m1 = live (mem s2)" "mem_recovers m1" "heap_ok m1 T'"
    "?n < if_indexlim ng \<longrightarrow> t' = t \<and> lim' = if_indexlim ng \<and> T' = addr_tabs s2"
    using grow_addrs_ok [OF pre(1) ok(5) pre(2-5)] .
  define ng' where "ng' = ng\<lparr>ifnet_p := Some (hd (xs @ [b])), if_index_counter := ?n, ifnet_addrs := Some t', if_indexlim := lim'\<rparr>"
  define s3 where "s3 = s2\<lparr>mem := m1, addr_tabs := T', groups := (groups s)(g \<mapsto> ng')\<rparr>"
  have s3: "ifs s3 b = Some ?x" "addr_tabs s3 t' = Some tab'" "mem s3 = m1" "ifas s3 = ifas s" "ifs s3 = h(b \<mapsto> ?x)"
    using gr(2) by (simp_all add: s3_def s2)
  obtain ifa m' where att: "attach_link_addr b (Some t') s3 = Some (upd_if b (if_addrlist_update (\<lambda>l. ifa # l))
       (s3\<lparr>mem := m', addr_tabs := (addr_tabs s3)(t' \<mapsto> tab'[nat (uint (if_index ?x) - 1) := Some ifa]),
          ifas := (ifas s3)(ifa \<mapsto> link_ifaddr b ?x)\<rparr>))"
    "brk (mem s3) \<le> ifa" "brk m' = Suc ifa" "live m' = live (mem s3) + 1" "mem_recovers m'"
    by (rule attach_link_addr_ok [OF s3(1) _ s3(2)]) (use b(4) un ok(6) gr(3,4,11) s3(3) in auto)
  have "if_attach_to_container b (Some g) s = attach_link_addr b (Some t') s3"
    unfolding if_attach_to_container_def
    using ok(1,3) h(1,4) gr(1) un by (simp add: upd_if_def s3_def ng'_def s2)
  also note att(1)
  also have "upd_if b (if_addrlist_update (\<lambda>l. ifa # l))
       (s3\<lparr>mem := m', addr_tabs := (addr_tabs s3)(t' \<mapsto> tab'[nat (uint (if_index ?x) - 1) := Some ifa]),
          ifas := (ifas s3)(ifa \<mapsto> link_ifaddr b ?x)\<rparr>) =
    s\<lparr>mem := m', groups := (groups s)(g \<mapsto> ng'), addr_tabs := T'(t' \<mapsto> tab'[nat (if_index_counter ng) := Some ifa]),
       ifs := h(b \<mapsto> ?x\<lparr>if_addrlist := ifa # if_addrlist x\<rparr>), ifas := (ifas s)(ifa \<mapsto> link_ifaddr b ?x)\<rparr>"
    using un by (simp add: upd_if_def s3_def s2 if_addrlist_cons)
  finally show thesis
    using h un gr(2-6) gr(7,8,9,10,12,13) att(2-5) s3(3)
    by (intro that [where ifa = ifa and m' = m' and t' = t' and lim' = lim' and T' = T' and tab' = tab' and h = h and x' = ?x and ng' = ng'])
      (auto simp: ng'_def s2 intro: heap_ok_mono)
qed

definition attachable :: "addr \<Rightarrow> 'a if_kernel_scheme \<Rightarrow> bool" where
  "attachable b s \<longleftrightarrow> (\<exists>x. ifs s b = Some x \<and> if_next x = None \<and> length (if_name x @ fmt_d 0 (if_unit x)) < 64)"

definition index_counter :: "addr \<Rightarrow> 'a if_kernel_scheme \<Rightarrow> int" where
  "index_counter g s = (case groups s g of None \<Rightarrow> 0 | Some ng \<Rightarrow> if_index_counter ng)"

lemma if_attach_step:
  assumes ok: "if_table_ok g xs s" "if_heaps_ok s" and b: "attachable b s" "b \<notin> set xs" and n: "index_counter g s + 1 < 2 ^ 16"
  obtains s' where "if_attach_to_container b (Some g) s = Some s'" "if_table_ok g (xs @ [b]) s'" "if_heaps_ok s'"
    "index_counter g s' = index_counter g s + 1" "\<forall>a. a \<notin> set (xs @ [b]) \<longrightarrow> ifs s' a = ifs s a"
    "current_group_addr s' = current_group_addr s"
proof -
  from ok(1) obtain ng t tab where g: "groups s g = Some ng" "ifs_chain (ifs s) (ifnet_p ng) xs" "ifnet_addrs ng = Some t"
    "addr_tabs s t = Some tab" "int (length tab) = if_indexlim ng" "0 \<le> if_index_counter ng" "if_index_counter ng < if_indexlim ng"
    and links: "\<forall>a \<in> set xs. has_link a tab (if_index_counter ng) (ifs s) (ifas s)"
    unfolding if_table_ok_def by blast
  from b(1) obtain x where x: "ifs s b = Some x" "if_next x = None" "length (if_name x @ fmt_d 0 (if_unit x)) < 64"
    unfolding attachable_def by blast
  from n g(1) have n': "if_index_counter ng + 1 < 2 ^ 16" by (simp add: index_counter_def)
  let ?n = "if_index_counter ng + 1"
  obtain ifa m' t' lim' T' tab' h x' ng' where e:
    "if_attach_to_container b (Some g) s = Some (s\<lparr>mem := m', groups := (groups s)(g \<mapsto> ng'),
       addr_tabs := T'(t' \<mapsto> tab'[nat (if_index_counter ng) := Some ifa]),
       ifs := h(b \<mapsto> x'\<lparr>if_addrlist := ifa # if_addrlist x\<rparr>), ifas := (ifas s)(ifa \<mapsto> link_ifaddr b x')\<rparr>)" (is "_ = Some ?s")
    "x' = x\<lparr>if_index := of_int ?n\<rparr>" "uint (if_index x') = ?n"
    "ng' = ng\<lparr>ifnet_p := Some (hd (xs @ [b])), if_index_counter := ?n, ifnet_addrs := Some t', if_indexlim := lim'\<rparr>"
    "ifs_chain h (Some (hd (xs @ [b]))) (xs @ [b])" "h b = Some x" "dom h = dom (ifs s)" "\<forall>a. a \<notin> set xs \<longrightarrow> h a = ifs s a"
    "\<forall>a. map_option (if_next_update (\<lambda>_. None)) (h a) = map_option (if_next_update (\<lambda>_. None)) (ifs s a)"
    "T' t' = Some tab'" "int (length tab') = lim'" "?n < lim'" "if_indexlim ng \<le> lim'" "take (length tab) tab' = tab"
    "\<forall>u < brk (mem s). u \<noteq> t \<longrightarrow> T' u = addr_tabs s u" "t' = t \<or> brk (mem s) \<le> t'"
    "brk (mem s) \<le> ifa" "brk m' = Suc ifa" "live m' = live (mem s) + 1" "mem_recovers m'" "heap_ok m' T'"
    "?n < if_indexlim ng \<longrightarrow> t' = t \<and> lim' = if_indexlim ng \<and> T' = addr_tabs s"
    using if_attach_group [OF g x(1,2) b(2) x(3) n' ok(2)] .
  have heaps: "if_heaps_ok ?s"
    using ok(2) e(10,17-21) heap_ok_extend [of "mem s" "ifas s" ifa m'] heap_ok_update [of m' T' t']
    by (auto simp: if_heaps_ok_def)
  have fresh: "ifas s ifa = None" using ok(2) e(17) heap_ok_fresh_from unfolding if_heaps_ok_def by blast
  have chain: "ifs_chain (ifs ?s) (ifnet_p ng') (xs @ [b])"
    by (rule ifs_chain_cong [where h = h]) (use e in auto)
  have old: "has_link a (tab'[nat (?n - 1) := Some ifa]) ?n (ifs ?s) (ifas ?s)" if "a \<in> set xs" for a
    by (rule has_link_step [where tab = tab and n = "if_index_counter ng" and hi = "ifs s" and ha = "ifas s" and b = b])
      (use that links b(2) g(5,7) e(9,11,13,14) fresh in auto)
  have new: "has_link b (tab'[nat (?n - 1) := Some ifa]) ?n (ifs ?s) (ifas ?s)"
    unfolding has_link_def using e(2,3,11,12) g(6)
    by (intro exI [of _ "x'\<lparr>if_addrlist := ifa # if_addrlist x\<rparr>"] exI [of _ ifa] exI [of _ "link_ifaddr b x'"]) auto
  have "if_table_ok g (xs @ [b]) ?s"
    unfolding if_table_ok_def
    by (rule exI [of _ ng'], rule exI [of _ t'], rule exI [of _ "tab'[nat (if_index_counter ng) := Some ifa]"])
      (use chain old new e(4,11,12) g(6) in auto)
  then show thesis
    by (rule that [OF e(1) _ heaps])
      (use e(4,8) g(1) in \<open>auto simp: index_counter_def current_group_addr_def thread_ns_def\<close>)
qed

fun attach_all :: "addr \<Rightarrow> addr list \<Rightarrow> 'a if_kernel_scheme \<Rightarrow> 'a if_kernel_scheme option" where
  "attach_all g [] s = Some s"
| "attach_all g (b # bs) s = do { s1 \<leftarrow> if_attach_to_container b (Some g) s; attach_all g bs s1 }"

lemma attach_all_ok:
  "if_table_ok g xs s \<Longrightarrow> if_heaps_ok s \<Longrightarrow> distinct bs \<Longrightarrow> set bs \<inter> set xs = {} \<Longrightarrow> \<forall>b \<in> set bs. attachable b s \<Longrightarrow>
   index_counter g s + int (length bs) < 2 ^ 16 \<Longrightarrow>
   \<exists>s'. attach_all g bs s = Some s' \<and> if_table_ok g (xs @ bs) s' \<and> current_group_addr s' = current_group_addr s"
proof (induction bs arbitrary: xs s)
  case (Cons b bs)
  from Cons.prems have pre: "attachable b s" "b \<notin> set xs" "index_counter g s + 1 < 2 ^ 16" by auto
  obtain s1 where s1: "if_attach_to_container b (Some g) s = Some s1" "if_table_ok g (xs @ [b]) s1" "if_heaps_ok s1"
    "index_counter g s1 = index_counter g s + 1" "\<forall>a. a \<notin> set (xs @ [b]) \<longrightarrow> ifs s1 a = ifs s a"
    "current_group_addr s1 = current_group_addr s"
    using if_attach_step [OF Cons.prems(1,2) pre] .
  have "\<forall>c \<in> set bs. attachable c s1" using s1(5) Cons.prems(3-5) by (auto simp: attachable_def)
  with Cons.IH [OF s1(2,3)] Cons.prems(3,4,6) s1(1,4,6) show ?case by auto
qed simp

lemma sdl_index_sockaddr: "sdl_index (sdl_sockaddr l idx ty nm) = uint idx"
proof -
  have "uint idx < 2 ^ 16" using uint_lt2p [of idx] by simp
  then have "uint idx div 256 mod 256 = uint idx div 256" by (intro mod_pos_pos_trivial) (auto simp: pos_imp_zdiv_nonneg_iff)
  then show ?thesis
    by (simp add: sdl_index_def sdl_sockaddr_def unsigned_ucast_eq drop_bit_eq_div take_bit_eq_mod uint_div_distrib)
qed

lemma sdl_sockaddr_family [simp]: "sa_family (sdl_sockaddr l idx ty nm) = AF_LINK"
  by (simp add: sdl_sockaddr_def)

lemma current_group_of: "current_group_addr s = Some g \<Longrightarrow> groups s g = Some ng \<Longrightarrow> current_group s = Some (Some ng)"
  by (auto simp: current_group_addr_def current_group_def bind_eq_Some_conv)

text \<open>(C15) Every interface is found under its index: after attaching any interfaces in turn to a group, the
  list of the group is the old list followed by them, and for a task of this container the lookup of a
  link-level address with the index of an interface returns a live address of that interface. Growing
  the table never writes outside it.\<close>

theorem if_attach_index_lookup:
  assumes "if_table_ok g xs s" "if_heaps_ok s" "distinct bs" "set bs \<inter> set xs = {}" "\<forall>b \<in> set bs. attachable b s"
    and "index_counter g s + int (length bs) < 2 ^ 16" "current_group_addr s = Some g"
  shows "\<exists>s'. attach_all g bs s = Some s' \<and> (\<exists>ng. groups s' g = Some ng \<and> ifs_chain (ifs s') (ifnet_p ng) (xs @ bs)) \<and>
    (\<forall>a \<in> set (xs @ bs). \<exists>x ifa y. ifs s' a = Some x \<and>
       ifa_ifwithnet (sdl_sockaddr len (if_index x) ty nm) s' = Some (Some ifa) \<and> ifas s' ifa = Some y \<and> ifa_ifp y = Some a)"
proof -
  from attach_all_ok [OF assms(1-6)] obtain s' where s': "attach_all g bs s = Some s'" "if_table_ok g (xs @ bs) s'"
    "current_group_addr s' = Some g" using assms(7) by auto
  from s'(2) obtain ng t tab where g: "groups s' g = Some ng" "ifs_chain (ifs s') (ifnet_p ng) (xs @ bs)" "ifnet_addrs ng = Some t"
    "addr_tabs s' t = Some tab" "int (length tab) = if_indexlim ng" "if_index_counter ng < if_indexlim ng"
    and links: "\<forall>a \<in> set (xs @ bs). has_link a tab (if_index_counter ng) (ifs s') (ifas s')"
    unfolding if_table_ok_def by blast
  have "\<exists>x ifa y. ifs s' a = Some x \<and> ifa_ifwithnet (sdl_sockaddr len (if_index x) ty nm) s' = Some (Some ifa) \<and>
      ifas s' ifa = Some y \<and> ifa_ifp y = Some a" if a: "a \<in> set (xs @ bs)" for a
  proof -
    from links a obtain x ifa y where l: "ifs s' a = Some x" "1 \<le> uint (if_index x)" "uint (if_index x) \<le> if_index_counter ng"
      "tab ! nat (uint (if_index x) - 1) = Some ifa" "ifas s' ifa = Some y" "ifa_ifp y = Some a" unfolding has_link_def by blast
    have "ifa_ifwithnet (sdl_sockaddr len (if_index x) ty nm) s' = Some (Some ifa)"
      using l(2-4) g(3-6) current_group_of [OF s'(3) g(1)]
      by (simp add: ifa_ifwithnet_def sdl_index_sockaddr tab_entry_def)
    with l show ?thesis by blast
  qed
  with s'(1) g(1,2) show ?thesis by blast
qed

section \<open>Lookups see the container's own interfaces\<close>

text \<open>The addresses of a list of interfaces, each with its interface, in the order of the walk.\<close>

definition if_pairs :: "(addr \<rightharpoonup> ifnet) \<Rightarrow> addr list \<Rightarrow> (addr \<times> addr) list" where
  "if_pairs h xs = concat (map (\<lambda>i. map (Pair i) (if_addrlist (the (h i)))) xs)"

definition addrs_live :: "addr list \<Rightarrow> 'a if_kernel_scheme \<Rightarrow> bool" where
  "addrs_live xs s \<longleftrightarrow> (\<forall>(i, a) \<in> set (if_pairs (ifs s) xs). ifas s a \<noteq> None)"

lemma find_append: "find P (xs @ ys) = (case find P xs of None \<Rightarrow> find P ys | Some x \<Rightarrow> Some x)"
  by (induction xs) auto

lemma find_Pair: "find P (map (Pair i) as) = map_option (Pair i) (find (\<lambda>a. P (i, a)) as)"
  by (induction as) auto

lemma find_ifa_find:
  "\<forall>a \<in> set as. ha a \<noteq> None \<Longrightarrow>
     find_ifa P ha as = Some (case find (\<lambda>a. P (the (ha a))) as of None \<Rightarrow> Inr () | Some a \<Rightarrow> Inl a)"
  by (induction as) auto

lemma scan_ifs_find:
  "ifs_chain h p xs \<Longrightarrow> \<forall>(i, a) \<in> set (if_pairs h xs). ha a \<noteq> None \<Longrightarrow>
   found (scan_ifs h (\<lambda>_ i _. find_ifa (P i) ha (if_addrlist i)) () p) =
     Some (map_option snd (find (\<lambda>(i, a). P (the (h i)) (the (ha a))) (if_pairs h xs)))"
proof (induction xs arbitrary: p)
  case Nil
  then show ?case by (subst scan_ifs.simps) (simp add: found_def if_pairs_def)
next
  case (Cons i xs)
  then obtain x where x: "p = Some i" "h i = Some x" "ifs_chain h (if_next x) xs" by auto
  have pairs: "if_pairs h (i # xs) = map (Pair i) (if_addrlist x) @ if_pairs h xs" using x(2) by (simp add: if_pairs_def)
  have live: "\<forall>a \<in> set (if_addrlist x). ha a \<noteq> None" "\<forall>(i, a) \<in> set (if_pairs h xs). ha a \<noteq> None"
    using Cons.prems(2) unfolding pairs by (simp_all add: ball_Un)
  show ?case
  proof (cases "find (\<lambda>a. P x (the (ha a))) (if_addrlist x)")
    case None
    then have "scan_ifs h (\<lambda>_ i _. find_ifa (P i) ha (if_addrlist i)) () p =
        scan_ifs h (\<lambda>_ i _. find_ifa (P i) ha (if_addrlist i)) () (if_next x)"
      using x find_ifa_find [OF live(1), of "P x"] by (subst scan_ifs.simps) simp
    with Cons.IH [OF x(3) live(2)] None x(2) show ?thesis by (simp add: pairs find_append find_Pair)
  next
    case (Some a)
    then have "scan_ifs h (\<lambda>_ i _. find_ifa (P i) ha (if_addrlist i)) () p = Some (Inl a)"
      using x find_ifa_find [OF live(1), of "P x"] by (subst scan_ifs.simps) simp
    with Some x(2) show ?thesis by (simp add: found_def pairs find_append find_Pair)
  qed
qed

lemma executing_net_of:
  assumes "current_group_addr s = Some g"
  obtains c nc where "executing_net s = Some c" "nets s c = Some nc" "net_grp nc = Some g"
  using assms by (auto simp: current_group_addr_def executing_net_def bind_eq_Some_conv)

lemma ifa_ifwithaddr_find:
  assumes "current_group_addr s = Some g" "groups s g = Some ng" "ifs_chain (ifs s) (ifnet_p ng) xs" "addrs_live xs s"
  shows "ifa_ifwithaddr addr s = Some (map_option snd
      (find (\<lambda>(i, a). match_addr addr (the (ifs s i)) (the (ifas s a))) (if_pairs (ifs s) xs)))"
proof -
  obtain c nc where c: "executing_net s = Some c" "nets s c = Some nc" "net_grp nc = Some g"
    using executing_net_of [OF assms(1)] .
  with assms(2) scan_ifs_find [OF assms(3) assms(4) [unfolded addrs_live_def], of "match_addr addr"]
  show ?thesis by (simp add: ifa_ifwithaddr_def)
qed

text \<open>(C22) An address lookup is local to the container: for a task of a container it returns the first
  address, in the order of the container's interfaces and of their addresses, that equals the given one
  or is its broadcast address, and none when there is none; interfaces of other containers and the
  global ones are never seen.\<close>

theorem ifa_ifwithaddr_local:
  assumes "current_group_addr s = Some g" "groups s g = Some ng" "ifs_chain (ifs s) (ifnet_p ng) xs" "addrs_live xs s"
  shows "ifa_ifwithaddr addr s = Some (map_option snd
      (find (\<lambda>(i, a). match_addr addr (the (ifs s i)) (the (ifas s a))) (if_pairs (ifs s) xs))) \<and>
    (ifa_ifwithaddr addr s = Some (Some a) \<longrightarrow> (\<exists>i \<in> set xs. \<exists>x. ifs s i = Some x \<and> a \<in> set (if_addrlist x)))"
proof -
  note eq = ifa_ifwithaddr_find [OF assms, of addr]
  have "\<exists>i \<in> set xs. \<exists>x. ifs s i = Some x \<and> a \<in> set (if_addrlist x)" if "ifa_ifwithaddr addr s = Some (Some a)"
  proof -
    from that eq obtain i where "find (\<lambda>(i, a). match_addr addr (the (ifs s i)) (the (ifas s a))) (if_pairs (ifs s) xs) = Some (i, a)"
      by auto
    then have "(i, a) \<in> set (if_pairs (ifs s) xs)" by (auto simp: find_Some_iff in_set_conv_nth)
    then show ?thesis using ifs_chain_live [OF assms(3)] by (fastforce simp: if_pairs_def)
  qed
  with eq show ?thesis by blast
qed

section \<open>A loopback is made and reclaimed completely\<close>

definition loop_heaps_ok :: "'a if_kernel_scheme \<Rightarrow> bool" where
  "loop_heaps_ok s \<longleftrightarrow> if_heaps_ok s \<and> heap_ok (mem s) (ifs s) \<and> heap_ok (mem s) (ias s) \<and> heap_ok (mem s) (ians s)"

text \<open>A group without interfaces, with the number of its next index.\<close>

definition bare_group :: "net_group \<Rightarrow> addr \<Rightarrow> ptr list \<Rightarrow> bool" where
  "bare_group ng t tab \<longleftrightarrow> ifnet_p ng = None \<and> in_ifaddr ng = [] \<and> ifnet_addrs ng = Some t \<and> int (length tab) = if_indexlim ng \<and>
     0 \<le> if_index_counter ng \<and> if_index_counter ng < if_indexlim ng \<and> if_index_counter ng + 1 < 2 ^ 16"

definition loop_flags :: u32 where
  "loop_flags = IFF_LOOPBACK OR IFF_MULTICAST OR IFF_UP OR IFF_RUNNING"

lemma loop_name_short: "length (if_name (loop_ifnet 0 f q) @ fmt_d 0 (if_unit (loop_ifnet 0 f q))) < 64"
  using length_fmt_d [of 0 0] by (simp add: loop_ifnet_def)

lemma loop_next: "if_next (loop_ifnet u f q) = None"
  by (simp add: loop_ifnet_def)

lemma loop_addrlist: "if_addrlist (loop_ifnet u f q) = []"
  by (simp add: loop_ifnet_def)

text \<open>The whole effect of making the loopback of a group.\<close>

lemma initialize_loop_effect:
  assumes g: "groups s g = Some ng" "addr_tabs s t = Some tab" "bare_group ng t tab" and ok: "loop_heaps_ok s"
  obtains ifp ifa ia m' t' lim' T' x ng' tab' where
    "rtems_bsdnet_initialize_loop_for_container g s = Some (0, s\<lparr>mem := m', groups := (groups s)(g \<mapsto> ng'\<lparr>in_ifaddr := [ia]\<rparr>),
       addr_tabs := T'(t' \<mapsto> tab'), ifs := (ifs s)(ifp \<mapsto> x\<lparr>if_addrlist := [ifa, ia]\<rparr>),
       ifas := (ifas s)(ifa \<mapsto> link_ifaddr ifp x, ia \<mapsto> loop_address ifp),
       ias := (ias s)(ia \<mapsto> \<lparr>ia_lo = True, ia_route = False, ifa_refcnt = 0\<rparr>),
       ians := (ians s)(ia \<mapsto> \<lparr>ia_ifp = Some ifp, ia_multiaddrs = []\<rparr>)\<rparr>)"
    "x = (loop_ifnet 0 loop_flags (ifqmaxlen s))\<lparr>if_index := of_int (if_index_counter ng + 1)\<rparr>"
    "ng' = ng\<lparr>ifnet_p := Some ifp, if_index_counter := if_index_counter ng + 1, ifnet_addrs := Some t', if_indexlim := lim'\<rparr>"
    "T' t' \<noteq> None" "int (length tab') = lim'" "0 < lim'" "\<forall>u < brk (mem s). u \<noteq> t \<longrightarrow> T' u = addr_tabs s u" "t' = t \<or> brk (mem s) \<le> t'"
    "brk (mem s) \<le> ifp" "ifp < ifa" "ifa < ia" "brk m' = Suc ia" "live m' = live (mem s) + 3" "mem_recovers m'" "heap_ok m' T'"
    "if_index_counter ng + 1 < if_indexlim ng \<longrightarrow> t' = t \<and> T' = addr_tabs s"
proof -
  let ?x0 = "loop_ifnet 0 loop_flags (ifqmaxlen s)"
  from ok have heaps: "mem_recovers (mem s)" "heap_ok (mem s) (ifas s)" "heap_ok (mem s) (addr_tabs s)"
    by (simp_all add: loop_heaps_ok_def if_heaps_ok_def)
  obtain ifp m1 where a1: "rtems_bsdnet_malloc False (mem s) = Some (Some ifp, m1)" "brk (mem s) \<le> ifp" "brk m1 = Suc ifp"
    "live m1 = live (mem s) + 1" "mem_recovers m1" using bsdnet_malloc_waits [OF heaps(1)] .
  define s0 where "s0 = s\<lparr>mem := m1, ifs := (ifs s)(ifp \<mapsto> ?x0)\<rparr>"
  have s0: "mem s0 = m1" "ifs s0 = (ifs s)(ifp \<mapsto> ?x0)" "ifas s0 = ifas s" "addr_tabs s0 = addr_tabs s" "groups s0 = groups s"
    by (simp_all add: s0_def)
  have pre: "groups s0 g = Some ng" "ifs_chain (ifs s0) (ifnet_p ng) []" "ifnet_addrs ng = Some t" "addr_tabs s0 t = Some tab"
    "int (length tab) = if_indexlim ng" "0 \<le> if_index_counter ng" "if_index_counter ng < if_indexlim ng"
    "ifs s0 ifp = Some ?x0" "if_next ?x0 = None" "ifp \<notin> set []" "length (if_name ?x0 @ fmt_d 0 (if_unit ?x0)) < 64"
    "if_index_counter ng + 1 < 2 ^ 16" "if_heaps_ok s0"
    using g loop_name_short [of loop_flags "ifqmaxlen s"] heaps a1(2,3,5) unfolding if_heaps_ok_def s0
    by (auto simp: bare_group_def loop_next intro: heap_ok_mono)
  obtain ifa m2 t' lim' T' tab' h x ng' where e:
    "if_attach_to_container ifp (Some g) s0 = Some (s0\<lparr>mem := m2, groups := (groups s0)(g \<mapsto> ng'),
       addr_tabs := T'(t' \<mapsto> tab'[nat (if_index_counter ng) := Some ifa]),
       ifs := h(ifp \<mapsto> x\<lparr>if_addrlist := ifa # if_addrlist ?x0\<rparr>), ifas := (ifas s0)(ifa \<mapsto> link_ifaddr ifp x)\<rparr>)"
    "x = ?x0\<lparr>if_index := of_int (if_index_counter ng + 1)\<rparr>" "uint (if_index x) = if_index_counter ng + 1"
    "ng' = ng\<lparr>ifnet_p := Some (hd ([] @ [ifp])), if_index_counter := if_index_counter ng + 1, ifnet_addrs := Some t', if_indexlim := lim'\<rparr>"
    "ifs_chain h (Some (hd ([] @ [ifp]))) ([] @ [ifp])" "h ifp = Some ?x0" "dom h = dom (ifs s0)" "\<forall>a. a \<notin> set [] \<longrightarrow> h a = ifs s0 a"
    "\<forall>a. map_option (if_next_update (\<lambda>_. None)) (h a) = map_option (if_next_update (\<lambda>_. None)) (ifs s0 a)"
    "T' t' = Some tab'" "int (length tab') = lim'" "if_index_counter ng + 1 < lim'" "if_indexlim ng \<le> lim'" "take (length tab) tab' = tab"
    "\<forall>u < brk (mem s0). u \<noteq> t \<longrightarrow> T' u = addr_tabs s0 u" "t' = t \<or> brk (mem s0) \<le> t'"
    "brk (mem s0) \<le> ifa" "brk m2 = Suc ifa" "live m2 = live (mem s0) + 1" "mem_recovers m2" "heap_ok m2 T'"
    "if_index_counter ng + 1 < if_indexlim ng \<longrightarrow> t' = t \<and> lim' = if_indexlim ng \<and> T' = addr_tabs s0"
    using if_attach_group [OF pre] .
  have h: "h = (ifs s)(ifp \<mapsto> ?x0)" using e(8) by (auto simp: s0)
  obtain ia m3 where a3: "rtems_bsdnet_malloc False m2 = Some (Some ia, m3)" "brk m2 \<le> ia" "brk m3 = Suc ia"
    "live m3 = live m2 + 1" "mem_recovers m3" using bsdnet_malloc_waits [OF e(20)] .
  have "rtems_bsdnet_initialize_loop_for_container g s =
    Some (0, s\<lparr>mem := m3, groups := (groups s)(g \<mapsto> ng'\<lparr>in_ifaddr := [ia]\<rparr>),
       addr_tabs := T'(t' \<mapsto> tab'[nat (if_index_counter ng) := Some ifa]), ifs := (ifs s)(ifp \<mapsto> x\<lparr>if_addrlist := [ifa, ia]\<rparr>),
       ifas := (ifas s)(ifa \<mapsto> link_ifaddr ifp x, ia \<mapsto> loop_address ifp),
       ias := (ias s)(ia \<mapsto> \<lparr>ia_lo = True, ia_route = False, ifa_refcnt = 0\<rparr>),
       ians := (ians s)(ia \<mapsto> \<lparr>ia_ifp = Some ifp, ia_multiaddrs = []\<rparr>)\<rparr>)"
    unfolding rtems_bsdnet_initialize_loop_for_container_def a1(1) loop_flags_def [symmetric] Option.bind_lunit
      prod.case option.case s0_def [symmetric] e(1)
    using a3(1) g(3) e(2,4) by (simp add: s0_def h upd_if_def bare_group_def loop_addrlist comp_def)
  then show thesis
    by (rule that) (use e a1 a3 s0 pre(6) in \<open>auto intro: heap_ok_mono\<close>)
qed

lemma no_trees: "\<forall>p \<in> set ts. p = None \<Longrightarrow> no_routes ts s = Some True \<and> free_trees ts s = s"
  by (induction ts) auto

lemma IFAFREE_unused:
  "ifa_references a s = Some 0 \<Longrightarrow> IFAFREE a s = Some (s\<lparr>mem := free_block (mem s), ifas := (ifas s)(a := None),
     ias := (ias s)(a := None), ians := (ians s)(a := None)\<rparr>)"
  by (simp add: IFAFREE_def)

text \<open>Reclaiming a loopback with its two addresses and no users.\<close>

lemma destroy_loop_effect:
  fixes s :: "'a if_kernel_scheme"
  assumes g: "groups s g = Some ng" "veth_sc ng = None" "pcbs_empty (udp_pcblist ng) s = Some True" "pcbs_empty (tcp_pcblist ng) s = Some True"
    and i: "ifnet_p ng = Some ifp" "ifs s ifp = Some x" "loop_unused x" "if_addrlist x = [ifa, ia]" "ifa \<noteq> ia" "in_ifaddr ng = [ia]"
    and link: "ifas s ifa = Some y" "sa_family (ifa_addr y) = AF_LINK" "link_refcnt y = 0" "ias s ifa = None"
    and inet: "ifas s ia = Some z" "sa_family (ifa_addr z) = AF_INET" "ias s ia = Some e" "ifa_refcnt e = 0"
      "ians s ia = Some w" "ia_multiaddrs w = []"
    and t: "ifnet_addrs ng = Some t" "addr_tabs s t = Some tab" "int (length tab) = if_indexlim ng" "\<forall>p \<in> set (rt_tables ng). p = None"
  shows "rtems_bsdnet_destroy_loop_for_container M g s =
    Some (s\<lparr>mem := free_blocks 3 (mem s), ifas := (ifas s)(ifa := None, ia := None), ias := (ias s)(ifa := None, ia := None),
       ians := (ians s)(ifa := None, ia := None), ifs := (ifs s)(ifp := None), addr_tabs := (addr_tabs s)(t \<mapsto> replicate (length tab) None),
       groups := (groups s)(g \<mapsto> ng\<lparr>in_ifaddr := [], ifnet_p := None\<rparr>)\<rparr>)"
proof -
  have refs: "ifa_references ifa s = Some 0" "ifa_references ia s = Some 0"
    using link inet by (simp_all add: ifa_references_def)
  have unused: "addrs_unused [ifa, ia] s = Some True"
    using link inet refs by (simp add: AF_INET_def AF_LINK_def)
  have multi: "delmulti_all M ia s = Some s" using inet(5,6) by (subst delmulti_all.simps) simp
  define s1 where "s1 = s\<lparr>groups := (groups s)(g \<mapsto> ng\<lparr>in_ifaddr := [], ifnet_p := None\<rparr>)\<rparr>"
  define s2 where "s2 = s1\<lparr>mem := free_block (mem s1), ifas := (ifas s1)(ifa := None), ias := (ias s1)(ifa := None), ians := (ians s1)(ifa := None)\<rparr>"
  define s3 where "s3 = s2\<lparr>mem := free_block (mem s2), ifas := (ifas s2)(ia := None), ias := (ias s2)(ia := None), ians := (ians s2)(ia := None)\<rparr>"
  have f1: "IFAFREE ifa s1 = Some s2" unfolding s2_def using refs(1) by (intro IFAFREE_unused) (simp add: ifa_references_def s1_def)
  have f2: "IFAFREE ia s2 = Some s3" unfolding s3_def using refs(2) i(5) by (intro IFAFREE_unused) (simp add: ifa_references_def s2_def s1_def)
  have ifs1: "ifs s1 ifp = Some x" using i(2) by (simp add: s1_def)
  have free: "free_interface (Some ifp) s1 = Some (s3\<lparr>mem := free_block (mem s3), ifs := (ifs s3)(ifp := None)\<rparr>)" (is "_ = Some ?s4")
    unfolding free_interface_def option.case using ifs1 i(4) f1 f2 by simp
  have lim: "nat (if_indexlim ng) = length tab" using t(3) by simp
  have zero: "zero_addrs (Some t) (if_indexlim ng) ?s4 = Some (?s4\<lparr>addr_tabs := (addr_tabs s)(t \<mapsto> replicate (length tab) None)\<rparr>)"
    using t(2) lim by (simp add: zero_addrs_def s3_def s2_def s1_def)
  have trees: "replicate (length (rt_tables ng)) None = rt_tables ng" using t(4) by (simp add: replicate_eqI [symmetric])
  have ft: "free_trees (rt_tables ng) u = u" for u :: "'a if_kernel_scheme" using no_trees [OF t(4)] by blast
  have "reclaim_loop M g ng s = Some (?s4\<lparr>addr_tabs := (addr_tabs s)(t \<mapsto> replicate (length tab) None),
      groups := (groups s)(g \<mapsto> ng\<lparr>in_ifaddr := [], ifnet_p := None\<rparr>)\<rparr>)"
    unfolding reclaim_loop_def i(6) i(1)
    using multi g(1) free t(1) zero trees by (simp add: s1_def [symmetric] ft) (simp add: s3_def s2_def s1_def ft)
  also have "\<dots> = Some (s\<lparr>mem := free_blocks 3 (mem s), ifas := (ifas s)(ifa := None, ia := None), ias := (ias s)(ifa := None, ia := None),
       ians := (ians s)(ifa := None, ia := None), ifs := (ifs s)(ifp := None), addr_tabs := (addr_tabs s)(t \<mapsto> replicate (length tab) None),
       groups := (groups s)(g \<mapsto> ng\<lparr>in_ifaddr := [], ifnet_p := None\<rparr>)\<rparr>)"
    by (simp add: s3_def s2_def s1_def free_block_def free_blocks_def)
  finally show ?thesis
    unfolding rtems_bsdnet_destroy_loop_for_container_def
    using g i(1-4) unused no_trees [OF t(4), of s] by simp
qed

section \<open>A task finds the loopback of its container\<close>

lemma unit_split_lo0: "unit_split ''lo0'' = Some (''lo'', 0)"
  by code_simp

lemma sa_equal_refl [simp]: "sa_equal a a"
  by (simp add: sa_equal_def list_all_iff)

lemma scan_single:
  assumes "ifs_chain h p [i]" "h i = Some x"
  shows "scan_ifs h f b p = (case f i x b of None \<Rightarrow> None | Some (Inl r) \<Rightarrow> Some (Inl r) | Some (Inr b1) \<Rightarrow> Some (Inr b1))"
  using assms by (subst scan_ifs.simps) (auto simp: scan_ifs.simps [of h f _ None] split: option.split sum.split)

lemma loop_mask_match:
  assumes "drop_bit 24 ip = (0x7f :: u32)"
  shows "mask_match (sin_sockaddr 16 ip) (sin_sockaddr 16 INADDR_LOOPBACK) (sin_sockaddr 8 IN_CLASSA_NET)"
proof -
  have six: "[0..<6] = [0, 1, 2, 3, 4, 5 :: nat]" by code_simp
  have bytes: "ucast (drop_bit 24 INADDR_LOOPBACK) = (0x7f :: u8)" "ucast (drop_bit 16 IN_CLASSA_NET) = (0 :: u8)"
    "ucast (drop_bit 8 IN_CLASSA_NET) = (0 :: u8)" "ucast IN_CLASSA_NET = (0 :: u8)" by code_simp+
  show ?thesis
    using assms by (simp add: mask_match_def sin_sockaddr_def six bytes)
qed

lemma loop_net_bits:
  assumes "ip AND 0xff000000 = (0x7f000000 :: u32)"
  shows "drop_bit 24 ip = 0x7f"
proof -
  have "drop_bit 24 ip = take_bit 8 (drop_bit 24 ip)"
    using take_bit_length_eq [of ip] by (simp add: take_bit_drop_bit)
  also have "\<dots> = drop_bit 24 ip AND drop_bit 24 0xff000000" by (simp add: take_bit_eq_mask mask_numeral)
  also have "\<dots> = drop_bit 24 (ip AND 0xff000000)" by (simp only: drop_bit_and)
  also have "\<dots> = 0x7f" unfolding assms by simp
  finally show ?thesis .
qed

lemma sin_sockaddr_family: "sa_family (sin_sockaddr l ip) = AF_INET"
  by (simp add: sin_sockaddr_def)

text \<open>(C25) A new container has a working loopback: after it was made, a task of the container finds it under
  the name \<open>lo0\<close>, its address under 127.0.0.1, and for every destination in 127/8 the same address and the
  same outgoing interface.\<close>

theorem container_loopback_found:
  assumes "groups s g = Some ng" "addr_tabs s t = Some tab" "bare_group ng t tab" "loop_heaps_ok s" "current_group_addr s = Some g"
    and "ip AND 0xff000000 = (0x7f000000 :: u32)"
  shows "\<exists>s' ifp ia y. rtems_bsdnet_initialize_loop_for_container g s = Some (0, s') \<and> ifs s ifp = None \<and>
    ifunit ''lo0'' s' = Some (Some ifp) \<and> ifa_ifwithaddr (sin_sockaddr 16 INADDR_LOOPBACK) s' = Some (Some ia) \<and>
    ifa_ifwithnet (sin_sockaddr 16 ip) s' = Some (Some ia) \<and> ifas s' ia = Some y \<and> ifa_ifp y = Some ifp \<and>
    ip_output_loopback global_list ip s' = Some (Some ifp)"
proof -
  obtain ifp ifa ia m' t' lim' T' x ng' tab' where i:
    "rtems_bsdnet_initialize_loop_for_container g s = Some (0, s\<lparr>mem := m', groups := (groups s)(g \<mapsto> ng'\<lparr>in_ifaddr := [ia]\<rparr>),
       addr_tabs := T'(t' \<mapsto> tab'), ifs := (ifs s)(ifp \<mapsto> x\<lparr>if_addrlist := [ifa, ia]\<rparr>),
       ifas := (ifas s)(ifa \<mapsto> link_ifaddr ifp x, ia \<mapsto> loop_address ifp),
       ias := (ias s)(ia \<mapsto> \<lparr>ia_lo = True, ia_route = False, ifa_refcnt = 0\<rparr>),
       ians := (ians s)(ia \<mapsto> \<lparr>ia_ifp = Some ifp, ia_multiaddrs = []\<rparr>)\<rparr>)" (is "_ = Some (0, ?s)")
    "x = (loop_ifnet 0 loop_flags (ifqmaxlen s))\<lparr>if_index := of_int (if_index_counter ng + 1)\<rparr>"
    "ng' = ng\<lparr>ifnet_p := Some ifp, if_index_counter := if_index_counter ng + 1, ifnet_addrs := Some t', if_indexlim := lim'\<rparr>"
    "T' t' \<noteq> None" "int (length tab') = lim'" "0 < lim'" "\<forall>u < brk (mem s). u \<noteq> t \<longrightarrow> T' u = addr_tabs s u" "t' = t \<or> brk (mem s) \<le> t'"
    "brk (mem s) \<le> ifp" "ifp < ifa" "ifa < ia" "brk m' = Suc ia" "live m' = live (mem s) + 3" "mem_recovers m'" "heap_ok m' T'"
    "if_index_counter ng + 1 < if_indexlim ng \<longrightarrow> t' = t \<and> T' = addr_tabs s"
    using initialize_loop_effect [OF assms(1-4)] .
  let ?x = "x\<lparr>if_addrlist := [ifa, ia]\<rparr>" and ?ng = "ng'\<lparr>in_ifaddr := [ia]\<rparr>"
  obtain s' where s': "rtems_bsdnet_initialize_loop_for_container g s = Some (0, s')" "ifs s' ifp = Some ?x" "groups s' g = Some ?ng"
    "ifas s' ifa = Some (link_ifaddr ifp x)" "ifas s' ia = Some (loop_address ifp)" "current_group_addr s' = Some g"
    "ians s' ia = Some \<lparr>ia_ifp = Some ifp, ia_multiaddrs = []\<rparr>"
    using i(1,11) assms(5) by (simp add: current_group_addr_def thread_ns_def)
  have x: "if_name ?x = ''lo''" "if_unit ?x = 0" "if_flags ?x = loop_flags" "if_addrlist ?x = [ifa, ia]" "if_next ?x = None"
    using i(2) by (simp_all add: loop_ifnet_def)
  have chain: "ifs_chain (ifs s') (ifnet_p ?ng) [ifp]" using s'(2) x(5) i(3) by simp
  have "ifs_chain (ifs s') (ifnet_p ng') [ifp]" using s'(2) x(5) i(3) by simp
  note scan = scan_single [OF this s'(2)]
  note grp = current_group_of [OF s'(6,3)]
  have name: "ifunit ''lo0'' s' = Some (Some ifp)"
    using grp x(1,2) by (simp add: ifunit_def unit_split_lo0 found_def scan)
  have pairs: "if_pairs (ifs s') [ifp] = [(ifp, ifa), (ifp, ia)]" using s'(2) x(4) by (simp add: if_pairs_def)
  have live: "addrs_live [ifp] s'" using s'(4,5) by (simp add: addrs_live_def pairs)
  have "ifa_ifwithaddr (sin_sockaddr 16 INADDR_LOOPBACK) s' = Some (Some ia)"
    unfolding ifa_ifwithaddr_find [OF s'(6,3) chain live] pairs using s'(4,5)
    by (simp add: match_addr_def loop_address_def sin_sockaddr_family AF_LINK_def AF_INET_def)
  moreover have flags: "loop_flags AND IFF_POINTOPOINT = 0" by code_simp
  have "ifa_ifwithnet (sin_sockaddr 16 ip) s' = Some (Some ia)"
    using grp s'(4,5) x(3,4) flags loop_mask_match [OF loop_net_bits [OF assms(6)]]
    by (simp add: ifa_ifwithnet_def scan loop_address_def sin_sockaddr_family AF_LINK_def AF_INET_def)
  moreover have "loop_flags AND IFF_LOOPBACK \<noteq> 0" by code_simp
  then have "ip_output_loopback global_list ip s' = Some (Some ifp)"
    using assms(6) grp s'(2,7) x(3) by (simp add: ip_output_loopback_def rtems_net_container_get_in_ifaddr_def)
  moreover have "ifs s ifp = None" using assms(4) i(9) by (auto simp: loop_heaps_ok_def intro: heap_ok_fresh_from)
  ultimately show ?thesis using s'(1,5) name
    by (intro exI [of _ s'] exI [of _ ifp] exI [of _ ia] exI [of _ "loop_address ifp"]) (simp add: loop_address_def)
qed

section \<open>The life of a group\<close>

definition fresh_group :: "addr \<Rightarrow> net_group" where
  "fresh_group b =
     \<lparr>ifnet_p = None, ifnet_addrs = Some (b + 7), if_index_counter = 0, if_indexlim = 8, in_ifaddr = [], rt_tables = replicate 32 None,
      udp_pcblist = Some (b + 1), udp_pcbinfo = Some \<lparr>pcb_addr = b + 2, hashbase = Some (b + 3), hashmask = of_int (hash_size 1 UDBHASHSIZE - 1)\<rparr>,
      tcp_pcblist = Some (b + 4), tcp_pcbinfo = Some \<lparr>pcb_addr = b + 5, hashbase = Some (b + 6), hashmask = of_int (hash_size 1 TCBHASHSIZE - 1)\<rparr>,
      veth_sc = None\<rparr>"

lemma net_group_new_effect:
  assumes "net_group_new s = (Some g, s1)"
  shows "g = brk (mem s) \<and> s1 = s\<lparr>mem := (mem s)\<lparr>brk := g + 8, live := live (mem s) + 8\<rparr>,
      addr_tabs := (addr_tabs s)(g + 7 \<mapsto> replicate 8 None), pcb_lists := (pcb_lists s)(g + 1 \<mapsto> [], g + 4 \<mapsto> []),
      groups := (groups s)(g \<mapsto> fresh_group g)\<rparr>"
  using assms unfolding net_group_new_def net_hashinit_local_def fresh_group_def
  by (auto simp: malloc_def eval_nat_numeral split: if_splits)

lemma fresh_group_sel [simp]:
  "ifnet_p (fresh_group b) = None" "in_ifaddr (fresh_group b) = []" "ifnet_addrs (fresh_group b) = Some (b + 7)"
  "if_index_counter (fresh_group b) = 0" "if_indexlim (fresh_group b) = 8" "veth_sc (fresh_group b) = None"
  "udp_pcblist (fresh_group b) = Some (b + 1)" "tcp_pcblist (fresh_group b) = Some (b + 4)" "rt_tables (fresh_group b) = replicate 32 None"
  "pcbinfo_blocks (udp_pcbinfo (fresh_group b)) = 2" "pcbinfo_blocks (tcp_pcbinfo (fresh_group b)) = 2"
  by (simp_all add: fresh_group_def pcbinfo_blocks_def)

lemma loop_unused_loop: "loop_unused ((loop_ifnet u f q)\<lparr>if_index := i, if_addrlist := l\<rparr>)"
  by (simp add: loop_unused_def loop_ifnet_def)

lemma fun_upd_back: "h a = None \<Longrightarrow> (h(a \<mapsto> x))(a := None) = h"
  by (simp add: fun_upd_idem)

lemma net_group_new_heaps:
  assumes "net_group_new s = (Some g, s1)" "loop_heaps_ok s"
  shows "loop_heaps_ok s1"
proof -
  from net_group_new_effect [OF assms(1)] have s1: "brk (mem s1) = brk (mem s) + 8" "oom (mem s1) = oom (mem s)"
    "addr_tabs s1 = (addr_tabs s)(brk (mem s) + 7 \<mapsto> replicate 8 None)"
    "ifs s1 = ifs s" "ifas s1 = ifas s" "ias s1 = ias s" "ians s1 = ians s" by auto
  have le: "brk (mem s) \<le> brk (mem s1)" unfolding s1(1) by (rule le_add1)
  have old: "heap_ok (mem s) (ifs s)" "heap_ok (mem s) (ifas s)" "heap_ok (mem s) (ias s)" "heap_ok (mem s) (ians s)" "heap_ok (mem s) (addr_tabs s)"
    "mem_recovers (mem s)" using assms(2) by (simp_all add: loop_heaps_ok_def if_heaps_ok_def)
  have "heap_ok (mem s1) (addr_tabs s1)" using heap_ok_extend [OF old(5), of "brk (mem s) + 7" "mem s1"] by (simp add: s1)
  moreover have "mem_recovers (mem s1)" using old(6) by (simp add: mem_recovers_def s1(2))
  ultimately show ?thesis
    using heap_ok_mono [OF old(1) le] heap_ok_mono [OF old(2) le] heap_ok_mono [OF old(3) le] heap_ok_mono [OF old(4) le] s1(4-7)
    by (simp add: loop_heaps_ok_def if_heaps_ok_def)
qed

text \<open>(C7) The group of a network container gives back everything: when the group was allocated, its
  loopback interface is made without error, and freeing the group again reclaims the interface, its
  link-level and its IPv4 address, the index table, the socket tables and the group itself. Every heap
  is as before and the number of allocated blocks is the old one.\<close>

theorem net_group_lifecycle:
  assumes new: "net_group_new s = (Some g, s1)" and ok: "loop_heaps_ok s" "heap_ok (mem s) (groups s)" "heap_ok (mem s) (pcb_lists s)"
    and B: "destroy_loop B = rtems_bsdnet_destroy_loop_for_container M"
  shows "\<exists>s2 s3. rtems_bsdnet_initialize_loop_for_container g s1 = Some (0, s2) \<and> live (mem s2) = live (mem s) + 11 \<and>
    net_group_free B (Some g) s2 = Some s3 \<and> live (mem s3) = live (mem s) \<and> groups s3 = groups s \<and>
    addr_tabs s3 = addr_tabs s \<and> pcb_lists s3 = pcb_lists s \<and> ifs s3 = ifs s \<and> ifas s3 = ifas s \<and> ias s3 = ias s \<and> ians s3 = ians s"
proof -
  from net_group_new_effect [OF new] have g: "g = brk (mem s)" and s1: "s1 = s\<lparr>mem := (mem s)\<lparr>brk := g + 8, live := live (mem s) + 8\<rparr>,
      addr_tabs := (addr_tabs s)(g + 7 \<mapsto> replicate 8 None), pcb_lists := (pcb_lists s)(g + 1 \<mapsto> [], g + 4 \<mapsto> []),
      groups := (groups s)(g \<mapsto> fresh_group g)\<rparr>" by auto
  have sel: "groups s1 g = Some (fresh_group g)" "addr_tabs s1 (g + 7) = Some (replicate 8 None)" "bare_group (fresh_group g) (g + 7) (replicate 8 None)"
    "brk (mem s1) = g + 8" "live (mem s1) = live (mem s) + 8" "ifs s1 = ifs s" "ifas s1 = ifas s" "ias s1 = ias s" "ians s1 = ians s"
    by (simp_all add: s1 bare_group_def)
  have old: "heap_ok (mem s) (ifs s)" "heap_ok (mem s) (ifas s)" "heap_ok (mem s) (ias s)" "heap_ok (mem s) (ians s)" "heap_ok (mem s) (addr_tabs s)"
    using ok(1) by (simp_all add: loop_heaps_ok_def if_heaps_ok_def)
  obtain ifp ifa ia m' t' lim' T' x ng' tab' where i:
    "rtems_bsdnet_initialize_loop_for_container g s1 = Some (0, s1\<lparr>mem := m', groups := (groups s1)(g \<mapsto> ng'\<lparr>in_ifaddr := [ia]\<rparr>),
       addr_tabs := T'(t' \<mapsto> tab'), ifs := (ifs s1)(ifp \<mapsto> x\<lparr>if_addrlist := [ifa, ia]\<rparr>),
       ifas := (ifas s1)(ifa \<mapsto> link_ifaddr ifp x, ia \<mapsto> loop_address ifp),
       ias := (ias s1)(ia \<mapsto> \<lparr>ia_lo = True, ia_route = False, ifa_refcnt = 0\<rparr>),
       ians := (ians s1)(ia \<mapsto> \<lparr>ia_ifp = Some ifp, ia_multiaddrs = []\<rparr>)\<rparr>)" (is "_ = Some (0, ?s2)")
    "x = (loop_ifnet 0 loop_flags (ifqmaxlen s1))\<lparr>if_index := of_int (if_index_counter (fresh_group g) + 1)\<rparr>"
    "ng' = (fresh_group g)\<lparr>ifnet_p := Some ifp, if_index_counter := if_index_counter (fresh_group g) + 1, ifnet_addrs := Some t', if_indexlim := lim'\<rparr>"
    "T' t' \<noteq> None" "int (length tab') = lim'" "0 < lim'" "\<forall>u < brk (mem s1). u \<noteq> g + 7 \<longrightarrow> T' u = addr_tabs s1 u" "t' = g + 7 \<or> brk (mem s1) \<le> t'"
    "brk (mem s1) \<le> ifp" "ifp < ifa" "ifa < ia" "brk m' = Suc ia" "live m' = live (mem s1) + 3" "mem_recovers m'" "heap_ok m' T'"
    "if_index_counter (fresh_group g) + 1 < if_indexlim (fresh_group g) \<longrightarrow> t' = g + 7 \<and> T' = addr_tabs s1"
    using initialize_loop_effect [OF sel(1-3) net_group_new_heaps [OF new ok(1)]] .
  have t: "t' = g + 7" "T' = addr_tabs s1" using i(16) by simp_all
  have fresh: "ifs s ifp = None" "ifas s ifa = None" "ifas s ia = None" "ias s ia = None" "ias s ifa = None" "ians s ifa = None" "ians s ia = None"
    using old(1-4) i(9-11) sel(4) g by (auto intro!: heap_ok_fresh_from)
  let ?ng = "ng'\<lparr>in_ifaddr := [ia]\<rparr>"
  let ?s3 = "?s2\<lparr>mem := free_blocks 3 (mem ?s2), ifas := (ifas ?s2)(ifa := None, ia := None), ias := (ias ?s2)(ifa := None, ia := None),
       ians := (ians ?s2)(ifa := None, ia := None), ifs := (ifs ?s2)(ifp := None),
       addr_tabs := (addr_tabs ?s2)(t' \<mapsto> replicate (length tab') None),
       groups := (groups ?s2)(g \<mapsto> ?ng\<lparr>in_ifaddr := [], ifnet_p := None\<rparr>)\<rparr>"
  have d: "rtems_bsdnet_destroy_loop_for_container M g ?s2 = Some ?s3"
    by (rule destroy_loop_effect [where y = "link_ifaddr ifp x" and z = "loop_address ifp"])
      (use i(2,3,5,10,11) fresh sel in \<open>auto simp: pcbs_empty_def s1 loop_unused_loop loop_address_def sin_sockaddr_def\<close>)
  obtain s4 where s4: "net_group_free B (Some g) ?s2 = Some s4" "s4 = ?s3\<lparr>mem := free_blocks 8 (mem ?s3), groups := (groups ?s3)(g := None),
      addr_tabs := (addr_tabs ?s3)(t' := None), pcb_lists := (pcb_lists ?s3)(g + 4 := None, g + 1 := None)\<rparr>"
    using d i(3) by (simp add: net_group_free_def B heap_clear_def)
  have pcb: "pcb_lists s (g + 1) = None" "pcb_lists s (g + 4) = None" using ok(3) g by (auto intro!: heap_ok_fresh_from)
  have "groups s g = None" using ok(2) g by (auto intro!: heap_ok_fresh_from)
  moreover have "addr_tabs s (g + 7) = None" using old(5) g by (auto intro!: heap_ok_fresh_from)
  moreover have "pcb_lists s4 = pcb_lists s" using pcb by (auto simp: s4(2) s1 fun_eq_iff)
  ultimately have "groups s4 = groups s \<and> addr_tabs s4 = addr_tabs s \<and> pcb_lists s4 = pcb_lists s"
    by (simp add: s4(2) t s1 fun_upd_idem)
  moreover have "ifs s4 = ifs s" "ians s4 = ians s" "ias s4 = ias s" "ifas s4 = ifas s"
    using fresh i(10,11) by (simp_all add: s4(2) sel fun_upd_idem fun_upd_twist)
  moreover have "live (mem s4) = live (mem s)" using i(13) sel(5) by (simp add: s4(2))
  moreover have "live (mem ?s2) = live (mem s) + 11" using i(13) sel(5) by simp
  ultimately show ?thesis using i(1) s4(1) by blast
qed

section \<open>Sockets and packets meet in the same container\<close>

text \<open>(C30) Which tables a packet meets: a packet from a virtual interface of a container is compared with
  the addresses of that container, and a TCP segment is looked up in the table in which the tasks of that
  container enter their sockets, whichever task runs the protocol code. A UDP datagram is looked up in
  the table of the running task instead: when that task belongs to another container, not in the one in
  which the tasks of the container enter their sockets.\<close>

theorem container_demux:
  assumes "softcs s a = Some sc" "sc_container sc = Some c" "nets s c = Some nc" "net_grp nc = Some g" "groups s g = Some ng"
    and "tcp_pcbinfo ng = Some ti" "udp_pcbinfo ng = Some ui" "in_ifaddr ng \<noteq> []" "thread_ns netContainer s t = Some c"
    and "current_group s = Some (Some ng')" "udp_pcbinfo ng' = Some ui'" "ui' \<noteq> ui"
  shows "ip_input_addresses gl (Some a) s = Some (in_ifaddr ng) \<and>
    tcp_input_pcbinfo tcb (Some a) s = Some ti \<and> tcp_attach_pcbinfo tcb None (s\<lparr>executing := Some t\<rparr>) = Some ti \<and>
    udp_attach_pcbinfo (s\<lparr>executing := Some t\<rparr>) = Some ui \<and> udp_input_pcbinfo s = Some (Some ui') \<and>
    udp_input_pcbinfo s \<noteq> Some (udp_attach_pcbinfo (s\<lparr>executing := Some t\<rparr>))"
proof -
  have "veth_group (Some a) s = Some (Some ng)" using assms(1-5) by (simp add: veth_group_def)
  moreover have "current_group (s\<lparr>executing := Some t\<rparr>) = Some (Some ng)"
    using assms(3-5,9) by (simp add: current_group_def thread_ns_def)
  ultimately show ?thesis
    using assms by (simp add: ip_input_addresses_def tcp_input_pcbinfo_def tcp_attach_pcbinfo_def udp_attach_pcbinfo_def
        udp_input_pcbinfo_def rtems_net_container_get_udp_pcbinfo_def)
qed

section \<open>Witnesses\<close>

text \<open>The executing task 3 is in the network container 0, whose group 80 has no interface yet and an index
  table at 91. The interfaces 60 and 61 are not attached; 60 has the address 70.\<close>

definition demo_group :: net_group where
  "demo_group = demo_ng\<lparr>ifnet_p := None, in_ifaddr := [], if_index_counter := 0\<rparr>"

definition demo_ifnet :: "string \<Rightarrow> addr list \<Rightarrow> ifnet" where
  "demo_ifnet nm l = (loop_ifnet 3 0 50)\<lparr>if_name := nm, if_addrlist := l\<rparr>"

definition demo_if :: if_kernel where
  "demo_if = veth_kernel.extend
     (net_kernel.extend (demo_net\<lparr>mem := \<lparr>brk = 100, oom = even, live = 0\<rparr>, groups := [80 \<mapsto> demo_group], ias := Map.empty\<rparr>)
        (veth_kernel.fields Map.empty Map.empty 0))
     (if_kernel.fields [60 \<mapsto> demo_ifnet ''eth'' [70], 61 \<mapsto> demo_ifnet ''veth'' []] [70 \<mapsto> loop_address 60] Map.empty Map.empty
        Map.empty 0 8 50)"

lemma demo_if_sel [simp]:
  "mem demo_if = \<lparr>brk = 100, oom = even, live = 0\<rparr>" "groups demo_if = [80 \<mapsto> demo_group]" "ias demo_if = Map.empty"
  "ifs demo_if = [60 \<mapsto> demo_ifnet ''eth'' [70], 61 \<mapsto> demo_ifnet ''veth'' []]" "ifas demo_if = [70 \<mapsto> loop_address 60]"
  "ians demo_if = Map.empty" "addr_tabs demo_if = [91 \<mapsto> replicate 8 None]" "pcb_lists demo_if = Map.empty"
  "executing demo_if = executing demo_net" "threads demo_if = threads demo_net" "nets demo_if = nets demo_net"
  by (simp_all add: demo_if_def demo_net_def io_kernel.defs net_kernel.defs veth_kernel.defs if_kernel.defs)

lemma demo_group_sel [simp]:
  "ifnet_p demo_group = None" "in_ifaddr demo_group = []" "ifnet_addrs demo_group = Some 91" "if_index_counter demo_group = 0"
  "if_indexlim demo_group = 8"
  by (simp_all add: demo_group_def demo_ng_def)

lemma demo_if_recovers: "mem_recovers \<lparr>brk = b, oom = even, live = l\<rparr>"
  unfolding mem_recovers_def
proof
  fix n
  show "\<exists>k \<ge> n. \<not> oom \<lparr>brk = b, oom = even, live = l\<rparr> k" by (rule exI [of _ "Suc (2 * n)"]) simp
qed

lemma demo_if_ok: "loop_heaps_ok demo_if" "if_heaps_ok demo_if" "current_group_addr demo_if = Some 80"
  using demo_if_recovers
  by (auto simp: loop_heaps_ok_def if_heaps_ok_def heap_ok_def current_group_addr_def thread_ns_def demo_net_thread_def split: if_splits)

lemma demo_if_bare: "bare_group demo_group 91 (replicate 8 None)"
  by (simp add: bare_group_def)

theorem container_loopback_found_witness:
  "\<exists>s' ifp ia. rtems_bsdnet_initialize_loop_for_container 80 demo_if = Some (0, s') \<and> ifunit ''lo0'' s' = Some (Some ifp) \<and>
     ifa_ifwithnet (sin_sockaddr 16 0x7f010203) s' = Some (Some ia)"
proof -
  have "0x7f010203 AND 0xff000000 = (0x7f000000 :: u32)" by code_simp
  from container_loopback_found [OF _ _ demo_if_bare demo_if_ok(1,3) this, where global_list = "[]"] show ?thesis by auto
qed

theorem if_attach_index_lookup_witness:
  "\<exists>s' x ifa y. attach_all 80 [60, 61] demo_if = Some s' \<and> ifs s' 61 = Some x \<and>
     ifa_ifwithnet (sdl_sockaddr 54 (if_index x) 0 []) s' = Some (Some ifa) \<and> ifas s' ifa = Some y \<and> ifa_ifp y = Some 61"
proof -
  have t: "if_table_ok 80 [] demo_if" unfolding if_table_ok_def by (intro exI [of _ demo_group] exI [of _ 91] exI) auto
  have len: "length (fmt_d 0 3) \<le> 21" by (rule length_fmt_d) simp
  then have a: "\<forall>b \<in> set [60, 61]. attachable b demo_if" by (simp add: attachable_def demo_ifnet_def loop_ifnet_def)
  from if_attach_index_lookup [OF t demo_if_ok(2) _ _ a _ demo_if_ok(3), of 54 0 "[]"] show ?thesis
    by (auto simp: index_counter_def)
qed

theorem ifa_ifwithaddr_local_witness:
  "ifa_ifwithaddr (sin_sockaddr 16 INADDR_LOOPBACK) (demo_if\<lparr>groups := [80 \<mapsto> demo_group\<lparr>ifnet_p := Some 60\<rparr>]\<rparr>) = Some (Some 70)"
proof -
  let ?s = "demo_if\<lparr>groups := [80 \<mapsto> demo_group\<lparr>ifnet_p := Some 60\<rparr>]\<rparr>"
  have c: "current_group_addr ?s = Some 80" using demo_if_ok(3) by (simp add: current_group_addr_def thread_ns_def)
  have l: "if_next (demo_ifnet n as) = None" "if_addrlist (demo_ifnet n as) = as" for n as by (simp_all add: demo_ifnet_def loop_ifnet_def)
  have ch: "ifs_chain (ifs ?s) (ifnet_p (demo_group\<lparr>ifnet_p := Some 60\<rparr>)) [60]" by (simp add: l)
  have p: "if_pairs (ifs ?s) [60] = [(60, 70)]" by (simp add: if_pairs_def l)
  have live: "addrs_live [60] ?s" unfolding addrs_live_def p by simp
  have g: "groups ?s 80 = Some (demo_group\<lparr>ifnet_p := Some 60\<rparr>)" by simp
  from ifa_ifwithaddr_local [OF c g ch live, of "sin_sockaddr 16 INADDR_LOOPBACK", THEN conjunct1] show ?thesis
    unfolding p by (simp add: match_addr_def loop_address_def)
qed

definition demo_loop_bsd :: "'a if_kernel_scheme mcast_env \<Rightarrow> 'a if_kernel_scheme bsdnet" where
  "demo_loop_bsd M = demo_bsd\<lparr>destroy_loop := rtems_bsdnet_destroy_loop_for_container M\<rparr>"

definition demo_mcast :: "'a if_kernel_scheme mcast_env" where
  "demo_mcast = \<lparr>igmp_sendpkt = (\<lambda>_ s. s), driver_ioctl = (\<lambda>_ _ s. s)\<rparr>"

theorem net_group_lifecycle_witness:
  "\<exists>s s1 s2 s3. net_group_new (s :: if_kernel) = (Some 100, s1) \<and> rtems_bsdnet_initialize_loop_for_container 100 s1 = Some (0, s2) \<and>
     net_group_free (demo_loop_bsd demo_mcast) (Some 100) s2 = Some s3 \<and> live (mem s2) = 11 \<and> live (mem s3) = 0"
proof -
  let ?s = "demo_if\<lparr>mem := \<lparr>brk = 100, oom = (\<lambda>n. n = 110), live = 0\<rparr>\<rparr>"
  obtain s1 where n: "net_group_new ?s = (Some 100, s1)" by (simp del: One_nat_def add: net_group_new_def net_hashinit_local_def malloc_def)
  have r: "mem_recovers \<lparr>brk = 100, oom = (\<lambda>n. n = 110), live = 0\<rparr>"
    unfolding mem_recovers_def
  proof
    fix n
    show "\<exists>k \<ge> n. \<not> oom \<lparr>brk = 100, oom = (\<lambda>n. n = 110), live = 0\<rparr> k" by (rule exI [of _ "n + 111"]) simp
  qed
  have h: "loop_heaps_ok ?s" "heap_ok (mem ?s) (groups ?s)" "heap_ok (mem ?s) (pcb_lists ?s)"
    using r by (auto simp: loop_heaps_ok_def if_heaps_ok_def heap_ok_def split: if_splits)
  have "destroy_loop (demo_loop_bsd demo_mcast) = rtems_bsdnet_destroy_loop_for_container demo_mcast"
    by (simp add: demo_loop_bsd_def)
  from net_group_lifecycle [OF n h this] n show ?thesis by auto
qed

text \<open>Container 1 with task 4 and the virtual interface 50, while task 3 of container 0 runs.\<close>

definition demo_sc :: veth_softc where
  "demo_sc = (veth_softc_new 1 [] \<lparr>mq_head = [], mq_count = 0, mq_max_size = 64\<rparr>)\<lparr>sc_container := Some 1\<rparr>"

definition demo_pcb :: "addr \<Rightarrow> net_group" where
  "demo_pcb i = demo_ng\<lparr>tcp_pcbinfo := Some \<lparr>pcb_addr = i, hashbase = None, hashmask = 0\<rparr>,
     udp_pcbinfo := Some \<lparr>pcb_addr = i + 1, hashbase = None, hashmask = 0\<rparr>\<rparr>"

theorem container_demux_witness:
  "\<exists>s :: if_kernel. tcp_input_pcbinfo \<lparr>pcb_addr = 0, hashbase = None, hashmask = 0\<rparr> (Some 50) s = Some \<lparr>pcb_addr = 20, hashbase = None, hashmask = 0\<rparr> \<and>
     udp_input_pcbinfo s = Some (Some \<lparr>pcb_addr = 11, hashbase = None, hashmask = 0\<rparr>)"
proof -
  let ?s = "demo_if\<lparr>groups := [80 \<mapsto> demo_pcb 10, 81 \<mapsto> demo_pcb 20], softcs := [50 \<mapsto> demo_sc]\<rparr>"
  have ns: "thread_ns netContainer ?s 4 = Some 1" by (simp add: thread_ns_def demo_net_thread_def)
  have cur: "current_group ?s = Some (Some (demo_pcb 10))" by (simp add: current_group_def thread_ns_def demo_net_thread_def)
  have p: "tcp_pcbinfo (demo_pcb i) = Some \<lparr>pcb_addr = i, hashbase = None, hashmask = 0\<rparr>"
    "udp_pcbinfo (demo_pcb i) = Some \<lparr>pcb_addr = i + 1, hashbase = None, hashmask = 0\<rparr>" "in_ifaddr (demo_pcb i) \<noteq> []" for i
    by (simp_all add: demo_pcb_def demo_ng_def)
  have sc: "softcs ?s 50 = Some demo_sc" "sc_container demo_sc = Some 1"
    "nets ?s 1 = Some \<lparr>net_rc = 2, net_grp = Some 81, net_ID = 2\<rparr>" "groups ?s 81 = Some (demo_pcb 20)"
    by (simp_all add: demo_sc_def)
  from container_demux [OF sc(1-3) _ sc(4) p(1) p(2) p(3) ns cur p(2), where gl = "[]" and tcb = "\<lparr>pcb_addr = 0, hashbase = None, hashmask = 0\<rparr>"] show ?thesis by (intro exI [of _ ?s]) simp
qed

end
