(* ===== verification/Spec2Isabelle.thy ===== *)
theory Spec2Isabelle
  imports UnifiedLifecycle ContainerLog VethSafety ContainerFsSpec Monitor NetInterfaceSpec
begin

text \<open>
  A verification of the container extension of RTContainer, an RTEMS kernel with namespaces and
  control groups. Paths below are relative to \<open>src/cpukit\<close>.

  \<^bold>\<open>The program.\<close> A thread control block has a pointer to a \<open>Container\<close> block (\<open>score/container.h\<close>)
  with one pointer per namespace. Five files under \<open>score/src\<close> implement the namespaces:
  \<open>pidContainer.c\<close> (virtual process ids), \<open>utsContainer.c\<close> (host names), \<open>mntContainer.c\<close> (mount
  tables), \<open>netContainer.c\<close> (interfaces, routes and protocol tables) and \<open>ipcContainer.c\<close> (semaphores and
  message queues with their own object tables). \<open>corecgroup.c\<close> and the directives \<open>rtems/src/cg*.c\<close> limit
  processor time and memory of a group of threads; they hook into the dispatcher, the clock tick and
  the heap. \<open>io_cgroup.c\<close> shares block device bandwidth. \<open>container.c\<close> puts all of them together: a
  unified container owns one of each, and a thread enters and leaves it as a whole. \<open>containerlog.c\<close> is
  the log that all of them write to. \<open>libnetworking/net/if_veth.c\<close> connects network containers by pairs of
  virtual Ethernet interfaces. \<open>containerfs.c\<close> makes the operations available as files: a write is a
  command (create, delete, set, list). \<open>monitor.c\<close> samples processor, memory and interface figures.

  \<^bold>\<open>The theories.\<close>
  \<^item> \<open>Prelude\<close>: status codes, pointers as address options, the allocator (call \<open>n\<close> fails when \<open>oom n\<close>, and
    \<open>live\<close> counts the blocks in use), C strings and arrays, heaps of structs and what they own.
  \<^item> \<open>Kernel\<close>: \<open>score/container.h\<close>, the fields of a thread that containers use, build options,
    \<open>_Thread_Iterate\<close>, the registry lists. Each component extends the record \<open>kernel\<close> by its own state.
  \<^item> \<open>Namespace\<close>: the locales \<open>ns_registry\<close>, \<open>ns_registry_query\<close> (what the list of containers promises) and
    \<open>ns_refcount\<close> (what a move promises), interpreted by every counted namespace.
  \<^item> \<open>PidContainer\<close>: all of \<open>pidContainer.c\<close>. Well-formedness of the id table, ownership of list nodes, safety of
    every reachable state, effect and refusal of a move, migration on deletion.
  \<^item> \<open>UtsContainer\<close>: \<open>utsContainer.c\<close> and \<open>libnetworking/rtems/sghostname.c\<close>. Reference counts, host name
    round trip, and the tasks that a deletion leaves behind.
  \<^item> \<open>Objects\<close>, \<open>IpcContainer\<close>: object identifiers and information blocks, \<open>ipcContainer.c\<close> and the parts of
    \<open>semcreate.c\<close>, \<open>semdelete.c\<close>, \<open>msgqconstruct.c\<close> and \<open>msgqdelete.c\<close> that use them. Isolation between
    containers, creation and deletion.
  \<^item> \<open>MntContainer\<close>: \<open>mntContainer.c\<close>, the start of path evaluation and the mount table functions. The lookup
    finds the longest mount point; inheritance copies the live mounts; deletion gives back what it owns.
  \<^item> \<open>CoreCgroup\<close>: \<open>corecgroup.c\<close>, the six directives, the tick watchdogs, and the accounting in
    \<open>threaddispatch.c\<close>, \<open>heapallocate.c\<close> and \<open>heapfree.c\<close>. Termination of the tick, refill at the end of a
    period, bounds of the quotas, the memory invariant over every sequence of heap operations.
  \<^item> \<open>IoCgroup\<close>: \<open>io_cgroup.c\<close> at its integer widths. The weight invariant over every sequence of
    operations, bounded shares, request handling.
  \<^item> \<open>NetContainer\<close>: \<open>netContainer.c\<close> without Carousel. Atomicity of the group constructor, reference
    counts, deletion.
  \<^item> \<open>UnifiedContainer\<close>, \<open>UnifiedLifecycle\<close>: \<open>container.c\<close> and the thread creation hooks of \<open>taskconstruct.c\<close> and
    \<open>threadcreateidle.c\<close>. The locale \<open>ns_section\<close> states what one section of an entry and a leave
    needs of a namespace; its interpretations give the round trip of the whole. The second theory has
    the behaviour over time (a pause against the quota period) and a full PID namespace.
  \<^item> \<open>Text\<close>: printing of decimal and hexadecimal numbers, \<open>snprintf\<close>, \<open>sscanf\<close> of one number, and that scanning
    gives back what was printed; used by the next four.
  \<^item> \<open>Veth\<close>, \<open>VethSafety\<close>: \<open>if_veth.c\<close>. The locales \<open>bounded_fifo\<close> and \<open>reliable_fifo\<close> state what the packet queue
    promises. The second theory has the invariant of packets, queues and peers, its preservation by every
    step of the driver and the stack, memory safety of every reachable state, conservation of packets
    between the ends of a pair, and that the receiver task ends.
  \<^item> \<open>NetInterface\<close>, \<open>NetInterfaceSpec\<close>: what \<open>libnetworking/net/if.c\<close>, \<open>if_loop.c\<close> and the IP, TCP and UDP input and
    attach functions do per container. Every interface is found under its index, address lookups stay in
    the container, a new container has a working loopback, freeing a group gives back everything, and
    which socket table a packet meets.
  \<^item> \<open>ContainerFs\<close>, \<open>ContainerFsSpec\<close>: the write handlers and registration of \<open>containerfs.c\<close>. The locale
    \<open>id_tracker\<close> states what the tables of identifiers promise. Commands are terminated strings, deleting by
    a printed identifier deletes that container, root containers are refused, listing changes nothing,
    and a group created through a file keeps a dangling configuration.
  \<^item> \<open>Monitor\<close>: \<open>monitor.c\<close>. Exact uptime, complete samples, a status line that fits.
  \<^item> \<open>ContainerLog\<close>: \<open>containerlog.c\<close>. The ring buffer refines a bounded history, formatting fits its buffer.

  \<^bold>\<open>Conventions.\<close> An operation returns an option where the source dereferences pointers: \<open>None\<close> is
  undefined behaviour, so \<open>Some\<close> in a conclusion is a claim of memory safety. Error codes are values.
  Loops are structural recursion over lists, except for the hash size and the closing loop of a packet queue
  (measures) and the loops that need not end and are a \<open>partial_function\<close>: the watchdog loop of the clock tick, the
  receiver task of a virtual interface, the walks along the interfaces, the allocator of the stack that waits
  for memory, and the removal of multicast memberships. There \<open>None\<close> also
  stands for not returning, and that they return is part of the theorems about them. There is no fuel. Unsigned integers are words of their width;
  signed counters are integers.

  \<^bold>\<open>Parameters.\<close> Code outside the modelled files is an argument: the record \<open>bsdnet\<close> (entry points of the BSD
  stack), the drain of the queue of deferred location releases, the memory shrink callback of a control group,
  the core semaphore operations, \<open>MAXHOSTNAMELEN\<close>, the environment record of the log (clock, files, locks), the record \<open>veth_env\<close> (the stack above the
  driver and the task directives), the record \<open>mcast_env\<close> (multicast reports), the creation of a file system node, and the heap and processor figures of the
  monitor. The theorems that need something of them name it as a hypothesis (\<open>bsd_quiet\<close>, \<open>shrink_ok\<close>,
  \<open>veth_polite\<close>), with a witness.

  \<^bold>\<open>Not modelled.\<close> Locks and interrupt levels (operations are atomic); the scheduler; the block management of
  the heap; the red-black tree of the watchdogs (a sorted list here); the evaluation of a path after its start;
  Carousel (its sources are not in the repository); the protocols, routing and address resolution of the BSD
  stack, which the containers leave as they are; the rest of RTEMS; output-only functions.
\<close>

end
